(* ===== verification/Prelude.thy ===== *)
theory Prelude
  imports Complex_Main "HOL-Library.AList" "HOL-Library.Word" "HOL-Library.List_Lexorder"
    "HOL-Library.Char_ord"
begin

text \<open>
  What the components share.

  Strings: a JavaScript string is represented by its UTF-8 encoding, a list of bytes
  (\<open>string\<close>); on ASCII text that is the list of its code units, so lengths and slices
  of ASCII text are the source's.
  Instants: a \<open>Date\<close> is its time value, an \<open>int\<close> number of milliseconds; the
  clock is an argument \<open>now\<close> of the operations that read it.
  Maps: a JavaScript \<open>Map\<close> is an association list with distinct keys in insertion
  order (\<open>AList.update\<close> keeps the position of a key that is present and appends a
  new one, as \<open>Map.prototype.set\<close> does).
  Errors: an operation that may throw returns \<open>error + value\<close>, \<open>Inl\<close> for the throw.
\<close>

section \<open>Fact collections\<close>

named_theorems store_simps "lookup laws of the in-memory stores"
named_theorems guard_simps "unfolding rules for guards and early returns"

section \<open>Types shared by the model\<close>

type_synonym byte = "8 word"
type_synonym bytes = "8 word list"
type_synonym instant = int
type_synonym 'v jsmap = "(string \<times> 'v) list"

section \<open>Results\<close>

definition bindE :: "'e + 'a \<Rightarrow> ('a \<Rightarrow> 'e + 'b) \<Rightarrow> 'e + 'b" where
  "bindE r f = (case r of Inl e \<Rightarrow> Inl e | Inr a \<Rightarrow> f a)"

lemma bindE_simps [simp]: "bindE (Inl e) f = Inl e" "bindE (Inr a) f = f a"
  by (simp_all add: bindE_def)

lemma bindE_Inr_iff: "bindE r f = Inr b \<longleftrightarrow> (\<exists>a. r = Inr a \<and> f a = Inr b)"
  by (cases r) auto

definition isOk :: "'e + 'a \<Rightarrow> bool" where
  "isOk r = (case r of Inl _ \<Rightarrow> False | Inr _ \<Rightarrow> True)"

lemma isOk_simps [simp]: "isOk (Inl e) = False" "isOk (Inr a) = True"
  by (simp_all add: isOk_def)

lemma isOk_iff: "isOk r \<longleftrightarrow> (\<exists>a. r = Inr a)"
  by (cases r) auto

text \<open>A loop that maps a throwing function over a list stops at the first throw.\<close>

fun mapE :: "('a \<Rightarrow> 'e + 'b) \<Rightarrow> 'a list \<Rightarrow> 'e + 'b list" where
  "mapE f [] = Inr []"
| "mapE f (x # xs) = bindE (f x) (\<lambda>y. bindE (mapE f xs) (\<lambda>ys. Inr (y # ys)))"

lemma mapE_cong [fundef_cong]:
  "xs = ys \<Longrightarrow> (\<And>x. x \<in> set ys \<Longrightarrow> f x = g x) \<Longrightarrow> mapE f xs = mapE g ys"
proof (induction xs arbitrary: ys)
  case Nil
  then show ?case by auto
next
  case (Cons x xs)
  then show ?case by (cases ys) auto
qed

lemma mapE_Inr: "(\<And>x. x \<in> set xs \<Longrightarrow> f x = Inr (g x)) \<Longrightarrow> mapE f xs = Inr (map g xs)"
  by (induction xs) auto

lemma mapE_Inr_length: "mapE f xs = Inr ys \<Longrightarrow> length ys = length xs"
  by (induction xs arbitrary: ys) (auto simp: bindE_Inr_iff)

section \<open>JavaScript maps\<close>

definition map_has :: "'v jsmap \<Rightarrow> string \<Rightarrow> bool" where
  "map_has m k = (map_of m k \<noteq> None)"

abbreviation map_get :: "'v jsmap \<Rightarrow> string \<Rightarrow> 'v option" where
  "map_get m k \<equiv> map_of m k"

abbreviation map_set :: "string \<Rightarrow> 'v \<Rightarrow> 'v jsmap \<Rightarrow> 'v jsmap" where
  "map_set k v m \<equiv> AList.update k v m"

abbreviation map_values :: "'v jsmap \<Rightarrow> 'v list" where
  "map_values m \<equiv> map snd m"

definition wf_map :: "'v jsmap \<Rightarrow> bool" where
  "wf_map m = distinct (map fst m)"

lemma wf_map_Nil [simp]: "wf_map []"
  by (simp add: wf_map_def)

lemma wf_map_set [simp]: "wf_map m \<Longrightarrow> wf_map (map_set k v m)"
  unfolding wf_map_def by (rule distinct_update)

lemma map_get_set [store_simps]:
  "map_get (map_set k v m) k' = (if k' = k then Some v else map_get m k')"
  by (simp add: update_conv)

lemma map_has_iff [store_simps]: "map_has m k \<longleftrightarrow> (\<exists>v. map_get m k = Some v)"
  by (auto simp: map_has_def)

lemma map_set_absent: "map_get m k = None \<Longrightarrow> map_set k v m = m @ [(k, v)]"
  by (induction m) (auto split: if_splits)

lemma set_map_set_distinct:
  "wf_map m \<Longrightarrow> set (map_set k v m) = insert (k, v) {p \<in> set m. fst p \<noteq> k}"
  unfolding wf_map_def
  by (induction m) (force split: if_splits)+

lemma map_values_set:
  "wf_map m \<Longrightarrow> v \<in> set (map_values m) \<longleftrightarrow> (\<exists>k. map_get m k = Some v)"
  by (force simp: wf_map_def)

section \<open>Stable sorting by an integer key\<close>

text \<open>
  \<open>Array.prototype.sort\<close> with the comparator \<open>(a, b) => f a - f b\<close> is stable:
  \<open>sort_key\<close>. With \<open>f b - f a\<close> it is the same with the key negated.
\<close>

definition sort_asc :: "('a \<Rightarrow> int) \<Rightarrow> 'a list \<Rightarrow> 'a list" where
  "sort_asc f xs = sort_key f xs"

definition sort_desc :: "('a \<Rightarrow> int) \<Rightarrow> 'a list \<Rightarrow> 'a list" where
  "sort_desc f xs = sort_key (\<lambda>x. - f x) xs"

lemma set_sort_asc [simp]: "set (sort_asc f xs) = set xs"
  by (simp add: sort_asc_def)

lemma set_sort_desc [simp]: "set (sort_desc f xs) = set xs"
  by (simp add: sort_desc_def)

lemma sort_asc_empty_iff: "sort_asc f xs = [] \<longleftrightarrow> xs = []"
  by (metis length_0_conv length_sort sort_asc_def)

lemma hd_sort_asc_min:
  assumes "x \<in> set xs"
  shows "f (hd (sort_asc f xs)) \<le> f x"
proof -
  obtain y ys where s: "sort_asc f xs = y # ys"
    using assms by (metis list.set_cases set_sort_asc)
  have "sorted (map f (sort_asc f xs))"
    unfolding sort_asc_def by (rule sorted_sort_key)
  then have "sorted (map f (y # ys))" by (simp only: s)
  moreover have "x \<in> set (y # ys)" using assms s by (metis set_sort_asc)
  ultimately show ?thesis using s by auto
qed

section \<open>Decimal printing\<close>

definition digit_char :: "nat \<Rightarrow> char" where
  "digit_char d = char_of (48 + d)"

fun show_nat :: "nat \<Rightarrow> string" where
  "show_nat n = (if n < 10 then [digit_char n] else show_nat (n div 10) @ [digit_char (n mod 10)])"

declare show_nat.simps [simp del]

definition show_int :: "int \<Rightarrow> string" where
  "show_int i = (if i < 0 then ''-'' @ show_nat (nat (- i)) else show_nat (nat i))"

definition is_digit :: "char \<Rightarrow> bool" where
  "is_digit c = (48 \<le> (of_char c :: nat) \<and> (of_char c :: nat) \<le> 57)"

definition digit_val :: "char \<Rightarrow> nat" where
  "digit_val c = (of_char c :: nat) - 48"

fun read_nat :: "nat \<Rightarrow> string \<Rightarrow> nat" where
  "read_nat acc [] = acc"
| "read_nat acc (c # cs) = read_nat (10 * acc + digit_val c) cs"

lemma of_char_digit_char [simp]: "d < 10 \<Longrightarrow> (of_char (digit_char d) :: nat) = 48 + d"
  by (simp add: digit_char_def)

lemma digit_val_digit_char [simp]: "d < 10 \<Longrightarrow> digit_val (digit_char d) = d"
  by (simp add: digit_val_def)

lemma is_digit_digit_char [simp]: "d < 10 \<Longrightarrow> is_digit (digit_char d)"
  by (simp add: is_digit_def)

lemma read_nat_append: "read_nat acc (xs @ ys) = read_nat (read_nat acc xs) ys"
  by (induction xs arbitrary: acc) auto

lemma read_show_nat_acc: "read_nat 0 (show_nat n) = n"
proof (induction n rule: show_nat.induct)
  case (1 n)
  show ?case
  proof (cases "n < 10")
    case True
    then show ?thesis by (simp add: show_nat.simps [of n])
  next
    case False
    with 1 show ?thesis by (simp add: show_nat.simps [of n] read_nat_append)
  qed
qed

lemma show_nat_inj [simp]: "show_nat m = show_nat n \<longleftrightarrow> m = n"
  by (metis read_show_nat_acc)

lemma show_nat_digits: "c \<in> set (show_nat n) \<Longrightarrow> is_digit c"
proof (induction n rule: show_nat.induct)
  case (1 n)
  then show ?case
    by (cases "n < 10") (auto simp: show_nat.simps [of n])
qed

lemma show_nat_not_Nil [simp]: "show_nat n \<noteq> []"
  by (simp add: show_nat.simps [of n])

lemma minus_not_digit: "\<not> is_digit (CHR ''-'')"
  by (simp add: is_digit_def)

lemma show_nat_hd_not_minus: "show_nat n \<noteq> CHR ''-'' # s"
  using show_nat_digits [of "CHR ''-''" n] by (auto simp: is_digit_def)

lemma show_int_inj [simp]: "show_int i = show_int j \<longleftrightarrow> i = j"
proof
  assume "show_int i = show_int j"
  then show "i = j"
    using show_nat_hd_not_minus [of "nat i"] show_nat_hd_not_minus [of "nat j"]
    by (auto simp: show_int_def not_less split: if_splits) (metis show_nat_hd_not_minus)+
qed simp

section \<open>String helpers\<close>

text \<open>White space trimmed by \<open>String.prototype.trim\<close>, for one-byte characters.\<close>

definition is_space :: "char \<Rightarrow> bool" where
  "is_space c = ((of_char c :: nat) \<in> {9, 10, 11, 12, 13, 32})"

definition trim_left :: "string \<Rightarrow> string" where
  "trim_left s = dropWhile is_space s"

definition trim :: "string \<Rightarrow> string" where
  "trim s = rev (trim_left (rev (trim_left s)))"

definition to_upper :: "char \<Rightarrow> char" where
  "to_upper c = (if 97 \<le> (of_char c :: nat) \<and> (of_char c :: nat) \<le> 122
     then char_of ((of_char c :: nat) - 32) else c)"

definition starts_with :: "string \<Rightarrow> string \<Rightarrow> bool" where
  "starts_with p s = (take (length p) s = p)"

text \<open>The UTF-8 bytes of the dash the messages use.\<close>

definition em_dash :: string where
  "em_dash = [CHR 0xE2, CHR 0x80, CHR 0x94]"

fun join :: "string \<Rightarrow> string list \<Rightarrow> string" where
  "join sep [] = []"
| "join sep [x] = x"
| "join sep (x # y # ys) = x @ sep @ join sep (y # ys)"

lemma dropWhile_not_all: "dropWhile P xs = [] \<longleftrightarrow> (\<forall>x \<in> set xs. P x)"
  by (induction xs) auto

lemma trim_Nil_iff: "trim s = [] \<longleftrightarrow> (\<forall>c \<in> set s. is_space c)"
proof -
  have "trim s = [] \<longleftrightarrow> (\<forall>c \<in> set (dropWhile is_space s). is_space c)"
    by (simp add: trim_def trim_left_def)
  also have "\<dots> \<longleftrightarrow> (\<forall>c \<in> set s. is_space c)"
    by (metis dropWhile_eq_Nil_conv empty_iff hd_dropWhile list.set(1) hd_in_set)
  finally show ?thesis .
qed

section \<open>Bytes of a string\<close>

definition utf8 :: "string \<Rightarrow> bytes" where
  "utf8 s = map (\<lambda>c. word_of_nat (of_char c)) s"

lemma inj_byte_of_char: "inj (\<lambda>c. word_of_nat (of_char c :: nat) :: byte)"
proof (rule injI)
  fix c d :: char
  assume "(word_of_nat (of_char c :: nat) :: byte) = word_of_nat (of_char d)"
  then have "(of_char c :: nat) mod 256 = (of_char d :: nat) mod 256"
    by (simp add: word_of_nat_eq_iff take_bit_eq_mod)
  moreover have "(of_char c :: nat) < 256" "(of_char d :: nat) < 256"
    by (simp_all add: nat_of_char_less_256)
  ultimately show "c = d" by simp
qed

lemma utf8_inj [simp]: "utf8 s = utf8 t \<longleftrightarrow> s = t"
  unfolding utf8_def by (simp add: inj_map_eq_map [OF inj_byte_of_char])

lemma utf8_append [simp]: "utf8 (s @ t) = utf8 s @ utf8 t"
  by (simp add: utf8_def)

lemma length_utf8 [simp]: "length (utf8 s) = length s"
  by (simp add: utf8_def)

section \<open>Lines\<close>

definition newline :: char where
  "newline = CHR 0x0A"

definition line_of :: "string \<Rightarrow> string" where
  "line_of s = s @ [newline]"

lemma line_of_eq: "newline \<notin> set a \<Longrightarrow> newline \<notin> set b \<Longrightarrow>
    line_of a @ x = line_of b @ y \<longleftrightarrow> a = b \<and> x = y"
  unfolding line_of_def by (induction a arbitrary: b) (case_tac b; auto)+

lemma concat_lines_eq:
  "\<forall>s \<in> set xs \<union> set ys. newline \<notin> set s \<Longrightarrow>
    concat (map line_of xs) = concat (map line_of ys) \<longleftrightarrow> xs = ys"
proof (induction xs arbitrary: ys)
  case Nil
  then show ?case by (cases ys) (auto simp: line_of_def)
next
  case (Cons x xs)
  then show ?case
  proof (cases ys)
    case Nil
    then show ?thesis by (simp add: line_of_def)
  next
    case (Cons y ys')
    then show ?thesis using Cons.prems Cons.IH [of ys'] line_of_eq [of x y] by simp
  qed
qed

end
