(* ===== verification/Hashing.thy ===== *)
theory Hashing
  imports Prelude
begin

text \<open>
  What the evidence code uses of \<open>node:crypto\<close> and \<open>Buffer\<close>: hexadecimal text and a
  32-byte digest. A digest is an argument \<open>H\<close> of the definitions that hash, and the
  locale \<open>digest32\<close> states what they rely on, the 32-byte output. SHA-256 itself
  (FIPS 180-4, on 32-bit words) is written out and interprets the locale.
\<close>

section \<open>Hexadecimal text\<close>

definition hex_char :: "nat \<Rightarrow> char" where
  "hex_char n = (if n < 10 then char_of (48 + n) else char_of (87 + n))"

definition hex_val :: "char \<Rightarrow> nat option" where
  "hex_val c = (let n = (of_char c :: nat) in
     if 48 \<le> n \<and> n \<le> 57 then Some (n - 48)
     else if 97 \<le> n \<and> n \<le> 102 then Some (n - 87)
     else if 65 \<le> n \<and> n \<le> 70 then Some (n - 55)
     else None)"

definition hex_byte :: "byte \<Rightarrow> string" where
  "hex_byte w = [hex_char (unat w div 16), hex_char (unat w mod 16)]"

text \<open>\<open>buf.toString('hex')\<close>.\<close>

fun to_hex :: "bytes \<Rightarrow> string" where
  "to_hex [] = []"
| "to_hex (w # ws) = hex_byte w @ to_hex ws"

text \<open>\<open>Buffer.from(s, 'hex')\<close>: decodes pairs until the first that is not hexadecimal.\<close>

fun of_hex :: "string \<Rightarrow> bytes" where
  "of_hex (a # b # s) = (case (hex_val a, hex_val b) of
       (Some x, Some y) \<Rightarrow> word_of_nat (16 * x + y) # of_hex s
     | _ \<Rightarrow> [])"
| "of_hex _ = []"

lemma hex_val_hex_char [simp]: "n < 16 \<Longrightarrow> hex_val (hex_char n) = Some n"
  by (auto simp: hex_val_def hex_char_def Let_def)

lemma unat_byte_less [simp]: "unat (w :: byte) < 256"
  using unsigned_less [of w] by simp

lemma of_hex_to_hex [simp]: "of_hex (to_hex bs) = bs"
proof (induction bs)
  case (Cons w ws)
  have "unat w div 16 < 16" "unat w mod 16 < 16"
    using unat_byte_less [of w] by (simp_all add: less_mult_imp_div_less)
  moreover have "word_of_nat (16 * (unat w div 16) + unat w mod 16) = w"
    by simp
  ultimately show ?case using Cons by (simp add: hex_byte_def)
qed simp

lemma to_hex_inj [simp]: "to_hex a = to_hex b \<longleftrightarrow> a = b"
  by (metis of_hex_to_hex)

lemma length_to_hex [simp]: "length (to_hex bs) = 2 * length bs"
  by (induction bs) (simp_all add: hex_byte_def)

text \<open>The patterns \<open>^[0-9a-f]{64}$\<close> and \<open>^sha256:[0-9a-f]{64}$\<close>.\<close>

definition is_lower_hex :: "char \<Rightarrow> bool" where
  "is_lower_hex c = (let n = (of_char c :: nat) in (48 \<le> n \<and> n \<le> 57) \<or> (97 \<le> n \<and> n \<le> 102))"

definition hex64 :: "string \<Rightarrow> bool" where
  "hex64 s = (length s = 64 \<and> list_all is_lower_hex s)"

definition sha256_digest_re :: "string \<Rightarrow> bool" where
  "sha256_digest_re s = (take 7 s = ''sha256:'' \<and> hex64 (drop 7 s))"

lemma is_lower_hex_hex_char [simp]: "n < 16 \<Longrightarrow> is_lower_hex (hex_char n)"
  by (auto simp: is_lower_hex_def hex_char_def Let_def)

lemma list_all_to_hex [simp]: "list_all is_lower_hex (to_hex bs)"
proof (induction bs)
  case (Cons w ws)
  have "unat w div 16 < 16" "unat w mod 16 < 16"
    using unat_byte_less [of w] by (simp_all add: less_mult_imp_div_less)
  with Cons show ?case by (simp add: hex_byte_def)
qed simp

lemma hex64_to_hex [simp]: "length b = 32 \<Longrightarrow> hex64 (to_hex b)"
  by (simp add: hex64_def)

lemma sha256_digest_re_to_hex [simp]:
  "length b = 32 \<Longrightarrow> sha256_digest_re (''sha256:'' @ to_hex b)"
  by (simp add: sha256_digest_re_def)

section \<open>The digest interface\<close>

locale digest32 =
  fixes H :: "bytes \<Rightarrow> bytes"
  assumes digest_length: "length (H x) = 32"
begin

lemma digest_hex_length: "length (to_hex (H x)) = 64"
  by (simp add: digest_length)

lemma digest_hex64: "hex64 (to_hex (H x))"
  by (simp add: digest_length)

lemma digest_address: "sha256_digest_re (''sha256:'' @ to_hex (H x))"
  by (rule sha256_digest_re_to_hex) (rule digest_length)

lemma append_digest_inj:
  "H a @ x = H b @ y \<longleftrightarrow> H a = H b \<and> x = y"
  by (simp add: digest_length append_eq_append_conv)

end

section \<open>SHA-256\<close>

type_synonym u32 = "32 word"

text \<open>The round constants and the initial hash value of FIPS 180-4, in decimal.\<close>

definition sha_k :: "u32 list" where
  "sha_k = [
    1116352408, 1899447441, 3049323471, 3921009573, 961987163, 1508970993, 2453635748, 2870763221,
    3624381080, 310598401, 607225278, 1426881987, 1925078388, 2162078206, 2614888103, 3248222580,
    3835390401, 4022224774, 264347078, 604807628, 770255983, 1249150122, 1555081692, 1996064986,
    2554220882, 2821834349, 2952996808, 3210313671, 3336571891, 3584528711, 113926993, 338241895,
    666307205, 773529912, 1294757372, 1396182291, 1695183700, 1986661051, 2177026350, 2456956037,
    2730485921, 2820302411, 3259730800, 3345764771, 3516065817, 3600352804, 4094571909, 275423344,
    430227734, 506948616, 659060556, 883997877, 958139571, 1322822218, 1537002063, 1747873779,
    1955562222, 2024104815, 2227730452, 2361852424, 2428436474, 2756734187, 3204031479, 3329325298]"

definition sha_init :: "u32 list" where
  "sha_init = [1779033703, 3144134277, 1013904242, 2773480762,
     1359893119, 2600822924, 528734635, 1541459225]"

definition word_be :: "bytes \<Rightarrow> u32" where
  "word_be bs = foldl (\<lambda>acc b. acc * 256 + ucast b) 0 bs"

definition bytes_be :: "nat \<Rightarrow> 'a::len word \<Rightarrow> bytes" where
  "bytes_be k w = map (\<lambda>i. ucast (drop_bit (8 * (k - Suc i)) w)) [0..<k]"

definition sha_pad :: "bytes \<Rightarrow> bytes" where
  "sha_pad m = m @ [0x80] @ replicate ((119 - length m mod 64) mod 64) 0 @ bytes_be 8 (8 * word_of_nat (length m) :: 64 word)"

fun chunks :: "nat \<Rightarrow> 'a list \<Rightarrow> 'a list list" where
  "chunks k xs = (if k = 0 \<or> xs = [] then [] else take k xs # chunks k (drop k xs))"

declare chunks.simps [simp del]

definition small_sigma0 :: "u32 \<Rightarrow> u32" where
  "small_sigma0 x = xor (xor (word_rotr 7 x) (word_rotr 18 x)) (drop_bit 3 x)"

definition small_sigma1 :: "u32 \<Rightarrow> u32" where
  "small_sigma1 x = xor (xor (word_rotr 17 x) (word_rotr 19 x)) (drop_bit 10 x)"

definition big_sigma0 :: "u32 \<Rightarrow> u32" where
  "big_sigma0 x = xor (xor (word_rotr 2 x) (word_rotr 13 x)) (word_rotr 22 x)"

definition big_sigma1 :: "u32 \<Rightarrow> u32" where
  "big_sigma1 x = xor (xor (word_rotr 6 x) (word_rotr 11 x)) (word_rotr 25 x)"

text \<open>The message schedule, kept as the last sixteen words, newest first.\<close>

fun sha_schedule :: "nat \<Rightarrow> u32 list \<Rightarrow> u32 list" where
  "sha_schedule 0 w = w"
| "sha_schedule (Suc n) w =
     sha_schedule n (w @ [small_sigma1 (w ! (length w - 2)) + w ! (length w - 7)
       + small_sigma0 (w ! (length w - 15)) + w ! (length w - 16)])"

fun sha_rounds :: "(u32 \<times> u32) list \<Rightarrow> u32 list \<Rightarrow> u32 list" where
  "sha_rounds ((k, w) # ks) [a, b, c, d, e, f, g, h] =
     (let t1 = h + big_sigma1 e + xor (and e f) (and (not e) g) + k + w;
          t2 = big_sigma0 a + xor (xor (and a b) (and a c)) (and b c)
      in sha_rounds ks [t1 + t2, a, b, c, d + t1, e, f, g])"
| "sha_rounds _ s = s"

definition sha_block :: "u32 list \<Rightarrow> bytes \<Rightarrow> u32 list" where
  "sha_block s blk =
     (let w = sha_schedule 48 (map word_be (chunks 4 blk))
      in map2 (+) s (sha_rounds (zip sha_k w) s))"

definition sha256 :: "bytes \<Rightarrow> bytes" where
  "sha256 m = concat (map (\<lambda>w. bytes_be 4 w) (foldl sha_block sha_init (chunks 64 (sha_pad m))))"

lemma length_bytes_be [simp]: "length (bytes_be k w) = k"
  by (simp add: bytes_be_def)

lemma length_sha_rounds: "length s = 8 \<Longrightarrow> length (sha_rounds ks s) = 8"
  by (induction ks s rule: sha_rounds.induct) (auto simp: Let_def)

lemma length_sha_block: "length s = 8 \<Longrightarrow> length (sha_block s b) = 8"
  by (simp add: sha_block_def Let_def length_sha_rounds)

lemma length_foldl_sha_block: "length s = 8 \<Longrightarrow> length (foldl sha_block s bs) = 8"
  by (induction bs arbitrary: s) (simp_all add: length_sha_block)

lemma length_concat_const:
  "(\<And>x. x \<in> set xs \<Longrightarrow> length (f x) = k) \<Longrightarrow> length (concat (map f xs)) = k * length xs"
  by (induction xs) auto

lemma length_sha256: "length (sha256 m) = 32"
  unfolding sha256_def
  by (subst length_concat_const [where k = 4])
     (simp_all add: length_foldl_sha_block sha_init_def)

text \<open>The FIPS 180-4 test vector, evaluated by the kernel.\<close>

lemma sha256_abc:
  "to_hex (sha256 (utf8 ''abc'')) = ''ba7816bf8f01cfea414140de5dae2223b00361a396177a9cb410ff61f20015ad''"
  by code_simp

interpretation sha: digest32 sha256
  by unfold_locales (rule length_sha256)

end
