(* ===== verification/IsoDate.thy ===== *)
theory IsoDate
  imports Prelude
begin

text \<open>
  \<open>Date.prototype.toISOString\<close> and \<open>Date.parse\<close> on the strings it prints. An
  instant is a number of milliseconds since the epoch; days are counted in the proleptic
  Gregorian calendar with years starting in March, so that the leap day is the last of
  its year.
\<close>

section \<open>Civil dates\<close>

definition era_days :: int where "era_days = 146097"

text \<open>Day of the era to the year of the era and the day of that year.\<close>

definition year_of_era :: "int \<Rightarrow> int \<times> int" where
  "year_of_era doe =
     (let c = min 3 (doe div 36524); doc = doe - 36524 * c;
          q = doc div 1461; doq = doc mod 1461;
          y = min 3 (doq div 365)
      in (100 * c + 4 * q + y, doq - 365 * y))"

definition civil_from_days :: "int \<Rightarrow> int \<times> int \<times> int" where
  "civil_from_days days =
     (let z = days + 719468; era = z div era_days;
          (yoe, doy) = year_of_era (z mod era_days);
          mp = (5 * doy + 2) div 153; d = doy - (153 * mp + 2) div 5 + 1;
          m = (if mp < 10 then mp + 3 else mp - 9);
          y = yoe + era * 400
      in (if m \<le> 2 then y + 1 else y, m, d))"

definition days_from_civil :: "int \<Rightarrow> int \<Rightarrow> int \<Rightarrow> int" where
  "days_from_civil y m d =
     (let y' = (if m \<le> 2 then y - 1 else y); era = y' div 400; yoe = y' mod 400;
          mp = (if m > 2 then m - 3 else m + 9);
          doy = (153 * mp + 2) div 5 + d - 1;
          doe = 36524 * (yoe div 100) + 1461 * (yoe mod 100 div 4) + 365 * (yoe mod 100 mod 4) + doy
      in era * era_days + doe - 719468)"

lemma year_of_era_bounds:
  assumes "0 \<le> doe" "doe < 146097" "year_of_era doe = (yoe, doy)"
  shows "0 \<le> yoe \<and> yoe < 400 \<and> 0 \<le> doy \<and> doy \<le> 365
    \<and> doe = 36524 * (yoe div 100) + 1461 * (yoe mod 100 div 4) + 365 * (yoe mod 100 mod 4) + doy"
proof -
  define c where "c = min 3 (doe div 36524)"
  define doc where "doc = doe - 36524 * c"
  define q where "q = doc div 1461"
  define doq where "doq = doc mod 1461"
  define y where "y = min 3 (doq div 365)"
  have c: "0 \<le> c" "c \<le> 3" using assms(1) by (auto simp: c_def pos_imp_zdiv_nonneg_iff)
  have doc: "0 \<le> doc" "doc \<le> 36524"
    using assms(1,2) unfolding doc_def c_def by (simp_all add: min_def) linarith+
  have q: "0 \<le> q" "q \<le> 24" "doc = 1461 * q + doq" "0 \<le> doq" "doq \<le> 1460"
    using doc unfolding q_def doq_def by (auto simp: pos_imp_zdiv_nonneg_iff)
  have y: "0 \<le> y" "y \<le> 3" using q by (auto simp: y_def pos_imp_zdiv_nonneg_iff)
  have doy: "0 \<le> doq - 365 * y" "doq - 365 * y \<le> 365"
    using q(4,5) unfolding y_def by (simp_all add: min_def) linarith+
  have r: "yoe = 100 * c + 4 * q + y" "doy = doq - 365 * y"
    using assms(3) by (auto simp: year_of_era_def Let_def c_def doc_def q_def doq_def y_def)
  have m: "yoe div 100 = c" "yoe mod 100 = 4 * q + y" "(4 * q + y) div 4 = q" "(4 * q + y) mod 4 = y"
    using c q y mod_mult_self4 [of 100 c "4 * q + y"] unfolding r(1) by (simp_all add: add.assoc)
  show ?thesis using c q y doy doc_def unfolding m r(2) unfolding r(1) by simp
qed

lemma days_from_civil_from_days:
  assumes "civil_from_days days = (y, m, d)"
  shows "days_from_civil y m d = days"
proof -
  define z where "z = days + 719468"
  obtain yoe doy where ye: "year_of_era (z mod era_days) = (yoe, doy)" by force
  have "0 \<le> z mod 146097" "z mod 146097 < 146097" by simp_all
  from year_of_era_bounds [OF this ye [unfolded era_days_def]]
  have b: "0 \<le> yoe" "yoe < 400" "0 \<le> doy" "doy \<le> 365"
    "z mod 146097 = 36524 * (yoe div 100) + 1461 * (yoe mod 100 div 4) + 365 * (yoe mod 100 mod 4) + doy"
    by auto
  define mp where "mp = (5 * doy + 2) div 153"
  have mp: "0 \<le> mp" "mp \<le> 11" using b(3,4) unfolding mp_def by linarith+
  let ?m = "if mp < 10 then mp + 3 else mp - 9"
  let ?Y = "yoe + z div 146097 * 400"
  have v: "m = ?m" "y = (if ?m \<le> 2 then ?Y + 1 else ?Y)" "d = doy - (153 * mp + 2) div 5 + 1"
    using assms ye by (auto simp: civil_from_days_def Let_def z_def mp_def era_days_def split: prod.splits)
  have y': "(if m \<le> 2 then y - 1 else y) = ?Y" unfolding v by simp
  have mp': "(if m > 2 then m - 3 else m + 9) = mp" unfolding v(1) using mp by simp
  have e: "?Y div 400 = z div 146097" "?Y mod 400 = yoe" using b(1,2) by simp_all
  have "days_from_civil y m d = z div 146097 * 146097 + z mod 146097 - 719468"
    unfolding days_from_civil_def Let_def y' mp' e era_days_def b(5) v(3) by simp
  also have "\<dots> = days" unfolding z_def by simp
  finally show ?thesis .
qed

section \<open>Printing and reading\<close>

primrec pad :: "nat \<Rightarrow> nat \<Rightarrow> string" where
  "pad 0 n = []"
| "pad (Suc k) n = pad k (n div 10) @ [digit_char (n mod 10)]"

lemma length_pad [simp]: "length (pad k n) = k"
  by (induction k arbitrary: n) auto

lemma read_pad: "read_nat 0 (pad k n) = n mod 10 ^ k"
proof (induction k arbitrary: n)
  case (Suc k)
  have "n mod (10 * 10 ^ k) = 10 * (n div 10 mod 10 ^ k) + n mod 10" by (rule mod_mult2_eq)
  with Suc show ?case by (simp add: read_nat_append)
qed simp

definition ms_per_day :: int where "ms_per_day = 86400000"

definition iso_year :: "int \<Rightarrow> string" where
  "iso_year y = (if 0 \<le> y \<and> y \<le> 9999 then pad 4 (nat y)
     else (if y < 0 then ''-'' else ''+'') @ pad 6 (nat \<bar>y\<bar>))"

definition iso_rest :: "int \<Rightarrow> int \<Rightarrow> int \<Rightarrow> string" where
  "iso_rest m d ms =
     ''-'' @ pad 2 (nat m) @ ''-'' @ pad 2 (nat d) @ ''T'' @ pad 2 (nat (ms div 3600000)) @ '':''
     @ pad 2 (nat (ms div 60000 mod 60)) @ '':'' @ pad 2 (nat (ms div 1000 mod 60)) @ ''.''
     @ pad 3 (nat (ms mod 1000)) @ ''Z''"

definition toISOString :: "instant \<Rightarrow> string" where
  "toISOString t = (case civil_from_days (t div ms_per_day) of (y, m, d) \<Rightarrow>
     iso_year y @ iso_rest m d (t mod ms_per_day))"

definition field :: "nat \<Rightarrow> nat \<Rightarrow> string \<Rightarrow> int" where
  "field i n s = int (read_nat 0 (take n (drop i s)))"

definition read_year :: "string \<Rightarrow> int \<times> nat" where
  "read_year s = (if hd s = CHR ''-'' then (- field 1 6 s, 7)
     else if hd s = CHR ''+'' then (field 1 6 s, 7) else (field 0 4 s, 4))"

definition read_iso :: "string \<Rightarrow> instant" where
  "read_iso s = (case read_year s of (y, i) \<Rightarrow>
     days_from_civil y (field (i + 1) 2 s) (field (i + 4) 2 s) * ms_per_day
     + field (i + 7) 2 s * 3600000 + field (i + 10) 2 s * 60000 + field (i + 13) 2 s * 1000
     + field (i + 16) 3 s)"

text \<open>The instants a \<open>Date\<close> can hold.\<close>

definition valid_instant :: "instant \<Rightarrow> bool" where
  "valid_instant t = (\<bar>t\<bar> \<le> 8640000000000000)"

text \<open>
  \<open>Date.parse\<close>, \<open>None\<close> for \<open>NaN\<close>, on the format \<open>toISOString\<close> prints. The
  engine reads other spellings of a date as well; they are outside the model.
\<close>

definition date_parse :: "string \<Rightarrow> instant option" where
  "date_parse s = (let t = read_iso s in if valid_instant t \<and> toISOString t = s then Some t else None)"

lemma field_append [simp]:
  "length a = i \<Longrightarrow> length b = n \<Longrightarrow> field i n (a @ b @ c) = int (read_nat 0 b)"
  by (simp add: field_def)

text \<open>A leap cycle is 146097 days, so a valid instant has a year of at most six digits.\<close>

lemma year_bound:
  assumes "valid_instant t" "civil_from_days (t div ms_per_day) = (y, m, d)"
  shows "\<bar>y\<bar> < 1000000" "0 < m" "m \<le> 12" "0 < d" "d \<le> 31"
proof -
  define z where "z = t div ms_per_day + 719468"
  have z: "- 100000000 + 719468 \<le> z" "z \<le> 100000000 + 719468"
    using assms(1) unfolding z_def ms_per_day_def valid_instant_def by linarith+
  obtain yoe doy where ye: "year_of_era (z mod era_days) = (yoe, doy)" by force
  have "0 \<le> z mod 146097" "z mod 146097 < 146097" by simp_all
  from year_of_era_bounds [OF this ye [unfolded era_days_def]]
  have b: "0 \<le> yoe" "yoe < 400" "0 \<le> doy" "doy \<le> 365" by auto
  define mp where "mp = (5 * doy + 2) div 153"
  have mp: "0 \<le> mp" "mp \<le> 11" using b(3,4) unfolding mp_def by linarith+
  have d: "0 < doy - (153 * mp + 2) div 5 + 1" "doy - (153 * mp + 2) div 5 + 1 \<le> 31"
    using b(3,4) unfolding mp_def by linarith+
  have era: "- 700 < z div 146097" "z div 146097 < 700" using z by linarith+
  have v: "m = (if mp < 10 then mp + 3 else mp - 9)" "d = doy - (153 * mp + 2) div 5 + 1"
    "y \<le> yoe + z div 146097 * 400 + 1" "yoe + z div 146097 * 400 \<le> y"
    using assms(2) ye by (auto simp: civil_from_days_def Let_def z_def mp_def era_days_def split: prod.splits)
  show "\<bar>y\<bar> < 1000000" using v(3,4) b(1,2) era by linarith
  show "0 < m" "m \<le> 12" unfolding v(1) using mp by auto
  show "0 < d" "d \<le> 31" unfolding v(2) using d by auto
qed

lemma pad_digits: "c \<in> set (pad k n) \<Longrightarrow> is_digit c"
  by (induction k arbitrary: n) auto

lemma iso_year_hd: "0 \<le> y \<Longrightarrow> y \<le> 9999 \<Longrightarrow> hd (iso_year y @ s) \<noteq> CHR ''-'' \<and> hd (iso_year y @ s) \<noteq> CHR ''+''"
proof -
  assume "0 \<le> y" "y \<le> 9999"
  then have e: "iso_year y = pad 4 (nat y)" by (simp add: iso_year_def)
  then have "iso_year y \<noteq> []" by (metis length_pad list.size(3) zero_neq_numeral)
  then have "hd (iso_year y @ s) \<in> set (iso_year y)" by simp
  then have "is_digit (hd (iso_year y @ s))" unfolding e by (rule pad_digits)
  then show ?thesis by (auto simp: is_digit_def)
qed

lemma read_year_iso:
  assumes "\<bar>y\<bar> < 1000000"
  shows "\<exists>i. read_year (iso_year y @ s) = (y, i) \<and> length (iso_year y) = i"
proof (cases "0 \<le> y \<and> y \<le> 9999")
  case True
  then have "field 0 4 (iso_year y @ s) = y"
    using field_append [of "[]" 0 "pad 4 (nat y)" 4 s] by (simp add: iso_year_def read_pad nat_less_iff)
  with True iso_year_hd [of y s] show ?thesis by (simp add: read_year_def) (simp add: iso_year_def)
next
  case False
  have "field 1 6 ((if y < 0 then ''-'' else ''+'') @ pad 6 (nat \<bar>y\<bar>) @ s) = \<bar>y\<bar>"
    using assms by (subst field_append) (auto simp: read_pad nat_less_iff)
  with False show ?thesis by (auto simp: iso_year_def read_year_def)
qed

lemma time_of_day:
  "ms div 3600000 * 3600000 + ms div 60000 mod 60 * 60000 + ms div 1000 mod 60 * 1000 + ms mod 1000 = (ms::int)"
proof -
  have "ms div 60000 = ms div 1000 div 60" "ms div 3600000 = ms div 1000 div 60 div 60"
    by (simp_all flip: zdiv_zmult2_eq)
  moreover have g: "c * 3600000 + r * 60000 + q * 1000 + p = ms"
    if "a * 1000 + p = ms" "b * 60 + q = a" "c * 60 + r = b" for a b c p q r :: int
    using that by simp
  ultimately show ?thesis
    using g [OF div_mult_mod_eq [of ms 1000] div_mult_mod_eq [of "ms div 1000" 60]
      div_mult_mod_eq [of "ms div 1000 div 60" 60]] by simp
qed

lemma iso_fields:
  assumes "length Y = i" "0 < m" "m \<le> 12" "0 < d" "d \<le> 31" "0 \<le> ms" "ms < 86400000"
  defines "s \<equiv> Y @ iso_rest m d ms"
  shows "field (i + 1) 2 s = m" "field (i + 4) 2 s = d" "field (i + 7) 2 s = ms div 3600000"
    "field (i + 10) 2 s = ms div 60000 mod 60" "field (i + 13) 2 s = ms div 1000 mod 60"
    "field (i + 16) 3 s = ms mod 1000"
proof -
  have h: "0 \<le> ms div 3600000" "ms div 3600000 < 24" using assms(6,7) by linarith+
  let ?M = "pad 2 (nat m)" and ?D = "pad 2 (nat d)" and ?h = "pad 2 (nat (ms div 3600000))"
    and ?i = "pad 2 (nat (ms div 60000 mod 60))" and ?s = "pad 2 (nat (ms div 1000 mod 60))"
    and ?ms = "pad 3 (nat (ms mod 1000))"
  have s: "s = Y @ ''-'' @ ?M @ ''-'' @ ?D @ ''T'' @ ?h @ '':'' @ ?i @ '':'' @ ?s @ ''.'' @ ?ms @ ''Z''"
    by (simp add: s_def iso_rest_def)
  have r: "int (read_nat 0 ?M) = m" "int (read_nat 0 ?D) = d" "int (read_nat 0 ?h) = ms div 3600000"
    "int (read_nat 0 ?i) = ms div 60000 mod 60" "int (read_nat 0 ?s) = ms div 1000 mod 60"
    "int (read_nat 0 ?ms) = ms mod 1000"
    using assms h by (simp_all add: read_pad zmod_int)
  show "field (i + 1) 2 s = m"
    using field_append [of "Y @ ''-''" "i + 1" ?M 2] assms(1) unfolding s by (simp add: r(1))
  show "field (i + 4) 2 s = d"
    using field_append [of "Y @ ''-'' @ ?M @ ''-''" "i + 4" ?D 2] assms(1)
    unfolding s by (simp add: r(2))
  show "field (i + 7) 2 s = ms div 3600000"
    using field_append [of "Y @ ''-'' @ ?M @ ''-'' @ ?D @ ''T''" "i + 7" ?h 2] assms(1)
    unfolding s by (simp add: r(3))
  show "field (i + 10) 2 s = ms div 60000 mod 60"
    using field_append [of "Y @ ''-'' @ ?M @ ''-'' @ ?D @ ''T'' @ ?h @ '':''" "i + 10" ?i 2] assms(1)
    unfolding s by (simp add: r(4))
  show "field (i + 13) 2 s = ms div 1000 mod 60"
    using field_append [of "Y @ ''-'' @ ?M @ ''-'' @ ?D @ ''T'' @ ?h @ '':'' @ ?i @ '':''" "i + 13" ?s 2]
      assms(1) unfolding s by (simp add: r(5))
  show "field (i + 16) 3 s = ms mod 1000"
    using field_append [of "Y @ ''-'' @ ?M @ ''-'' @ ?D @ ''T'' @ ?h @ '':'' @ ?i @ '':'' @ ?s @ ''.''"
      "i + 16" ?ms 3] assms(1) unfolding s by (simp add: r(6))
qed

theorem date_parse_toISOString: "valid_instant t \<Longrightarrow> date_parse (toISOString t) = Some t"
proof -
  assume t: "valid_instant t"
  obtain y m d where c: "civil_from_days (t div ms_per_day) = (y, m, d)"
    by (cases "civil_from_days (t div ms_per_day)") auto
  let ?ms = "t mod ms_per_day"
  have ms: "0 \<le> ?ms" "?ms < 86400000" by (simp_all add: ms_per_day_def)
  note yb = year_bound [OF t c]
  obtain i where i: "read_year (iso_year y @ iso_rest m d ?ms) = (y, i)" "length (iso_year y) = i"
    using read_year_iso [OF yb(1)] by blast
  let ?s = "iso_year y @ iso_rest m d ?ms"
  note f = iso_fields [OF i(2) yb(2-5) ms]
  have "read_iso ?s = days_from_civil y m d * ms_per_day + ?ms"
    unfolding read_iso_def i(1) prod.case f
    using arg_cong [OF time_of_day [of ?ms], of "(+) (days_from_civil y m d * ms_per_day)"]
    by (simp only: add.assoc)
  also have "\<dots> = t" using days_from_civil_from_days [OF c] by simp
  finally have r: "read_iso ?s = t" .
  have s: "toISOString t = ?s" by (simp only: toISOString_def c prod.case)
  show ?thesis unfolding date_parse_def Let_def s r using t by simp
qed

lemma date_parse_sound: "date_parse s = Some t \<Longrightarrow> toISOString t = s"
  by (auto simp: date_parse_def Let_def split: if_splits)

lemma toISOString_inj: "valid_instant s \<Longrightarrow> valid_instant t \<Longrightarrow> toISOString s = toISOString t \<longleftrightarrow> s = t"
  by (metis date_parse_toISOString option.inject)

lemma toISOString_example: "toISOString 951782400000 = ''2000-02-29T00:00:00.000Z''"
  by code_simp

end
