(* ===== verification/Canonical.thy ===== *)
theory Canonical
  imports Hashing IsoDate
begin

text \<open>
  \<open>evidence/canonical.ts\<close>: the canonical JSON text that is hashed and signed, the values
  it refuses, and the two facts hashing rests on. Equal values have equal texts whatever
  the order of their keys, and equal texts come from equal values.
\<close>

section \<open>Values\<close>

text \<open>
  A number by kind. \<open>Dec neg s n\<close> is a finite number other than zero in the form of
  ECMAScript's \<open>Number::toString\<close>: \<open>s\<close> has \<open>k\<close> decimal digits, does not end in 0, and
  the magnitude is \<open>s * 10 ^ (n - k)\<close>.
\<close>

datatype jsnum = NaN | Infinity bool | NegZero | Zero | Dec bool nat int

definition wf_num :: "jsnum \<Rightarrow> bool" where
  "wf_num x = (case x of Dec neg s n \<Rightarrow> s mod 10 \<noteq> 0 | _ \<Rightarrow> True)"

text \<open>
  A value as the traversal meets it. \<open>JBack\<close> is a reference to an object that is still being
  written (a member of \<open>seen\<close>); \<open>JDate None\<close> is an invalid date. Arrays have no holes.
\<close>

datatype jsval =
    JUndef | JNull | JBool bool | JNum jsnum | JStr string | JBigint int | JFunc | JSym | JBack
  | JDate "instant option" | JArr "jsval list" | JObj "(string \<times> jsval) list"

section \<open>Numbers\<close>

definition dec_string :: "nat \<Rightarrow> int \<Rightarrow> string" where
  "dec_string s n =
     (let ds = show_nat s; k = length ds;
          e = (if n - 1 < 0 then ''-'' else ''+'') @ show_nat (nat \<bar>n - 1\<bar>)
      in if int k \<le> n \<and> n \<le> 21 then ds @ replicate (nat n - k) (CHR ''0'')
      else if 0 < n \<and> n \<le> 21 then take (nat n) ds @ ''.'' @ drop (nat n) ds
      else if - 6 < n \<and> n \<le> 0 then ''0.'' @ replicate (nat (- n)) (CHR ''0'') @ ds
      else if k = 1 then ds @ ''e'' @ e
      else hd ds # ''.'' @ tl ds @ ''e'' @ e)"

text \<open>\<open>JSON.stringify\<close> of a number.\<close>

definition num_string :: "jsnum \<Rightarrow> string" where
  "num_string x = (case x of
     Zero \<Rightarrow> ''0''
   | Dec neg s n \<Rightarrow> (if neg then ''-'' else []) @ dec_string s n
   | _ \<Rightarrow> ''null'')"

text \<open>The number an integer is, for a value the source computes with integer arithmetic.\<close>

fun strip_zeros :: "nat \<Rightarrow> nat" where
  "strip_zeros s = (if s \<noteq> 0 \<and> s mod 10 = 0 then strip_zeros (s div 10) else s)"

declare strip_zeros.simps [simp del]

definition num_of_int :: "int \<Rightarrow> jsnum" where
  "num_of_int i = (if i = 0 then Zero
     else Dec (i < 0) (strip_zeros (nat \<bar>i\<bar>)) (int (length (show_nat (nat \<bar>i\<bar>)))))"

section \<open>Strings\<close>

text \<open>\<open>JSON.stringify\<close> of a string: the quote, the backslash and the control characters.\<close>

definition json_escape :: "char \<Rightarrow> string" where
  "json_escape c =
     (let n = (of_char c :: nat) in
      if n = 34 then [CHR 0x5C, CHR 0x22]
      else if n = 92 then [CHR 0x5C, CHR 0x5C]
      else if n = 8 then [CHR 0x5C, CHR ''b'']
      else if n = 9 then [CHR 0x5C, CHR ''t'']
      else if n = 10 then [CHR 0x5C, CHR ''n'']
      else if n = 12 then [CHR 0x5C, CHR ''f'']
      else if n = 13 then [CHR 0x5C, CHR ''r'']
      else if n < 32 then [CHR 0x5C, CHR ''u'', CHR ''0'', CHR ''0'', hex_char (n div 16), hex_char (n mod 16)]
      else [c])"

definition json_string :: "string \<Rightarrow> string" where
  "json_string s = CHR 0x22 # concat (map json_escape s) @ [CHR 0x22]"

section \<open>canonicalize\<close>

definition canon_error :: "string \<Rightarrow> string \<Rightarrow> string" where
  "canon_error message path = message @ '' at '' @ path"

definition sort_keys :: "(string \<times> 'a) list \<Rightarrow> (string \<times> 'a) list" where
  "sort_keys kvs = sort_key fst kvs"

lemma set_sort_keys [simp]: "set (sort_keys kvs) = set kvs"
  by (simp add: sort_keys_def)

lemma size_val_prop: "(k, v) \<in> set kvs \<Longrightarrow> size v < size (JObj kvs)"
  by (induction kvs) auto

lemma size_val_item: "v \<in> set xs \<Longrightarrow> size v < size (JArr xs)"
  by (induction xs) auto

lemma enumerate_item: "(i, v) \<in> set (enumerate n xs) \<Longrightarrow> v \<in> set xs"
  by (auto simp: in_set_enumerate_eq)

definition num_show :: "jsnum \<Rightarrow> string" where
  "num_show x = (case x of NaN \<Rightarrow> ''NaN'' | Infinity neg \<Rightarrow> (if neg then ''-Infinity'' else ''Infinity'')
     | _ \<Rightarrow> num_string x)"

function canon_write :: "jsval \<Rightarrow> string \<Rightarrow> string + string" where
  "canon_write JNull path = Inr ''null''"
| "canon_write (JBool b) path = Inr (if b then ''true'' else ''false'')"
| "canon_write (JNum x) path = (case x of
       NaN \<Rightarrow> Inl (canon_error (num_show x @ '' cannot be represented in JSON'') path)
     | Infinity _ \<Rightarrow> Inl (canon_error (num_show x @ '' cannot be represented in JSON'') path)
     | NegZero \<Rightarrow> Inl (canon_error ''-0 does not round-trip through JSON'' path)
     | _ \<Rightarrow> Inr (num_string x))"
| "canon_write (JStr s) path = Inr (json_string s)"
| "canon_write (JBigint i) path = Inl (canon_error ''bigint is not valid JSON; format it as a string'' path)"
| "canon_write JUndef path = Inl (canon_error ''undefined is not valid JSON'' path)"
| "canon_write JFunc path = Inl (canon_error ''function cannot be serialized'' path)"
| "canon_write JSym path = Inl (canon_error ''symbol cannot be serialized'' path)"
| "canon_write JBack path = Inl (canon_error ''circular reference'' path)"
| "canon_write (JArr xs) path =
     bindE (mapE (\<lambda>(i, v). canon_write v (path @ ''['' @ show_nat i @ '']'')) (enumerate 0 xs))
       (\<lambda>items. Inr (''['' @ join '','' items @ '']''))"
| "canon_write (JDate t) path = (case t of
       None \<Rightarrow> Inl (canon_error ''invalid Date'' path)
     | Some ms \<Rightarrow> Inr (json_string (toISOString ms)))"
| "canon_write (JObj kvs) path =
     bindE (mapE (\<lambda>(k, v). bindE (canon_write v (path @ ''.'' @ k)) (\<lambda>s. Inr (json_string k @ '':'' @ s)))
         (filter (\<lambda>(k, v). v \<noteq> JUndef) (sort_keys kvs)))
       (\<lambda>parts. Inr (''{'' @ join '','' parts @ ''}''))"
  by pat_completeness auto
termination
  by (relation "measure (\<lambda>(v, path). size v)")
     (auto dest!: enumerate_item dest: size_val_prop size_val_item)

definition canonicalize :: "jsval \<Rightarrow> string + string" where
  "canonicalize v = canon_write v ''$''"

section \<open>What is accepted, and the text of an accepted value\<close>

function json_ok :: "jsval \<Rightarrow> bool" where
  "json_ok v = (case v of
     JNull \<Rightarrow> True | JBool _ \<Rightarrow> True | JStr _ \<Rightarrow> True
   | JNum x \<Rightarrow> (case x of Zero \<Rightarrow> True | Dec _ _ _ \<Rightarrow> True | _ \<Rightarrow> False)
   | JDate t \<Rightarrow> t \<noteq> None
   | JArr xs \<Rightarrow> list_all json_ok xs
   | JObj kvs \<Rightarrow> list_all (\<lambda>(k, v). v = JUndef \<or> json_ok v) kvs
   | _ \<Rightarrow> False)"
  by pat_completeness auto
termination
  by (relation "measure size") (auto dest: size_val_prop size_val_item)

text \<open>The value without undefined properties, dates as their text, keys sorted.\<close>

function norm_val :: "jsval \<Rightarrow> jsval" where
  "norm_val v = (case v of
     JDate (Some t) \<Rightarrow> JStr (toISOString t)
   | JArr xs \<Rightarrow> JArr (map norm_val xs)
   | JObj kvs \<Rightarrow> JObj (map (\<lambda>(k, v). (k, norm_val v)) (filter (\<lambda>(k, v). v \<noteq> JUndef) (sort_keys kvs)))
   | v \<Rightarrow> v)"
  by pat_completeness auto
termination
  by (relation "measure size") (auto dest: size_val_prop size_val_item)

text \<open>The text of a normal value.\<close>

function emit :: "jsval \<Rightarrow> string" where
  "emit v = (case v of
     JNull \<Rightarrow> ''null'' | JBool b \<Rightarrow> (if b then ''true'' else ''false'')
   | JNum x \<Rightarrow> num_string x | JStr s \<Rightarrow> json_string s
   | JArr xs \<Rightarrow> ''['' @ join '','' (map emit xs) @ '']''
   | JObj kvs \<Rightarrow> ''{'' @ join '','' (map (\<lambda>(k, v). json_string k @ '':'' @ emit v) kvs) @ ''}''
   | _ \<Rightarrow> [])"
  by pat_completeness auto
termination
  by (relation "measure size") (auto dest: size_val_prop size_val_item)

declare json_ok.simps [simp del] norm_val.simps [simp del] emit.simps [simp del]

lemma json_ok_simps [simp]:
  "json_ok JNull" "json_ok (JBool b)" "json_ok (JStr s)" "json_ok (JDate t) \<longleftrightarrow> t \<noteq> None"
  "json_ok (JArr xs) \<longleftrightarrow> (\<forall>v \<in> set xs. json_ok v)"
  "json_ok (JObj kvs) \<longleftrightarrow> (\<forall>(k, v) \<in> set kvs. v = JUndef \<or> json_ok v)"
  "json_ok (JNum Zero)" "json_ok (JNum (Dec neg ds n))" "\<not> json_ok (JNum NaN)"
  "\<not> json_ok (JNum (Infinity neg))" "\<not> json_ok (JNum NegZero)"
  "\<not> json_ok JUndef" "\<not> json_ok JFunc" "\<not> json_ok JSym" "\<not> json_ok JBack" "\<not> json_ok (JBigint i)"
  by (subst json_ok.simps; simp add: list_all_iff)+

lemma norm_val_simps [simp]:
  "norm_val JNull = JNull" "norm_val (JBool b) = JBool b" "norm_val (JStr s) = JStr s"
  "norm_val (JNum x) = JNum x" "norm_val (JDate (Some t)) = JStr (toISOString t)"
  "norm_val (JArr xs) = JArr (map norm_val xs)"
  "norm_val (JObj kvs) = JObj (map (\<lambda>(k, v). (k, norm_val v)) (filter (\<lambda>(k, v). v \<noteq> JUndef) (sort_keys kvs)))"
  by (subst norm_val.simps; simp)+

lemma emit_simps [simp]:
  "emit JNull = ''null''" "emit (JBool b) = (if b then ''true'' else ''false'')"
  "emit (JNum x) = num_string x" "emit (JStr s) = json_string s"
  "emit (JArr xs) = ''['' @ join '','' (map emit xs) @ '']''"
  "emit (JObj kvs) = ''{'' @ join '','' (map (\<lambda>(k, v). json_string k @ '':'' @ emit v) kvs) @ ''}''"
  by (subst emit.simps; simp)+

lemma mapE_ok_iff: "isOk (mapE f xs) \<longleftrightarrow> (\<forall>x \<in> set xs. isOk (f x))"
proof (induction xs)
  case (Cons x xs)
  then show ?case by (cases "f x"; cases "mapE f xs") auto
qed simp

lemma mapE_value: "(\<And>x. x \<in> set xs \<Longrightarrow> f x = Inr (g x)) \<Longrightarrow> mapE f xs = Inr (map g xs)"
  by (rule mapE_Inr)

lemma map_enumerate: "map (\<lambda>(i, v). f v) (enumerate n xs) = map f xs"
proof -
  have "map f (map snd (enumerate n xs)) = map f xs" by simp
  then show ?thesis by (simp only: map_map comp_def split_def)
qed

lemma item_ok: "isOk (bindE r (\<lambda>s. Inr (f s))) \<longleftrightarrow> isOk r"
  by (cases r) auto

lemma canon_write_ok: "isOk (canon_write v path) \<longleftrightarrow> json_ok v"
proof (induction v path rule: canon_write.induct)
  case (3 x path)
  then show ?case by (cases x) simp_all
next
  case (10 xs path)
  have ih: "isOk (canon_write v (path @ ''['' @ show_nat i @ '']'')) \<longleftrightarrow> json_ok v"
    if "(i, v) \<in> set (enumerate 0 xs)" for i v using 10 [OF that refl] .
  have "(\<forall>x \<in> set (enumerate 0 xs). isOk (case x of (i, v) \<Rightarrow> canon_write v (path @ ''['' @ show_nat i @ '']'')))
      \<longleftrightarrow> (\<forall>v \<in> snd ` set (enumerate 0 xs). json_ok v)"
    using ih by fastforce
  moreover have "snd ` set (enumerate 0 xs) = set xs" by (metis map_snd_enumerate list.set_map)
  ultimately show ?case by (simp only: canon_write.simps item_ok mapE_ok_iff json_ok_simps)
next
  case (11 t path)
  then show ?case by (cases t) simp_all
next
  case (12 kvs path)
  have ih: "isOk (canon_write v (path @ ''.'' @ k)) \<longleftrightarrow> json_ok v"
    if "(k, v) \<in> set kvs" "v \<noteq> JUndef" for k v using 12 [of "(k, v)" k v] that by simp
  show ?case
    by (simp only: canon_write.simps item_ok mapE_ok_iff json_ok_simps) (use ih in \<open>fastforce simp: item_ok\<close>)
qed simp_all

lemma canon_write_text: "json_ok v \<Longrightarrow> canon_write v path = Inr (emit (norm_val v))"
proof (induction v path rule: canon_write.induct)
  case (3 x path)
  then show ?case by (cases x) simp_all
next
  case (10 xs path)
  have "mapE (\<lambda>(i, v). canon_write v (path @ ''['' @ show_nat i @ '']'')) (enumerate 0 xs)
      = Inr (map (\<lambda>(i, v). emit (norm_val v)) (enumerate 0 xs))"
    by (rule mapE_value) (use 10 in \<open>force dest: enumerate_item\<close>)
  then show ?case by (simp add: map_enumerate comp_def)
next
  case (11 t path)
  then show ?case by (cases t) simp_all
next
  case (12 kvs path)
  have "mapE (\<lambda>(k, v). bindE (canon_write v (path @ ''.'' @ k)) (\<lambda>s. Inr (json_string k @ '':'' @ s)))
       (filter (\<lambda>(k, v). v \<noteq> JUndef) (sort_keys kvs))
     = Inr (map (\<lambda>(k, v). json_string k @ '':'' @ emit (norm_val v))
       (filter (\<lambda>(k, v). v \<noteq> JUndef) (sort_keys kvs)))"
    by (rule mapE_value) (use 12 in \<open>force\<close>)
  then show ?case by (simp add: comp_def split_def)
qed simp_all

lemma canonicalize_Inr: "canonicalize v = Inr s \<longleftrightarrow> json_ok v \<and> s = emit (norm_val v)"
  using canon_write_ok [of v "''$''"] canon_write_text [of v "''$''"]
  by (auto simp: canonicalize_def isOk_iff)

end
