(* ===== verification/Canonical_Injective.thy ===== *)
theory Canonical_Injective
  imports Canonical "HOL-Library.Multiset"
begin

text \<open>
  The canonical text determines the value: no text is a proper beginning of another where a
  value can end, so the text of a composite value splits in one way only.
\<close>

section \<open>Characters and strings\<close>

lemma hex_char_inj: "m < 16 \<Longrightarrow> n < 16 \<Longrightarrow> hex_char m = hex_char n \<longleftrightarrow> m = n"
  by (metis hex_val_hex_char option.inject)

lemma of_char_eq: "(of_char c :: nat) = of_char d \<longleftrightarrow> c = d"
  by (metis char_of_char)

definition two_char_escapes :: "(nat \<times> char) list" where
  "two_char_escapes = [(34, CHR 0x22), (92, CHR 0x5C), (8, CHR ''b''), (9, CHR ''t''), (10, CHR ''n''),
     (12, CHR ''f''), (13, CHR ''r'')]"

lemma json_escape_cases:
  obtains (two) x where "json_escape c = [CHR 0x5C, x]" "map_of two_char_escapes (of_char c) = Some x"
  | (hex) "json_escape c = [CHR 0x5C, CHR ''u'', CHR ''0'', CHR ''0'', hex_char (of_char c div 16), hex_char (of_char c mod 16)]"
      "(of_char c :: nat) < 32"
  | (plain) "json_escape c = [c]" "c \<noteq> CHR 0x22" "c \<noteq> CHR 0x5C"
proof (cases "map_of two_char_escapes (of_char c)")
  case (Some x)
  then have "json_escape c = [CHR 0x5C, x]"
    by (auto simp: json_escape_def two_char_escapes_def Let_def split: if_splits)
  with Some show ?thesis using that(1) by blast
next
  case None
  then have n: "(of_char c :: nat) \<notin> {34, 92, 8, 9, 10, 12, 13}"
    by (auto simp: two_char_escapes_def split: if_splits)
  then have "c \<noteq> CHR 0x22" "c \<noteq> CHR 0x5C" by auto
  then show ?thesis using n that(2,3) by (cases "(of_char c :: nat) < 32") (auto simp: json_escape_def Let_def)
qed

lemma two_char_inj: "map_of two_char_escapes m = Some x \<Longrightarrow> map_of two_char_escapes n = Some x \<Longrightarrow> m = n"
  by (auto simp: two_char_escapes_def split: if_splits)

lemma two_char_not_u: "map_of two_char_escapes m \<noteq> Some (CHR ''u'')"
  by (auto simp: two_char_escapes_def split: if_splits)

lemma json_escape_prefix:
  "json_escape c @ r = json_escape d @ r' \<Longrightarrow> c = d \<and> r = r'"
proof (cases c rule: json_escape_cases)
  case (two x)
  assume e: "json_escape c @ r = json_escape d @ r'"
  show ?thesis
  proof (cases d rule: json_escape_cases)
    case (two y)
    then have "x = y" "r = r'" using e \<open>json_escape c = [CHR 0x5C, x]\<close> by simp_all
    then show ?thesis
      using two_char_inj [OF \<open>map_of two_char_escapes (of_char c) = Some x\<close>] two(2) of_char_eq by metis
  qed (use e two two_char_not_u in auto)
next
  case hex
  assume e: "json_escape c @ r = json_escape d @ r'"
  show ?thesis
  proof (cases d rule: json_escape_cases)
    case hex': hex
    have "(of_char c :: nat) div 16 = of_char d div 16 \<and> (of_char c :: nat) mod 16 = of_char d mod 16 \<and> r = r'"
      using e hex hex' by (simp add: hex_char_inj)
    then have "(of_char c :: nat) = of_char d" "r = r'" by (metis div_mult_mod_eq, simp)
    then show ?thesis by (simp add: of_char_eq)
  next
    case (two x)
    then show ?thesis using e hex two_char_not_u [of "of_char d"] by auto
  qed (use e hex in auto)
next
  case plain
  assume e: "json_escape c @ r = json_escape d @ r'"
  show ?thesis by (cases d rule: json_escape_cases) (use e plain in auto)
qed

lemma json_escape_hd: "\<exists>x xs. json_escape c = x # xs \<and> x \<noteq> CHR 0x22"
  by (cases c rule: json_escape_cases) auto

lemma json_string_prefix: "json_string s @ r = json_string t @ r' \<Longrightarrow> s = t \<and> r = r'"
proof -
  have "concat (map json_escape s) @ CHR 0x22 # r = concat (map json_escape t) @ CHR 0x22 # r' \<Longrightarrow> s = t \<and> r = r'"
    for t
  proof (induction s arbitrary: t)
    case Nil
    then show ?case
    proof (cases t)
      case (Cons d u)
      then show ?thesis using Nil json_escape_hd [of d] by auto
    qed simp
  next
    case (Cons c s)
    show ?case
    proof (cases t)
      case Nil
      then show ?thesis using Cons.prems json_escape_hd [of c] by auto
    next
      case t: (Cons d u)
      then have "json_escape c @ (concat (map json_escape s) @ CHR 0x22 # r)
          = json_escape d @ (concat (map json_escape u) @ CHR 0x22 # r')"
        using Cons.prems by simp
      from json_escape_prefix [OF this] have "c = d"
        "concat (map json_escape s) @ CHR 0x22 # r = concat (map json_escape u) @ CHR 0x22 # r'" by simp_all
      then show ?thesis using Cons.IH t by simp
    qed
  qed
  moreover assume "json_string s @ r = json_string t @ r'"
  ultimately show ?thesis by (simp add: json_string_def)
qed

lemma json_string_inj: "json_string s = json_string t \<longleftrightarrow> s = t"
  using json_string_prefix [of s "[]" t "[]"] by auto

section \<open>Numbers\<close>

definition num_char :: "char \<Rightarrow> bool" where
  "num_char c = (is_digit c \<or> c \<in> {CHR ''-'', CHR ''+'', CHR ''.'', CHR ''e''})"

text \<open>The value of a printed magnitude.\<close>

definition dec_value :: "string \<Rightarrow> real" where
  "dec_value s =
     (let mant = takeWhile (\<lambda>c. c \<noteq> CHR ''e'') s; ex = drop 1 (dropWhile (\<lambda>c. c \<noteq> CHR ''e'') s);
          ip = takeWhile (\<lambda>c. c \<noteq> CHR ''.'') mant; fp = drop 1 (dropWhile (\<lambda>c. c \<noteq> CHR ''.'') mant);
          e = (case ex of [] \<Rightarrow> 0 | c # t \<Rightarrow> (if c = CHR ''-'' then - int (read_nat 0 t) else int (read_nat 0 t)))
      in real (read_nat 0 (ip @ fp)) * 10 powi (e - int (length fp)))"

lemma show_nat_no: "x \<in> set (show_nat s) \<Longrightarrow> x \<noteq> CHR ''e'' \<and> x \<noteq> CHR ''.''"
  using show_nat_digits [of x s] by (auto simp: is_digit_def)

lemma read_zeros: "read_nat 0 (xs @ replicate j (CHR ''0'')) = read_nat 0 xs * 10 ^ j"
proof (induction j)
  case (Suc j)
  have "replicate (Suc j) (CHR ''0'') = replicate j (CHR ''0'') @ [CHR ''0'']"
    by (simp add: replicate_append_same)
  then show ?case using Suc by (simp add: read_nat_append digit_val_def)
qed simp

lemma read_leading_zeros: "read_nat 0 (replicate j (CHR ''0'') @ xs) = read_nat 0 xs"
  by (induction j) (simp_all add: digit_val_def)

lemma dec_value_int:
  assumes "\<forall>x \<in> set ds. x \<noteq> CHR ''e'' \<and> x \<noteq> CHR ''.''"
  shows "dec_value ds = real (read_nat 0 ds)"
proof -
  have t: "takeWhile (\<lambda>c. c \<noteq> CHR ''e'') ds = ds" "dropWhile (\<lambda>c. c \<noteq> CHR ''e'') ds = []"
    "takeWhile (\<lambda>c. c \<noteq> CHR ''.'') ds = ds" "dropWhile (\<lambda>c. c \<noteq> CHR ''.'') ds = []"
    using assms by (auto simp: takeWhile_eq_all_conv dropWhile_eq_Nil_conv)
  show ?thesis by (simp add: dec_value_def Let_def t)
qed

lemma dec_value_point:
  assumes "\<forall>x \<in> set a \<union> set b. x \<noteq> CHR ''e'' \<and> x \<noteq> CHR ''.''"
  shows "dec_value (a @ ''.'' @ b) = real (read_nat 0 (a @ b)) * 10 powi (- int (length b))"
proof -
  have t: "takeWhile (\<lambda>c. c \<noteq> CHR ''e'') (a @ ''.'' @ b) = a @ ''.'' @ b"
    "dropWhile (\<lambda>c. c \<noteq> CHR ''e'') (a @ ''.'' @ b) = []"
    using assms by (auto simp: takeWhile_eq_all_conv dropWhile_eq_Nil_conv)
  have u: "takeWhile (\<lambda>c. c \<noteq> CHR ''.'') (a @ ''.'' @ b) = a"
    "dropWhile (\<lambda>c. c \<noteq> CHR ''.'') (a @ ''.'' @ b) = ''.'' @ b"
    using assms by (simp_all add: takeWhile_append2 dropWhile_append2)
  show ?thesis unfolding dec_value_def Let_def t u by simp
qed

lemma dec_value_exp:
  assumes "\<forall>x \<in> set a. x \<noteq> CHR ''e''"
  shows "dec_value (a @ ''e'' @ c # t) = dec_value a * 10 powi (if c = CHR ''-'' then - int (read_nat 0 t) else int (read_nat 0 t))"
proof -
  have t: "takeWhile (\<lambda>c. c \<noteq> CHR ''e'') (a @ ''e'' @ c # t) = a"
    "dropWhile (\<lambda>c. c \<noteq> CHR ''e'') (a @ ''e'' @ c # t) = ''e'' @ c # t"
    "takeWhile (\<lambda>c. c \<noteq> CHR ''e'') a = a" "dropWhile (\<lambda>c. c \<noteq> CHR ''e'') a = []"
    using assms by (auto simp: takeWhile_eq_all_conv dropWhile_eq_Nil_conv takeWhile_append2 dropWhile_append2)
  show ?thesis unfolding dec_value_def Let_def t
    by (simp add: power_int_diff power_int_add power_int_minus field_simps)
qed

lemma dec_value_dec_string:
  "dec_value (dec_string s n) = real s * 10 powi (n - int (length (show_nat s)))"
proof -
  let ?ds = "show_nat s" and ?k = "length (show_nat s)"
  have d: "\<forall>x \<in> set ?ds. x \<noteq> CHR ''e'' \<and> x \<noteq> CHR ''.''" using show_nat_no by blast
  have k: "0 < ?k" by simp
  obtain c t where e: "(if n - 1 < 0 then ''-'' else ''+'') @ show_nat (nat \<bar>n - 1\<bar>) = c # t"
    "(if c = CHR ''-'' then - int (read_nat 0 t) else int (read_nat 0 t)) = n - 1"
    by (cases "n - 1 < 0") (auto simp: read_show_nat_acc)
  consider (A) "int ?k \<le> n" "n \<le> 21" | (B) "0 < n" "n \<le> 21" "n < int ?k" | (C) "- 6 < n" "n \<le> 0"
    | (D) "\<not> (int ?k \<le> n \<and> n \<le> 21)" "\<not> (0 < n \<and> n \<le> 21)" "\<not> (- 6 < n \<and> n \<le> 0)" by linarith
  then show ?thesis
  proof cases
    case A
    have 1: "dec_string s n = ?ds @ replicate (nat n - ?k) (CHR ''0'')"
      using A by (simp add: dec_string_def Let_def)
    have 2: "dec_value (?ds @ replicate (nat n - ?k) (CHR ''0'')) = real (s * 10 ^ (nat n - ?k))"
    proof -
      have "\<forall>x \<in> set (?ds @ replicate (nat n - ?k) (CHR ''0'')). x \<noteq> CHR ''e'' \<and> x \<noteq> CHR ''.''"
        using d by (simp add: ball_Un)
      then show ?thesis by (simp only: dec_value_int read_zeros read_show_nat_acc)
    qed
    have 3: "n - int ?k = int (nat n - ?k)" using A by simp
    show ?thesis unfolding 1 2 3 power_int_of_nat by (simp only: of_nat_mult of_nat_power of_nat_numeral)
  next
    case B
    have "dec_string s n = take (nat n) ?ds @ ''.'' @ drop (nat n) ?ds"
      using B by (simp add: dec_string_def Let_def)
    moreover have "dec_value (take (nat n) ?ds @ ''.'' @ drop (nat n) ?ds)
        = real s * 10 powi (- int (length (drop (nat n) ?ds)))"
      using d by (subst dec_value_point) (auto simp: read_show_nat_acc dest: in_set_takeD in_set_dropD)
    moreover have "- int (length (drop (nat n) ?ds)) = n - int ?k" using B by simp
    ultimately show ?thesis by metis
  next
    case C
    have "\<not> int ?k \<le> n" using C k by linarith
    then have "dec_string s n = ''0'' @ ''.'' @ (replicate (nat (- n)) (CHR ''0'') @ ?ds)"
      using C unfolding dec_string_def Let_def by simp
    moreover have "dec_value (''0'' @ ''.'' @ (replicate (nat (- n)) (CHR ''0'') @ ?ds))
        = real s * 10 powi (n - int ?k)"
    proof -
      have "\<forall>x \<in> set ''0'' \<union> set (replicate (nat (- n)) (CHR ''0'') @ ?ds). x \<noteq> CHR ''e'' \<and> x \<noteq> CHR ''.''"
        using d by (simp add: ball_Un)
      moreover have "read_nat 0 (''0'' @ (replicate (nat (- n)) (CHR ''0'') @ ?ds)) = s"
        using read_leading_zeros [of "Suc (nat (- n))" ?ds] by (simp only: replicate.simps append.simps read_show_nat_acc)
      moreover have "- int (length (replicate (nat (- n)) (CHR ''0'') @ ?ds)) = n - int ?k" using C by simp
      ultimately show ?thesis by (simp only: dec_value_point)
    qed
    ultimately show ?thesis by (simp only:)
  next
    case D
    show ?thesis
    proof (cases "?k = 1")
      case True
      then have "dec_string s n = ?ds @ ''e'' @ c # t" using True
        by (simp only: dec_string_def Let_def D [unfolded True] if_False if_True e(1) refl)
      moreover have "dec_value (?ds @ ''e'' @ c # t) = real s * 10 powi (n - 1)"
        using d dec_value_exp [of ?ds c t] e(2) by (simp add: dec_value_int read_show_nat_acc)
      ultimately show ?thesis using True by simp
    next
      case False
      obtain x xs where ds: "?ds = x # xs" by (cases ?ds) auto
      have "dec_string s n = ([x] @ ''.'' @ xs) @ ''e'' @ c # t"
        using False by (simp only: dec_string_def Let_def D if_False e(1)) (simp only: ds list.sel append.simps append_assoc)
      moreover have "\<forall>y \<in> set ([x] @ ''.'' @ xs). y \<noteq> CHR ''e''" using d ds by auto
      moreover have "dec_value ([x] @ ''.'' @ xs) = real s * 10 powi (- int (length xs))"
        using d ds dec_value_point [of "[x]" xs] read_show_nat_acc [of s] by simp
      moreover have "(10::real) powi (- int (length xs)) * 10 powi (n - 1) = 10 powi (n - int ?k)"
        by (simp add: ds algebra_simps flip: power_int_add)
      ultimately show ?thesis by (simp only: dec_value_exp e(2) mult.assoc)
    qed
  qed
qed

lemma dec_string_inj:
  assumes "dec_string s n = dec_string t m" "s mod 10 \<noteq> 0" "t mod 10 \<noteq> 0"
  shows "s = t \<and> n = m"
proof -
  have key: "u = v \<and> a = b"
    if "real u * 10 powi a = real v * 10 powi b" "u mod 10 \<noteq> 0" "a \<le> b" for u v :: nat and a b :: int
  proof -
    have "b = a + int (nat (b - a))" using that(3) by simp
    then have "(10::real) powi b = 10 powi a * 10 ^ nat (b - a)"
      by (metis power_int_add power_int_of_nat zero_neq_numeral)
    then have "real u = real v * 10 ^ nat (b - a)" using that(1) by simp
    then have u: "u = v * 10 ^ nat (b - a)" by (metis of_nat_eq_iff of_nat_mult of_nat_numeral of_nat_power)
    have "nat (b - a) = 0"
    proof (rule ccontr)
      assume "nat (b - a) \<noteq> 0"
      then obtain j where "nat (b - a) = Suc j" by (cases "nat (b - a)") auto
      then have "u mod 10 = 0" unfolding u by simp
      with that(2) show False by simp
    qed
    with u that(3) show ?thesis by simp
  qed
  have e: "real s * 10 powi (n - int (length (show_nat s))) = real t * 10 powi (m - int (length (show_nat t)))"
    using arg_cong [OF assms(1), of dec_value] by (simp only: dec_value_dec_string)
  have "s = t \<and> n - int (length (show_nat s)) = m - int (length (show_nat t))"
  proof (cases "n - int (length (show_nat s)) \<le> m - int (length (show_nat t))")
    case True
    then show ?thesis using key [OF e assms(2)] by blast
  next
    case False
    then show ?thesis using key [OF e [symmetric] assms(3)] by simp
  qed
  then show ?thesis by auto
qed

lemma dec_string_chars: "c \<in> set (dec_string s n) \<Longrightarrow> num_char c"
proof -
  have d: "num_char x" if "x \<in> set (show_nat m)" for x m
    using show_nat_digits [OF that] by (simp add: num_char_def)
  have s1: "num_char x" if "x \<in> set (take i (show_nat m))" for x i m using d in_set_takeD [OF that] .
  have s2: "num_char x" if "x \<in> set (drop i (show_nat m))" for x i m using d in_set_dropD [OF that] .
  have s3: "num_char x" if "x \<in> set (tl (show_nat m))" for x m
    using d list.set_sel(2) [OF show_nat_not_Nil that] .
  have s4: "num_char (hd (show_nat m))" for m using d hd_in_set [OF show_nat_not_Nil] .
  have z: "num_char (CHR ''0'')" "num_char (CHR ''-'')" "num_char (CHR ''+'')" "num_char (CHR ''.'')"
    "num_char (CHR ''e'')" by (simp_all add: num_char_def is_digit_def)
  assume "c \<in> set (dec_string s n)"
  then show ?thesis
    by (auto simp: dec_string_def Let_def z s4 split: if_splits intro: d s1 s2 s3)
qed

lemma num_string_chars: "json_ok (JNum x) \<Longrightarrow> c \<in> set (num_string x) \<Longrightarrow> num_char c"
proof (cases x)
  case (Dec neg s n)
  assume "c \<in> set (num_string x)"
  then have "c = CHR ''-'' \<or> c \<in> set (dec_string s n)" using Dec by (auto simp: num_string_def split: if_splits)
  then show ?thesis using dec_string_chars by (auto simp: num_char_def)
qed (auto simp: num_string_def num_char_def is_digit_def)

lemma dec_string_hd: "\<exists>c cs. dec_string s n = c # cs \<and> is_digit c"
proof -
  obtain c cs where c: "show_nat s = c # cs" by (cases "show_nat s") auto
  then have "is_digit c" using show_nat_digits [of c s] by simp
  then show ?thesis using c
    by (cases "nat n") (auto simp: dec_string_def Let_def is_digit_def)
qed

lemma dec_value_pos: "s mod 10 \<noteq> 0 \<Longrightarrow> dec_value (dec_string s n) \<noteq> 0"
  by (auto simp: dec_value_dec_string)

lemma num_string_inj:
  assumes "json_ok (JNum x)" "json_ok (JNum y)" "wf_num x" "wf_num y" "num_string x = num_string y"
  shows "x = y"
proof -
  have z: "dec_string s n \<noteq> ''0''" if "s mod 10 \<noteq> 0" for s n
  proof
    assume "dec_string s n = ''0''"
    moreover have "dec_value ''0'' = 0" by (simp add: dec_value_def digit_val_def)
    ultimately show False using dec_value_pos [OF that, of n] by simp
  qed
  have m: "dec_string s n \<noteq> CHR ''-'' # r" for s n r
    using dec_string_hd [of s n] by (auto simp: is_digit_def)
  show ?thesis
    using assms z m m [THEN not_sym] z [THEN not_sym] dec_string_inj
    by (cases x; cases y) (auto simp: num_string_def wf_num_def split: if_splits)
qed

section \<open>Values\<close>

definition ends_value :: "string \<Rightarrow> bool" where
  "ends_value r = (r = [] \<or> hd r \<in> {CHR '','', CHR '']'', CHR ''}''})"

lemma ends_value_simps [simp]: "ends_value []" "ends_value (CHR '','' # r)" "ends_value (CHR '']'' # r)"
  "ends_value (CHR ''}'' # r)"
  by (simp_all add: ends_value_def)

lemma ends_not_num: "ends_value r \<Longrightarrow> takeWhile num_char r = []"
  by (cases r) (auto simp: ends_value_def num_char_def is_digit_def)

lemma num_string_prefix:
  assumes "json_ok (JNum x)" "json_ok (JNum y)" "wf_num x" "wf_num y" "ends_value r" "ends_value r'"
    "num_string x @ r = num_string y @ r'"
  shows "x = y \<and> r = r'"
proof -
  have t: "takeWhile num_char (num_string x @ r) = num_string x"
    "takeWhile num_char (num_string y @ r') = num_string y"
    using num_string_chars [OF assms(1)] num_string_chars [OF assms(2)] ends_not_num assms(5,6)
    by (simp_all add: takeWhile_append2)
  then have "num_string x = num_string y" using assms(7) by simp
  with num_string_inj [OF assms(1-4)] assms(7) show ?thesis by simp
qed

text \<open>A value as \<open>norm_val\<close> leaves it.\<close>

function normal :: "jsval \<Rightarrow> bool" where
  "normal v = (case v of
     JNull \<Rightarrow> True | JBool _ \<Rightarrow> True | JStr _ \<Rightarrow> True
   | JNum x \<Rightarrow> json_ok (JNum x) \<and> wf_num x
   | JArr xs \<Rightarrow> list_all normal xs
   | JObj kvs \<Rightarrow> list_all (\<lambda>(k, v). normal v) kvs
   | _ \<Rightarrow> False)"
  by pat_completeness auto
termination
  by (relation "measure size") (auto dest: size_val_prop size_val_item)

declare normal.simps [simp del]

lemma normal_simps [simp]:
  "normal JNull" "normal (JBool b)" "normal (JStr s)" "normal (JNum x) \<longleftrightarrow> json_ok (JNum x) \<and> wf_num x"
  "normal (JArr xs) \<longleftrightarrow> (\<forall>v \<in> set xs. normal v)" "normal (JObj kvs) \<longleftrightarrow> (\<forall>(k, v) \<in> set kvs. normal v)"
  "\<not> normal JUndef" "\<not> normal JFunc" "\<not> normal JSym" "\<not> normal JBack" "\<not> normal (JBigint i)" "\<not> normal (JDate t)"
  by (subst normal.simps; simp add: list_all_iff)+

text \<open>The first character tells the kind of value.\<close>

definition value_tag :: "char \<Rightarrow> nat" where
  "value_tag c = (if c = CHR ''n'' then 0 else if c = CHR ''t'' \<or> c = CHR ''f'' then 1 else if c = CHR 0x22 then 2
     else if c = CHR ''['' then 3 else if c = CHR ''{'' then 4 else if num_char c then 5 else 6)"

definition kind_tag :: "jsval \<Rightarrow> nat" where
  "kind_tag v = (case v of JNull \<Rightarrow> 0 | JBool _ \<Rightarrow> 1 | JStr _ \<Rightarrow> 2 | JArr _ \<Rightarrow> 3 | JObj _ \<Rightarrow> 4 | _ \<Rightarrow> 5)"

lemma num_char_not: "num_char c \<Longrightarrow> c \<notin> {CHR ''n'', CHR ''t'', CHR ''f'', CHR 0x22, CHR ''['', CHR ''{''}"
  by (auto simp: num_char_def is_digit_def)

lemma num_string_ne: "json_ok (JNum x) \<Longrightarrow> num_string x \<noteq> []"
proof (cases x)
  case (Dec neg s n)
  then show ?thesis using dec_string_hd [of s n] by (auto simp: num_string_def)
qed (auto simp: num_string_def)

lemma emit_hd: "normal v \<Longrightarrow> \<exists>c cs. emit v = c # cs \<and> value_tag c = kind_tag v"
proof (cases v)
  case (JNum x)
  assume "normal v"
  then obtain c cs where "num_string x = c # cs" using JNum num_string_ne [of x] by (cases "num_string x") auto
  moreover have "num_char c" using num_string_chars [of x c] \<open>normal v\<close> JNum calculation by simp
  ultimately show ?thesis using JNum num_char_not [of c] by (auto simp: value_tag_def kind_tag_def)
qed (auto simp: value_tag_def kind_tag_def json_string_def)

lemma value_tag_not_end: "value_tag c \<le> 5 \<Longrightarrow> c \<notin> {CHR '','', CHR '']'', CHR ''}''}"
proof -
  have "value_tag (CHR '','') = 6" "value_tag (CHR '']'') = 6" "value_tag (CHR ''}'') = 6"
    by (simp_all add: value_tag_def num_char_def is_digit_def)
  then show "value_tag c \<le> 5 \<Longrightarrow> c \<notin> {CHR '','', CHR '']'', CHR ''}''}" by auto
qed

lemma kind_tag_le: "kind_tag v \<le> 5"
  by (cases v) (auto simp: kind_tag_def)

lemma join_Cons: "join sep (x # xs) = x @ concat (map (\<lambda>y. sep @ y) xs)"
proof (induction xs arbitrary: x)
  case (Cons y xs)
  then show ?case by (cases xs) auto
qed simp

lemma items_prefix:
  assumes "\<And>x y s s'. x \<in> set xs \<Longrightarrow> y \<in> set ys \<Longrightarrow> ends_value s \<Longrightarrow> ends_value s' \<Longrightarrow>
      f x @ s = f y @ s' \<Longrightarrow> x = y \<and> s = s'"
    and "c = CHR '']'' \<or> c = CHR ''}''"
    and "concat (map (\<lambda>x. '','' @ f x) xs) @ c # r = concat (map (\<lambda>x. '','' @ f x) ys) @ c # r'"
  shows "xs = ys \<and> r = r'"
  using assms
proof (induction xs arbitrary: ys)
  case Nil
  then show ?case by (cases ys) auto
next
  case (Cons x xs)
  show ?case
  proof (cases ys)
    case Nil
    then show ?thesis using Cons.prems(2,3) by auto
  next
    case ys: (Cons y ys')
    have e: "ends_value (concat (map (\<lambda>x. '','' @ f x) zs) @ c # q)" for zs q
      using Cons.prems(2) by (cases zs) auto
    have "f x @ (concat (map (\<lambda>x. '','' @ f x) xs) @ c # r) = f y @ (concat (map (\<lambda>x. '','' @ f x) ys') @ c # r')"
      using Cons.prems(3) ys by simp
    then have h: "x = y" "concat (map (\<lambda>x. '','' @ f x) xs) @ c # r = concat (map (\<lambda>x. '','' @ f x) ys') @ c # r'"
      using Cons.prems(1) [of x y] e ys by auto
    have "xs = ys' \<and> r = r'"
      using Cons.prems(1) ys by (intro Cons.IH [OF _ Cons.prems(2) h(2)]) auto
    with h ys show ?thesis by simp
  qed
qed

lemma join_prefix:
  assumes "\<And>x y s s'. x \<in> set xs \<Longrightarrow> y \<in> set ys \<Longrightarrow> ends_value s \<Longrightarrow> ends_value s' \<Longrightarrow>
      f x @ s = f y @ s' \<Longrightarrow> x = y \<and> s = s'"
    and "c = CHR '']'' \<or> c = CHR ''}''"
    and "\<And>x. x \<in> set xs \<union> set ys \<Longrightarrow> \<exists>d ds. f x = d # ds \<and> d \<notin> {CHR '','', CHR '']'', CHR ''}''}"
    and "join '','' (map f xs) @ c # r = join '','' (map f ys) @ c # r'"
  shows "xs = ys \<and> r = r'"
proof (cases xs; cases ys)
  fix x xs' y ys'
  assume xy: "xs = x # xs'" "ys = y # ys'"
  then have "concat (map (\<lambda>x. '','' @ f x) xs) @ c # r = concat (map (\<lambda>x. '','' @ f x) ys) @ c # r'"
    using assms(4) by (simp add: join_Cons comp_def)
  then show ?thesis by (intro items_prefix [where f = f and c = c] assms(1,2))
next
  fix y ys'
  assume "xs = []" "ys = y # ys'"
  then show ?thesis using assms(2,3,4) by (fastforce simp: join_Cons)
next
  fix x xs'
  assume "xs = x # xs'" "ys = []"
  then show ?thesis using assms(2,3,4) by (fastforce simp: join_Cons)
qed (use assms(4) in simp)

lemma emit_prefix:
  "normal a \<Longrightarrow> normal b \<Longrightarrow> ends_value r \<Longrightarrow> ends_value r' \<Longrightarrow> emit a @ r = emit b @ r' \<Longrightarrow> a = b \<and> r = r'"
proof (induction "size a" arbitrary: a b r r' rule: less_induct)
  case less
  have tag: "kind_tag a = kind_tag b"
    using emit_hd [OF less.prems(1)] emit_hd [OF less.prems(2)] less.prems(5) by auto
  have hd_ok: "\<exists>d ds. emit v = d # ds \<and> d \<notin> {CHR '','', CHR '']'', CHR ''}''}" if "normal v" for v
    using emit_hd [OF that] value_tag_not_end kind_tag_le by metis
  show ?case
  proof (cases a)
    case JNull
    then show ?thesis using tag less.prems by (cases b) (auto simp: kind_tag_def)
  next
    case (JBool x)
    then show ?thesis using tag less.prems by (cases b) (auto simp: kind_tag_def split: if_splits)
  next
    case (JNum x)
    then obtain y where "b = JNum y" using tag less.prems(2) by (cases b) (auto simp: kind_tag_def)
    with JNum show ?thesis using less.prems num_string_prefix [of x y r r'] by auto
  next
    case (JStr s)
    then obtain t where "b = JStr t" using tag less.prems(2) by (cases b) (auto simp: kind_tag_def)
    with JStr show ?thesis using less.prems(5) json_string_prefix [of s r t r'] by simp
  next
    case (JArr xs)
    then obtain ys where b: "b = JArr ys" using tag less.prems(2) by (cases b) (auto simp: kind_tag_def)
    have "xs = ys \<and> r = r'"
    proof (rule join_prefix [where f = emit and c = "CHR '']''"])
      show "join '','' (map emit xs) @ CHR '']'' # r = join '','' (map emit ys) @ CHR '']'' # r'"
        using less.prems(5) JArr b by simp
      show "\<exists>d ds. emit x = d # ds \<and> d \<notin> {CHR '','', CHR '']'', CHR ''}''}" if "x \<in> set xs \<union> set ys" for x
        using that less.prems(1,2) JArr b by (intro hd_ok) auto
      show "x = y \<and> s = s'" if i: "x \<in> set xs" "y \<in> set ys" and t: "ends_value s" "ends_value s'"
        and e: "emit x @ s = emit y @ s'" for x y s s'
        using less.hyps [OF _ _ _ t e] size_val_item [OF i(1)] less.prems(1,2) JArr b i by auto
    qed simp
    with JArr b show ?thesis by simp
  next
    case (JObj kvs)
    then obtain lws where b: "b = JObj lws" using tag less.prems(2) by (cases b) (auto simp: kind_tag_def)
    let ?f = "\<lambda>(k, v). json_string k @ '':'' @ emit v"
    have "kvs = lws \<and> r = r'"
    proof (rule join_prefix [where f = ?f and c = "CHR ''}''"])
      show "join '','' (map ?f kvs) @ CHR ''}'' # r = join '','' (map ?f lws) @ CHR ''}'' # r'"
        using less.prems(5) JObj b by simp
      show "\<exists>d ds. ?f x = d # ds \<and> d \<notin> {CHR '','', CHR '']'', CHR ''}''}" for x
        by (cases x) (simp add: json_string_def)
      show "x = y \<and> s = s'" if i: "x \<in> set kvs" "y \<in> set lws" and t: "ends_value s" "ends_value s'"
        and e: "?f x @ s = ?f y @ s'" for x y s s'
      proof -
        obtain k v l w where xy: "x = (k, v)" "y = (l, w)" by (cases x; cases y) auto
        then have "k = l" "emit v @ s = emit w @ s'"
          using e json_string_prefix [of k "'':'' @ emit v @ s" l "'':'' @ emit w @ s'"] by auto
        moreover have "normal v" "normal w" "size v < size a"
          using i xy less.prems(1,2) JObj b size_val_prop [of k v kvs] by auto
        ultimately show ?thesis using less.hyps [of v w s s'] t xy by simp
      qed
    qed simp
    with JObj b show ?thesis by simp
  qed (use less.prems(1) in simp_all)
qed

function wf_nums :: "jsval \<Rightarrow> bool" where
  "wf_nums v = (case v of JNum x \<Rightarrow> wf_num x | JArr xs \<Rightarrow> list_all wf_nums xs
     | JObj kvs \<Rightarrow> list_all (\<lambda>(k, v). wf_nums v) kvs | _ \<Rightarrow> True)"
  by pat_completeness auto
termination
  by (relation "measure size") (auto dest: size_val_prop size_val_item)

declare wf_nums.simps [simp del]

lemma wf_nums_simps [simp]:
  "wf_nums (JNum x) \<longleftrightarrow> wf_num x" "wf_nums (JArr xs) \<longleftrightarrow> (\<forall>v \<in> set xs. wf_nums v)"
  "wf_nums (JObj kvs) \<longleftrightarrow> (\<forall>(k, v) \<in> set kvs. wf_nums v)" "wf_nums (JStr s)" "wf_nums JNull" "wf_nums (JBool b)"
  "wf_nums JUndef" "wf_nums (JDate t)"
  by (subst wf_nums.simps; simp add: list_all_iff)+

lemma normal_norm_val: "json_ok v \<Longrightarrow> wf_nums v \<Longrightarrow> normal (norm_val v)"
proof (induction "size v" arbitrary: v rule: less_induct)
  case less
  show ?case
  proof (cases v)
    case (JArr xs)
    have "normal (norm_val w)" if "w \<in> set xs" for w
      using less that JArr size_val_item [OF that] by auto
    with JArr show ?thesis by auto
  next
    case (JObj kvs)
    have "normal (norm_val w)" if "(k, w) \<in> set kvs" "w \<noteq> JUndef" for k w
    proof (rule less.hyps)
      show "size w < size v" using size_val_prop [OF that(1)] JObj by simp
      show "json_ok w" "wf_nums w" using less.prems that JObj by auto
    qed
    with JObj show ?thesis by auto
  next
    case (JDate t)
    then show ?thesis using less.prems by (cases t) auto
  qed (use less.prems in auto)
qed

lemma canonical_inj:
  assumes "canonicalize v = Inr s" "canonicalize w = Inr s" "wf_nums v" "wf_nums w"
  shows "norm_val v = norm_val w"
  using assms emit_prefix [of "norm_val v" "norm_val w" "[]" "[]"]
  by (auto simp: canonicalize_Inr normal_norm_val)

section \<open>Key order\<close>

lemma sort_keys_perm:
  assumes "distinct (map fst kvs)" "mset kvs = mset lws"
  shows "sort_keys kvs = sort_keys lws"
proof -
  have "set kvs = set lws" using assms(2) by (rule mset_eq_setD)
  moreover have "distinct (map fst lws)" using assms by (metis mset_eq_imp_distinct_iff mset_map)
  moreover have "distinct (map fst (sort_keys xs)) \<longleftrightarrow> distinct (map fst xs)" for xs :: "(string \<times> 'a) list"
    by (metis mset_eq_imp_distinct_iff mset_map mset_sort sort_keys_def)
  ultimately show ?thesis using assms(1)
    by (intro map_sorted_distinct_set_unique [where f = fst]) (auto simp: distinct_map sort_keys_def)
qed

text \<open>The order of the keys of an object does not matter, nor does that of any object inside it.\<close>

lemma canonical_key_order:
  assumes "distinct (map fst kvs)" "mset kvs = mset lws"
  shows "canon_write (JObj kvs) path = canon_write (JObj lws) path"
  by (simp add: sort_keys_perm [OF assms])

section \<open>Integers and objects\<close>

lemma digit_char_0 [simp]: "digit_char 0 = CHR ''0''"
  by (simp flip: of_char_eq)

lemma strip_zeros_pow:
  "0 < s \<Longrightarrow> \<exists>j. s = strip_zeros s * 10 ^ j \<and> length (show_nat s) = length (show_nat (strip_zeros s)) + j
    \<and> strip_zeros s mod 10 \<noteq> 0"
proof (induction s rule: strip_zeros.induct)
  case (1 s)
  show ?case
  proof (cases "s mod 10 = 0")
    case True
    then have s: "s = s div 10 * 10" "0 < s div 10" using "1.prems" by auto
    then have big: "\<not> s < 10" by auto
    have st: "strip_zeros s = strip_zeros (s div 10)" using True "1.prems" by (simp add: strip_zeros.simps [of s])
    have len: "length (show_nat s) = Suc (length (show_nat (s div 10)))" using big by (simp add: show_nat.simps [of s])
    obtain j where "s div 10 = strip_zeros (s div 10) * 10 ^ j \<and>
        length (show_nat (s div 10)) = length (show_nat (strip_zeros (s div 10))) + j \<and> strip_zeros (s div 10) mod 10 \<noteq> 0"
      using "1.IH" True "1.prems" s(2) by auto
    then have j: "s = strip_zeros s * 10 ^ Suc j" "strip_zeros s mod 10 \<noteq> 0"
      "length (show_nat (s div 10)) = length (show_nat (strip_zeros s)) + j"
      using s(1) unfolding st by (metis mult.assoc power_Suc2, simp_all)
    then show ?thesis using len by (intro exI [of _ "Suc j"]) simp
  next
    case False
    then show ?thesis by (intro exI [of _ 0]) (simp add: strip_zeros.simps [of s])
  qed
qed

lemma wf_num_of_int [simp]: "wf_num (num_of_int i)" "json_ok (JNum (num_of_int i))"
  using strip_zeros_pow [of "nat \<bar>i\<bar>"] by (auto simp: num_of_int_def wf_num_def)

lemma num_of_int_inj [simp]: "num_of_int i = num_of_int j \<longleftrightarrow> i = j"
proof
  assume e: "num_of_int i = num_of_int j"
  show "i = j"
  proof (cases "i = 0 \<or> j = 0")
    case True
    then show ?thesis using e by (auto simp: num_of_int_def split: if_splits)
  next
    case False
    then have s: "(i < 0) = (j < 0)" "strip_zeros (nat \<bar>i\<bar>) = strip_zeros (nat \<bar>j\<bar>)"
      "length (show_nat (nat \<bar>i\<bar>)) = length (show_nat (nat \<bar>j\<bar>))"
      using e by (auto simp: num_of_int_def)
    obtain a b where "nat \<bar>i\<bar> = strip_zeros (nat \<bar>i\<bar>) * 10 ^ a"
      "length (show_nat (nat \<bar>i\<bar>)) = length (show_nat (strip_zeros (nat \<bar>i\<bar>))) + a"
      "nat \<bar>j\<bar> = strip_zeros (nat \<bar>j\<bar>) * 10 ^ b"
      "length (show_nat (nat \<bar>j\<bar>)) = length (show_nat (strip_zeros (nat \<bar>j\<bar>))) + b"
      using strip_zeros_pow [of "nat \<bar>i\<bar>"] strip_zeros_pow [of "nat \<bar>j\<bar>"] False by auto
    then have "nat \<bar>i\<bar> = nat \<bar>j\<bar>" using s by (metis add_left_cancel)
    then show ?thesis using s(1) by auto
  qed
qed simp

lemma show_strip: "0 < s \<Longrightarrow> show_nat s = show_nat (strip_zeros s) @ replicate (length (show_nat s) - length (show_nat (strip_zeros s))) (CHR ''0'')"
proof (induction s rule: strip_zeros.induct)
  case (1 s)
  show ?case
  proof (cases "s mod 10 = 0")
    case True
    have s: "0 < s div 10" "\<not> s < 10" using True "1.prems" by auto
    have st: "strip_zeros s = strip_zeros (s div 10)" using True "1.prems" by (simp add: strip_zeros.simps [of s])
    have sh: "show_nat s = show_nat (s div 10) @ [CHR ''0'']"
      using s(2) True by (simp add: show_nat.simps [of s])
    obtain j where "length (show_nat (s div 10)) = length (show_nat (strip_zeros (s div 10))) + j"
      using strip_zeros_pow [OF s(1)] by blast
    moreover have "show_nat (s div 10) = show_nat (strip_zeros (s div 10))
        @ replicate (length (show_nat (s div 10)) - length (show_nat (strip_zeros (s div 10)))) (CHR ''0'')"
      using "1.IH" True "1.prems" s(1) by auto
    ultimately have "show_nat s = show_nat (strip_zeros (s div 10)) @ replicate (Suc j) (CHR ''0'')"
      unfolding sh by (simp add: replicate_append_same)
    moreover have "length (show_nat s) - length (show_nat (strip_zeros (s div 10))) = Suc j"
      using sh \<open>length (show_nat (s div 10)) = _\<close> by simp
    ultimately show ?thesis unfolding st by metis
  next
    case False
    then show ?thesis by (simp add: strip_zeros.simps [of s])
  qed
qed

lemma length_show_nat: "0 < k \<Longrightarrow> s < 10 ^ k \<Longrightarrow> length (show_nat s) \<le> k"
proof (induction k arbitrary: s)
  case (Suc k)
  show ?case
  proof (cases "s < 10")
    case False
    then have "k \<noteq> 0" using Suc.prems by (cases k) auto
    moreover have "s div 10 < 10 ^ k" using Suc.prems by (simp add: less_mult_imp_div_less mult.commute)
    ultimately show ?thesis using Suc.IH [of "s div 10"] False by (simp add: show_nat.simps [of s])
  qed (simp add: show_nat.simps [of s])
qed simp

text \<open>Integers below \<open>10 ^ 21\<close> print as their decimal digits.\<close>

lemma num_string_int: "\<bar>i\<bar> < 10 ^ 21 \<Longrightarrow> num_string (num_of_int i) = show_int i"
proof (cases "i = 0")
  case True
  then show ?thesis by (simp add: num_of_int_def num_string_def show_int_def show_nat.simps [of 0])
next
  case False
  assume "\<bar>i\<bar> < 10 ^ 21"
  let ?s = "nat \<bar>i\<bar>"
  have pos: "0 < ?s" using False by simp
  have "?s < 10 ^ 21" using \<open>\<bar>i\<bar> < 10 ^ 21\<close> by (simp add: nat_less_iff)
  then have l: "length (show_nat ?s) \<le> 21" by (intro length_show_nat) simp_all
  obtain j where j: "length (show_nat ?s) = length (show_nat (strip_zeros ?s)) + j"
    using strip_zeros_pow [OF pos] by blast
  have "dec_string (strip_zeros ?s) (int (length (show_nat ?s))) = show_nat ?s"
    using show_strip [OF pos] l j by (simp add: dec_string_def Let_def)
  then show ?thesis using False by (auto simp: num_of_int_def num_string_def show_int_def)
qed

lemma norm_obj_eq:
  assumes "norm_val (JObj kvs) = norm_val (JObj lws)" "distinct (map fst kvs)" "distinct (map fst lws)"
    "(k, v) \<in> set kvs" "(k, w) \<in> set lws" "v \<noteq> JUndef"
  shows "norm_val v = norm_val w"
proof -
  have "(k, norm_val v) \<in> set (map (\<lambda>(k, v). (k, norm_val v)) (filter (\<lambda>(k, v). v \<noteq> JUndef) (sort_keys kvs)))"
    using assms(4,6) by force
  then have "(k, norm_val v) \<in> set (map (\<lambda>(k, v). (k, norm_val v)) (filter (\<lambda>(k, v). v \<noteq> JUndef) (sort_keys lws)))"
    using assms(1) by (simp only: norm_val_simps jsval.inject)
  then obtain w' where "(k, w') \<in> set lws" "norm_val w' = norm_val v" by auto
  then show ?thesis using assms(3,5) by (metis eq_key_imp_eq_value)
qed

end
