(* ===== verification/Merkle_Tree.thy ===== *)
theory Merkle_Tree
  imports Hashing
begin

text \<open>
  The RFC 6962 tree of \<open>evidence/merkle-tree.ts\<close>: the class \<open>MerkleTree\<close> over its
  leaf hashes, with the index-based recursions \<open>mth\<close>, \<open>buildPath\<close> and
  \<open>subproof\<close> of the source, and the list-based recursions of the RFC
  (\<open>MTH\<close>, \<open>PATH\<close>, \<open>SUBPROOF\<close>) they are proved equal to.
\<close>

section \<open>Hashes\<close>

text \<open>A \<open>Buffer | string\<close> argument.\<close>

datatype data = Buf bytes | Str string

definition data_bytes :: "data \<Rightarrow> bytes" where
  "data_bytes d = (case d of Buf b \<Rightarrow> b | Str s \<Rightarrow> utf8 s)"

definition hashLeaf :: "(bytes \<Rightarrow> bytes) \<Rightarrow> data \<Rightarrow> bytes" where
  "hashLeaf H d = H ([0] @ data_bytes d)"

definition hashNode :: "(bytes \<Rightarrow> bytes) \<Rightarrow> bytes \<Rightarrow> bytes \<Rightarrow> bytes" where
  "hashNode H left right = H ([1] @ left @ right)"

section \<open>The split point\<close>

function lp2_loop :: "nat \<Rightarrow> nat \<Rightarrow> nat" where
  "lp2_loop k n = (if 0 < k \<and> k * 2 < n then lp2_loop (k * 2) n else k)"
  by pat_completeness auto
termination by (relation "measure (\<lambda>(k, n). n - k)") auto

declare lp2_loop.simps [simp del]

definition largestPowerOfTwoBelow :: "nat \<Rightarrow> nat" where
  "largestPowerOfTwoBelow n = lp2_loop 1 n"

lemma lp2_loop_power:
  assumes "2 ^ i < n"
  shows "\<exists>j. lp2_loop (2 ^ i) n = 2 ^ j \<and> 2 ^ j < n \<and> n \<le> 2 ^ Suc j"
  using assms
proof (induction "n - 2 ^ i" arbitrary: i rule: less_induct)
  case less
  show ?case
  proof (cases "2 ^ i * 2 < n")
    case True
    have "(0::nat) < 2 ^ i" by simp
    with True have "n - 2 ^ Suc i < n - 2 ^ i"
      by (simp only: power_Suc diff_less_mono2)
    from less.hyps [OF this] True
    have "\<exists>j. lp2_loop (2 ^ Suc i) n = 2 ^ j \<and> 2 ^ j < n \<and> n \<le> 2 ^ Suc j"
      by (simp add: mult.commute)
    with True show ?thesis
      by (simp add: lp2_loop.simps [of "2 ^ i"] mult.commute)
  next
    case False
    with less.prems show ?thesis
      by (intro exI [of _ i]) (simp add: lp2_loop.simps [of "2 ^ i"])
  qed
qed

lemma lp_power:
  assumes "1 < n"
  obtains j where "largestPowerOfTwoBelow n = 2 ^ j" "2 ^ j < n" "n \<le> 2 ^ Suc j"
  using lp2_loop_power [of 0 n] assms by (auto simp: largestPowerOfTwoBelow_def)

lemma lp_bounds: "1 < n \<Longrightarrow> 0 < largestPowerOfTwoBelow n \<and> largestPowerOfTwoBelow n < n"
  by (erule lp_power) simp

lemma lp_less: "1 < n \<Longrightarrow> largestPowerOfTwoBelow n < n"
  using lp_bounds by blast

lemma lp_rest: "1 < n \<Longrightarrow> n - largestPowerOfTwoBelow n < n"
  using lp_bounds [of n] by linarith

lemma lp_rest2: "1 < e - s \<Longrightarrow> e - (s + largestPowerOfTwoBelow (e - s)) < e - s"
  using lp_bounds [of "e - s"] by linarith

lemma lp_min: "1 < n \<Longrightarrow> min n (largestPowerOfTwoBelow n) < n"
  using lp_less [of n] by simp

lemmas lp_shrinks = lp_less lp_rest lp_rest2 lp_min

lemma lp_eqI:
  assumes "2 ^ j < n" "n \<le> 2 ^ Suc j"
  shows "largestPowerOfTwoBelow n = 2 ^ j"
proof -
  have "1 < n" using assms(1) by (metis less_one not_less_iff_gr_or_eq one_le_numeral
      one_le_power order_le_less_trans)
  then obtain i where i: "largestPowerOfTwoBelow n = 2 ^ i" "2 ^ i < n" "n \<le> 2 ^ Suc i"
    by (rule lp_power)
  have "(2::nat) ^ i < 2 ^ Suc j" "(2::nat) ^ j < 2 ^ Suc i" using assms i by linarith+
  then have "i = j" by (metis Suc_leI le_antisym less_Suc_eq_le one_less_numeral_iff
      power_less_imp_less_exp semiring_norm(76))
  with i show ?thesis by simp
qed

lemma lp_power_of_two [simp]: "largestPowerOfTwoBelow (2 ^ Suc j) = 2 ^ j"
  by (rule lp_eqI) simp_all

lemma lp_double [simp]: "largestPowerOfTwoBelow (2 * 2 ^ j) = 2 ^ j"
  using lp_power_of_two [of j] by simp

lemma double_power_not_le_1 [simp]: "\<not> 2 * 2 ^ j \<le> Suc 0"
proof -
  have "(1::nat) \<le> 2 ^ j" by simp
  then show ?thesis by linarith
qed

section \<open>The tree\<close>

record merkle_tree =
  leaves :: "bytes list"

definition empty_tree :: merkle_tree where
  "empty_tree = \<lparr>leaves = []\<rparr>"

definition tree_append :: "(bytes \<Rightarrow> bytes) \<Rightarrow> merkle_tree \<Rightarrow> data \<Rightarrow> merkle_tree \<times> nat" where
  "tree_append H t d =
     (let t' = t\<lparr>leaves := leaves t @ [hashLeaf H d]\<rparr> in (t', length (leaves t') - 1))"

datatype leaf_hash = LeafBuf bytes | LeafHex string

definition appendLeafHash :: "merkle_tree \<Rightarrow> leaf_hash \<Rightarrow> string + merkle_tree \<times> nat" where
  "appendLeafHash t leafHash =
     (let buf = (case leafHash of LeafBuf b \<Rightarrow> b | LeafHex s \<Rightarrow> of_hex s)
      in if length buf \<noteq> 32
         then Inl (''leaf hash must be 32 bytes, got '' @ show_nat (length buf))
         else let t' = t\<lparr>leaves := leaves t @ [buf]\<rparr> in Inr (t', length (leaves t') - 1))"

definition tree_size :: "merkle_tree \<Rightarrow> nat" where
  "tree_size t = length (leaves t)"

definition leafHashAt :: "merkle_tree \<Rightarrow> int \<Rightarrow> string + string" where
  "leafHashAt t index =
     (if 0 \<le> index \<and> nat index < length (leaves t) then Inr (to_hex (leaves t ! nat index))
      else Inl (''no leaf at index '' @ show_int index))"

text \<open>\<open>mth(start, end)\<close>.\<close>

function mth :: "(bytes \<Rightarrow> bytes) \<Rightarrow> bytes list \<Rightarrow> nat \<Rightarrow> nat \<Rightarrow> bytes" where
  "mth H ls start end =
     (let n = end - start in
      if n = 0 then H []
      else if n = 1 then ls ! start
      else let k = largestPowerOfTwoBelow n
           in hashNode H (mth H ls start (start + k)) (mth H ls (start + k) end))"
  by pat_completeness auto
termination
  by (relation "measure (\<lambda>(H, ls, s, e). e - s)") (auto simp: not_le intro: lp_shrinks)

declare mth.simps [simp del]

definition tree_root :: "(bytes \<Rightarrow> bytes) \<Rightarrow> merkle_tree \<Rightarrow> string" where
  "tree_root H t = to_hex (mth H (leaves t) 0 (length (leaves t)))"

section \<open>Proofs\<close>

record inclusion_proof =
  ip_leafIndex :: int
  ip_treeSize :: int
  ip_path :: "string list"

record consistency_proof =
  cp_firstSize :: int
  cp_secondSize :: int
  cp_path :: "string list"

text \<open>\<open>buildPath(m, start, end, out)\<close>: what it appends to \<open>out\<close>.\<close>

function buildPath :: "(bytes \<Rightarrow> bytes) \<Rightarrow> bytes list \<Rightarrow> nat \<Rightarrow> nat \<Rightarrow> nat \<Rightarrow> string list" where
  "buildPath H ls m start end =
     (let n = end - start in
      if n \<le> 1 then []
      else let k = largestPowerOfTwoBelow n in
        if m < k
        then buildPath H ls m start (start + k) @ [to_hex (mth H ls (start + k) end)]
        else buildPath H ls (m - k) (start + k) end @ [to_hex (mth H ls start (start + k))])"
  by pat_completeness auto
termination
  by (relation "measure (\<lambda>(H, ls, m, s, e). e - s)") (auto simp: not_le intro: lp_shrinks)

declare buildPath.simps [simp del]

definition inclusionProof :: "(bytes \<Rightarrow> bytes) \<Rightarrow> merkle_tree \<Rightarrow> int \<Rightarrow> string + inclusion_proof" where
  "inclusionProof H t leafIndex =
     (let n = length (leaves t) in
      if leafIndex < 0 \<or> leafIndex \<ge> int n
      then Inl (''leaf index '' @ show_int leafIndex @ '' out of range for tree of size '' @ show_nat n)
      else Inr \<lparr>ip_leafIndex = leafIndex, ip_treeSize = int n,
                ip_path = buildPath H (leaves t) (nat leafIndex) 0 n\<rparr>)"

text \<open>\<open>subproof(m, start, end, b, out)\<close>: what it appends to \<open>out\<close>. The call sites keep
  \<open>0 < m\<close> and \<open>m \<le> end - start\<close>; the guard \<open>n \<le> 1\<close> only closes the recursion
  outside them.\<close>

function subproof :: "(bytes \<Rightarrow> bytes) \<Rightarrow> bytes list \<Rightarrow> nat \<Rightarrow> nat \<Rightarrow> nat \<Rightarrow> bool \<Rightarrow> string list" where
  "subproof H ls m start end b =
     (let n = end - start in
      if m = n then (if \<not> b then [to_hex (mth H ls start end)] else [])
      else if n \<le> 1 then []
      else let k = largestPowerOfTwoBelow n in
        if m \<le> k
        then subproof H ls m start (start + k) b @ [to_hex (mth H ls (start + k) end)]
        else subproof H ls (m - k) (start + k) end False @ [to_hex (mth H ls start (start + k))])"
  by pat_completeness auto
termination
  by (relation "measure (\<lambda>(H, ls, m, s, e, b). e - s)") (auto simp: not_le intro: lp_shrinks)

declare subproof.simps [simp del]

definition consistencyProof :: "(bytes \<Rightarrow> bytes) \<Rightarrow> merkle_tree \<Rightarrow> int \<Rightarrow> string + consistency_proof" where
  "consistencyProof H t firstSize =
     (let n = length (leaves t) in
      if firstSize < 0 \<or> firstSize > int n
      then Inl (''first size '' @ show_int firstSize @ '' out of range for tree of size '' @ show_nat n)
      else Inr \<lparr>cp_firstSize = firstSize, cp_secondSize = int n,
                cp_path = (if 0 < firstSize \<and> firstSize < int n
                  then subproof H (leaves t) (nat firstSize) 0 n True else [])\<rparr>)"

section \<open>The recursions of RFC 6962 on lists\<close>

function MTH :: "(bytes \<Rightarrow> bytes) \<Rightarrow> bytes list \<Rightarrow> bytes" where
  "MTH H D =
     (if D = [] then H [] else if length D = 1 then hd D
      else let k = largestPowerOfTwoBelow (length D)
           in hashNode H (MTH H (take k D)) (MTH H (drop k D)))"
  by pat_completeness auto
termination
  by (relation "measure (\<lambda>(H, D). length D)") (auto simp: neq_Nil_conv intro!: lp_shrinks)

declare MTH.simps [simp del]

lemma MTH_single [simp]: "MTH H [x] = x"
  by (simp add: MTH.simps [of H "[x]"])

lemma MTH_split:
  "1 < length D \<Longrightarrow> MTH H D = hashNode H (MTH H (take (largestPowerOfTwoBelow (length D)) D))
     (MTH H (drop (largestPowerOfTwoBelow (length D)) D))"
  by (subst MTH.simps) (auto simp: Let_def)

function PATH :: "(bytes \<Rightarrow> bytes) \<Rightarrow> nat \<Rightarrow> bytes list \<Rightarrow> bytes list" where
  "PATH H m D =
     (if length D \<le> 1 then []
      else let k = largestPowerOfTwoBelow (length D) in
        if m < k then PATH H m (take k D) @ [MTH H (drop k D)]
        else PATH H (m - k) (drop k D) @ [MTH H (take k D)])"
  by pat_completeness auto
termination
  by (relation "measure (\<lambda>(H, m, D). length D)") (auto simp: not_le intro: lp_shrinks)

declare PATH.simps [simp del]

function SUBPROOF :: "(bytes \<Rightarrow> bytes) \<Rightarrow> nat \<Rightarrow> bytes list \<Rightarrow> bool \<Rightarrow> bytes list" where
  "SUBPROOF H m D b =
     (if m = length D then (if b then [] else [MTH H D])
      else if length D \<le> 1 then []
      else let k = largestPowerOfTwoBelow (length D) in
        if m \<le> k then SUBPROOF H m (take k D) b @ [MTH H (drop k D)]
        else SUBPROOF H (m - k) (drop k D) False @ [MTH H (take k D)])"
  by pat_completeness auto
termination
  by (relation "measure (\<lambda>(H, m, D, b). length D)") (auto simp: not_le intro: lp_shrinks)

declare SUBPROOF.simps [simp del]

section \<open>The source computes the RFC's recursions\<close>

text \<open>The leaves in a half-open range.\<close>

definition leaf_range :: "bytes list \<Rightarrow> nat \<Rightarrow> nat \<Rightarrow> bytes list" where
  "leaf_range ls s e = take (e - s) (drop s ls)"

lemma length_leaf_range: "e \<le> length ls \<Longrightarrow> length (leaf_range ls s e) = e - s"
  by (simp add: leaf_range_def)

lemma take_leaf_range: "k \<le> e - s \<Longrightarrow> take k (leaf_range ls s e) = leaf_range ls s (s + k)"
  by (simp add: leaf_range_def min_def)

lemma drop_leaf_range: "drop k (leaf_range ls s e) = leaf_range ls (s + k) e"
  by (simp add: leaf_range_def drop_take add.commute)

lemma leaf_range_all [simp]: "leaf_range ls 0 (length ls) = ls"
  by (simp add: leaf_range_def)

lemma leaf_range_single: "s < length ls \<Longrightarrow> e - s = 1 \<Longrightarrow> leaf_range ls s e = [ls ! s]"
  by (simp add: leaf_range_def take_Suc hd_drop_conv_nth)

text \<open>The facts about a range of more than one leaf that the three inductions share.\<close>

lemma leaf_range_split:
  assumes "s \<le> e" "e \<le> length ls" "1 < e - s"
  defines "k \<equiv> largestPowerOfTwoBelow (e - s)"
  shows "length (leaf_range ls s e) = e - s" "s + k \<le> e" "s + k \<le> length ls"
    "take k (leaf_range ls s e) = leaf_range ls s (s + k)"
    "drop k (leaf_range ls s e) = leaf_range ls (s + k) e"
proof -
  have k: "k \<le> e - s" using lp_bounds [OF assms(3)] by (simp add: k_def)
  then show "s + k \<le> e" "s + k \<le> length ls" using assms(1,2) by linarith+
  show "length (leaf_range ls s e) = e - s" using assms(2) by (rule length_leaf_range)
  show "take k (leaf_range ls s e) = leaf_range ls s (s + k)" using k by (rule take_leaf_range)
  show "drop k (leaf_range ls s e) = leaf_range ls (s + k) e" by (rule drop_leaf_range)
qed

lemma mth_eq_MTH: "s \<le> e \<Longrightarrow> e \<le> length ls \<Longrightarrow> mth H ls s e = MTH H (leaf_range ls s e)"
proof (induction H ls s e rule: mth.induct)
  case (1 H ls s e)
  consider "e - s = 0" | "e - s = 1" | "1 < e - s" by linarith
  then show ?case
  proof cases
    case 1
    then show ?thesis by (simp add: mth.simps [of H ls s e] MTH.simps [of H] leaf_range_def)
  next
    case 2
    then have "leaf_range ls s e = [ls ! s]" using "1.prems" by (intro leaf_range_single) auto
    with 2 show ?thesis by (simp add: mth.simps [of H ls s e])
  next
    case 3
    let ?k = "largestPowerOfTwoBelow (e - s)"
    note sp = leaf_range_split [OF "1.prems" 3]
    have ih: "mth H ls s (s + ?k) = MTH H (leaf_range ls s (s + ?k))"
      "mth H ls (s + ?k) e = MTH H (leaf_range ls (s + ?k) e)"
      using "1.IH" [OF refl _ _ refl] 3 sp(2,3) "1.prems" by simp_all
    have "mth H ls s e = hashNode H (mth H ls s (s + ?k)) (mth H ls (s + ?k) e)"
      using 3 by (subst mth.simps) (auto simp: Let_def)
    also have "\<dots> = MTH H (leaf_range ls s e)"
      using 3 MTH_split [of "leaf_range ls s e" H] by (simp only: ih sp)
    finally show ?thesis .
  qed
qed

lemma PATH_split:
  "1 < length D \<Longrightarrow> PATH H m D =
    (let k = largestPowerOfTwoBelow (length D) in
     if m < k then PATH H m (take k D) @ [MTH H (drop k D)]
     else PATH H (m - k) (drop k D) @ [MTH H (take k D)])"
  by (subst PATH.simps) simp

lemma PATH_short: "length D \<le> 1 \<Longrightarrow> PATH H m D = []"
  by (simp add: PATH.simps [of H m D])

lemma SUBPROOF_same: "m = length D \<Longrightarrow> SUBPROOF H m D b = (if b then [] else [MTH H D])"
  by (subst SUBPROOF.simps) simp

lemma SUBPROOF_short: "m \<noteq> length D \<Longrightarrow> length D \<le> 1 \<Longrightarrow> SUBPROOF H m D b = []"
  by (simp add: SUBPROOF.simps [of H m D b])

lemma SUBPROOF_split:
  "m \<noteq> length D \<Longrightarrow> 1 < length D \<Longrightarrow> SUBPROOF H m D b =
    (let k = largestPowerOfTwoBelow (length D) in
     if m \<le> k then SUBPROOF H m (take k D) b @ [MTH H (drop k D)]
     else SUBPROOF H (m - k) (drop k D) False @ [MTH H (take k D)])"
  by (subst SUBPROOF.simps) simp

lemma buildPath_eq_PATH:
  "s \<le> e \<Longrightarrow> e \<le> length ls \<Longrightarrow> buildPath H ls m s e = map to_hex (PATH H m (leaf_range ls s e))"
proof (induction H ls m s e rule: buildPath.induct)
  case (1 H ls m s e)
  show ?case
  proof (cases "e - s \<le> 1")
    case True
    then show ?thesis using "1.prems"
      by (simp add: buildPath.simps [of H ls m s e] PATH_short length_leaf_range)
  next
    case False
    then have n: "1 < e - s" by simp
    let ?k = "largestPowerOfTwoBelow (e - s)"
    note sp = leaf_range_split [OF "1.prems" n]
    have ih: "m < ?k \<Longrightarrow> buildPath H ls m s (s + ?k) = map to_hex (PATH H m (leaf_range ls s (s + ?k)))"
      "\<not> m < ?k \<Longrightarrow> buildPath H ls (m - ?k) (s + ?k) e
         = map to_hex (PATH H (m - ?k) (leaf_range ls (s + ?k) e))"
      using "1.IH" [OF refl False refl] sp(2,3) "1.prems" by simp_all
    have mt: "mth H ls s (s + ?k) = MTH H (leaf_range ls s (s + ?k))"
      "mth H ls (s + ?k) e = MTH H (leaf_range ls (s + ?k) e)"
      using sp(2,3) "1.prems" by (simp_all add: mth_eq_MTH)
    have "buildPath H ls m s e =
      (if m < ?k then buildPath H ls m s (s + ?k) @ [to_hex (mth H ls (s + ?k) e)]
       else buildPath H ls (m - ?k) (s + ?k) e @ [to_hex (mth H ls s (s + ?k))])"
      using False by (subst buildPath.simps) (simp add: Let_def)
    also have "\<dots> = map to_hex (PATH H m (leaf_range ls s e))"
      using PATH_split [of "leaf_range ls s e" H m] n by (simp add: Let_def sp ih mt)
    finally show ?thesis .
  qed
qed

lemma subproof_eq_SUBPROOF:
  "s \<le> e \<Longrightarrow> e \<le> length ls \<Longrightarrow>
    subproof H ls m s e b = map to_hex (SUBPROOF H m (leaf_range ls s e) b)"
proof (induction H ls m s e b rule: subproof.induct)
  case (1 H ls m s e b)
  consider "m = e - s" | "m \<noteq> e - s" "e - s \<le> 1" | "m \<noteq> e - s" "1 < e - s" by linarith
  then show ?case
  proof cases
    case 1
    then show ?thesis using "1.prems"
      by (subst subproof.simps) (simp add: SUBPROOF_same length_leaf_range mth_eq_MTH)
  next
    case 2
    then show ?thesis using "1.prems"
      by (subst subproof.simps) (simp add: SUBPROOF_short length_leaf_range)
  next
    case 3
    let ?k = "largestPowerOfTwoBelow (e - s)"
    note sp = leaf_range_split [OF "1.prems" 3(2)]
    have ih: "m \<le> ?k \<Longrightarrow> subproof H ls m s (s + ?k) b
         = map to_hex (SUBPROOF H m (leaf_range ls s (s + ?k)) b)"
      "\<not> m \<le> ?k \<Longrightarrow> subproof H ls (m - ?k) (s + ?k) e False
         = map to_hex (SUBPROOF H (m - ?k) (leaf_range ls (s + ?k) e) False)"
      using "1.IH" [OF refl 3(1) _ refl] 3 sp(2,3) "1.prems" by simp_all
    have mt: "mth H ls s (s + ?k) = MTH H (leaf_range ls s (s + ?k))"
      "mth H ls (s + ?k) e = MTH H (leaf_range ls (s + ?k) e)"
      using sp(2,3) "1.prems" by (simp_all add: mth_eq_MTH)
    have "subproof H ls m s e b =
      (if m \<le> ?k then subproof H ls m s (s + ?k) b @ [to_hex (mth H ls (s + ?k) e)]
       else subproof H ls (m - ?k) (s + ?k) e False @ [to_hex (mth H ls s (s + ?k))])"
      using 3 by (subst subproof.simps) (simp add: Let_def)
    also have "\<dots> = map to_hex (SUBPROOF H m (leaf_range ls s e) b)"
      using SUBPROOF_split [of m "leaf_range ls s e" H b] 3 by (simp add: Let_def sp ih mt)
    finally show ?thesis .
  qed
qed

lemma tree_root_eq_MTH: "tree_root H t = to_hex (MTH H (leaves t))"
  by (simp add: tree_root_def mth_eq_MTH)

end
