(* ===== verification/Merkle_Proofs.thy ===== *)
theory Merkle_Proofs
  imports Proof_Verifier
begin

text \<open>
  Why the iterative verifier is right. The walk of \<open>Proof_Verifier\<close> over a path of the
  right length computes a recursive reconstruction of the root that follows the tree
  (\<open>recon\<close> for inclusion, \<open>recon2\<close> for consistency), and no other length is
  accepted. From that: honest proofs verify, and a proof that verifies determines the
  leaves unless the digest collides on an input that occurs.
\<close>

section \<open>The shape of a tree\<close>

function depth :: "nat \<Rightarrow> nat" where
  "depth n = (if n \<le> 1 then 0 else Suc (depth (largestPowerOfTwoBelow n)))"
  by pat_completeness auto
termination by (relation "measure id") (auto intro: lp_shrinks)

function plen :: "nat \<Rightarrow> nat \<Rightarrow> nat" where
  "plen m n = (if n \<le> 1 then 0
     else let k = largestPowerOfTwoBelow n in
       if m < k then Suc (plen m k) else Suc (plen (m - k) (n - k)))"
  by pat_completeness auto
termination by (relation "measure snd") (auto intro: lp_shrinks)

declare depth.simps [simp del] plen.simps [simp del]

lemma depth_power [simp]: "depth (2 ^ j) = j"
proof (induction j)
  case 0
  then show ?case by (subst depth.simps) simp
next
  case (Suc j)
  then show ?case by (subst depth.simps) simp
qed

lemma depth_Suc: "2 ^ j < n \<Longrightarrow> n \<le> 2 ^ Suc j \<Longrightarrow> depth n = Suc j"
  by (subst depth.simps) (auto simp: lp_eqI)

lemma depth_le: "n \<le> 2 ^ j \<Longrightarrow> depth n \<le> j"
proof (induction j arbitrary: n)
  case 0
  then show ?case by (simp add: depth.simps)
next
  case (Suc j)
  show ?case
  proof (cases "n \<le> 2 ^ j")
    case True
    then show ?thesis by (intro le_SucI Suc.IH)
  next
    case False
    then show ?thesis using depth_Suc [of j n] Suc.prems by simp
  qed
qed

lemma plen_power: "m < 2 ^ d \<Longrightarrow> plen m (2 ^ d) = d"
proof (induction d arbitrary: m)
  case 0
  then show ?case by (simp add: plen.simps)
next
  case (Suc d)
  then show ?case by (subst plen.simps) (simp add: Let_def)
qed

text \<open>Splitting a number into the part above bit \<open>d\<close> and the part below, one bit down.\<close>

lemma down_low: "a * 2 ^ Suc d + m = (2 * a) * 2 ^ d + (m::nat)"
  by simp

lemma down_high: "2 ^ d \<le> m \<Longrightarrow> a * 2 ^ Suc d + m = (2 * a + 1) * 2 ^ d + (m - 2 ^ d :: nat)"
  by (simp add: algebra_simps)

lemma down_any:
  assumes "r < (2::nat) ^ Suc d"
  obtains B r' where "b * 2 ^ Suc d + r = B * 2 ^ d + r'" "r' < 2 ^ d" "B div 2 = b"
proof (cases "r < 2 ^ d")
  case True
  with that [of "2 * b" r] show ?thesis by simp
next
  case False
  then have "b * 2 ^ Suc d + r = (2 * b + 1) * 2 ^ d + (r - 2 ^ d)" "r - 2 ^ d < 2 ^ d"
    using assms by (simp_all add: algebra_simps)
  with that [of "2 * b + 1" "r - 2 ^ d"] show ?thesis by simp
qed

lemma length_Suc_snoc: "length p = Suc n \<Longrightarrow> \<exists>q x. p = q @ [x] \<and> length q = n"
  by (cases p rule: rev_cases) auto

section \<open>Inclusion: the walk is a reconstruction\<close>

function recon :: "(bool \<Rightarrow> bytes \<Rightarrow> 'a \<Rightarrow> 'a) \<Rightarrow> nat \<Rightarrow> nat \<Rightarrow> 'a \<Rightarrow> bytes list \<Rightarrow> 'a" where
  "recon f m n acc p = (if n \<le> 1 then acc
     else let k = largestPowerOfTwoBelow n in
       if m < k then f False (last p) (recon f m k acc (butlast p))
       else f True (last p) (recon f (m - k) (n - k) acc (butlast p)))"
  by pat_completeness auto
termination by (relation "measure (\<lambda>(f, m, n, acc, p). n)") (auto intro: lp_shrinks)

declare recon.simps [simp del]

lemma recon_one: "n \<le> 1 \<Longrightarrow> recon f m n acc p = acc"
  by (simp add: recon.simps)

lemma recon_left: "1 < n \<Longrightarrow> k = largestPowerOfTwoBelow n \<Longrightarrow> m < k \<Longrightarrow>
    recon f m n acc (q @ [x]) = f False x (recon f m k acc q)"
  by (subst recon.simps) simp

lemma recon_right: "1 < n \<Longrightarrow> k = largestPowerOfTwoBelow n \<Longrightarrow> k \<le> m \<Longrightarrow>
    recon f m n acc (q @ [x]) = f True x (recon f (m - k) (n - k) acc q)"
  by (subst recon.simps) (simp add: Let_def)

lemma recon_right_power:
  "2 ^ d \<le> m \<Longrightarrow> recon f m (2 * 2 ^ d) acc (q @ [x]) = f True x (recon f (m - 2 ^ d) (2 ^ d) acc q)"
  using recon_right [of "2 * 2 ^ d" "2 ^ d" m f acc q x] double_power_not_le_1 [of d]
  by (simp add: not_le)

text \<open>One more sibling after a walk that stopped at \<open>(fn, sn)\<close>.\<close>

lemma nwalk_snoc:
  "nwalk f fn sn acc q = Some (a, b, r) \<Longrightarrow> b \<noteq> 0 \<Longrightarrow> nstep a b = (l, a', b') \<Longrightarrow>
    nwalk f fn sn acc (q @ [x]) = Some (a', b', f l x r)"
  by (simp add: nwalk_append)

lemma walk_full:
  "m < 2 ^ d \<Longrightarrow> r < 2 ^ d \<Longrightarrow> a < b \<Longrightarrow> length p = d \<Longrightarrow>
    nwalk f (a * 2 ^ d + m) (b * 2 ^ d + r) acc p = Some (a, b, recon f m (2 ^ d) acc p)"
proof (induction d arbitrary: a b m r p)
  case 0
  then show ?case by (simp add: recon_one)
next
  case (Suc d)
  then obtain q x where p: "p = q @ [x]" "length q = d" by (auto dest: length_Suc_snoc)
  obtain B r' where B: "b * 2 ^ Suc d + r = B * 2 ^ d + r'" "r' < 2 ^ d" "B div 2 = b"
    using Suc.prems(2) by (rule down_any)
  have ab: "2 * a + 1 < B" using B(3) Suc.prems(3) by linarith
  show ?case
  proof (cases "m < 2 ^ d")
    case True
    have "nwalk f ((2 * a) * 2 ^ d + m) (B * 2 ^ d + r') acc q
        = Some (2 * a, B, recon f m (2 ^ d) acc q)"
      by (rule Suc.IH) (use True B ab p in auto)
    then have "nwalk f (a * 2 ^ Suc d + m) (b * 2 ^ Suc d + r) acc p
        = Some (a, B div 2, f False x (recon f m (2 ^ d) acc q))"
      unfolding p(1) B(1) down_low [of a d m] by (rule nwalk_snoc) (use ab in \<open>simp_all add: nstep_even\<close>)
    with True B(3) p(1) show ?thesis by (simp add: recon_left [of _ "2 ^ d"])
  next
    case False
    have w: "nwalk f ((2 * a + 1) * 2 ^ d + (m - 2 ^ d)) (B * 2 ^ d + r') acc q
        = Some (2 * a + 1, B, recon f (m - 2 ^ d) (2 ^ d) acc q)"
      by (rule Suc.IH) (use False Suc.prems(1) B ab p in auto)
    have m: "a * 2 ^ Suc d + m = (2 * a + 1) * 2 ^ d + (m - 2 ^ d)"
      using False by (intro down_high) simp
    have "nwalk f (a * 2 ^ Suc d + m) (b * 2 ^ Suc d + r) acc p
        = Some (a, B div 2, f True x (recon f (m - 2 ^ d) (2 ^ d) acc q))"
      unfolding p(1) B(1) m by (rule nwalk_snoc [OF w]) (use ab in \<open>auto simp: nstep_odd\<close>)
    with False B(3) p(1) show ?thesis by (simp add: recon_right_power)
  qed
qed

lemma walk_edge:
  "0 < n \<Longrightarrow> m < n \<Longrightarrow> length p = plen m n \<Longrightarrow>
    nwalk f (a * 2 ^ depth n + m) (a * 2 ^ depth n + (n - 1)) acc p = Some (a, a, recon f m n acc p)"
proof (induction n arbitrary: a m p rule: less_induct)
  case (less n)
  show ?case
  proof (cases "n = 1")
    case True
    with less.prems show ?thesis by (simp add: recon_one depth.simps plen.simps)
  next
    case False
    with less.prems have n: "1 < n" by simp
    then obtain j where k: "largestPowerOfTwoBelow n = 2 ^ j" "2 ^ j < n" "n \<le> 2 ^ Suc j"
      by (rule lp_power)
    have d: "depth n = Suc j" by (rule depth_Suc [OF k(2,3)])
    have sn: "a * 2 ^ Suc j + (n - 1) = (2 * a + 1) * 2 ^ j + (n - 1 - 2 ^ j)"
      using k by (intro down_high) simp
    show ?thesis
    proof (cases "m < 2 ^ j")
      case True
      then have "length p = Suc j" using less.prems(3) n k(1)
        by (simp add: plen.simps [of m n] plen_power)
      then obtain q x where p: "p = q @ [x]" "length q = j" by (auto dest: length_Suc_snoc)
      have "nwalk f ((2 * a) * 2 ^ j + m) ((2 * a + 1) * 2 ^ j + (n - 1 - 2 ^ j)) acc q
          = Some (2 * a, 2 * a + 1, recon f m (2 ^ j) acc q)"
        by (rule walk_full) (use True k p in auto)
      then have "nwalk f (a * 2 ^ Suc j + m) (a * 2 ^ Suc j + (n - 1)) acc p
          = Some (a, a, f False x (recon f m (2 ^ j) acc q))"
        unfolding p(1) sn down_low [of a j m] by (rule nwalk_snoc) (simp_all add: nstep_even)
      with True p(1) n k(1) d show ?thesis by (simp add: recon_left)
    next
      case False
      let ?n' = "n - 2 ^ j" and ?m' = "m - 2 ^ j"
      let ?d' = "depth ?n'" and ?a' = "(2 * a + 1) * 2 ^ (j - depth ?n')"
      have "length p = Suc (plen ?m' ?n')" using False less.prems(3) n k(1)
        by (simp add: plen.simps [of m n] Let_def)
      then obtain q x where p: "p = q @ [x]" "length q = plen ?m' ?n'" by (auto dest: length_Suc_snoc)
      have dj: "?d' \<le> j" by (rule depth_le) (use k in simp)
      have pw: "?a' * 2 ^ ?d' = (2 * a + 1) * 2 ^ j"
        using dj by (simp only: mult.assoc flip: power_add) simp
      have "nwalk f (?a' * 2 ^ ?d' + ?m') (?a' * 2 ^ ?d' + (?n' - 1)) acc q
          = Some (?a', ?a', recon f ?m' ?n' acc q)"
        by (rule less.IH) (use k False less.prems p in auto)
      then have "nwalk f ((2 * a + 1) * 2 ^ j + ?m') ((2 * a + 1) * 2 ^ j + (n - 1 - 2 ^ j)) acc q
          = Some (?a', ?a', recon f ?m' ?n' acc q)"
        unfolding pw by (simp add: diff_commute)
      moreover have "a * 2 ^ Suc j + m = (2 * a + 1) * 2 ^ j + ?m'"
        using False by (intro down_high) simp
      ultimately have "nwalk f (a * 2 ^ Suc j + m) (a * 2 ^ Suc j + (n - 1)) acc p
          = Some (a, a, f True x (recon f ?m' ?n' acc q))"
        unfolding p(1) sn by (intro nwalk_snoc [where a = ?a' and b = ?a'])
          (simp_all only: nstep_edge, simp_all)
      with False p(1) n k(1) d show ?thesis by (simp add: recon_right)
    qed
  qed
qed

text \<open>Only a path of the right length ends with \<open>sn = 0\<close>.\<close>

lemma nwalk_stop_length:
  assumes full: "\<And>q. length q = L \<Longrightarrow> \<exists>x r. nwalk f fn sn acc q = Some (x, 0, r)"
    and stop: "nwalk f fn sn acc p = Some (y, 0, s)"
  shows "length p = L"
proof (rule linorder_cases [of "length p" L])
  assume less: "length p < L"
  then obtain d where d: "L = length p + Suc d" using less_iff_Suc_add by auto
  let ?q = "replicate (Suc d) ([] :: bytes)"
  have "length (p @ ?q) = L" using d by simp
  then obtain x r where "nwalk f fn sn acc (p @ ?q) = Some (x, 0, r)" using full by blast
  then show ?thesis using stop by (simp add: nwalk_append)
next
  assume more: "L < length p"
  then obtain x r where t: "nwalk f fn sn acc (take L p) = Some (x, 0, r)"
    using full [of "take L p"] by auto
  have "drop L p \<noteq> []" using more by simp
  then obtain z zs where "drop L p = z # zs" by (cases "drop L p") auto
  then have "nwalk f fn sn acc (take L p @ drop L p) = None"
    using t by (simp only: nwalk_append) simp
  with stop show ?thesis by simp
qed simp

lemma walk_inclusion:
  "m < n \<Longrightarrow> length p = plen m n \<Longrightarrow> nwalk f m (n - 1) acc p = Some (0, 0, recon f m n acc p)"
  using walk_edge [of n m p f 0 acc] by simp

lemma walk_inclusion_stop:
  assumes "m < n" "nwalk f m (n - 1) acc p = Some (y, 0, s)"
  shows "length p = plen m n \<and> s = recon f m n acc p"
proof -
  have "\<exists>x r. nwalk f m (n - 1) acc q = Some (x, 0, r)" if "length q = plen m n" for q
    using walk_inclusion [OF assms(1) that, of f acc] by blast
  then have "length p = plen m n" using assms(2) by (rule nwalk_stop_length)
  with walk_inclusion [OF assms(1) this, of f acc] assms(2) show ?thesis by simp
qed

section \<open>Inclusion: completeness and soundness\<close>

definition node_input :: "bytes \<Rightarrow> bytes \<Rightarrow> bytes" where
  "node_input l r = [1] @ l @ r"

definition leaf_input :: "data \<Rightarrow> bytes" where
  "leaf_input d = [0] @ data_bytes d"

lemma node_input_inj: "length l = length l' \<Longrightarrow> node_input l r = node_input l' r' \<longleftrightarrow> l = l' \<and> r = r'"
  by (simp add: node_input_def)

lemma leaf_node_inputs: "leaf_input d \<noteq> node_input l r"
  by (simp add: leaf_input_def node_input_def)

lemma hashNode_input: "hashNode H l r = H (node_input l r)"
  by (simp add: hashNode_def node_input_def)

lemma hashLeaf_input: "hashLeaf H d = H (leaf_input d)"
  by (simp add: hashLeaf_def leaf_input_def)

definition fold_incl :: "(bytes \<Rightarrow> bytes) \<Rightarrow> bool \<Rightarrow> bytes \<Rightarrow> bytes \<Rightarrow> bytes" where
  "fold_incl H left node hash = (if left then hashNode H node hash else hashNode H hash node)"

lemma fold_incl_simps [simp]:
  "fold_incl H True node hash = hashNode H node hash"
  "fold_incl H False node hash = hashNode H hash node"
  by (simp_all add: fold_incl_def)

lemma recon_PATH: "m < length D \<Longrightarrow> recon (fold_incl H) m (length D) (D ! m) (PATH H m D) = MTH H D"
proof (induction H m D rule: PATH.induct)
  case (1 H m D)
  show ?case
  proof (cases "length D \<le> 1")
    case True
    then obtain d where "D = [d]" using "1.prems" by (cases D) auto
    then show ?thesis using "1.prems" by (simp add: recon_one)
  next
    case False
    let ?k = "largestPowerOfTwoBelow (length D)"
    have lp: "0 < ?k" "?k < length D" using lp_bounds [of "length D"] False by auto
    show ?thesis
    proof (cases "m < ?k")
      case True
      then have "recon (fold_incl H) m ?k (D ! m) (PATH H m (take ?k D)) = MTH H (take ?k D)"
        using "1.IH"(1) [OF False refl True] lp by simp
      with True False lp show ?thesis
        by (simp add: PATH_split Let_def recon_left MTH_split [of D])
    next
      case m: False
      then have "recon (fold_incl H) (m - ?k) (length D - ?k) (D ! m) (PATH H (m - ?k) (drop ?k D))
          = MTH H (drop ?k D)"
        using "1.IH"(2) [OF False refl m] "1.prems" lp by simp
      with m False lp show ?thesis
        by (simp add: PATH_split Let_def recon_right MTH_split [of D])
    qed
  qed
qed

lemma length_PATH: "m < length D \<Longrightarrow> length (PATH H m D) = plen m (length D)"
proof (induction H m D rule: PATH.induct)
  case (1 H m D)
  show ?case
  proof (cases "length D \<le> 1")
    case True
    then show ?thesis by (simp add: PATH_short plen.simps)
  next
    case False
    have lp: "0 < largestPowerOfTwoBelow (length D)" "largestPowerOfTwoBelow (length D) < length D"
      using lp_bounds [of "length D"] False by auto
    with 1 False show ?thesis
      by (auto simp: PATH_split Let_def plen.simps [of m "length D"])
  qed
qed

text \<open>The inputs of the digest in a tree and in a reconstruction.\<close>

function mth_inputs :: "(bytes \<Rightarrow> bytes) \<Rightarrow> bytes list \<Rightarrow> bytes set" where
  "mth_inputs H D = (if length D \<le> 1 then {}
     else let k = largestPowerOfTwoBelow (length D) in
       insert (node_input (MTH H (take k D)) (MTH H (drop k D)))
         (mth_inputs H (take k D) \<union> mth_inputs H (drop k D)))"
  by pat_completeness auto
termination by (relation "measure (\<lambda>(H, D). length D)") (auto intro: lp_shrinks)

function recon_inputs :: "(bytes \<Rightarrow> bytes) \<Rightarrow> nat \<Rightarrow> nat \<Rightarrow> bytes \<Rightarrow> bytes list \<Rightarrow> bytes set" where
  "recon_inputs H m n h p = (if n \<le> 1 then {}
     else let k = largestPowerOfTwoBelow n in
       if m < k then insert (node_input (recon (fold_incl H) m k h (butlast p)) (last p))
         (recon_inputs H m k h (butlast p))
       else insert (node_input (last p) (recon (fold_incl H) (m - k) (n - k) h (butlast p)))
         (recon_inputs H (m - k) (n - k) h (butlast p)))"
  by pat_completeness auto
termination by (relation "measure (\<lambda>(H, m, n, h, p). n)") (auto intro: lp_shrinks)

declare mth_inputs.simps [simp del] recon_inputs.simps [simp del]

lemma mth_inputs_split:
  assumes "1 < length D" "k = largestPowerOfTwoBelow (length D)"
  shows "mth_inputs H D = insert (node_input (MTH H (take k D)) (MTH H (drop k D)))
      (mth_inputs H (take k D) \<union> mth_inputs H (drop k D))"
  using assms by (subst mth_inputs.simps) (simp add: Let_def)

context digest32
begin

lemma hash_lengths [simp]: "length (hashNode H l r) = 32" "length (hashLeaf H d) = 32"
  by (simp_all add: hashNode_def hashLeaf_def digest_length)

lemma length_MTH: "\<forall>x \<in> set D. length x = 32 \<Longrightarrow> length (MTH H D) = 32"
  by (subst MTH.simps) (auto simp: Let_def digest_length)

lemma length_MTH_take: "\<forall>x \<in> set D. length x = 32 \<Longrightarrow> length (MTH H (take k D)) = 32"
  by (rule length_MTH) (auto dest: in_set_takeD)

lemma length_MTH_drop: "\<forall>x \<in> set D. length x = 32 \<Longrightarrow> length (MTH H (drop k D)) = 32"
  by (rule length_MTH) (auto dest: in_set_dropD)

lemma hashNode_cancel:
  assumes "inj_on H S" "node_input l r \<in> S" "node_input l' r' \<in> S" "length l = 32" "length l' = 32"
    "hashNode H l r = hashNode H l' r'"
  shows "l = l' \<and> r = r'"
  using assms by (auto simp: hashNode_input dest!: inj_onD simp: node_input_inj)

lemma length_recon:
  "length h = 32 \<Longrightarrow> length (recon (fold_incl H) m n h p) = 32"
  by (subst recon.simps) (simp add: Let_def fold_incl_def)

lemma PATH_lengths: "\<forall>x \<in> set D. length x = 32 \<Longrightarrow> \<forall>x \<in> set (PATH H m D). length x = 32"
proof (induction "length D" arbitrary: m D rule: less_induct)
  case less
  show ?case
  proof (cases "length D \<le> 1")
    case True
    then show ?thesis by (simp add: PATH_short)
  next
    case False
    let ?k = "largestPowerOfTwoBelow (length D)"
    have n: "1 < length D" using False by simp
    have "length (take ?k D) < length D" "length (drop ?k D) < length D"
      using lp_bounds [OF n] by auto
    moreover have "\<forall>x \<in> set (take ?k D). length x = 32" "\<forall>x \<in> set (drop ?k D). length x = 32"
      using less.prems by (auto dest: in_set_takeD in_set_dropD)
    ultimately show ?thesis
      using less.hyps [of "take ?k D" m] less.hyps [of "drop ?k D" "m - ?k"] n less.prems
      by (simp add: PATH_split Let_def length_MTH_take length_MTH_drop)
  qed
qed

text \<open>A reconstruction that gives the root starts from the leaf of the tree.\<close>

lemma recon_sound:
  "m < length D \<Longrightarrow> length p = plen m (length D) \<Longrightarrow> length h = 32 \<Longrightarrow>
   \<forall>x \<in> set D. length x = 32 \<Longrightarrow> \<forall>x \<in> set p. length x = 32 \<Longrightarrow>
   inj_on H S \<Longrightarrow> mth_inputs H D \<subseteq> S \<Longrightarrow> recon_inputs H m (length D) h p \<subseteq> S \<Longrightarrow>
   recon (fold_incl H) m (length D) h p = MTH H D \<Longrightarrow> h = D ! m"
proof (induction "length D" arbitrary: D m p rule: less_induct)
  case less
  show ?case
  proof (cases "length D \<le> 1")
    case True
    then obtain d where "D = [d]" using less.prems(1) by (cases D) auto
    then show ?thesis using less.prems by (simp add: recon_one)
  next
    case False
    let ?n = "length D" and ?k = "largestPowerOfTwoBelow (length D)"
    have n: "1 < ?n" using False by simp
    have lp: "0 < ?k" "?k < ?n" using lp_bounds [OF n] by auto
    have "length p = Suc (if m < ?k then plen m ?k else plen (m - ?k) (?n - ?k))"
      using less.prems(2) False by (simp add: plen.simps [of m ?n] Let_def)
    then obtain q x where p: "p = q @ [x]"
      and q: "length q = (if m < ?k then plen m ?k else plen (m - ?k) (?n - ?k))"
      by (auto dest: length_Suc_snoc)
    have inD: "node_input (MTH H (take ?k D)) (MTH H (drop ?k D)) \<in> S"
      "mth_inputs H (take ?k D) \<subseteq> S" "mth_inputs H (drop ?k D) \<subseteq> S"
      using less.prems(7) by (auto simp: mth_inputs_split [OF n refl])
    have len: "length x = 32" "\<forall>x \<in> set (take ?k D). length x = 32" "\<forall>x \<in> set (drop ?k D). length x = 32"
      "\<forall>x \<in> set q. length x = 32"
      using less.prems(4,5) p by (auto dest: in_set_takeD in_set_dropD)
    show ?thesis
    proof (cases "m < ?k")
      case True
      let ?r = "recon (fold_incl H) m ?k h q"
      have in_r: "node_input ?r x \<in> S" "recon_inputs H m ?k h q \<subseteq> S"
        using less.prems(8) True n p by (simp_all add: recon_inputs.simps [of H m ?n] Let_def)
      have "hashNode H ?r x = hashNode H (MTH H (take ?k D)) (MTH H (drop ?k D))"
        using less.prems(9) True n p by (simp add: recon_left MTH_split)
      then have "?r = MTH H (take ?k D)"
        using hashNode_cancel [OF less.prems(6) in_r(1) inD(1)] less.prems(3,4)
        by (simp add: length_recon length_MTH_take)
      then have "h = take ?k D ! m"
        using less.hyps [of "take ?k D" m q] less.prems(3,6) lp True q len inD in_r by simp
      then show ?thesis using True by simp
    next
      case m: False
      let ?r = "recon (fold_incl H) (m - ?k) (?n - ?k) h q"
      have in_r: "node_input x ?r \<in> S" "recon_inputs H (m - ?k) (?n - ?k) h q \<subseteq> S"
        using less.prems(8) m n p by (simp_all add: recon_inputs.simps [of H m ?n] Let_def)
      have "hashNode H x ?r = hashNode H (MTH H (take ?k D)) (MTH H (drop ?k D))"
        using less.prems(9) m n p by (simp add: recon_right MTH_split)
      then have "?r = MTH H (drop ?k D)"
        using hashNode_cancel [OF less.prems(6) in_r(1) inD(1)] less.prems(4) len(1)
        by (simp add: length_MTH_take)
      then have "h = drop ?k D ! (m - ?k)"
        using less.hyps [of "drop ?k D" "m - ?k" q] less.prems(1,3,6) lp m q len inD in_r by simp
      then show ?thesis using m lp by simp
    qed
  qed
qed

text \<open>The source's loop is the walk on the decoded siblings.\<close>

lemma inclusion_loop_Inr:
  "fn < 2 ^ 31 \<Longrightarrow> sn < 2 ^ 31 \<Longrightarrow>
    inclusion_loop H (int fn) (int sn) h path = Inr (s, r) \<longleftrightarrow>
    (\<forall>x \<in> set path. length (of_hex x) = 32) \<and>
    (\<exists>y s'. s = int s' \<and> nwalk (fold_incl H) fn sn h (map of_hex path) = Some (y, s', r))"
proof (induction path arbitrary: fn sn h)
  case (Cons x xs)
  obtain l f' s' where st: "nstep fn sn = (l, f', s')" by (cases "nstep fn sn") auto
  note w = walk_step_int [OF Cons.prems st]
  show ?case
    using Cons.IH [OF w(2,3)] w(1) st
    by (cases l) (auto simp: hexToBuf_def Let_def)
qed auto

lemma inclusion_loop_Inl: "inclusion_loop H fn sn h p = Inl r \<Longrightarrow> \<not> vr_valid r"
  by (induction p arbitrary: fn sn h) (auto split: if_splits sum.splits prod.splits)

lemma verifyInclusion_ok_iff:
  assumes "0 \<le> ip_leafIndex pf" "ip_leafIndex pf < ip_treeSize pf" "ip_treeSize pf \<le> 2 ^ 31"
  shows "vr_valid (verifyInclusion H pf d rt) \<longleftrightarrow>
    (\<forall>x \<in> set (ip_path pf). length (of_hex x) = 32) \<and>
    (\<exists>y r. nwalk (fold_incl H) (nat (ip_leafIndex pf)) (nat (ip_treeSize pf) - 1) (hashLeaf H d)
        (map of_hex (ip_path pf)) = Some (y, 0, r) \<and> to_hex r = rt)"
proof -
  have b: "nat (ip_leafIndex pf) < 2 ^ 31" "nat (ip_treeSize pf) - 1 < 2 ^ 31"
    using assms by (simp_all add: nat_less_iff)
  have e: "int (nat (ip_leafIndex pf)) = ip_leafIndex pf"
    "int (nat (ip_treeSize pf) - 1) = ip_treeSize pf - 1" using assms by simp_all
  note il = inclusion_loop_Inr [OF b, unfolded e]
  show ?thesis
  proof (cases "inclusion_loop H (ip_leafIndex pf) (ip_treeSize pf - 1) (hashLeaf H d) (ip_path pf)")
    case (Inl r)
    then have "\<not> vr_valid r" by (rule inclusion_loop_Inl)
    moreover have "\<not> (\<exists>s r. inclusion_loop H (ip_leafIndex pf) (ip_treeSize pf - 1) (hashLeaf H d)
        (ip_path pf) = Inr (s, r))" using Inl by simp
    ultimately show ?thesis using assms Inl il [of "hashLeaf H d" "ip_path pf" 0]
      by (auto simp: verifyInclusion_def Let_def)
  next
    case (Inr a)
    then obtain s r where Inr: "inclusion_loop H (ip_leafIndex pf) (ip_treeSize pf - 1) (hashLeaf H d)
        (ip_path pf) = Inr (s, r)" by (cases a) auto
    then have "(\<forall>x \<in> set (ip_path pf). length (of_hex x) = 32)" and
      ex: "\<exists>y s'. s = int s' \<and> nwalk (fold_incl H) (nat (ip_leafIndex pf)) (nat (ip_treeSize pf) - 1)
        (hashLeaf H d) (map of_hex (ip_path pf)) = Some (y, s', r)"
      by (simp_all add: il)
    moreover have "vr_valid (verifyInclusion H pf d rt) \<longleftrightarrow> s = 0 \<and> to_hex r = rt"
      using assms Inr by (simp add: verifyInclusion_def Let_def)
    ultimately show ?thesis by auto
  qed
qed

text \<open>Completeness: the audit path of a leaf verifies against the root of its tree.\<close>

lemma inclusion_complete:
  assumes pf: "inclusionProof H t i = Inr pf" and leaf: "hashLeaf H d = leaves t ! nat i"
    and len: "\<forall>x \<in> set (leaves t). length x = 32" and sz: "length (leaves t) \<le> 2 ^ 31"
  shows "vr_valid (verifyInclusion H pf d (tree_root H t))"
proof -
  have i: "0 \<le> i" "nat i < length (leaves t)"
    and p: "ip_leafIndex pf = i" "ip_treeSize pf = int (length (leaves t))"
      "ip_path pf = map to_hex (PATH H (nat i) (leaves t))"
    using pf by (auto simp: inclusionProof_def Let_def buildPath_eq_PATH split: if_splits)
  have "nwalk (fold_incl H) (nat i) (length (leaves t) - 1) (hashLeaf H d) (PATH H (nat i) (leaves t))
      = Some (0, 0, MTH H (leaves t))"
    using walk_inclusion [OF i(2) length_PATH [OF i(2)], of "fold_incl H" "hashLeaf H d"]
      recon_PATH [OF i(2)] leaf by simp
  moreover have "\<forall>x \<in> set (PATH H (nat i) (leaves t)). length x = 32"
    by (rule PATH_lengths [OF len])
  ultimately show ?thesis
    using i sz by (subst verifyInclusion_ok_iff) (auto simp: p comp_def tree_root_eq_MTH)
qed

text \<open>Soundness: a proof that verifies against the root of a tree, at its size, proves its leaf.\<close>

lemma inclusion_sound:
  assumes ok: "vr_valid (verifyInclusion H pf d (tree_root H t))"
    and sz: "ip_treeSize pf = int (length (leaves t))" "length (leaves t) \<le> 2 ^ 31"
    and len: "\<forall>x \<in> set (leaves t). length x = 32"
    and inj: "inj_on H (mth_inputs H (leaves t) \<union>
      recon_inputs H (nat (ip_leafIndex pf)) (length (leaves t)) (hashLeaf H d) (map of_hex (ip_path pf)))"
  shows "0 \<le> ip_leafIndex pf \<and> nat (ip_leafIndex pf) < length (leaves t)
    \<and> hashLeaf H d = leaves t ! nat (ip_leafIndex pf)"
proof -
  let ?m = "nat (ip_leafIndex pf)"
  have m: "0 \<le> ip_leafIndex pf" "ip_leafIndex pf < ip_treeSize pf"
    using ok by (auto simp: verifyInclusion_def Let_def split: if_splits)
  then have m': "?m < length (leaves t)" using sz by simp
  obtain y r where w: "nwalk (fold_incl H) ?m (length (leaves t) - 1) (hashLeaf H d)
      (map of_hex (ip_path pf)) = Some (y, 0, r)" "to_hex r = tree_root H t"
    and l32: "\<forall>x \<in> set (ip_path pf). length (of_hex x) = 32"
    using ok verifyInclusion_ok_iff [of pf d "tree_root H t"] m sz by auto
  from walk_inclusion_stop [OF m' w(1)]
  have "length (map of_hex (ip_path pf)) = plen ?m (length (leaves t))"
    "recon (fold_incl H) ?m (length (leaves t)) (hashLeaf H d) (map of_hex (ip_path pf)) = MTH H (leaves t)"
    using w(2) by (auto simp: tree_root_eq_MTH)
  then have "hashLeaf H d = leaves t ! ?m"
    using m' len l32 inj by (intro recon_sound [where S = "mth_inputs H (leaves t) \<union>
      recon_inputs H ?m (length (leaves t)) (hashLeaf H d) (map of_hex (ip_path pf))"]) auto
  with m m' show ?thesis by simp
qed

end

end
