(* ===== verification/Merkle_Consistency.thy ===== *)
theory Merkle_Consistency
  imports Merkle_Proofs
begin

text \<open>
  Consistency proofs: the walk of \<open>verifyConsistency\<close> rebuilds the old and the new root
  together (\<open>recon2\<close>), an honest proof between two sizes of one log verifies, and a
  proof that verifies between two logs makes the first a prefix of the second.
\<close>

section \<open>The walk is a reconstruction\<close>

function plen2 :: "nat \<Rightarrow> nat \<Rightarrow> nat" where
  "plen2 m n = (if m = n \<or> n \<le> 1 then 0
     else let k = largestPowerOfTwoBelow n in
       if m \<le> k then Suc (plen2 m k) else Suc (plen2 (m - k) (n - k)))"
  by pat_completeness auto
termination by (relation "measure snd") (auto intro: lp_shrinks)

function recon2 :: "(bool \<Rightarrow> bytes \<Rightarrow> 'a \<Rightarrow> 'a) \<Rightarrow> nat \<Rightarrow> nat \<Rightarrow> 'a \<Rightarrow> bytes list \<Rightarrow> 'a" where
  "recon2 f m n acc p = (if m = n \<or> n \<le> 1 then acc
     else let k = largestPowerOfTwoBelow n in
       if m \<le> k then f False (last p) (recon2 f m k acc (butlast p))
       else f True (last p) (recon2 f (m - k) (n - k) acc (butlast p)))"
  by pat_completeness auto
termination by (relation "measure (\<lambda>(f, m, n, acc, p). n)") (auto intro: lp_shrinks)

declare plen2.simps [simp del] recon2.simps [simp del]

lemma recon2_same [simp]: "recon2 f n n acc p = acc"
  by (simp add: recon2.simps)

lemma plen2_same [simp]: "plen2 n n = 0"
  by (simp add: plen2.simps)

lemma recon2_left: "1 < n \<Longrightarrow> k = largestPowerOfTwoBelow n \<Longrightarrow> m \<le> k \<Longrightarrow>
    recon2 f m n acc (q @ [x]) = f False x (recon2 f m k acc q)"
  using lp_bounds [of n] by (subst recon2.simps) auto

lemma recon2_right: "1 < n \<Longrightarrow> k = largestPowerOfTwoBelow n \<Longrightarrow> k < m \<Longrightarrow> m \<noteq> n \<Longrightarrow>
    recon2 f m n acc (q @ [x]) = f True x (recon2 f (m - k) (n - k) acc q)"
  by (subst recon2.simps) (simp add: Let_def)

lemma plen2_left: "1 < n \<Longrightarrow> k = largestPowerOfTwoBelow n \<Longrightarrow> m \<le> k \<Longrightarrow>
    plen2 m n = Suc (plen2 m k)"
  using lp_bounds [of n] by (subst plen2.simps) auto

lemma plen2_right: "1 < n \<Longrightarrow> k = largestPowerOfTwoBelow n \<Longrightarrow> k < m \<Longrightarrow> m \<noteq> n \<Longrightarrow>
    plen2 m n = Suc (plen2 (m - k) (n - k))"
  by (subst plen2.simps) (simp add: Let_def)

lemma nstrip_even: "even fn \<Longrightarrow> nstrip fn sn = (fn, sn)"
  by (simp add: nstrip.simps [of fn])

lemma nstrip_odd: "nstrip (2 * a + 1) sn = nstrip a (sn div 2)"
  by (simp add: nstrip.simps [of "2 * a + 1"] nstrip.simps [of "Suc (2 * a)"])

lemma nstrip_full: "r < 2 ^ d \<Longrightarrow> nstrip (a * 2 ^ d + (2 ^ d - 1)) (b * 2 ^ d + r) = nstrip a b"
proof (induction d arbitrary: a b r)
  case (Suc d)
  obtain B r' where B: "b * 2 ^ Suc d + r = B * 2 ^ d + r'" "r' < 2 ^ d" "B div 2 = b"
    using Suc.prems by (rule down_any)
  have "(1::nat) \<le> 2 ^ d" by simp
  then have "a * 2 ^ Suc d + (2 ^ Suc d - 1) = (2 * a + 1) * 2 ^ d + (2 ^ d - 1)"
    by (simp add: algebra_simps)
  then show ?case using Suc.IH [OF B(2), of "2 * a + 1" B] B(3) unfolding B(1)
    by (simp only: nstrip_odd)
qed simp

text \<open>The nodes under a complete subtree left of the frontier.\<close>

lemma walk2_full:
  "0 < m \<Longrightarrow> m \<le> 2 ^ d \<Longrightarrow> m < 2 ^ d \<or> even a \<Longrightarrow> r < 2 ^ d \<Longrightarrow> a < b \<Longrightarrow> length p = plen2 m (2 ^ d) \<Longrightarrow>
   nstrip (a * 2 ^ d + (m - 1)) (b * 2 ^ d + r) = (fn, sn) \<Longrightarrow>
   nwalk f fn sn acc p = Some (a, b, recon2 f m (2 ^ d) acc p)"
proof (induction d arbitrary: a b m r p fn sn)
  case 0
  then have "m = 1" "fn = a" "sn = b" by (auto simp: nstrip_even)
  with 0 show ?case by simp
next
  case (Suc d)
  show ?case
  proof (cases "m = 2 ^ Suc d")
    case True
    then show ?thesis using Suc.prems nstrip_full [OF Suc.prems(4), of a b]
      by (auto simp: nstrip_even)
  next
    case m: False
    obtain B r' where B: "b * 2 ^ Suc d + r = B * 2 ^ d + r'" "r' < 2 ^ d" "B div 2 = b"
      using Suc.prems(4) by (rule down_any)
    have ab: "2 * a + 1 < B" using B(3) Suc.prems(5) by linarith
    have lp: "1 < (2::nat) ^ Suc d" "2 ^ d = largestPowerOfTwoBelow (2 ^ Suc d)"
      using double_power_not_le_1 [of d] by (simp_all del: double_power_not_le_1 add: not_le)
    show ?thesis
    proof (cases "m \<le> 2 ^ d")
      case True
      then obtain q x where p: "p = q @ [x]" "length q = plen2 m (2 ^ d)"
        using Suc.prems(6) plen2_left [OF lp] by (metis length_Suc_snoc)
      have "nwalk f fn sn acc q = Some (2 * a, B, recon2 f m (2 ^ d) acc q)"
        using Suc.prems(7) unfolding B(1) down_low [of a d]
        by (intro Suc.IH [of m "2 * a" r']) (use Suc.prems(1) True B(2) ab p in auto)
      then have "nwalk f fn sn acc p = Some (a, B div 2, f False x (recon2 f m (2 ^ d) acc q))"
        unfolding p(1) by (rule nwalk_snoc) (use ab in \<open>simp_all add: nstep_even\<close>)
      then show ?thesis using B(3) p(1) recon2_left [OF lp True, of f acc q x] by metis
    next
      case False
      then obtain q x where p: "p = q @ [x]" "length q = plen2 (m - 2 ^ d) (2 ^ d)"
        using Suc.prems(6) plen2_right [OF lp _ m] by (metis length_Suc_snoc not_le
          power_Suc mult_2 add_diff_cancel_left')
      have e: "a * 2 ^ Suc d + (m - 1) = (2 * a + 1) * 2 ^ d + (m - 2 ^ d - 1)"
        using False by (simp add: algebra_simps)
      have w: "nwalk f fn sn acc q = Some (2 * a + 1, B, recon2 f (m - 2 ^ d) (2 ^ d) acc q)"
        using Suc.prems(7) unfolding B(1) e
        by (intro Suc.IH [of "m - 2 ^ d" "2 * a + 1" r']) (use Suc.prems(2) m False B(2) ab p in auto)
      have "nwalk f fn sn acc p = Some (a, B div 2, f True x (recon2 f (m - 2 ^ d) (2 ^ d) acc q))"
        unfolding p(1) by (rule nwalk_snoc [OF w]) (use ab in \<open>auto simp: nstep_odd\<close>)
      then show ?thesis using B(3) p(1) recon2_right [OF lp _ m, of f acc q x] False by simp
    qed
  qed
qed

text \<open>The nodes on the frontier.\<close>

lemma walk2_edge:
  "0 < m \<Longrightarrow> m < n \<Longrightarrow> length p = plen2 m n \<Longrightarrow>
   nstrip (a * 2 ^ depth n + (m - 1)) (a * 2 ^ depth n + (n - 1)) = (fn, sn) \<Longrightarrow>
   nwalk f fn sn acc p = Some (a, a, recon2 f m n acc p)"
proof (induction n arbitrary: a m p fn sn rule: less_induct)
  case (less n)
  have n: "1 < n" using less.prems by simp
  then obtain j where k: "largestPowerOfTwoBelow n = 2 ^ j" "2 ^ j < n" "n \<le> 2 ^ Suc j"
    by (rule lp_power)
  have d: "depth n = Suc j" by (rule depth_Suc [OF k(2,3)])
  have sn: "a * 2 ^ Suc j + (n - 1) = (2 * a + 1) * 2 ^ j + (n - 1 - 2 ^ j)"
    using k by (intro down_high) simp
  show ?case
  proof (cases "m \<le> 2 ^ j")
    case True
    then obtain q x where p: "p = q @ [x]" "length q = plen2 m (2 ^ j)"
      using less.prems(3) plen2_left [OF n k(1) [symmetric]] by (metis length_Suc_snoc)
    have "nwalk f fn sn acc q = Some (2 * a, 2 * a + 1, recon2 f m (2 ^ j) acc q)"
      using less.prems(4) unfolding d sn down_low [of a j]
      by (intro walk2_full [where r = "n - 1 - 2 ^ j"]) (use less.prems(1) True k p in auto)
    then have "nwalk f fn sn acc p = Some (a, a, f False x (recon2 f m (2 ^ j) acc q))"
      unfolding p(1) by (rule nwalk_snoc) (simp_all add: nstep_even)
    then show ?thesis using p(1) recon2_left [OF n k(1) [symmetric] True, of f acc q x] by metis
  next
    case False
    let ?n' = "n - 2 ^ j" and ?m' = "m - 2 ^ j"
    let ?d' = "depth ?n'" and ?a' = "(2 * a + 1) * 2 ^ (j - depth ?n')"
    obtain q x where p: "p = q @ [x]" "length q = plen2 ?m' ?n'"
      using False less.prems(2,3) plen2_right [OF n k(1) [symmetric], of m]
      by (metis length_Suc_snoc not_le nat_neq_iff)
    have dj: "?d' \<le> j" by (rule depth_le) (use k in simp)
    have pw: "?a' * 2 ^ ?d' = (2 * a + 1) * 2 ^ j"
      using dj by (simp only: mult.assoc flip: power_add) simp
    have m1: "a * 2 ^ Suc j + (m - 1) = (2 * a + 1) * 2 ^ j + (?m' - 1)"
      using False by (simp add: algebra_simps)
    have "nwalk f fn sn acc q = Some (?a', ?a', recon2 f ?m' ?n' acc q)"
    proof (rule less.IH)
      show "nstrip (?a' * 2 ^ ?d' + (?m' - 1)) (?a' * 2 ^ ?d' + (?n' - 1)) = (fn, sn)"
        using less.prems(4) unfolding d sn m1 pw by (simp add: diff_commute)
    qed (use k False less.prems p in auto)
    then have "nwalk f fn sn acc p = Some (a, a, f True x (recon2 f ?m' ?n' acc q))"
      unfolding p(1) by (rule nwalk_snoc) (simp_all only: nstep_edge, simp_all)
    then show ?thesis using p(1) recon2_right [OF n k(1) [symmetric], of m f acc q x] False less.prems
      by simp
  qed
qed

lemma walk_consistency:
  "0 < m \<Longrightarrow> m < n \<Longrightarrow> nstrip (m - 1) (n - 1) = (fn, sn) \<Longrightarrow> length p = plen2 m n \<Longrightarrow>
    nwalk f fn sn acc p = Some (0, 0, recon2 f m n acc p)"
  using walk2_edge [of m n p 0 fn sn f acc] by simp

lemma walk_consistency_stop:
  assumes "0 < m" "m < n" "nstrip (m - 1) (n - 1) = (fn, sn)" "nwalk f fn sn acc p = Some (y, 0, s)"
  shows "length p = plen2 m n \<and> s = recon2 f m n acc p"
proof -
  have "\<exists>x r. nwalk f fn sn acc q = Some (x, 0, r)" if "length q = plen2 m n" for q
    using walk_consistency [OF assms(1-3) that, of f acc] by blast
  then have "length p = plen2 m n" using assms(4) by (rule nwalk_stop_length)
  with walk_consistency [OF assms(1-3) this, of f acc] assms(4) show ?thesis by simp
qed

section \<open>Powers of two\<close>

lemma and_pred_zero_iff: "0 < m \<Longrightarrow> and (int m) (int m - 1) = 0 \<longleftrightarrow> (\<exists>i. m = 2 ^ i)"
proof (induction m rule: less_induct)
  case (less m)
  show ?case
  proof (cases "even m")
    case True
    then obtain c where c: "m = 2 * c" by (rule evenE)
    have "(2 * int c - 1) div 2 = int c - 1" by linarith
    then have "and (int m) (int m - 1) = 2 * and (int c) (int c - 1)"
      unfolding c by (subst and_rec) simp
    moreover have "(\<exists>i. m = 2 ^ i) \<longleftrightarrow> (\<exists>i. c = 2 ^ i)"
    proof
      assume "\<exists>i. m = 2 ^ i"
      then obtain i where i: "m = 2 ^ i" by blast
      with True obtain i' where "i = Suc i'" by (cases i) auto
      with i c show "\<exists>i. c = 2 ^ i" by auto
    next
      assume "\<exists>i. c = 2 ^ i"
      with c show "\<exists>i. m = 2 ^ i" by (metis power_Suc)
    qed
    ultimately show ?thesis using less.IH [of c] less.prems c by simp
  next
    case False
    then obtain c where c: "m = 2 * c + 1" by (rule oddE)
    have "and (int m) (int m - 1) = 2 * int c"
      unfolding c by (subst and_rec) simp
    moreover have "(\<exists>i. m = 2 ^ i) \<longleftrightarrow> c = 0"
    proof
      assume "\<exists>i. m = 2 ^ i"
      then obtain i where i: "m = 2 ^ i" by blast
      with False have "i = 0" by (cases i) auto
      with i c show "c = 0" by simp
    qed (simp add: c exI [of _ 0])
    ultimately show ?thesis by simp
  qed
qed

lemma isPowerOfTwo_iff: "0 < m \<Longrightarrow> m < 2 ^ 31 \<Longrightarrow> isPowerOfTwo (int m) \<longleftrightarrow> (\<exists>i. m = 2 ^ i)"
  using and_pred_zero_iff [of m] by (simp add: isPowerOfTwo_def int32_and_def)

lemma power_le_lp: "(\<exists>i. m = 2 ^ i) \<Longrightarrow> m < n \<Longrightarrow> m \<le> largestPowerOfTwoBelow n"
proof -
  assume "\<exists>i. m = 2 ^ i" and mn: "m < n"
  then obtain i where i: "m = 2 ^ i" by blast
  have "1 \<le> m" using i by simp
  then have "1 < n" using mn by linarith
  then obtain j where j: "largestPowerOfTwoBelow n = 2 ^ j" "2 ^ j < n" "n \<le> 2 ^ Suc j"
    by (rule lp_power)
  have "(2::nat) ^ i < 2 ^ Suc j" using mn i j by linarith
  then have "i \<le> j" by (simp add: less_Suc_eq_le flip: power_Suc)
  with i j show ?thesis by simp
qed

lemma lp_prefix: "1 < n \<Longrightarrow> k = largestPowerOfTwoBelow n \<Longrightarrow> k < m \<Longrightarrow> m \<le> n \<Longrightarrow>
    largestPowerOfTwoBelow m = k"
  by (erule lp_power) (auto intro!: lp_eqI)

section \<open>What an honest proof holds\<close>

text \<open>The root both reconstructions start from, and the path without it.\<close>

function cseed :: "(bytes \<Rightarrow> bytes) \<Rightarrow> nat \<Rightarrow> bytes list \<Rightarrow> bytes" where
  "cseed H m D = (if m = length D \<or> length D \<le> 1 then MTH H D
     else let k = largestPowerOfTwoBelow (length D) in
       if m \<le> k then cseed H m (take k D) else cseed H (m - k) (drop k D))"
  by pat_completeness auto
termination by (relation "measure (\<lambda>(H, m, D). length D)") (auto intro: lp_shrinks)

function cpath :: "(bytes \<Rightarrow> bytes) \<Rightarrow> nat \<Rightarrow> bytes list \<Rightarrow> bytes list" where
  "cpath H m D = (if m = length D \<or> length D \<le> 1 then []
     else let k = largestPowerOfTwoBelow (length D) in
       if m \<le> k then cpath H m (take k D) @ [MTH H (drop k D)]
       else cpath H (m - k) (drop k D) @ [MTH H (take k D)])"
  by pat_completeness auto
termination by (relation "measure (\<lambda>(H, m, D). length D)") (auto intro: lp_shrinks)

declare cseed.simps [simp del] cpath.simps [simp del]

lemma cseed_same [simp]: "cseed H (length D) D = MTH H D"
  by (simp add: cseed.simps [of H "length D" D])

lemma cpath_same [simp]: "cpath H (length D) D = []"
  by (simp add: cpath.simps [of H "length D" D])

text \<open>The recursions at a node with more than one leaf, as equations for one tree.\<close>

lemma tree_left:
  assumes "m < length D" "1 < length D" "m \<le> largestPowerOfTwoBelow (length D)"
  defines "k \<equiv> largestPowerOfTwoBelow (length D)"
  shows "cseed H m D = cseed H m (take k D)"
    "cpath H m D = cpath H m (take k D) @ [MTH H (drop k D)]"
    "SUBPROOF H m D b = SUBPROOF H m (take k D) b @ [MTH H (drop k D)]"
    "plen2 m (length D) = Suc (plen2 m k)"
    "recon2 f m (length D) acc (q @ [x]) = f False x (recon2 f m k acc q)"
    "length (take k D) = k" "take m (take k D) = take m D"
  using assms lp_less [OF assms(2)]
  by (auto simp: cseed.simps [of H m D] cpath.simps [of H m D] SUBPROOF_split Let_def
      recon2_left plen2_left min_def)

lemma tree_right:
  assumes "m < length D" "1 < length D" "largestPowerOfTwoBelow (length D) < m"
  defines "k \<equiv> largestPowerOfTwoBelow (length D)"
  shows "cseed H m D = cseed H (m - k) (drop k D)"
    "cpath H m D = cpath H (m - k) (drop k D) @ [MTH H (take k D)]"
    "SUBPROOF H m D b = SUBPROOF H (m - k) (drop k D) False @ [MTH H (take k D)]"
    "plen2 m (length D) = Suc (plen2 (m - k) (length D - k))"
    "recon2 f m (length D) acc (q @ [x]) = f True x (recon2 f (m - k) (length D - k) acc q)"
    "0 < m - k" "m - k \<le> length D - k"
  using assms lp_less [OF assms(2)]
  by (auto simp: cseed.simps [of H m D] cpath.simps [of H m D] SUBPROOF_split Let_def
      recon2_right plen2_right)

lemma split_tree_cases:
  assumes "0 < m" "m \<le> length D"
  obtains (all) "m = length D"
  | (left) "m < length D" "1 < length D" "m \<le> largestPowerOfTwoBelow (length D)"
      "largestPowerOfTwoBelow (length D) < length D"
  | (right) "m < length D" "1 < length D" "largestPowerOfTwoBelow (length D) < m"
      "largestPowerOfTwoBelow (length D) < length D"
  using assms lp_less [of "length D"] by (metis One_nat_def Suc_lessI le_neq_implies_less less_one
      linorder_not_less order_less_trans)

lemma SUBPROOF_False:
  "0 < m \<Longrightarrow> m \<le> length D \<Longrightarrow> SUBPROOF H m D False = cseed H m D # cpath H m D"
proof (induction "length D" arbitrary: m D rule: less_induct)
  case less
  let ?k = "largestPowerOfTwoBelow (length D)"
  from less.prems show ?case
  proof (cases rule: split_tree_cases)
    case all
    then show ?thesis by (simp add: SUBPROOF_same)
  next
    case left
    note t = tree_left [OF left(1-3)]
    show ?thesis
      using less.hyps [of "take ?k D" m] left less.prems by (simp add: t(1-3,6))
  next
    case right
    note t = tree_right [OF right(1-3)]
    show ?thesis
      using less.hyps [of "drop ?k D" "m - ?k"] right lp_bounds [OF right(2)] less.prems
      by (simp add: t(1-3))
  qed
qed

lemma SUBPROOF_True_power:
  "0 < m \<Longrightarrow> m \<le> length D \<Longrightarrow> \<exists>i. m = 2 ^ i \<Longrightarrow>
    SUBPROOF H m D True = cpath H m D \<and> cseed H m D = MTH H (take m D)"
proof (induction "length D" arbitrary: D rule: less_induct)
  case less
  let ?k = "largestPowerOfTwoBelow (length D)"
  from less.prems(1,2) show ?case
  proof (cases rule: split_tree_cases)
    case all
    then show ?thesis by (simp add: SUBPROOF_same)
  next
    case left
    note t = tree_left [OF left(1-3)]
    show ?thesis
      using less.hyps [of "take ?k D"] left less.prems by (simp add: t(1-3,6,7))
  next
    case right
    then show ?thesis using power_le_lp [OF less.prems(3), of "length D"] by simp
  qed
qed

lemma SUBPROOF_True_other:
  "0 < m \<Longrightarrow> m < length D \<Longrightarrow> \<nexists>i. m = 2 ^ i \<Longrightarrow>
    SUBPROOF H m D True = cseed H m D # cpath H m D"
proof (induction "length D" arbitrary: D rule: less_induct)
  case less
  let ?k = "largestPowerOfTwoBelow (length D)"
  from less.prems(1) less_imp_le [OF less.prems(2)] show ?case
  proof (cases rule: split_tree_cases)
    case all
    then show ?thesis using less.prems by simp
  next
    case left
    have "m \<noteq> ?k"
      using less.prems(3) lp_power [OF left(2)] by metis
    then have m: "m < ?k" using left(3) by simp
    note t = tree_left [OF left(1-3)]
    show ?thesis using less.hyps [of "take ?k D"] left m less.prems by (simp add: t(1-3,6))
  next
    case right
    note t = tree_right [OF right(1-3)]
    show ?thesis
      using SUBPROOF_False [of "m - ?k" "drop ?k D" H] t(6,7) by (simp add: t(1-3))
  qed
qed

lemma length_cpath: "0 < m \<Longrightarrow> m \<le> length D \<Longrightarrow> length (cpath H m D) = plen2 m (length D)"
proof (induction "length D" arbitrary: m D rule: less_induct)
  case less
  let ?k = "largestPowerOfTwoBelow (length D)"
  from less.prems show ?case
  proof (cases rule: split_tree_cases)
    case all
    then show ?thesis by simp
  next
    case left
    note t = tree_left [OF left(1-3)]
    show ?thesis using less.hyps [of "take ?k D" m] left less.prems by (simp add: t(2,4,6))
  next
    case right
    note t = tree_right [OF right(1-3)]
    show ?thesis
      using less.hyps [of "drop ?k D" "m - ?k"] right lp_bounds [OF right(2)]
      by (simp add: t(2,4))
  qed
qed

definition fold_cons :: "(bytes \<Rightarrow> bytes) \<Rightarrow> bool \<Rightarrow> bytes \<Rightarrow> bytes \<times> bytes \<Rightarrow> bytes \<times> bytes" where
  "fold_cons H left node = (\<lambda>(fr, sr).
     if left then (hashNode H node fr, hashNode H node sr) else (fr, hashNode H sr node))"

lemma fold_cons_simps [simp]:
  "fold_cons H True node (fr, sr) = (hashNode H node fr, hashNode H node sr)"
  "fold_cons H False node (fr, sr) = (fr, hashNode H sr node)"
  by (simp_all add: fold_cons_def)

text \<open>The two roots of an honest path.\<close>

lemma recon2_cpath:
  "0 < m \<Longrightarrow> m \<le> length D \<Longrightarrow>
    recon2 (fold_cons H) m (length D) (cseed H m D, cseed H m D) (cpath H m D)
      = (MTH H (take m D), MTH H D)"
proof (induction "length D" arbitrary: m D rule: less_induct)
  case less
  let ?k = "largestPowerOfTwoBelow (length D)"
  from less.prems show ?case
  proof (cases rule: split_tree_cases)
    case all
    then show ?thesis by simp
  next
    case left
    note t = tree_left [OF left(1-3)]
    have "recon2 (fold_cons H) m ?k (cseed H m D, cseed H m D) (cpath H m (take ?k D))
        = (MTH H (take m D), MTH H (take ?k D))"
      using less.hyps [of "take ?k D" m] left less.prems by (simp add: t(1,6,7))
    then show ?thesis by (simp add: t(2,5) MTH_split [OF left(2)])
  next
    case right
    note t = tree_right [OF right(1-3)]
    have k0: "0 < ?k" using lp_bounds [OF right(2)] by simp
    have k: "largestPowerOfTwoBelow m = ?k"
      by (rule lp_prefix [OF right(2) refl right(3)]) (use right in simp)
    have m: "MTH H (take m D) = hashNode H (MTH H (take ?k D)) (MTH H (take (m - ?k) (drop ?k D)))"
      using MTH_split [of "take m D" H] right k0 by (simp add: k min_def drop_take)
    have "recon2 (fold_cons H) (m - ?k) (length D - ?k) (cseed H m D, cseed H m D)
        (cpath H (m - ?k) (drop ?k D)) = (MTH H (take (m - ?k) (drop ?k D)), MTH H (drop ?k D))"
      using less.hyps [of "drop ?k D" "m - ?k"] right k0 by (simp add: t(1))
    then show ?thesis by (simp add: t(2,5) m MTH_split [OF right(2)])
  qed
qed

section \<open>The source's loop is the walk\<close>

lemma consistency_loop_Inl: "consistency_loop H fn sn fr sr p = Inl r \<Longrightarrow> \<not> vr_valid r"
  by (induction p arbitrary: fn sn fr sr) (auto split: if_splits sum.splits prod.splits)

lemma consistency_loop_Inr:
  "fn < 2 ^ 31 \<Longrightarrow> sn < 2 ^ 31 \<Longrightarrow>
    consistency_loop H (int fn) (int sn) fr sr path = Inr (s, r1, r2) \<longleftrightarrow>
    (\<forall>x \<in> set path. length (of_hex x) = 32) \<and>
    (\<exists>y s'. s = int s' \<and> nwalk (fold_cons H) fn sn (fr, sr) (map of_hex path) = Some (y, s', r1, r2))"
proof (induction path arbitrary: fn sn fr sr)
  case (Cons x xs)
  obtain l f' s' where st: "nstep fn sn = (l, f', s')" by (cases "nstep fn sn") auto
  note w = walk_step_int [OF Cons.prems st]
  show ?case
    using Cons.IH [OF w(2,3)] w(1) st
    by (cases l) (auto simp: hexToBuf_def Let_def)
qed auto

text \<open>The seed and the rest of the path of a proof that is not rejected at once.\<close>

definition split_proof :: "nat \<Rightarrow> bytes \<Rightarrow> bytes list \<Rightarrow> (bytes \<times> bytes list) option" where
  "split_proof m first path = (if isPowerOfTwo (int m) then Some (first, path)
     else case path of [] \<Rightarrow> None | p # rest \<Rightarrow> Some (p, rest))"

lemma consistency_seed_Inl: "consistency_seed m r path = Inl v \<Longrightarrow> \<not> vr_valid v"
  by (auto simp: consistency_seed_def split: if_splits sum.splits list.splits)

lemma consistency_seed_Inr:
  "length fr = 32 \<Longrightarrow> consistency_seed (int m) (to_hex fr) path = Inr (s, rest) \<longleftrightarrow>
    split_proof m fr (map of_hex path) = Some (s, map of_hex rest) \<and> length s = 32
    \<and> (\<exists>xs. path = xs @ rest \<and> (if isPowerOfTwo (int m) then xs = [] else length xs = 1))"
  by (auto simp: consistency_seed_def split_proof_def hexToBuf_def Let_def length_Suc_conv
      split: list.splits)

lemma verifyConsistency_ok_iff:
  assumes m: "cp_firstSize pf = int m" "0 < m" and n: "cp_secondSize pf = int n" "m < n" "n \<le> 2 ^ 31"
    and fr: "length fr = 32" and st: "nstrip (m - 1) (n - 1) = (fn, sn)"
  shows "vr_valid (verifyConsistency H pf (to_hex fr) rt2) \<longleftrightarrow>
    (\<exists>s rest y sr. split_proof m fr (map of_hex (cp_path pf)) = Some (s, rest)
       \<and> length s = 32 \<and> (\<forall>x \<in> set rest. length x = 32)
       \<and> nwalk (fold_cons H) fn sn (s, s) rest = Some (y, 0, fr, sr) \<and> to_hex sr = rt2)"
proof -
  have b: "m - 1 < 2 ^ 31" "n - 1 < 2 ^ 31" using m n by linarith+
  have so: "shift_odd (int (m - 1)) (int (n - 1)) = (int fn, int sn)" "fn < 2 ^ 31" "sn < 2 ^ 31"
    using shift_odd_int [OF b] st by simp_all
  have e: "shift_odd (int m - 1) (int n - 1) = (int fn, int sn)"
    using so(1) m n by (simp add: of_nat_diff)
  note il = consistency_loop_Inr [OF so(2,3)]
  have g: "\<not> int n < int m" "int m \<noteq> int n" "int m \<noteq> 0" using m n by auto
  show ?thesis
  proof (cases "consistency_seed (int m) (to_hex fr) (cp_path pf)")
    case (Inl v)
    have "split_proof m fr (map of_hex (cp_path pf)) = Some (s, rest) \<Longrightarrow> length s \<noteq> 32" for s rest
      using Inl fr by (auto simp: consistency_seed_def split_proof_def hexToBuf_def Let_def
        split: if_splits list.splits)
    moreover have "\<not> vr_valid v" using Inl by (rule consistency_seed_Inl)
    ultimately show ?thesis using Inl g m(2) by (auto simp: verifyConsistency_def Let_def m(1) n(1) e)
  next
    case (Inr a)
    then obtain s rest where sd: "consistency_seed (int m) (to_hex fr) (cp_path pf) = Inr (s, rest)"
      by (cases a) auto
    then have sp: "split_proof m fr (map of_hex (cp_path pf)) = Some (s, map of_hex rest)" "length s = 32"
      using consistency_seed_Inr [OF fr] by blast+
    show ?thesis
    proof (cases "consistency_loop H (int fn) (int sn) s s rest")
      case (Inl v)
      then have "\<not> vr_valid v" by (rule consistency_loop_Inl)
      moreover have "\<not> (\<exists>s1 r1 r2. consistency_loop H (int fn) (int sn) s s rest = Inr (s1, r1, r2))"
        using Inl by simp
      ultimately show ?thesis using Inl g sp il [of H s s rest 0]
        by (auto simp: verifyConsistency_def Let_def m(1) n(1) e sd)
    next
      case (Inr w)
      then obtain s1 r1 r2 where lp: "consistency_loop H (int fn) (int sn) s s rest = Inr (s1, r1, r2)"
        by (cases w) auto
      then show ?thesis using g sp il [of H s s rest s1 r1 r2]
        by (auto simp: verifyConsistency_def Let_def m(1) n(1) e sd)
    qed
  qed
qed

section \<open>Completeness and soundness\<close>

text \<open>The digest inputs of the reconstruction of both roots.\<close>

function recon2_inputs :: "(bytes \<Rightarrow> bytes) \<Rightarrow> nat \<Rightarrow> nat \<Rightarrow> bytes \<Rightarrow> bytes list \<Rightarrow> bytes set" where
  "recon2_inputs H m n s p = (if m = n \<or> n \<le> 1 then {}
     else let k = largestPowerOfTwoBelow n in
       if m \<le> k then insert (node_input (snd (recon2 (fold_cons H) m k (s, s) (butlast p))) (last p))
         (recon2_inputs H m k s (butlast p))
       else {node_input (last p) (fst (recon2 (fold_cons H) (m - k) (n - k) (s, s) (butlast p))),
             node_input (last p) (snd (recon2 (fold_cons H) (m - k) (n - k) (s, s) (butlast p)))}
         \<union> recon2_inputs H (m - k) (n - k) s (butlast p))"
  by pat_completeness auto
termination by (relation "measure (\<lambda>(H, m, n, s, p). n)") (auto intro: lp_shrinks)

declare recon2_inputs.simps [simp del]

lemma recon2_inputs_left: "1 < n \<Longrightarrow> m < n \<Longrightarrow> k = largestPowerOfTwoBelow n \<Longrightarrow> m \<le> k \<Longrightarrow>
    recon2_inputs H m n s (q @ [x]) =
      insert (node_input (snd (recon2 (fold_cons H) m k (s, s) q)) x) (recon2_inputs H m k s q)"
  by (subst recon2_inputs.simps) (simp add: Let_def)

lemma recon2_inputs_right: "1 < n \<Longrightarrow> m < n \<Longrightarrow> k = largestPowerOfTwoBelow n \<Longrightarrow> k < m \<Longrightarrow>
    recon2_inputs H m n s (q @ [x]) =
      {node_input x (fst (recon2 (fold_cons H) (m - k) (n - k) (s, s) q)),
       node_input x (snd (recon2 (fold_cons H) (m - k) (n - k) (s, s) q))}
      \<union> recon2_inputs H (m - k) (n - k) s q"
  by (subst recon2_inputs.simps) (simp add: Let_def)

context digest32
begin

lemma length_recon2:
  "length (fst acc) = 32 \<Longrightarrow> length (snd acc) = 32 \<Longrightarrow>
    length (fst (recon2 (fold_cons H) m n acc p)) = 32 \<and> length (snd (recon2 (fold_cons H) m n acc p)) = 32"
proof (induction "fold_cons H" m n acc p rule: recon2.induct)
  case (1 m n acc p)
  then show ?case
    by (subst (1 2) recon2.simps) (auto simp: Let_def fold_cons_def split: prod.splits)
qed

lemma MTH_take_drop_cancel:
  assumes "inj_on H S" "1 < length D" "1 < length E"
    "largestPowerOfTwoBelow (length D) = k" "largestPowerOfTwoBelow (length E) = k"
    "mth_inputs H D \<subseteq> S" "mth_inputs H E \<subseteq> S"
    "\<forall>x \<in> set D. length x = 32" "\<forall>x \<in> set E. length x = 32" "MTH H D = MTH H E"
  shows "MTH H (take k D) = MTH H (take k E) \<and> MTH H (drop k D) = MTH H (drop k E)"
  using assms by (intro hashNode_cancel [OF assms(1)])
    (auto simp: mth_inputs_split MTH_split length_MTH_take)

text \<open>Two logs of one size with one root are the same log.\<close>

lemma MTH_inj:
  "length D = length E \<Longrightarrow> \<forall>x \<in> set D. length x = 32 \<Longrightarrow> \<forall>x \<in> set E. length x = 32 \<Longrightarrow>
   inj_on H S \<Longrightarrow> mth_inputs H D \<subseteq> S \<Longrightarrow> mth_inputs H E \<subseteq> S \<Longrightarrow> MTH H D = MTH H E \<Longrightarrow> D = E"
proof (induction "length D" arbitrary: D E rule: less_induct)
  case less
  show ?case
  proof (cases "length D \<le> 1")
    case True
    then consider "D = []" | d where "D = [d]" by (cases D) auto
    then show ?thesis
    proof cases
      case 2
      then obtain e where "E = [e]" using less.prems(1) by (cases E) auto
      with 2 show ?thesis using less.prems(7) by simp
    qed (use less.prems(1) in simp)
  next
    case False
    then have n: "1 < length D" "1 < length E" using less.prems(1) by simp_all
    let ?k = "largestPowerOfTwoBelow (length D)"
    have ke: "largestPowerOfTwoBelow (length E) = ?k" using less.prems(1) by simp
    have k: "0 < ?k" "?k < length D" using lp_bounds [OF n(1)] by auto
    have c: "MTH H (take ?k D) = MTH H (take ?k E)" "MTH H (drop ?k D) = MTH H (drop ?k E)"
      using MTH_take_drop_cancel [OF less.prems(4) n refl ke] less.prems by auto
    have s: "\<forall>x \<in> set (take ?k D). length x = 32" "\<forall>x \<in> set (take ?k E). length x = 32"
      "\<forall>x \<in> set (drop ?k D). length x = 32" "\<forall>x \<in> set (drop ?k E). length x = 32"
      using less.prems(2,3) by (auto dest: in_set_takeD in_set_dropD)
    have i: "mth_inputs H (take ?k D) \<subseteq> S" "mth_inputs H (take ?k E) \<subseteq> S"
      "mth_inputs H (drop ?k D) \<subseteq> S" "mth_inputs H (drop ?k E) \<subseteq> S"
      using less.prems(5,6) mth_inputs_split [OF n(1) refl, of H] mth_inputs_split [OF n(2) ke [symmetric], of H]
      by auto
    have "take ?k D = take ?k E"
      by (rule less.hyps) (use k less.prems(1,4) s i c in auto)
    moreover have "drop ?k D = drop ?k E"
      by (rule less.hyps) (use k less.prems(1,4) s i c in auto)
    ultimately show ?thesis by (metis append_take_drop_id)
  qed
qed

lemma cpath_lengths:
  "0 < m \<Longrightarrow> m \<le> length D \<Longrightarrow> \<forall>x \<in> set D. length x = 32 \<Longrightarrow>
    length (cseed H m D) = 32 \<and> (\<forall>x \<in> set (cpath H m D). length x = 32)"
proof (induction "length D" arbitrary: m D rule: less_induct)
  case less
  let ?k = "largestPowerOfTwoBelow (length D)"
  have s: "\<forall>x \<in> set (take ?k D). length x = 32" "\<forall>x \<in> set (drop ?k D). length x = 32"
    using less.prems(3) by (auto dest: in_set_takeD in_set_dropD)
  from less.prems(1,2) show ?case
  proof (cases rule: split_tree_cases)
    case all
    then show ?thesis using less.prems by (simp add: length_MTH)
  next
    case left
    note t = tree_left [OF left(1-3)]
    show ?thesis using less.hyps [of "take ?k D" m] left less.prems s
      by (simp add: t(1,2,6) length_MTH_drop)
  next
    case right
    note t = tree_right [OF right(1-3)]
    show ?thesis
      using less.hyps [of "drop ?k D" "m - ?k"] right lp_bounds [OF right(2)] less.prems s
      by (simp add: t(1,2) length_MTH_take)
  qed
qed

lemma split_proof_honest:
  assumes "0 < m" "m < length D" "length D \<le> 2 ^ 31"
  shows "split_proof m (MTH H (take m D)) (SUBPROOF H m D True) = Some (cseed H m D, cpath H m D)"
proof -
  have p: "isPowerOfTwo (int m) \<longleftrightarrow> (\<exists>i. m = 2 ^ i)"
    by (rule isPowerOfTwo_iff) (use assms in auto)
  show ?thesis
    using SUBPROOF_True_power [of m D H] SUBPROOF_True_other [of m D H] assms
    by (cases "\<exists>i. m = 2 ^ i") (auto simp: split_proof_def p)
qed

text \<open>Completeness: a consistency proof of a log verifies against the root of every earlier
  size and the current root.\<close>

lemma consistency_complete:
  assumes pf: "consistencyProof H t (int m) = Inr pf"
    and len: "\<forall>x \<in> set (leaves t). length x = 32" and sz: "length (leaves t) \<le> 2 ^ 31"
  shows "vr_valid (verifyConsistency H pf (tree_root H \<lparr>leaves = take m (leaves t)\<rparr>) (tree_root H t))"
proof -
  let ?n = "length (leaves t)"
  have mn: "m \<le> ?n" and p: "cp_firstSize pf = int m" "cp_secondSize pf = int ?n"
    "cp_path pf = (if 0 < m \<and> m < ?n then map to_hex (SUBPROOF H m (leaves t) True) else [])"
    using pf by (auto simp: consistencyProof_def Let_def subproof_eq_SUBPROOF split: if_splits)
  consider "m = ?n" | "m = 0" "m \<noteq> ?n" | "0 < m" "m < ?n" using mn by linarith
  then show ?thesis
  proof cases
    case 1
    then show ?thesis by (simp add: verifyConsistency_def Let_def p tree_root_eq_MTH)
  next
    case 2
    then show ?thesis by (simp add: verifyConsistency_def Let_def p)
  next
    case 3
    obtain fn sn where st: "nstrip (m - 1) (?n - 1) = (fn, sn)" by force
    note cl = cpath_lengths [OF 3(1) mn len]
    have "nwalk (fold_cons H) fn sn (cseed H m (leaves t), cseed H m (leaves t)) (cpath H m (leaves t))
        = Some (0, 0, MTH H (take m (leaves t)), MTH H (leaves t))"
      using walk_consistency [OF 3 st length_cpath [OF 3(1) mn], of "fold_cons H"] recon2_cpath [OF 3(1) mn]
      by simp
    moreover have "length (MTH H (take m (leaves t))) = 32" by (rule length_MTH_take [OF len])
    ultimately show ?thesis
      using verifyConsistency_ok_iff [OF p(1) 3(1) p(2) 3(2) sz _ st] split_proof_honest [OF 3 sz] cl 3
      by (simp add: tree_root_eq_MTH p(3) comp_def)
  qed
qed

lemma recon2_sound:
  "0 < m \<Longrightarrow> m = length E \<Longrightarrow> m \<le> length D \<Longrightarrow> length p = plen2 m (length D) \<Longrightarrow> length s = 32 \<Longrightarrow>
   \<forall>x \<in> set D. length x = 32 \<Longrightarrow> \<forall>x \<in> set E. length x = 32 \<Longrightarrow> \<forall>x \<in> set p. length x = 32 \<Longrightarrow>
   inj_on H S \<Longrightarrow> mth_inputs H D \<subseteq> S \<Longrightarrow> mth_inputs H E \<subseteq> S \<Longrightarrow> recon2_inputs H m (length D) s p \<subseteq> S \<Longrightarrow>
   recon2 (fold_cons H) m (length D) (s, s) p = (MTH H E, MTH H D) \<Longrightarrow> E = take m D"
proof (induction "length D" arbitrary: D E m p rule: less_induct)
  case less
  let ?k = "largestPowerOfTwoBelow (length D)"
  have sD: "\<forall>x \<in> set (take ?k D). length x = 32" "\<forall>x \<in> set (drop ?k D). length x = 32"
    using less.prems(6) by (auto dest: in_set_takeD in_set_dropD)
  from less.prems(1,3) show ?case
  proof (cases rule: split_tree_cases)
    case all
    then have "MTH H E = MTH H D" using less.prems(13) by auto
    then show ?thesis using all less.prems MTH_inj [of E D S] by simp
  next
    case left
    note t = tree_left [OF left(1-3)]
    obtain q x where p: "p = q @ [x]" "length q = plen2 m ?k"
      using less.prems(4) unfolding t(4) by (auto dest: length_Suc_snoc)
    let ?r = "recon2 (fold_cons H) m ?k (s, s) q"
    have r: "fst ?r = MTH H E" "hashNode H (snd ?r) x = MTH H D"
      using less.prems(13) unfolding p(1) t(5) by (simp_all add: fold_cons_def split: prod.splits)
    have inp: "node_input (snd ?r) x \<in> S" "recon2_inputs H m ?k s q \<subseteq> S"
      using less.prems(12) unfolding p(1) recon2_inputs_left [OF left(2,1) refl left(3)] by auto
    have inD: "node_input (MTH H (take ?k D)) (MTH H (drop ?k D)) \<in> S" "mth_inputs H (take ?k D) \<subseteq> S"
      using less.prems(10) by (auto simp: mth_inputs_split [OF left(2) refl])
    have "snd ?r = MTH H (take ?k D)"
      using hashNode_cancel [OF less.prems(9) inp(1) inD(1)] r(2) less.prems(5,6)
      by (simp add: length_recon2 length_MTH_take MTH_split [OF left(2)])
    then have "?r = (MTH H E, MTH H (take ?k D))" using r(1) by (simp add: prod_eq_iff)
    then have "E = take m (take ?k D)"
      using less.prems left p sD inD inp by (intro less.hyps [where p = q]) (simp_all add: t(6))
    then show ?thesis by (simp only: t(7))
  next
    case right
    note t = tree_right [OF right(1-3)]
    have k: "0 < ?k" "largestPowerOfTwoBelow (length E) = ?k" "1 < length E"
      using lp_bounds [OF right(2)] lp_prefix [OF right(2) refl right(3)] less.prems(2) right by auto
    obtain q x where p: "p = q @ [x]" "length q = plen2 (m - ?k) (length D - ?k)"
      using less.prems(4) unfolding t(4) by (auto dest: length_Suc_snoc)
    let ?r = "recon2 (fold_cons H) (m - ?k) (length D - ?k) (s, s) q"
    have r: "hashNode H x (fst ?r) = MTH H E" "hashNode H x (snd ?r) = MTH H D"
      using less.prems(13) unfolding p(1) t(5) by (simp_all add: fold_cons_def split: prod.splits)
    have inp: "node_input x (fst ?r) \<in> S" "node_input x (snd ?r) \<in> S"
      "recon2_inputs H (m - ?k) (length D - ?k) s q \<subseteq> S"
      using less.prems(12) unfolding p(1) recon2_inputs_right [OF right(2,1) refl right(3)] by auto
    have inD: "node_input (MTH H (take ?k D)) (MTH H (drop ?k D)) \<in> S"
      "mth_inputs H (take ?k D) \<subseteq> S" "mth_inputs H (drop ?k D) \<subseteq> S"
      using less.prems(10) by (auto simp: mth_inputs_split [OF right(2) refl])
    have inE: "node_input (MTH H (take ?k E)) (MTH H (drop ?k E)) \<in> S"
      "mth_inputs H (take ?k E) \<subseteq> S" "mth_inputs H (drop ?k E) \<subseteq> S"
      using less.prems(11) by (auto simp: mth_inputs_split [OF k(3) k(2) [symmetric]])
    have sE: "\<forall>x \<in> set (take ?k E). length x = 32" "\<forall>x \<in> set (drop ?k E). length x = 32"
      using less.prems(7) by (auto dest: in_set_takeD in_set_dropD)
    have x32: "length x = 32" "\<forall>x \<in> set q. length x = 32" using less.prems(8) p(1) by simp_all
    have cD: "x = MTH H (take ?k D) \<and> snd ?r = MTH H (drop ?k D)"
      by (rule hashNode_cancel [OF less.prems(9) inp(2) inD(1) x32(1) length_MTH_take [OF less.prems(6)]])
        (simp add: r(2) MTH_split [OF right(2)])
    have cE: "x = MTH H (take ?k E) \<and> fst ?r = MTH H (drop ?k E)"
      by (rule hashNode_cancel [OF less.prems(9) inp(1) inE(1) x32(1) length_MTH_take [OF less.prems(7)]])
        (simp add: r(1) MTH_split [OF k(3)] k(2))
    have "take ?k E = take ?k D"
      by (rule MTH_inj [OF _ sE(1) sD(1) less.prems(9) inE(2) inD(2)])
        (use cD cE right less.prems(2) in auto)
    moreover have "drop ?k E = take (m - ?k) (drop ?k D)"
      by (rule less.hyps [where p = q])
        (use k right p x32 sD sE inD inE inp cD cE less.prems(2,5,9) in \<open>auto simp: prod_eq_iff\<close>)
    ultimately show ?thesis using right
      by (metis append_take_drop_id le_add_diff_inverse less_imp_le take_add)
  qed
qed

text \<open>Soundness: a consistency proof that verifies between the roots of two logs, at their
  sizes, makes the first log a prefix of the second.\<close>

lemma consistency_sound:
  assumes ok: "vr_valid (verifyConsistency H pf (tree_root H t1) (tree_root H t2))"
    and sz: "cp_firstSize pf = int (length (leaves t1))" "cp_secondSize pf = int (length (leaves t2))"
      "length (leaves t2) \<le> 2 ^ 31"
    and len: "\<forall>x \<in> set (leaves t1). length x = 32" "\<forall>x \<in> set (leaves t2). length x = 32"
    and inj: "inj_on H S" and S: "mth_inputs H (leaves t1) \<subseteq> S" "mth_inputs H (leaves t2) \<subseteq> S"
      "\<And>s rest. split_proof (length (leaves t1)) (MTH H (leaves t1)) (map of_hex (cp_path pf)) = Some (s, rest)
        \<Longrightarrow> recon2_inputs H (length (leaves t1)) (length (leaves t2)) s rest \<subseteq> S"
  shows "leaves t1 = take (length (leaves t1)) (leaves t2)"
proof -
  let ?m = "length (leaves t1)" and ?n = "length (leaves t2)"
  have "?m \<le> ?n" using ok sz by (auto simp: verifyConsistency_def Let_def split: if_splits)
  then consider "?m = ?n" | "?m = 0" | "0 < ?m" "?m < ?n" by linarith
  then show ?thesis
  proof cases
    case 1
    then have "MTH H (leaves t1) = MTH H (leaves t2)"
      using ok sz by (auto simp: verifyConsistency_def Let_def tree_root_eq_MTH split: if_splits)
    then show ?thesis using MTH_inj [OF 1 len inj S(1,2)] by simp
  next
    case 3
    obtain fn sn where st: "nstrip (?m - 1) (?n - 1) = (fn, sn)" by force
    obtain s rest y sr where w: "split_proof ?m (MTH H (leaves t1)) (map of_hex (cp_path pf)) = Some (s, rest)"
      "length s = 32" "\<forall>x \<in> set rest. length x = 32"
      "nwalk (fold_cons H) fn sn (s, s) rest = Some (y, 0, MTH H (leaves t1), sr)" "sr = MTH H (leaves t2)"
      using ok verifyConsistency_ok_iff [OF sz(1) 3(1) sz(2) 3(2) sz(3) length_MTH [OF len(1)] st]
      by (auto simp: tree_root_eq_MTH)
    from walk_consistency_stop [OF 3 st w(4)] w(5)
    have "length rest = plen2 ?m ?n" "recon2 (fold_cons H) ?m ?n (s, s) rest = (MTH H (leaves t1), MTH H (leaves t2))"
      by auto
    then show ?thesis
      using recon2_sound [OF 3(1) refl less_imp_le [OF 3(2)] _ w(2) len(2,1) w(3) inj S(2,1) S(3) [OF w(1)]]
      by simp
  qed simp
qed

end

end
