(* ===== verification/Audit_Log.thy ===== *)
theory Audit_Log
  imports Canonical_Injective Merkle_Consistency "HOL-Library.Sublist"
begin

text \<open>
  \<open>evidence/audit-log.ts\<close>: the hash-chained log with its Merkle tree, the two verifiers,
  the invariant of a log built by \<open>append\<close>, and what the chain commits to.
\<close>

section \<open>Entries\<close>

record audit_event =
  ev_action :: string
  ev_actor :: string
  ev_tenantId :: string
  ev_subject :: "string option"
  ev_payload :: "(string \<times> jsval) list option"
  ev_recordedAt :: "instant option"

record audit_entry =
  ae_seq :: int
  ae_recordedAt :: string
  ae_action :: string
  ae_actor :: string
  ae_tenantId :: string
  ae_subject :: "string option"
  ae_payload :: "(string \<times> jsval) list"
  ae_previousHash :: string
  ae_entryHash :: string

definition GENESIS_HASH :: string where
  "GENESIS_HASH = replicate 64 (CHR ''0'')"

definition opt_str :: "string option \<Rightarrow> jsval" where
  "opt_str s = (case s of None \<Rightarrow> JNull | Some x \<Rightarrow> JStr x)"

text \<open>The object the digest covers: the entry without its own hash.\<close>

definition unsealed :: "audit_entry \<Rightarrow> jsval" where
  "unsealed e = JObj
    [(''seq'', JNum (num_of_int (ae_seq e))),
     (''recordedAt'', JStr (ae_recordedAt e)),
     (''action'', JStr (ae_action e)),
     (''actor'', JStr (ae_actor e)),
     (''tenantId'', JStr (ae_tenantId e)),
     (''subject'', opt_str (ae_subject e)),
     (''payload'', JObj (ae_payload e)),
     (''previousHash'', JStr (ae_previousHash e))]"

text \<open>\<open>createHash('sha256').update(canonicalize(v), 'utf8').digest('hex')\<close>.\<close>

definition canonical_digest :: "(bytes \<Rightarrow> bytes) \<Rightarrow> jsval \<Rightarrow> string + string" where
  "canonical_digest H v = bindE (canonicalize v) (\<lambda>s. Inr (to_hex (H (utf8 s))))"

definition entryDigest :: "(bytes \<Rightarrow> bytes) \<Rightarrow> audit_entry \<Rightarrow> string + string" where
  "entryDigest H e = canonical_digest H (unsealed e)"

section \<open>The verifiers\<close>

record chain_verification =
  cv_valid :: bool
  cv_checked :: nat
  cv_brokenAt :: "int option"
  cv_reason :: "string option"

definition cv_broken :: "nat \<Rightarrow> audit_entry \<Rightarrow> string \<Rightarrow> chain_verification" where
  "cv_broken i e r = \<lparr>cv_valid = False, cv_checked = i, cv_brokenAt = Some (ae_seq e), cv_reason = Some r\<rparr>"

definition cv_ok :: "nat \<Rightarrow> chain_verification" where
  "cv_ok n = \<lparr>cv_valid = True, cv_checked = n, cv_brokenAt = None, cv_reason = None\<rparr>"

text \<open>The part of the loop body both verifiers share: recompute the hash, or the failure.\<close>

definition check_digest :: "(bytes \<Rightarrow> bytes) \<Rightarrow> nat \<Rightarrow> audit_entry \<Rightarrow> chain_verification option" where
  "check_digest H i e = (case entryDigest H e of
     Inl msg \<Rightarrow> Some (cv_broken i e (''entry '' @ show_int (ae_seq e) @ '' cannot be canonicalized: '' @ msg))
   | Inr recomputed \<Rightarrow>
       if recomputed \<noteq> ae_entryHash e
       then Some (cv_broken i e (''entry '' @ show_int (ae_seq e) @ '' was modified after it was written''))
       else None)"

fun chain_loop :: "(bytes \<Rightarrow> bytes) \<Rightarrow> nat \<Rightarrow> string \<Rightarrow> audit_entry list \<Rightarrow> chain_verification" where
  "chain_loop H i previousHash [] = cv_ok i"
| "chain_loop H i previousHash (e # es) =
     (if ae_seq e \<noteq> int i
      then cv_broken i e (''entry at position '' @ show_nat i @ '' claims seq '' @ show_int (ae_seq e)
        @ ''; the log is reordered or has a gap'')
      else if ae_previousHash e \<noteq> previousHash
      then cv_broken i e (''entry '' @ show_int (ae_seq e) @ '' does not follow entry ''
        @ show_int (ae_seq e - 1) @ ''; an entry was removed or replaced'')
      else case check_digest H i e of
        Some failure \<Rightarrow> failure
      | None \<Rightarrow> chain_loop H (Suc i) (ae_entryHash e) es)"

definition verifyChain :: "(bytes \<Rightarrow> bytes) \<Rightarrow> audit_entry list \<Rightarrow> chain_verification" where
  "verifyChain H entries = chain_loop H 0 GENESIS_HASH entries"

fun slice_loop :: "(bytes \<Rightarrow> bytes) \<Rightarrow> nat \<Rightarrow> int \<Rightarrow> audit_entry list \<Rightarrow> chain_verification" where
  "slice_loop H i previousSeq [] = cv_ok i"
| "slice_loop H i previousSeq (e # es) =
     (if ae_seq e \<le> previousSeq
      then cv_broken i e (''entry at position '' @ show_nat i @ '' claims seq '' @ show_int (ae_seq e)
        @ '', which does not follow '' @ show_int previousSeq
        @ ''; the slice is reordered or contains a duplicate'')
      else case check_digest H i e of
        Some failure \<Rightarrow> failure
      | None \<Rightarrow> slice_loop H (Suc i) (ae_seq e) es)"

definition verifyEntrySlice :: "(bytes \<Rightarrow> bytes) \<Rightarrow> audit_entry list \<Rightarrow> chain_verification" where
  "verifyEntrySlice H entries = slice_loop H 0 (- 1) entries"

section \<open>The log\<close>

record audit_log =
  al_entries :: "audit_entry list"
  al_tree :: merkle_tree
  al_lastHash :: string

definition empty_log :: audit_log where
  "empty_log = \<lparr>al_entries = [], al_tree = empty_tree, al_lastHash = GENESIS_HASH\<rparr>"

text \<open>The result and the state after the call; a throw leaves the state it found.\<close>

definition log_append ::
    "(bytes \<Rightarrow> bytes) \<Rightarrow> instant \<Rightarrow> audit_log \<Rightarrow> audit_event \<Rightarrow> (string + audit_entry) \<times> audit_log" where
  "log_append H now l ev =
     (if ev_action ev = [] then (Inl ''an audit event needs an action'', l)
      else if ev_actor ev = [] then (Inl ''an audit event needs an actor'', l)
      else if ev_tenantId ev = [] then (Inl ''an audit event needs a tenantId'', l)
      else
        let unsealed_entry = \<lparr>ae_seq = int (length (al_entries l)),
              ae_recordedAt = toISOString (case ev_recordedAt ev of None \<Rightarrow> now | Some t \<Rightarrow> t),
              ae_action = ev_action ev, ae_actor = ev_actor ev, ae_tenantId = ev_tenantId ev,
              ae_subject = ev_subject ev,
              ae_payload = (case ev_payload ev of None \<Rightarrow> [] | Some p \<Rightarrow> p),
              ae_previousHash = al_lastHash l, ae_entryHash = []\<rparr>
        in case entryDigest H unsealed_entry of
          Inl msg \<Rightarrow> (Inl msg, l)
        | Inr entryHash \<Rightarrow>
            let e = unsealed_entry\<lparr>ae_entryHash := entryHash\<rparr> in
            (Inr e, l\<lparr>al_entries := al_entries l @ [e],
                      al_tree := fst (tree_append H (al_tree l) (Buf (of_hex entryHash))),
                      al_lastHash := entryHash\<rparr>))"

definition log_size :: "audit_log \<Rightarrow> nat" where
  "log_size l = length (al_entries l)"

definition log_root :: "(bytes \<Rightarrow> bytes) \<Rightarrow> audit_log \<Rightarrow> string" where
  "log_root H l = tree_root H (al_tree l)"

definition log_head :: "audit_log \<Rightarrow> string" where
  "log_head l = al_lastHash l"

definition log_at :: "audit_log \<Rightarrow> int \<Rightarrow> string + audit_entry" where
  "log_at l seq = (if 0 \<le> seq \<and> nat seq < length (al_entries l) then Inr (al_entries l ! nat seq)
     else Inl (''no audit entry at seq '' @ show_int seq))"

definition forTenant :: "audit_log \<Rightarrow> string \<Rightarrow> audit_entry list" where
  "forTenant l tenantId = filter (\<lambda>e. ae_tenantId e = tenantId) (al_entries l)"

definition log_inclusionProof :: "(bytes \<Rightarrow> bytes) \<Rightarrow> audit_log \<Rightarrow> int \<Rightarrow> string + inclusion_proof" where
  "log_inclusionProof H l seq = inclusionProof H (al_tree l) seq"

definition log_consistencyProof :: "(bytes \<Rightarrow> bytes) \<Rightarrow> audit_log \<Rightarrow> int \<Rightarrow> string + consistency_proof" where
  "log_consistencyProof H l previousSize = consistencyProof H (al_tree l) previousSize"

definition leafFor :: "audit_log \<Rightarrow> int \<Rightarrow> string + bytes" where
  "leafFor l seq = bindE (log_at l seq) (\<lambda>e. Inr (of_hex (ae_entryHash e)))"

definition log_verify :: "(bytes \<Rightarrow> bytes) \<Rightarrow> audit_log \<Rightarrow> chain_verification" where
  "log_verify H l = verifyChain H (al_entries l)"

text \<open>A history: the events appended, those refused skipped.\<close>

fun log_run :: "(bytes \<Rightarrow> bytes) \<Rightarrow> audit_log \<Rightarrow> (instant \<times> audit_event) list \<Rightarrow> audit_log" where
  "log_run H l [] = l"
| "log_run H l ((now, ev) # evs) = log_run H (snd (log_append H now l ev)) evs"

section \<open>What the verifiers check\<close>

text \<open>A chain as a property of the list: positions, links and digests.\<close>

definition sealed :: "(bytes \<Rightarrow> bytes) \<Rightarrow> audit_entry \<Rightarrow> bool" where
  "sealed H e = (entryDigest H e = Inr (ae_entryHash e))"

fun chained :: "(bytes \<Rightarrow> bytes) \<Rightarrow> nat \<Rightarrow> string \<Rightarrow> audit_entry list \<Rightarrow> bool" where
  "chained H i p [] = True"
| "chained H i p (e # es) =
     (ae_seq e = int i \<and> ae_previousHash e = p \<and> sealed H e \<and> chained H (Suc i) (ae_entryHash e) es)"

lemma check_digest_None: "check_digest H i e = None \<longleftrightarrow> sealed H e"
  by (auto simp: check_digest_def sealed_def split: sum.splits)

lemma check_digest_invalid: "check_digest H i e = Some f \<Longrightarrow> \<not> cv_valid f"
  by (auto simp: check_digest_def cv_broken_def split: sum.splits if_splits)

lemma chain_loop_valid: "cv_valid (chain_loop H i p es) \<longleftrightarrow> chained H i p es"
proof (induction es arbitrary: i p)
  case (Cons e es)
  then show ?case using check_digest_None [of H i e]
    by (cases "check_digest H i e") (auto simp: cv_broken_def dest: check_digest_invalid)
qed (simp add: cv_ok_def)

lemma verifyChain_iff: "cv_valid (verifyChain H es) \<longleftrightarrow> chained H 0 GENESIS_HASH es"
  by (simp add: verifyChain_def chain_loop_valid)

lemma slice_loop_valid: "cv_valid (slice_loop H i s es) \<longleftrightarrow>
    (\<forall>e \<in> set es. sealed H e \<and> s < ae_seq e) \<and> sorted_wrt (<) (map ae_seq es)"
proof (induction es arbitrary: i s)
  case (Cons e es)
  then show ?case using check_digest_None [of H i e]
    by (cases "check_digest H i e") (auto simp: cv_broken_def dest: check_digest_invalid)
qed (simp add: cv_ok_def)

lemma verifyEntrySlice_iff: "cv_valid (verifyEntrySlice H es) \<longleftrightarrow>
    (\<forall>e \<in> set es. sealed H e \<and> 0 \<le> ae_seq e) \<and> sorted_wrt (<) (map ae_seq es)"
  unfolding verifyEntrySlice_def slice_loop_valid by fastforce

text \<open>How far a failing verification got: everything before the entry it names is a chain.\<close>

lemma chain_loop_checked_ge: "i \<le> cv_checked (chain_loop H i p es)"
proof (induction es arbitrary: i p)
  case (Cons e es)
  then show ?case using Suc_leD [OF Cons.IH [of "Suc i" "ae_entryHash e"]]
    by (auto simp: cv_broken_def check_digest_def split: sum.splits)
qed (simp add: cv_ok_def)

lemma chain_loop_checked:
  "cv_checked (chain_loop H i p es) = i + n \<Longrightarrow> n \<le> length es \<and> chained H i p (take n es)"
proof (induction es arbitrary: i p n)
  case Nil
  then show ?case by (simp add: cv_ok_def)
next
  case (Cons e es)
  show ?case
  proof (cases "ae_seq e = int i \<and> ae_previousHash e = p \<and> check_digest H i e = None")
    case True
    then have "cv_checked (chain_loop H (Suc i) (ae_entryHash e) es) = i + n" using Cons.prems by simp
    moreover have "Suc i \<le> cv_checked (chain_loop H (Suc i) (ae_entryHash e) es)"
      by (rule chain_loop_checked_ge)
    ultimately have "Suc i \<le> i + n" by linarith
    then obtain m where "n = Suc m" by (cases n) auto
    moreover from this have "cv_checked (chain_loop H (Suc i) (ae_entryHash e) es) = Suc i + m"
      using \<open>cv_checked (chain_loop H (Suc i) (ae_entryHash e) es) = i + n\<close> by simp
    ultimately show ?thesis
      using Cons.IH [of "Suc i" "ae_entryHash e" m] True by (simp add: check_digest_None)
  next
    case False
    then have "n = 0" using Cons.prems
      by (auto simp: cv_broken_def check_digest_def split: option.splits sum.splits if_splits)
    then show ?thesis by simp
  qed
qed

lemma chained_append:
  "chained H i p (xs @ ys) \<longleftrightarrow>
    chained H i p xs \<and> chained H (i + length xs) (if xs = [] then p else ae_entryHash (last xs)) ys"
  by (induction xs arbitrary: i p) auto

lemma chained_seq: "chained H i p es \<Longrightarrow> j < length es \<Longrightarrow> ae_seq (es ! j) = int (i + j)"
proof (induction es arbitrary: i p j)
  case (Cons e es)
  then show ?case by (cases j) auto
qed simp

lemma chained_sealed: "chained H i p es \<Longrightarrow> e \<in> set es \<Longrightarrow> sealed H e"
  by (induction es arbitrary: i p) auto

lemma chained_map_seq: "chained H i p es \<Longrightarrow> map ae_seq es = map int [i..<i + length es]"
  by (rule nth_equalityI) (simp_all add: chained_seq)

lemma sorted_map_filter: "sorted_wrt R (map f xs) \<Longrightarrow> sorted_wrt R (map f (filter P xs))"
  by (induction xs) auto

text \<open>Any filtered view of a chain is an acceptable slice.\<close>

lemma slice_of_chain:
  assumes "cv_valid (verifyChain H es)"
  shows "cv_valid (verifyEntrySlice H (filter P es))"
proof -
  have c: "chained H 0 GENESIS_HASH es" using assms by (simp add: verifyChain_iff)
  have "0 \<le> ae_seq e" if "e \<in> set es" for e
    using chained_seq [OF c] that by (auto simp: in_set_conv_nth)
  moreover have "sorted_wrt (<) (map ae_seq (filter P es))"
    by (rule sorted_map_filter) (simp add: chained_map_seq [OF c] sorted_wrt_map)
  ultimately show ?thesis using chained_sealed [OF c] by (auto simp: verifyEntrySlice_iff)
qed

section \<open>The invariant of a log\<close>

definition log_inv :: "(bytes \<Rightarrow> bytes) \<Rightarrow> audit_log \<Rightarrow> bool" where
  "log_inv H l =
     (chained H 0 GENESIS_HASH (al_entries l)
      \<and> leaves (al_tree l) = map (\<lambda>e. hashLeaf H (Buf (of_hex (ae_entryHash e)))) (al_entries l)
      \<and> al_lastHash l = (if al_entries l = [] then GENESIS_HASH else ae_entryHash (last (al_entries l))))"

lemma log_inv_empty [simp]: "log_inv H empty_log"
  by (simp add: log_inv_def empty_log_def empty_tree_def)

lemma entryDigest_hash_irrelevant: "entryDigest H (e\<lparr>ae_entryHash := h\<rparr>) = entryDigest H e"
  by (simp add: entryDigest_def unsealed_def)

lemma log_append_cases:
  obtains (refused) msg where "log_append H now l ev = (Inl msg, l)"
  | (sealed) e where "log_append H now l ev = (Inr e, l\<lparr>al_entries := al_entries l @ [e],
        al_tree := fst (tree_append H (al_tree l) (Buf (of_hex (ae_entryHash e)))),
        al_lastHash := ae_entryHash e\<rparr>)"
      "sealed H e" "ae_seq e = int (length (al_entries l))" "ae_previousHash e = al_lastHash l"
      "ae_action e = ev_action ev" "ae_actor e = ev_actor ev" "ae_tenantId e = ev_tenantId ev"
      "ae_action e \<noteq> []" "ae_actor e \<noteq> []" "ae_tenantId e \<noteq> []"
proof -
  let ?u = "\<lparr>ae_seq = int (length (al_entries l)),
      ae_recordedAt = toISOString (case ev_recordedAt ev of None \<Rightarrow> now | Some t \<Rightarrow> t),
      ae_action = ev_action ev, ae_actor = ev_actor ev, ae_tenantId = ev_tenantId ev,
      ae_subject = ev_subject ev, ae_payload = (case ev_payload ev of None \<Rightarrow> [] | Some p \<Rightarrow> p),
      ae_previousHash = al_lastHash l, ae_entryHash = []\<rparr>"
  show ?thesis
  proof (cases "entryDigest H ?u")
    case (Inl msg)
    then have "\<exists>m. log_append H now l ev = (Inl m, l)" by (simp add: log_append_def Let_def)
    then show ?thesis using refused by blast
  next
    case (Inr h)
    let ?e = "?u\<lparr>ae_entryHash := h\<rparr>"
    have s: "sealed H ?e" using Inr entryDigest_hash_irrelevant [where e = ?u and h = h and H = H] by (simp add: sealed_def)
    show ?thesis
    proof (cases "ev_action ev = [] \<or> ev_actor ev = [] \<or> ev_tenantId ev = []")
      case True
      then have "\<exists>m. log_append H now l ev = (Inl m, l)" by (auto simp: log_append_def)
      then show ?thesis using refused by blast
    next
      case False
      then have "log_append H now l ev = (Inr ?e, l\<lparr>al_entries := al_entries l @ [?e],
        al_tree := fst (tree_append H (al_tree l) (Buf (of_hex (ae_entryHash ?e)))),
        al_lastHash := ae_entryHash ?e\<rparr>)"
        using Inr by (simp add: log_append_def Let_def)
      then show ?thesis using s False by (intro sealed [of ?e]) simp_all
    qed
  qed
qed

lemma log_append_inv:
  assumes "log_inv H l"
  shows "log_inv H (snd (log_append H now l ev))"
proof (cases rule: log_append_cases [of H now l ev])
  case (sealed e)
  with assms show ?thesis by (auto simp: log_inv_def chained_append tree_append_def Let_def)
qed (use assms in simp)

lemma log_run_inv: "log_inv H l \<Longrightarrow> log_inv H (log_run H l evs)"
  by (induction evs arbitrary: l) (auto simp: log_append_inv)

lemma log_append_refused: "log_append H now l ev = (Inl msg, l') \<Longrightarrow> l' = l"
  by (cases rule: log_append_cases [of H now l ev]) auto

lemma log_append_prefix: "prefix (al_entries l) (al_entries (snd (log_append H now l ev)))"
  by (cases rule: log_append_cases [of H now l ev]) auto

lemma log_run_prefix: "prefix (al_entries l) (al_entries (log_run H l evs))"
proof (induction evs arbitrary: l)
  case (Cons x evs)
  obtain now ev where "x = (now, ev)" by (cases x)
  then show ?case using prefix_order.trans [OF log_append_prefix Cons.IH] by simp
qed simp

lemma log_inv_verifies: "log_inv H l \<Longrightarrow> cv_valid (log_verify H l)"
  by (simp add: log_inv_def log_verify_def verifyChain_iff)

section \<open>What the chain commits to\<close>

text \<open>An entry up to the order of the keys of its payload and its undefined properties.\<close>

definition norm_entry :: "audit_entry \<Rightarrow> audit_entry" where
  "norm_entry e = e\<lparr>ae_payload := (case norm_val (JObj (ae_payload e)) of JObj kvs \<Rightarrow> kvs | _ \<Rightarrow> [])\<rparr>"

definition wf_entry :: "audit_entry \<Rightarrow> bool" where
  "wf_entry e = wf_nums (JObj (ae_payload e))"

lemma wf_unsealed [simp]: "wf_nums (unsealed e) \<longleftrightarrow> wf_entry e"
  by (auto simp: unsealed_def wf_entry_def opt_str_def split: option.splits)

lemma norm_unsealed_inj:
  assumes "norm_val (unsealed d) = norm_val (unsealed e)"
  shows "ae_seq d = ae_seq e \<and> ae_recordedAt d = ae_recordedAt e \<and> ae_action d = ae_action e
    \<and> ae_actor d = ae_actor e \<and> ae_tenantId d = ae_tenantId e \<and> ae_subject d = ae_subject e
    \<and> norm_val (JObj (ae_payload d)) = norm_val (JObj (ae_payload e))
    \<and> ae_previousHash d = ae_previousHash e"
proof -
  note f = norm_obj_eq [OF assms [unfolded unsealed_def], simplified]
  have "norm_val (opt_str (ae_subject d)) = norm_val (opt_str (ae_subject e))"
    by (rule f [of "''subject''"]) (auto simp: opt_str_def split: option.splits)
  then have "ae_subject d = ae_subject e" by (auto simp: opt_str_def split: option.splits)
  moreover have "norm_val (JObj (ae_payload d)) = norm_val (JObj (ae_payload e))"
    by (rule f [of "''payload''"]) simp_all
  moreover have "norm_val (JStr (ae_recordedAt d)) = norm_val (JStr (ae_recordedAt e))"
    by (rule f [of "''recordedAt''"]) simp_all
  moreover have "norm_val (JStr (ae_action d)) = norm_val (JStr (ae_action e))"
    by (rule f [of "''action''"]) simp_all
  moreover have "norm_val (JStr (ae_actor d)) = norm_val (JStr (ae_actor e))"
    by (rule f [of "''actor''"]) simp_all
  moreover have "norm_val (JStr (ae_tenantId d)) = norm_val (JStr (ae_tenantId e))"
    by (rule f [of "''tenantId''"]) simp_all
  moreover have "norm_val (JStr (ae_previousHash d)) = norm_val (JStr (ae_previousHash e))"
    by (rule f [of "''previousHash''"]) simp_all
  moreover have "norm_val (JNum (num_of_int (ae_seq d))) = norm_val (JNum (num_of_int (ae_seq e)))"
    by (rule f [of "''seq''"]) simp_all
  ultimately show ?thesis by simp
qed

text \<open>The digest inputs of a list of entries.\<close>

definition entry_input :: "audit_entry \<Rightarrow> bytes" where
  "entry_input e = (case canonicalize (unsealed e) of Inl _ \<Rightarrow> [] | Inr s \<Rightarrow> utf8 s)"

lemma sealed_eq:
  assumes "sealed H d" "sealed H e" "ae_entryHash d = ae_entryHash e" "wf_entry d" "wf_entry e"
    "inj_on H S" "entry_input d \<in> S" "entry_input e \<in> S"
  shows "norm_entry d = norm_entry e \<and> ae_seq d = ae_seq e \<and> ae_previousHash d = ae_previousHash e"
proof -
  obtain s t where st: "canonicalize (unsealed d) = Inr s" "canonicalize (unsealed e) = Inr t"
    using assms(1,2) by (auto simp: sealed_def entryDigest_def canonical_digest_def bindE_Inr_iff)
  have "to_hex (H (utf8 s)) = to_hex (H (utf8 t))"
    using assms(1-3) st by (simp add: sealed_def entryDigest_def canonical_digest_def)
  then have "utf8 s = utf8 t" using assms(6-8) st by (auto simp: entry_input_def dest!: inj_onD)
  then have "norm_val (unsealed d) = norm_val (unsealed e)"
    using canonical_inj [OF st(1)] st(2) assms(4,5) by simp
  from norm_unsealed_inj [OF this] show ?thesis
    using assms(3) by (auto simp: norm_entry_def intro!: audit_entry.equality)
qed

text \<open>Tamper evidence: two chains that end in the same hash hold the same entries.\<close>

lemma chain_commits:
  assumes "chained H 0 p ds" "chained H 0 p es" "ds \<noteq> []" "es \<noteq> []"
    "ae_entryHash (last ds) = ae_entryHash (last es)"
    "\<forall>e \<in> set ds \<union> set es. wf_entry e" "inj_on H (entry_input ` (set ds \<union> set es))"
  shows "map norm_entry ds = map norm_entry es"
  using assms
proof (induction ds arbitrary: es rule: rev_induct)
  case (snoc d ds)
  obtain fs e where es: "es = fs @ [e]" using snoc.prems(4) by (cases es rule: rev_cases) auto
  have d: "sealed H d" "ae_seq d = int (length ds)" "ae_previousHash d = (if ds = [] then p else ae_entryHash (last ds))"
    "chained H 0 p ds" using snoc.prems(1) by (auto simp: chained_append)
  have e: "sealed H e" "ae_seq e = int (length fs)" "ae_previousHash e = (if fs = [] then p else ae_entryHash (last fs))"
    "chained H 0 p fs" using snoc.prems(2) es by (auto simp: chained_append)
  have eq: "norm_entry d = norm_entry e" "length ds = length fs" "ae_previousHash d = ae_previousHash e"
    using sealed_eq [OF d(1) e(1) _ _ _ snoc.prems(7)] snoc.prems(5,6) es d(2) e(2) by auto
  show ?case
  proof (cases "ds = []")
    case True
    with eq es show ?thesis by simp
  next
    case False
    then have "fs \<noteq> []" using eq(2) by auto
    have "map norm_entry ds = map norm_entry fs"
      using False \<open>fs \<noteq> []\<close> d(3,4) e(3,4) eq(3) snoc.prems(6,7) es
      by (intro snoc.IH) (auto intro: inj_on_subset)
    with eq es show ?thesis by simp
  qed
qed simp

section \<open>Proofs over a log\<close>

context digest32
begin

lemma log_leaves: "log_inv H l \<Longrightarrow> \<forall>x \<in> set (leaves (al_tree l)). length x = 32"
  by (auto simp: log_inv_def)

lemma log_inclusion:
  assumes "log_inv H l" "seq < length (al_entries l)" "length (al_entries l) \<le> 2 ^ 31"
  shows "\<exists>pf leaf. log_inclusionProof H l (int seq) = Inr pf \<and> leafFor l (int seq) = Inr leaf
    \<and> vr_valid (verifyInclusion H pf (Buf leaf) (log_root H l))"
proof -
  have len: "length (leaves (al_tree l)) = length (al_entries l)" using assms(1) by (simp add: log_inv_def)
  obtain pf where pf: "inclusionProof H (al_tree l) (int seq) = Inr pf"
    using assms(2) by (simp add: inclusionProof_def len Let_def)
  have lf: "leafFor l (int seq) = Inr (of_hex (ae_entryHash (al_entries l ! seq)))"
    using assms(2) by (simp add: leafFor_def log_at_def)
  have "vr_valid (verifyInclusion H pf (Buf (of_hex (ae_entryHash (al_entries l ! seq)))) (log_root H l))"
    unfolding log_root_def
    by (rule inclusion_complete [OF pf _ log_leaves [OF assms(1)]])
      (use assms in \<open>simp_all add: len, simp add: log_inv_def\<close>)
  with pf lf show ?thesis by (auto simp: log_inclusionProof_def)
qed

lemma log_consistency:
  assumes "log_inv H l" "length (al_entries (log_run H l evs)) \<le> 2 ^ 31"
  shows "\<exists>pf. log_consistencyProof H (log_run H l evs) (int (log_size l)) = Inr pf
    \<and> vr_valid (verifyConsistency H pf (log_root H l) (log_root H (log_run H l evs)))"
proof -
  let ?l' = "log_run H l evs"
  have inv': "log_inv H ?l'" using assms(1) by (rule log_run_inv)
  obtain xs where pre: "al_entries ?l' = al_entries l @ xs" using log_run_prefix [of l H evs] by (auto elim: prefixE)
  then have len: "length (leaves (al_tree ?l')) = length (al_entries ?l')"
    "take (log_size l) (leaves (al_tree ?l')) = leaves (al_tree l)"
    using assms(1) inv' by (simp_all add: log_inv_def log_size_def)
  have r: "log_root H l = tree_root H \<lparr>leaves = take (log_size l) (leaves (al_tree ?l'))\<rparr>"
    using len(2) by (simp add: log_root_def tree_root_def)
  obtain pf where pf: "consistencyProof H (al_tree ?l') (int (log_size l)) = Inr pf"
    using pre len(1) by (auto simp: consistencyProof_def Let_def log_size_def)
  show ?thesis unfolding r unfolding log_root_def log_consistencyProof_def
    using consistency_complete [OF pf log_leaves [OF inv']] assms(2) len(1) pf by auto
qed

end

end
