(* ===== verification/Reproducibility.thy ===== *)
theory Reproducibility
  imports Audit_Log
begin

text \<open>
  \<open>evidence/reproducibility.ts\<close>: the manifest of a run, its validation, its digest, and the
  comparison of two manifests.
\<close>

section \<open>The manifest\<close>

record environment_pin =
  env_reference :: string
  env_digest :: string
  env_signatureVerified :: "bool option"
  env_openEnvSpecVersion :: "int option"

record model_pin =
  mp_identifier :: string
  mp_sampling :: "(string \<times> jsval) list"
  mp_providerVersion :: "string option"

record task_set_pin =
  tsp_id :: string
  tsp_version :: string
  tsp_split :: string
  tsp_splitHash :: string
  tsp_taskCount :: int

record assurance_pin =
  as_isomorphicPerturbationTested :: bool
  as_fuzzed :: bool
  as_canaryTasksIncluded :: bool

record verifier_pin =
  vp_id :: string
  vp_version :: string
  vp_assurance :: "assurance_pin option"

record manifest_input =
  mi_runId :: string
  mi_environment :: environment_pin
  mi_model :: model_pin
  mi_taskSet :: task_set_pin
  mi_verifier :: verifier_pin
  mi_seed :: "jsnum option"
  mi_toolchain :: "(string \<times> string) list"
  mi_isolationBackend :: string

record manifest = manifest_input +
  mf_createdAt :: string

section \<open>Validation\<close>

definition requireDigest :: "string \<Rightarrow> string \<Rightarrow> string + unit" where
  "requireDigest val fld = (if sha256_digest_re val then Inr ()
     else Inl (fld @ '' must be pinned as '' @ [CHR 0x22] @ ''sha256:<64 hex>'' @ [CHR 0x22] @ '', got ''
       @ [CHR 0x22] @ val @ [CHR 0x22] @ ''. A tag is not a pin: it can point at different software later, which ''
       @ ''means the run cannot be reproduced from this record.''))"

definition requireNonEmpty :: "string \<Rightarrow> string \<Rightarrow> string + unit" where
  "requireNonEmpty val fld = (if val = [] \<or> trim val = []
     then Inl (fld @ '' is required; an unattributed run is not evidence'') else Inr ())"

definition guardE :: "bool \<Rightarrow> string \<Rightarrow> string + unit" where
  "guardE fails msg = (if fails then Inl msg else Inr ())"

fun checks :: "(string + unit) list \<Rightarrow> string + unit" where
  "checks [] = Inr ()"
| "checks (c # cs) = bindE c (\<lambda>_. checks cs)"

definition manifest_checks :: "manifest_input \<Rightarrow> (string + unit) list" where
  "manifest_checks i =
    [requireNonEmpty (mi_runId i) ''runId'',
     requireDigest (env_digest (mi_environment i)) ''environment.digest'',
     requireNonEmpty (mp_identifier (mi_model i)) ''model.identifier'',
     requireNonEmpty (tsp_id (mi_taskSet i)) ''taskSet.id'',
     requireNonEmpty (tsp_version (mi_taskSet i)) ''taskSet.version'',
     requireNonEmpty (tsp_split (mi_taskSet i)) ''taskSet.split'',
     requireNonEmpty (vp_id (mi_verifier i)) ''verifier.id'',
     requireNonEmpty (vp_version (mi_verifier i)) ''verifier.version'',
     requireNonEmpty (mi_isolationBackend i) ''isolationBackend'',
     guardE (\<not> hex64 (tsp_splitHash (mi_taskSet i))) ''taskSet.splitHash must be a 64-character hex sha256'',
     guardE (tsp_taskCount (mi_taskSet i) \<le> 0) ''taskSet.taskCount must be positive'',
     guardE (mi_toolchain i = []) (''toolchain must record at least the platform version; ''
       @ ''a result cannot be reproduced without knowing what produced it'')]"

definition createManifest :: "manifest_input \<Rightarrow> instant option \<Rightarrow> instant \<Rightarrow> string + manifest" where
  "createManifest i createdAt now =
     bindE (checks (manifest_checks i)) (\<lambda>_.
       Inr (manifest_input.extend i
         (manifest.fields (toISOString (case createdAt of None \<Rightarrow> now | Some t \<Rightarrow> t)))))"

lemma checks_Inr: "checks cs = Inr () \<longleftrightarrow> (\<forall>c \<in> set cs. c = Inr ())"
proof (induction cs)
  case (Cons c cs)
  then show ?case by (cases c) auto
qed simp

lemma guard_ok [guard_simps]:
  "requireNonEmpty v f = Inr () \<longleftrightarrow> trim v \<noteq> []"
  "requireDigest v f = Inr () \<longleftrightarrow> sha256_digest_re v"
  "guardE b m = Inr () \<longleftrightarrow> \<not> b"
  by (auto simp: requireNonEmpty_def requireDigest_def guardE_def trim_def trim_left_def)

text \<open>What a manifest that was created is known to pin.\<close>

definition pinned :: "'a manifest_input_scheme \<Rightarrow> bool" where
  "pinned i = (trim (mi_runId i) \<noteq> [] \<and> sha256_digest_re (env_digest (mi_environment i))
     \<and> trim (mp_identifier (mi_model i)) \<noteq> [] \<and> trim (tsp_id (mi_taskSet i)) \<noteq> []
     \<and> trim (tsp_version (mi_taskSet i)) \<noteq> [] \<and> trim (tsp_split (mi_taskSet i)) \<noteq> []
     \<and> trim (vp_id (mi_verifier i)) \<noteq> [] \<and> trim (vp_version (mi_verifier i)) \<noteq> []
     \<and> trim (mi_isolationBackend i) \<noteq> [] \<and> hex64 (tsp_splitHash (mi_taskSet i))
     \<and> 0 < tsp_taskCount (mi_taskSet i) \<and> mi_toolchain i \<noteq> [])"

lemma manifest_checks_ok: "checks (manifest_checks i) = Inr () \<longleftrightarrow> pinned i"
  unfolding checks_Inr manifest_checks_def by (simp add: guard_simps pinned_def not_le)

section \<open>Digests\<close>

definition opt_json :: "('a \<Rightarrow> jsval) \<Rightarrow> 'a option \<Rightarrow> jsval" where
  "opt_json f x = (case x of None \<Rightarrow> JUndef | Some y \<Rightarrow> f y)"

definition environment_json :: "environment_pin \<Rightarrow> jsval" where
  "environment_json e = JObj [(''reference'', JStr (env_reference e)), (''digest'', JStr (env_digest e)),
     (''signatureVerified'', opt_json JBool (env_signatureVerified e)),
     (''openEnvSpecVersion'', opt_json (\<lambda>n. JNum (num_of_int n)) (env_openEnvSpecVersion e))]"

definition model_json :: "model_pin \<Rightarrow> jsval" where
  "model_json m = JObj [(''identifier'', JStr (mp_identifier m)), (''sampling'', JObj (mp_sampling m)),
     (''providerVersion'', opt_json JStr (mp_providerVersion m))]"

definition task_set_json :: "task_set_pin \<Rightarrow> jsval" where
  "task_set_json t = JObj [(''id'', JStr (tsp_id t)), (''version'', JStr (tsp_version t)), (''split'', JStr (tsp_split t)),
     (''splitHash'', JStr (tsp_splitHash t)), (''taskCount'', JNum (num_of_int (tsp_taskCount t)))]"

definition assurance_json :: "assurance_pin \<Rightarrow> jsval" where
  "assurance_json a = JObj [(''isomorphicPerturbationTested'', JBool (as_isomorphicPerturbationTested a)),
     (''fuzzed'', JBool (as_fuzzed a)), (''canaryTasksIncluded'', JBool (as_canaryTasksIncluded a))]"

definition verifier_json :: "verifier_pin \<Rightarrow> jsval" where
  "verifier_json v = JObj [(''id'', JStr (vp_id v)), (''version'', JStr (vp_version v)),
     (''assurance'', opt_json assurance_json (vp_assurance v))]"

definition seed_json :: "jsnum option \<Rightarrow> jsval" where
  "seed_json s = (case s of None \<Rightarrow> JNull | Some n \<Rightarrow> JNum n)"

definition manifest_json :: "manifest \<Rightarrow> jsval" where
  "manifest_json m = JObj
    [(''manifestVersion'', JStr ''1''), (''runId'', JStr (mi_runId m)),
     (''environment'', environment_json (mi_environment m)), (''model'', model_json (mi_model m)),
     (''taskSet'', task_set_json (mi_taskSet m)), (''verifier'', verifier_json (mi_verifier m)),
     (''seed'', seed_json (mi_seed m)),
     (''toolchain'', JObj (map (\<lambda>(k, v). (k, JStr v)) (mi_toolchain m))),
     (''isolationBackend'', JStr (mi_isolationBackend m)), (''createdAt'', JStr (mf_createdAt m))]"

definition manifestDigest :: "(bytes \<Rightarrow> bytes) \<Rightarrow> manifest \<Rightarrow> string + string" where
  "manifestDigest H m = canonical_digest H (manifest_json m)"

definition hashSplit :: "(bytes \<Rightarrow> bytes) \<Rightarrow> string list \<Rightarrow> string + string" where
  "hashSplit H taskIds = canonical_digest H (JArr (map JStr taskIds))"

lemma canonical_digest_inj:
  assumes "canonical_digest H v = Inr d" "canonical_digest H w = Inr d" "wf_nums v" "wf_nums w"
    and inj: "\<And>s t. canonicalize v = Inr s \<Longrightarrow> canonicalize w = Inr t \<Longrightarrow> H (utf8 s) = H (utf8 t) \<Longrightarrow> s = t"
  shows "norm_val v = norm_val w"
proof -
  obtain s t where st: "canonicalize v = Inr s" "canonicalize w = Inr t" "to_hex (H (utf8 s)) = to_hex (H (utf8 t))"
    using assms(1,2) by (auto simp: canonical_digest_def bindE_Inr_iff)
  then have "s = t" using inj by simp
  then show ?thesis using canonical_inj [OF st(1)] st(2) assms(3,4) by simp
qed

text \<open>The hash of a split names its task ids, in their order.\<close>

lemma hashSplit_total: "\<exists>d. hashSplit H ids = Inr d"
  by (auto simp: hashSplit_def canonical_digest_def bindE_Inr_iff canonicalize_Inr)

lemma hashSplit_inj:
  assumes "hashSplit H xs = hashSplit H ys"
    "inj_on H {utf8 (emit (JArr (map JStr xs))), utf8 (emit (JArr (map JStr ys)))}"
  shows "xs = ys"
proof -
  have n: "norm_val \<circ> JStr = JStr" by (simp add: fun_eq_iff)
  obtain d where d: "hashSplit H xs = Inr d" "hashSplit H ys = Inr d" using hashSplit_total assms(1) by metis
  have c: "canonicalize (JArr (map JStr zs)) = Inr s \<longleftrightarrow> s = emit (JArr (map JStr zs))" for zs s
    by (auto simp: canonicalize_Inr n simp del: emit_simps)
  have "norm_val (JArr (map JStr xs)) = norm_val (JArr (map JStr ys))"
  proof (rule canonical_digest_inj [OF d [unfolded hashSplit_def]])
    fix s t
    assume "canonicalize (JArr (map JStr xs)) = Inr s" "canonicalize (JArr (map JStr ys)) = Inr t"
      "H (utf8 s) = H (utf8 t)"
    then have "utf8 s = utf8 t" using inj_onD [OF assms(2), of "utf8 s" "utf8 t"] by (simp only: c) blast
    then show "s = t" by simp
  qed auto
  moreover have "inj JStr" by (simp add: inj_def)
  ultimately show ?thesis by (simp add: n inj_map_eq_map)
qed

section \<open>comparable\<close>

record comparability =
  cr_comparable :: bool
  cr_differences :: "string list"

definition check_same :: "string \<Rightarrow> jsval \<Rightarrow> jsval \<Rightarrow> string list \<Rightarrow> string + string list" where
  "check_same fld x y differences =
     bindE (canonicalize x) (\<lambda>a. bindE (canonicalize y) (\<lambda>b.
       Inr (if a \<noteq> b then differences @ [fld] else differences)))"

definition compared :: "manifest \<Rightarrow> (string \<times> jsval) list" where
  "compared m =
    [(''environment.digest'', JStr (env_digest (mi_environment m))),
     (''taskSet.splitHash'', JStr (tsp_splitHash (mi_taskSet m))),
     (''verifier.version'', JStr (vp_id (mi_verifier m) @ ''@'' @ vp_version (mi_verifier m))),
     (''model.sampling'', JObj (mp_sampling (mi_model m))),
     (''isolationBackend'', JStr (mi_isolationBackend m)),
     (''seed'', seed_json (mi_seed m))]"

fun compare_fields :: "(string \<times> jsval) list \<Rightarrow> (string \<times> jsval) list \<Rightarrow> string list \<Rightarrow> string + string list" where
  "compare_fields ((f, x) # xs) ((g, y) # ys) ds = bindE (check_same f x y ds) (compare_fields xs ys)"
| "compare_fields _ _ ds = Inr ds"

definition comparable :: "manifest \<Rightarrow> manifest \<Rightarrow> string + comparability" where
  "comparable a b = bindE (compare_fields (compared a) (compared b) [])
     (\<lambda>differences. Inr \<lparr>cr_comparable = (differences = []), cr_differences = differences\<rparr>)"

lemma compare_fields_spec:
  "length xs = length ys \<Longrightarrow> compare_fields xs ys ds = Inr out \<Longrightarrow>
    (\<forall>(f, x) \<in> set xs. json_ok x) \<and> (\<forall>(g, y) \<in> set ys. json_ok y)
    \<and> out = ds @ map fst (filter (\<lambda>(f, x, y). emit (norm_val x) \<noteq> emit (norm_val y))
        (map2 (\<lambda>(f, x) (g, y). (f, x, y)) xs ys))"
proof (induction xs ys ds arbitrary: out rule: compare_fields.induct)
  case (1 f x xs g y ys ds)
  then obtain ds' where ds': "check_same f x y ds = Inr ds'" "compare_fields xs ys ds' = Inr out"
    by (auto simp: bindE_Inr_iff)
  then have c: "json_ok x" "json_ok y"
    "ds' = ds @ (if emit (norm_val x) \<noteq> emit (norm_val y) then [f] else [])"
    by (auto simp: check_same_def bindE_Inr_iff canonicalize_Inr)
  have "length xs = length ys" using "1.prems"(1) by simp
  from "1.IH" [OF this ds'(2)] c show ?case by auto
qed auto

lemma compared_ok: "(\<forall>(f, x) \<in> set (compared m). json_ok x) \<longleftrightarrow>
    json_ok (JObj (mp_sampling (mi_model m))) \<and> json_ok (seed_json (mi_seed m))"
  by (auto simp: compared_def)

lemma compared_wf: "(\<forall>(f, x) \<in> set (compared m). wf_nums x) \<longleftrightarrow>
    wf_nums (JObj (mp_sampling (mi_model m))) \<and> wf_nums (seed_json (mi_seed m))"
  by (auto simp: compared_def)

lemma emit_norm_inj:
  "json_ok v \<Longrightarrow> json_ok w \<Longrightarrow> wf_nums v \<Longrightarrow> wf_nums w \<Longrightarrow>
    emit (norm_val v) = emit (norm_val w) \<longleftrightarrow> norm_val v = norm_val w"
  using canonical_inj [of v "emit (norm_val v)" w] by (auto simp: canonicalize_Inr)

lemma comparable_iff:
  assumes "comparable a b = Inr r"
    "wf_nums (JObj (mp_sampling (mi_model a)))" "wf_nums (JObj (mp_sampling (mi_model b)))"
    "wf_nums (seed_json (mi_seed a))" "wf_nums (seed_json (mi_seed b))"
  shows "cr_comparable r \<longleftrightarrow> env_digest (mi_environment a) = env_digest (mi_environment b)
    \<and> tsp_splitHash (mi_taskSet a) = tsp_splitHash (mi_taskSet b)
    \<and> vp_id (mi_verifier a) @ ''@'' @ vp_version (mi_verifier a) = vp_id (mi_verifier b) @ ''@'' @ vp_version (mi_verifier b)
    \<and> norm_val (JObj (mp_sampling (mi_model a))) = norm_val (JObj (mp_sampling (mi_model b)))
    \<and> mi_isolationBackend a = mi_isolationBackend b
    \<and> mi_seed a = mi_seed b"
proof -
  obtain ds where ds: "compare_fields (compared a) (compared b) [] = Inr ds" "cr_comparable r \<longleftrightarrow> ds = []"
    using assms(1) by (auto simp: comparable_def bindE_Inr_iff)
  have "length (compared a) = length (compared b)" by (simp add: compared_def)
  from compare_fields_spec [OF this ds(1)]
  have ok: "json_ok (JObj (mp_sampling (mi_model a)))" "json_ok (JObj (mp_sampling (mi_model b)))"
    "json_ok (seed_json (mi_seed a))" "json_ok (seed_json (mi_seed b))"
    and d: "ds = map fst (filter (\<lambda>(f, x, y). emit (norm_val x) \<noteq> emit (norm_val y))
        (map2 (\<lambda>(f, x) (g, y). (f, x, y)) (compared a) (compared b)))"
    by (simp_all add: compared_ok)
  have e: "emit (norm_val (JObj (mp_sampling (mi_model a)))) = emit (norm_val (JObj (mp_sampling (mi_model b))))
      \<longleftrightarrow> norm_val (JObj (mp_sampling (mi_model a))) = norm_val (JObj (mp_sampling (mi_model b)))"
    "emit (norm_val (seed_json (mi_seed a))) = emit (norm_val (seed_json (mi_seed b)))
      \<longleftrightarrow> norm_val (seed_json (mi_seed a)) = norm_val (seed_json (mi_seed b))"
    by (rule emit_norm_inj; use ok assms in simp)+
  have s: "norm_val (seed_json (mi_seed a)) = norm_val (seed_json (mi_seed b)) \<longleftrightarrow> mi_seed a = mi_seed b"
    by (auto simp: seed_json_def split: option.splits)
  have j: "emit (norm_val (JStr u)) = emit (norm_val (JStr v)) \<longleftrightarrow> u = v" for u v
    by (simp add: json_string_inj)
  have "ds = [] \<longleftrightarrow> (\<forall>(f, x, y) \<in> set (map2 (\<lambda>(f, x) (g, y). (f, x, y)) (compared a) (compared b)).
      emit (norm_val x) = emit (norm_val y))"
    unfolding d by (auto simp: filter_empty_conv)
  also have "map2 (\<lambda>(f, x) (g, y). (f, x, y)) (compared a) (compared b) =
     map2 (\<lambda>(f, x) y. (f, x, y)) (compared a) (map snd (compared b))"
    by (simp add: compared_def)
  finally show ?thesis unfolding ds(2)
    by (simp add: compared_def e s j json_string_inj del: norm_val_simps emit_simps)
qed

end
