(* ===== verification/Signer.thy ===== *)
theory Signer
  imports Canonical_Injective
begin

text \<open>
  \<open>evidence/signer.ts\<close>: an envelope carries a value and a signature over the value's canonical
  text, in base64. The signature scheme of \<open>node:crypto\<close> is an argument: what parses a
  public key and checks a signature (\<open>verifier_api\<close>), and what signs (\<open>key_source\<close>).
\<close>

section \<open>Base64\<close>

definition b64_char :: "nat \<Rightarrow> char" where
  "b64_char n = (if n < 26 then char_of (65 + n) else if n < 52 then char_of (71 + n)
     else if n < 62 then char_of (n - 4) else if n = 62 then CHR ''+'' else CHR ''/'')"

text \<open>The decoder also takes the URL alphabet and skips what is in neither.\<close>

definition b64_val :: "char \<Rightarrow> nat option" where
  "b64_val c = (let n = (of_char c :: nat) in
     if 65 \<le> n \<and> n \<le> 90 then Some (n - 65) else if 97 \<le> n \<and> n \<le> 122 then Some (n - 71)
     else if 48 \<le> n \<and> n \<le> 57 then Some (n + 4) else if n = 43 \<or> n = 45 then Some 62
     else if n = 47 \<or> n = 95 then Some 63 else None)"

fun to_base64 :: "bytes \<Rightarrow> string" where
  "to_base64 [] = []"
| "to_base64 [a] = (let n = unat a * 16 in [b64_char (n div 64), b64_char (n mod 64)] @ ''=='')"
| "to_base64 [a, b] = (let n = (unat a * 256 + unat b) * 4 in
     [b64_char (n div 4096), b64_char (n div 64 mod 64), b64_char (n mod 64)] @ ''='')"
| "to_base64 (a # b # c # bs) = (let n = unat a * 65536 + unat b * 256 + unat c in
     [b64_char (n div 262144), b64_char (n div 4096 mod 64), b64_char (n div 64 mod 64), b64_char (n mod 64)]
     @ to_base64 bs)"

fun sextets :: "nat list \<Rightarrow> bytes" where
  "sextets (w # x # y # z # vs) = (let n = w * 262144 + x * 4096 + y * 64 + z in
     [word_of_nat (n div 65536), word_of_nat (n div 256), word_of_nat n] @ sextets vs)"
| "sextets [w, x, y] = (let n = w * 4096 + x * 64 + y in [word_of_nat (n div 1024), word_of_nat (n div 4)])"
| "sextets [w, x] = [word_of_nat ((w * 64 + x) div 16)]"
| "sextets _ = []"

definition of_base64 :: "string \<Rightarrow> bytes" where
  "of_base64 s = sextets (List.map_filter b64_val (takeWhile (\<lambda>c. c \<noteq> CHR ''='') s))"

lemma b64_val_char [simp]: "n < 64 \<Longrightarrow> b64_val (b64_char n) = Some n"
  by (auto simp: b64_val_def b64_char_def Let_def)

lemma b64_char_not_pad [simp]: "n < 64 \<Longrightarrow> b64_char n \<noteq> CHR ''=''"
proof
  assume "n < 64" "b64_char n = CHR ''=''"
  then have "b64_val (CHR ''='') = Some n" using b64_val_char by metis
  then show False by (simp add: b64_val_def)
qed

lemma word_of_nat_byte: "word_of_nat (unat (a::byte) + 256 * k) = a"
proof -
  have "(256 :: byte) = 0" by simp
  then show ?thesis by (simp only: of_nat_add of_nat_mult of_nat_numeral) simp
qed

lemma shift_div: "r < d \<Longrightarrow> (x * d + r) div d = (x::nat)"
  by simp

lemma byte_bounds:
  "(unat (a::byte) * 256 + unat (b::byte)) * 4 < 262144"
  "unat (a::byte) * 65536 + unat (b::byte) * 256 + unat (c::byte) < 16777216"
  "unat (a::byte) * 256 + unat (b::byte) < 65536"
proof -
  have "(x * 256 + y) * 4 < 262144" "x * 65536 + y * 256 + z < 16777216" "x * 256 + y < 65536" if "x < 256" "y < 256" "z < 256" for x y z :: nat
    using that by auto
  then show "(unat a * 256 + unat b) * 4 < 262144" "unat a * 65536 + unat b * 256 + unat c < 16777216"
    "unat a * 256 + unat b < 65536" using unat_byte_less by blast+
qed

lemma of_base64_vals: "\<forall>v \<in> set vs. v < 64 \<Longrightarrow>
    of_base64 (map b64_char vs @ rest) = sextets (vs @ List.map_filter b64_val (takeWhile (\<lambda>c. c \<noteq> CHR ''='') rest))"
proof -
  assume "\<forall>v \<in> set vs. v < 64"
  then have "List.map_filter b64_val (takeWhile (\<lambda>c. c \<noteq> CHR ''='') (map b64_char vs @ rest))
      = vs @ List.map_filter b64_val (takeWhile (\<lambda>c. c \<noteq> CHR ''='') rest)"
    by (induction vs) (auto simp: List.map_filter_simps)
  then show ?thesis by (simp add: of_base64_def)
qed

lemma of_base64_to_base64 [simp]: "of_base64 (to_base64 bs) = bs"
proof (induction bs rule: to_base64.induct)
  case 1
  show ?case by (simp add: of_base64_def List.map_filter_simps)
next
  case (2 a)
  let ?n = "unat a * 16"
  have "?n < 4096" using unat_byte_less [of a] by linarith
  then have v: "?n div 64 < 64" "?n mod 64 < 64" by (simp_all add: less_mult_imp_div_less)
  have "(?n div 64 * 64 + ?n mod 64) div 16 = unat a" by (simp only: div_mult_mod_eq)
  then show ?case using of_base64_vals [of "[?n div 64, ?n mod 64]" "''==''"] v
    by (simp only: to_base64.simps Let_def list.map append.simps) (simp add: List.map_filter_simps)
next
  case (3 a b)
  let ?n = "(unat a * 256 + unat b) * 4"
  have n: "?n < 262144" by (rule byte_bounds)
  have v: "?n div 4096 < 64" "?n div 64 mod 64 < 64" "?n mod 64 < 64" using n by (simp_all add: less_mult_imp_div_less)
  have m: "?n div 64 mod 64 * 64 + ?n mod 64 = ?n mod 4096"
    using mod_mult2_eq [of ?n 64 64] by simp
  have e: "?n div 4096 * 4096 + ?n div 64 mod 64 * 64 + ?n mod 64 = ?n"
    using div_mult_mod_eq [of ?n 4096] m by linarith
  have d: "?n div 1024 = unat a" "?n div 4 = unat b + 256 * unat a" using unat_byte_less [of b] by simp_all
  have w: "(word_of_nat (?n div 1024) :: byte) = a" "(word_of_nat (?n div 4) :: byte) = b"
    by (simp add: d(1)) (simp only: d(2) word_of_nat_byte)
  have "of_base64 (to_base64 [a, b]) = sextets [?n div 4096, ?n div 64 mod 64, ?n mod 64]"
    using of_base64_vals [of "[?n div 4096, ?n div 64 mod 64, ?n mod 64]" "''=''"] v
    by (simp only: to_base64.simps Let_def list.map append.simps list.set ball_simps if_True simp_thms)
      (simp add: List.map_filter_simps)
  also have "\<dots> = [a, b]" unfolding sextets.simps Let_def e w by (rule refl)
  finally show ?case .
next
  case (4 a b c bs)
  let ?n = "unat a * 65536 + unat b * 256 + unat c"
  have n: "?n < 16777216" by (rule byte_bounds)
  have v: "?n div 262144 < 64" "?n div 4096 mod 64 < 64" "?n div 64 mod 64 < 64" "?n mod 64 < 64"
    using n by (simp_all add: less_mult_imp_div_less)
  have m: "?n div 64 mod 64 * 64 + ?n mod 64 = ?n mod 4096" using mod_mult2_eq [of ?n 64 64] by simp
  have m2: "?n div 4096 mod 64 * 4096 + ?n mod 4096 = ?n mod 262144" using mod_mult2_eq [of ?n 4096 64] by simp
  have e: "?n div 262144 * 262144 + ?n div 4096 mod 64 * 4096 + ?n div 64 mod 64 * 64 + ?n mod 64 = ?n"
    using div_mult_mod_eq [of ?n 262144] m m2 by linarith
  have d: "?n div 65536 = unat a" "?n div 256 = unat b + 256 * unat a" "?n = unat c + 256 * (unat a * 256 + unat b)"
    using shift_div [of "unat b * 256 + unat c" 65536 "unat a"] shift_div [of "unat c" 256 "unat a * 256 + unat b"]
      unat_byte_less [of b] unat_byte_less [of c] byte_bounds(3) [of b c] by (simp_all add: add.assoc add_mult_distrib)
  have w: "(word_of_nat (?n div 65536) :: byte) = a" "(word_of_nat (?n div 256) :: byte) = b" "(word_of_nat ?n :: byte) = c"
    by (simp add: d(1)) (simp only: d(2) word_of_nat_byte, simp only: d(3) word_of_nat_byte)
  have "of_base64 (to_base64 (a # b # c # bs)) = [word_of_nat (?n div 65536), word_of_nat (?n div 256), word_of_nat ?n]
      @ sextets (List.map_filter b64_val (takeWhile (\<lambda>c. c \<noteq> CHR ''='') (to_base64 bs)))"
    using of_base64_vals [of "[?n div 262144, ?n div 4096 mod 64, ?n div 64 mod 64, ?n mod 64]" "to_base64 bs"] v
    unfolding to_base64.simps Let_def list.map append.simps sextets.simps e by simp
  then show ?case using 4 unfolding w by (simp add: of_base64_def)
qed

section \<open>Envelopes\<close>

record signature =
  sg_algorithm :: string
  sg_keyId :: string
  sg_value :: string
  sg_signedAt :: string

record 'a signed_envelope =
  se_payload :: 'a
  se_signature :: signature

record signature_verification =
  sv_valid :: bool
  sv_reason :: "string option"

definition sv_fail :: "string \<Rightarrow> signature_verification" where
  "sv_fail r = \<lparr>sv_valid = False, sv_reason = Some r\<rparr>"

definition sv_ok :: signature_verification where
  "sv_ok = \<lparr>sv_valid = True, sv_reason = None\<rparr>"

text \<open>\<open>KeySource\<close>: the identifier, the signing function, the public key.\<close>

record key_source =
  ks_keyId :: string
  ks_sign :: "bytes \<Rightarrow> bytes"
  ks_publicKeyPem :: string

text \<open>\<open>createPublicKey\<close> with the key's type, or the message of its error; \<open>verify(null, ...)\<close>.\<close>

record 'k verifier_api =
  va_createPublicKey :: "string \<Rightarrow> string + string \<times> 'k"
  va_verify :: "bytes \<Rightarrow> 'k \<Rightarrow> bytes \<Rightarrow> bool"

definition sign_value :: "('a \<Rightarrow> jsval) \<Rightarrow> key_source \<Rightarrow> instant \<Rightarrow> 'a \<Rightarrow> string + 'a signed_envelope" where
  "sign_value to_json ks now payload =
     bindE (canonicalize (to_json payload)) (\<lambda>text.
       Inr \<lparr>se_payload = payload,
            se_signature = \<lparr>sg_algorithm = ''ed25519'', sg_keyId = ks_keyId ks,
              sg_value = to_base64 (ks_sign ks (utf8 text)), sg_signedAt = toISOString now\<rparr>\<rparr>)"

definition verifySignature ::
    "('a \<Rightarrow> jsval) \<Rightarrow> 'k verifier_api \<Rightarrow> 'a signed_envelope \<Rightarrow> string \<Rightarrow> signature_verification" where
  "verifySignature to_json va envelope publicKeyPem =
     (let sg = se_signature envelope in
      if sg_algorithm sg \<noteq> ''ed25519'' then sv_fail (''unsupported algorithm '' @ sg_algorithm sg)
      else case canonicalize (to_json (se_payload envelope)) of
        Inl msg \<Rightarrow> sv_fail (''payload cannot be canonicalized: '' @ msg)
      | Inr text \<Rightarrow> (case va_createPublicKey va publicKeyPem of
          Inl msg \<Rightarrow> sv_fail (''unusable public key: '' @ msg)
        | Inr (type, key) \<Rightarrow>
            if type \<noteq> ''ed25519'' then sv_fail (''public key is '' @ type @ '', expected ed25519'')
            else if va_verify va (utf8 text) key (of_base64 (sg_value sg)) then sv_ok
            else sv_fail ''signature does not match the payload''))"

text \<open>What the signature scheme documents: the public key of a source accepts its signatures.\<close>

definition key_pair :: "'k verifier_api \<Rightarrow> key_source \<Rightarrow> bool" where
  "key_pair va ks = (\<exists>key. va_createPublicKey va (ks_publicKeyPem ks) = Inr (''ed25519'', key)
     \<and> (\<forall>m. va_verify va m key (ks_sign ks m)))"

lemma verify_signed:
  assumes "sign_value to_json ks now payload = Inr env" "key_pair va ks"
  shows "verifySignature to_json va env (ks_publicKeyPem ks) = sv_ok"
  using assms by (auto simp: sign_value_def bindE_Inr_iff verifySignature_def key_pair_def Let_def)

lemma sign_value_payload: "sign_value to_json ks now payload = Inr env \<Longrightarrow> se_payload env = payload"
  by (auto simp: sign_value_def bindE_Inr_iff)

lemma sv_simps [simp]: "sv_valid sv_ok" "\<not> sv_valid (sv_fail r)"
  by (simp_all add: sv_ok_def sv_fail_def)

lemma verifySignature_valid:
  "sv_valid (verifySignature to_json va env pem) \<longleftrightarrow>
    sg_algorithm (se_signature env) = ''ed25519'' \<and>
    (\<exists>text key. canonicalize (to_json (se_payload env)) = Inr text
      \<and> va_createPublicKey va pem = Inr (''ed25519'', key)
      \<and> va_verify va (utf8 text) key (of_base64 (sg_value (se_signature env))))"
  by (auto simp: verifySignature_def Let_def split: sum.splits prod.splits if_splits)

text \<open>
  A signature is over the value: when two envelopes carry one signature and a key accepts a
  signature for one message only, their payloads are equal values.
\<close>

lemma signature_binds:
  assumes "sv_valid (verifySignature to_json va e1 pem)" "sv_valid (verifySignature to_json va e2 pem)"
    "sg_value (se_signature e1) = sg_value (se_signature e2)"
    "wf_nums (to_json (se_payload e1))" "wf_nums (to_json (se_payload e2))"
    "\<forall>key m m' s. va_verify va m key s \<and> va_verify va m' key s \<longrightarrow> m = m'"
  shows "norm_val (to_json (se_payload e1)) = norm_val (to_json (se_payload e2))"
proof -
  obtain t1 t2 key where t: "canonicalize (to_json (se_payload e1)) = Inr t1"
    "canonicalize (to_json (se_payload e2)) = Inr t2"
    "va_verify va (utf8 t1) key (of_base64 (sg_value (se_signature e1)))"
    "va_verify va (utf8 t2) key (of_base64 (sg_value (se_signature e1)))"
    using assms(1-3) by (auto simp: verifySignature_valid)
  then have "utf8 t1 = utf8 t2" using assms(6) by blast
  then show ?thesis using canonical_inj [OF t(1)] t(2) assms(4,5) by simp
qed

end
