(* ===== verification/Evidence_Bundle.thy ===== *)
theory Evidence_Bundle
  imports Reproducibility Signer
begin

text \<open>
  \<open>evidence/evidence-bundle.ts\<close>: assembling and signing a bundle, verifying one, and the
  end-to-end fact that a bundle cut from an intact log verifies with the bundle and the
  public key alone.
\<close>

section \<open>Contents\<close>

datatype mapping_strength = Satisfies | Supports | Exceeds

record article_mapping =
  am_provision :: string
  am_requirement :: string
  am_strength :: mapping_strength
  am_evidence :: string
  am_caveat :: "string option"

type_synonym proof_map = "(int \<times> inclusion_proof) list"

record bundle_core =
  bc_bundleId :: string
  bc_tenantId :: string
  bc_runId :: string
  bc_manifest :: manifest
  bc_entries :: "audit_entry list"
  bc_logRoot :: string
  bc_logSize :: int
  bc_inclusionProofs :: proof_map
  bc_consistency :: "(string \<times> consistency_proof) option"

record retention_input =
  ri_retainUntil :: instant
  ri_policy :: string
  ri_wormAnchored :: bool

record bundle_input = bundle_core +
  bi_mappings :: "article_mapping list option"
  bi_retention :: retention_input
  bi_generatedAt :: "instant option"

record retention_stamp =
  rs_retainUntil :: string
  rs_policy :: string
  rs_wormAnchored :: bool

record bundle_contents = bundle_core +
  bd_manifestDigest :: string
  bd_mappings :: "article_mapping list"
  bd_retention :: retention_stamp
  bd_generatedAt :: string

definition MINIMUM_RETENTION_DAYS :: int where "MINIMUM_RETENTION_DAYS = 183"

definition mapping :: "string \<Rightarrow> string \<Rightarrow> mapping_strength \<Rightarrow> string \<Rightarrow> string option \<Rightarrow> article_mapping" where
  "mapping p r s e c = \<lparr>am_provision = p, am_requirement = r, am_strength = s, am_evidence = e, am_caveat = c\<rparr>"

definition STANDARD_MAPPINGS :: "article_mapping list" where
  "STANDARD_MAPPINGS =
   [mapping ''EU AI Act Art. 12''
      ''High-risk systems shall technically allow for the automatic recording of events over the lifetime of the system.''
      Satisfies ''Every tool call, approval and state change is recorded automatically, with actor and timestamp.'' None,
    mapping ''EU AI Act Art. 12''
      ''Logs must enable identification of risk situations and post-market monitoring.''
      Exceeds ''Entries are hash-chained and committed to a Merkle root, so alteration after the fact is detectable by a third party.''
      (Some ''Article 12 does not require tamper-evidence. This is a stronger property than the text asks for and should not be presented as what makes the system compliant.''),
    mapping ''EU AI Act Art. 19''
      ''Providers shall keep logs for a period of at least six months.''
      Satisfies ''Retention is recorded per bundle and enforced by the storage layer.''
      (Some ''Six months is a floor, not a ceiling. Sectoral rules may require longer -- HIPAA documentation retention is six years -- and the configured period governs.''),
    mapping ''EU AI Act Art. 14''
      ''High-risk systems shall be effectively overseen by natural persons, who can intervene or interrupt.''
      Supports ''Approval decisions are recorded with the identity of the approver and the action they gated.''
      (Some ''Human oversight is an organisational obligation. An approval queue evidences that oversight occurred; it does not establish that the overseers were competent, independent, or able to act on what they saw.''),
    mapping ''EU AI Act Art. 17''
      ''Providers shall put a quality management system in place, including procedures for testing and validation.''
      Supports ''Runs are reproducible from a pinned manifest, so evaluations are repeatable rather than one-off.''
      (Some ''One repeatable evaluation is not a quality management system.''),
    mapping ''NIST AI RMF Measure 2.1''
      ''Test sets, metrics and details about the tools used during TEVV are documented.''
      Satisfies ''The reproducibility manifest pins environment digest, task split hash, model, sampling and verifier version.'' None,
    mapping ''SR 11-7''
      ''Model development and validation should be documented in sufficient detail that parties unfamiliar with a model can understand it.''
      Supports ''The manifest and audit trail give an independent validator the exact configuration and the observed behaviour.''
      (Some ''SR 11-7 requires independent validation by people. This supplies their inputs.'')]"

section \<open>The signed value\<close>

definition entry_json :: "audit_entry \<Rightarrow> jsval" where
  "entry_json e = (case unsealed e of JObj kvs \<Rightarrow> JObj (kvs @ [(''entryHash'', JStr (ae_entryHash e))]) | v \<Rightarrow> v)"

definition inclusion_json :: "inclusion_proof \<Rightarrow> jsval" where
  "inclusion_json p = JObj [(''leafIndex'', JNum (num_of_int (ip_leafIndex p))),
     (''treeSize'', JNum (num_of_int (ip_treeSize p))), (''path'', JArr (map JStr (ip_path p)))]"

definition consistency_json :: "consistency_proof \<Rightarrow> jsval" where
  "consistency_json p = JObj [(''firstSize'', JNum (num_of_int (cp_firstSize p))),
     (''secondSize'', JNum (num_of_int (cp_secondSize p))), (''path'', JArr (map JStr (cp_path p)))]"

definition strength_name :: "mapping_strength \<Rightarrow> string" where
  "strength_name s = (case s of Satisfies \<Rightarrow> ''satisfies'' | Supports \<Rightarrow> ''supports'' | Exceeds \<Rightarrow> ''exceeds'')"

definition mapping_json :: "article_mapping \<Rightarrow> jsval" where
  "mapping_json m = JObj [(''provision'', JStr (am_provision m)), (''requirement'', JStr (am_requirement m)),
     (''strength'', JStr (strength_name (am_strength m))), (''evidence'', JStr (am_evidence m)),
     (''caveat'', opt_json JStr (am_caveat m))]"

definition contents_json :: "bundle_contents \<Rightarrow> jsval" where
  "contents_json c = JObj
    [(''bundleId'', JStr (bc_bundleId c)), (''tenantId'', JStr (bc_tenantId c)), (''runId'', JStr (bc_runId c)),
     (''manifest'', manifest_json (bc_manifest c)), (''manifestDigest'', JStr (bd_manifestDigest c)),
     (''entries'', JArr (map entry_json (bc_entries c))),
     (''logRoot'', JStr (bc_logRoot c)), (''logSize'', JNum (num_of_int (bc_logSize c))),
     (''inclusionProofs'', JObj (map (\<lambda>(k, p). (show_int k, inclusion_json p)) (bc_inclusionProofs c))),
     (''consistency'', opt_json (\<lambda>(logroot, p). JObj [(''previousRoot'', JStr logroot), (''proof'', consistency_json p)])
        (bc_consistency c)),
     (''mappings'', JArr (map mapping_json (bd_mappings c))),
     (''retention'', JObj [(''retainUntil'', JStr (rs_retainUntil (bd_retention c))),
        (''policy'', JStr (rs_policy (bd_retention c))), (''wormAnchored'', JBool (rs_wormAnchored (bd_retention c)))]),
     (''generatedAt'', JStr (bd_generatedAt c))]"

section \<open>createBundle\<close>

definition DAY :: int where "DAY = 86400000"

fun missing_proof :: "proof_map \<Rightarrow> audit_entry list \<Rightarrow> audit_entry option" where
  "missing_proof ps [] = None"
| "missing_proof ps (e # es) = (if map_of ps (ae_seq e) = None then Some e else missing_proof ps es)"

text \<open>\<open>days < 183\<close> on a difference of instants; the division by a day keeps the order.\<close>

definition below_minimum :: "int \<Rightarrow> bool" where
  "below_minimum ms = (ms < MINIMUM_RETENTION_DAYS * DAY)"

definition assemble :: "bundle_input \<Rightarrow> instant \<Rightarrow> string \<Rightarrow> bundle_contents" where
  "assemble input generatedAt digest =
     \<lparr>bc_bundleId = bc_bundleId input, bc_tenantId = bc_tenantId input, bc_runId = bc_runId input,
      bc_manifest = bc_manifest input, bc_entries = bc_entries input, bc_logRoot = bc_logRoot input,
      bc_logSize = bc_logSize input, bc_inclusionProofs = bc_inclusionProofs input,
      bc_consistency = bc_consistency input,
      bd_manifestDigest = digest,
      bd_mappings = (case bi_mappings input of None \<Rightarrow> STANDARD_MAPPINGS | Some ms \<Rightarrow> ms),
      bd_retention = \<lparr>rs_retainUntil = toISOString (ri_retainUntil (bi_retention input)),
        rs_policy = ri_policy (bi_retention input), rs_wormAnchored = ri_wormAnchored (bi_retention input)\<rparr>,
      bd_generatedAt = toISOString generatedAt\<rparr>"

definition createBundle ::
    "(bytes \<Rightarrow> bytes) \<Rightarrow> key_source \<Rightarrow> instant \<Rightarrow> bundle_input \<Rightarrow> string + bundle_contents signed_envelope" where
  "createBundle H ks now input =
    (if bc_entries input = [] then Inl ''a bundle needs at least one audit entry'' else
     let chain = verifyEntrySlice H (bc_entries input) in
     if \<not> cv_valid chain
     then Inl (''refusing to sign a bundle over a broken chain: ''
       @ (case cv_reason chain of None \<Rightarrow> ''undefined'' | Some r \<Rightarrow> r)
       @ ''. Signing this would attest to records that do not verify.'')
     else case missing_proof (bc_inclusionProofs input) (bc_entries input) of
       Some e \<Rightarrow> Inl (''entry '' @ show_int (ae_seq e) @ '' has no inclusion proof'')
     | None \<Rightarrow>
        let generatedAt = (case bi_generatedAt input of None \<Rightarrow> now | Some t \<Rightarrow> t);
            kept = ri_retainUntil (bi_retention input) - generatedAt in
        if below_minimum kept
        then Inl (''retention of '' @ show_int (kept div DAY) @ '' days is below the ''
          @ show_int MINIMUM_RETENTION_DAYS @ ''-day minimum in EU AI Act Art. 19'')
        else bindE (manifestDigest H (bc_manifest input)) (\<lambda>digest.
          sign_value contents_json ks now (assemble input generatedAt digest)))"

section \<open>verifyBundle\<close>

record bundle_checks =
  ck_signature :: bool
  ck_chain :: bool
  ck_inclusion :: bool
  ck_manifest :: bool
  ck_retention :: bool

record bundle_verification =
  bv_valid :: bool
  bv_checks :: bundle_checks
  bv_failures :: "string list"

definition reason_text :: "string option \<Rightarrow> string" where
  "reason_text r = (case r of None \<Rightarrow> ''undefined'' | Some x \<Rightarrow> x)"

fun inclusion_failures :: "(bytes \<Rightarrow> bytes) \<Rightarrow> proof_map \<Rightarrow> string \<Rightarrow> audit_entry list \<Rightarrow> string list" where
  "inclusion_failures H ps logroot [] = []"
| "inclusion_failures H ps logroot (e # es) =
    (case map_of ps (ae_seq e) of
       None \<Rightarrow> [''entry '' @ show_int (ae_seq e) @ '': no inclusion proof'']
     | Some p \<Rightarrow>
         let result = verifyInclusion H p (Buf (of_hex (ae_entryHash e))) logroot in
         if \<not> vr_valid result
         then [''entry '' @ show_int (ae_seq e) @ '': not in the log ('' @ reason_text (vr_reason result) @ '')'']
         else [])
    @ inclusion_failures H ps logroot es"

text \<open>The retention check: the difference of the two dates, \<open>None\<close> when one does not parse.\<close>

definition kept_ms :: "bundle_contents \<Rightarrow> int option" where
  "kept_ms c = (case (date_parse (rs_retainUntil (bd_retention c)), date_parse (bd_generatedAt c)) of
     (Some r, Some g) \<Rightarrow> Some (r - g) | _ \<Rightarrow> None)"

text \<open>The digest of the manifest may throw, which ends the verification with that error.\<close>

definition verifyBundle ::
    "(bytes \<Rightarrow> bytes) \<Rightarrow> 'k verifier_api \<Rightarrow> bundle_contents signed_envelope \<Rightarrow> string \<Rightarrow> string + bundle_verification" where
  "verifyBundle H va bundle pem =
    (let contents = se_payload bundle;
         sg = verifySignature contents_json va bundle pem;
         chain = verifyEntrySlice H (bc_entries contents);
         missing = inclusion_failures H (bc_inclusionProofs contents) (bc_logRoot contents) (bc_entries contents)
     in bindE (manifestDigest H (bc_manifest contents)) (\<lambda>recomputed.
       let manifest_ok = (recomputed = bd_manifestDigest contents);
           kept = kept_ms contents;
           retention_ok = (case kept of None \<Rightarrow> False | Some ms \<Rightarrow> \<not> below_minimum ms);
           failures = (if sv_valid sg then [] else [''signature: '' @ reason_text (sv_reason sg)])
             @ (if cv_valid chain then [] else [''audit chain: '' @ reason_text (cv_reason chain)])
             @ missing
             @ (if manifest_ok then [] else [''manifest digest does not match the manifest''])
             @ (if retention_ok then [] else [''retention of ''
                 @ (case kept of None \<Rightarrow> ''NaN'' | Some ms \<Rightarrow> show_int (ms div DAY))
                 @ '' days is below the Art. 19 minimum''])
       in Inr \<lparr>bv_valid = (failures = []),
               bv_checks = \<lparr>ck_signature = sv_valid sg, ck_chain = cv_valid chain, ck_inclusion = (missing = []),
                 ck_manifest = manifest_ok, ck_retention = retention_ok\<rparr>,
               bv_failures = failures\<rparr>))"

definition bundleDigest :: "(bytes \<Rightarrow> bytes) \<Rightarrow> bundle_contents signed_envelope \<Rightarrow> string + string" where
  "bundleDigest H bundle = canonical_digest H (contents_json (se_payload bundle))"

section \<open>What the verifier accepts\<close>

lemma inclusion_failures_Nil: "inclusion_failures H ps logroot es = [] \<longleftrightarrow>
    (\<forall>e \<in> set es. \<exists>p. map_of ps (ae_seq e) = Some p \<and> vr_valid (verifyInclusion H p (Buf (of_hex (ae_entryHash e))) logroot))"
  by (induction es) (auto simp: Let_def split: option.splits)

lemma missing_proof_None: "missing_proof ps es = None \<longleftrightarrow> (\<forall>e \<in> set es. \<exists>p. map_of ps (ae_seq e) = Some p)"
  by (induction es) auto

lemma if_Nil_iff: "(if P then [] else [x]) = [] \<longleftrightarrow> P"
  by simp

lemma verifyBundle_valid_iff:
  "verifyBundle H va bundle pem = Inr r \<Longrightarrow> bv_valid r \<longleftrightarrow>
    sv_valid (verifySignature contents_json va bundle pem)
    \<and> cv_valid (verifyEntrySlice H (bc_entries (se_payload bundle)))
    \<and> inclusion_failures H (bc_inclusionProofs (se_payload bundle)) (bc_logRoot (se_payload bundle))
        (bc_entries (se_payload bundle)) = []
    \<and> manifestDigest H (bc_manifest (se_payload bundle)) = Inr (bd_manifestDigest (se_payload bundle))
    \<and> (\<exists>ms. kept_ms (se_payload bundle) = Some ms \<and> MINIMUM_RETENTION_DAYS * DAY \<le> ms)"
  by (auto simp: verifyBundle_def Let_def bindE_Inr_iff below_minimum_def split: option.splits if_splits)

lemma verifyBundle_failures: "verifyBundle H va bundle pem = Inr r \<Longrightarrow> bv_valid r \<longleftrightarrow> bv_failures r = []"
  by (auto simp: verifyBundle_def Let_def bindE_Inr_iff simp del: append_is_Nil_conv)

lemma verifyBundle_checks:
  "verifyBundle H va bundle pem = Inr r \<Longrightarrow> bv_valid r \<longleftrightarrow>
    ck_signature (bv_checks r) \<and> ck_chain (bv_checks r) \<and> ck_inclusion (bv_checks r)
    \<and> ck_manifest (bv_checks r) \<and> ck_retention (bv_checks r)"
  by (auto simp: verifyBundle_def Let_def bindE_Inr_iff if_Nil_iff)

lemma createBundle_Inr:
  assumes "createBundle H ks now input = Inr b"
  defines "g \<equiv> (case bi_generatedAt input of None \<Rightarrow> now | Some t \<Rightarrow> t)"
  obtains digest where "bc_entries input \<noteq> []" "cv_valid (verifyEntrySlice H (bc_entries input))"
    "\<forall>e \<in> set (bc_entries input). \<exists>p. map_of (bc_inclusionProofs input) (ae_seq e) = Some p"
    "MINIMUM_RETENTION_DAYS * DAY \<le> ri_retainUntil (bi_retention input) - g"
    "manifestDigest H (bc_manifest input) = Inr digest"
    "sign_value contents_json ks now (assemble input g digest) = Inr b"
    "se_payload b = assemble input g digest"
proof -
  have "\<exists>digest. bc_entries input \<noteq> [] \<and> cv_valid (verifyEntrySlice H (bc_entries input))
    \<and> missing_proof (bc_inclusionProofs input) (bc_entries input) = None
    \<and> \<not> below_minimum (ri_retainUntil (bi_retention input) - g)
    \<and> manifestDigest H (bc_manifest input) = Inr digest
    \<and> sign_value contents_json ks now (assemble input g digest) = Inr b"
    using assms(1) unfolding createBundle_def Let_def g_def [symmetric]
    by (auto simp: bindE_Inr_iff split: if_splits option.splits)
  then obtain digest where d: "bc_entries input \<noteq> []" "cv_valid (verifyEntrySlice H (bc_entries input))"
    "missing_proof (bc_inclusionProofs input) (bc_entries input) = None"
    "\<not> below_minimum (ri_retainUntil (bi_retention input) - g)"
    "manifestDigest H (bc_manifest input) = Inr digest"
    "sign_value contents_json ks now (assemble input g digest) = Inr b" by blast
  show ?thesis
    using that [OF d(1,2) _ _ d(5,6) sign_value_payload [OF d(6)]] d(3,4)
    by (simp add: missing_proof_None below_minimum_def not_less)
qed

text \<open>A created bundle passes every check but inclusion, which is the log's to provide.\<close>

lemma created_bundle_verifies:
  assumes c: "createBundle H ks now input = Inr b" and k: "key_pair va ks"
    and v: "valid_instant now" "valid_instant (ri_retainUntil (bi_retention input))"
      "\<And>t. bi_generatedAt input = Some t \<Longrightarrow> valid_instant t"
    and i: "\<forall>e \<in> set (bc_entries input). \<forall>p. map_of (bc_inclusionProofs input) (ae_seq e) = Some p \<longrightarrow>
        vr_valid (verifyInclusion H p (Buf (of_hex (ae_entryHash e))) (bc_logRoot input))"
  shows "\<exists>r. verifyBundle H va b (ks_publicKeyPem ks) = Inr r \<and> bv_valid r \<and> bv_failures r = []"
proof -
  define g where "g = (case bi_generatedAt input of None \<Rightarrow> now | Some t \<Rightarrow> t)"
  obtain digest where cb: "cv_valid (verifyEntrySlice H (bc_entries input))"
    "\<forall>e \<in> set (bc_entries input). \<exists>p. map_of (bc_inclusionProofs input) (ae_seq e) = Some p"
    "MINIMUM_RETENTION_DAYS * DAY \<le> ri_retainUntil (bi_retention input) - g"
    "manifestDigest H (bc_manifest input) = Inr digest"
    "sign_value contents_json ks now (assemble input g digest) = Inr b"
    "se_payload b = assemble input g digest"
    using createBundle_Inr [OF c] unfolding g_def by metis
  obtain r where r: "verifyBundle H va b (ks_publicKeyPem ks) = Inr r"
    using cb(4,6) by (simp add: verifyBundle_def Let_def assemble_def)
  have g: "valid_instant g" using v by (cases "bi_generatedAt input") (auto simp: g_def)
  have "kept_ms (se_payload b) = Some (ri_retainUntil (bi_retention input) - g)"
    by (simp add: kept_ms_def cb(6) assemble_def date_parse_toISOString [OF v(2)] date_parse_toISOString [OF g])
  moreover have "inclusion_failures H (bc_inclusionProofs (se_payload b)) (bc_logRoot (se_payload b))
      (bc_entries (se_payload b)) = []"
    using cb(2) i by (simp add: inclusion_failures_Nil cb(6) assemble_def) blast
  ultimately have "bv_valid r"
    unfolding verifyBundle_valid_iff [OF r] using verify_signed [OF cb(5) k] cb(1,3,4)
    by (simp add: cb(6)) (simp add: assemble_def)
  then show ?thesis using r verifyBundle_failures by blast
qed

section \<open>A bundle of one run\<close>

text \<open>
  What the bundle route assembles: the entries of the log that a filter selects, the root,
  and for each entry the proof at its sequence number.
\<close>

fun collect_proofs :: "(bytes \<Rightarrow> bytes) \<Rightarrow> audit_log \<Rightarrow> audit_entry list \<Rightarrow> string + proof_map" where
  "collect_proofs H l [] = Inr []"
| "collect_proofs H l (e # es) = bindE (log_inclusionProof H l (ae_seq e)) (\<lambda>p.
     bindE (collect_proofs H l es) (\<lambda>ps. Inr ((ae_seq e, p) # ps)))"

context digest32
begin

lemma collect_proofs_ok:
  assumes "log_inv H l" "length (al_entries l) \<le> 2 ^ 31" "set es \<subseteq> set (al_entries l)"
  shows "\<exists>ps. collect_proofs H l es = Inr ps \<and>
    (\<forall>e \<in> set es. \<exists>p. map_of ps (ae_seq e) = Some p) \<and>
    (\<forall>e \<in> set (al_entries l). \<forall>p. map_of ps (ae_seq e) = Some p \<longrightarrow>
        vr_valid (verifyInclusion H p (Buf (of_hex (ae_entryHash e))) (log_root H l)))"
  using assms(3)
proof (induction es)
  case (Cons e es)
  obtain i where i: "i < length (al_entries l)" "e = al_entries l ! i"
    using Cons.prems by (auto simp: in_set_conv_nth)
  have ch: "chained H 0 GENESIS_HASH (al_entries l)" using assms(1) by (simp add: log_inv_def)
  have seq: "ae_seq e = int i" using chained_seq [OF ch i(1)] i(2) by simp
  have leaf: "leafFor l (int i) = Inr (of_hex (ae_entryHash e))"
    using i by (simp add: leafFor_def log_at_def)
  obtain p where p: "log_inclusionProof H l (ae_seq e) = Inr p"
    "vr_valid (verifyInclusion H p (Buf (of_hex (ae_entryHash e))) (log_root H l))"
    using log_inclusion [OF assms(1) i(1) assms(2)] unfolding leaf seq by blast
  have same: "d = e" if d: "d \<in> set (al_entries l)" "ae_seq d = ae_seq e" for d
  proof -
    obtain j where "j < length (al_entries l)" "d = al_entries l ! j" using d(1) by (metis in_set_conv_nth)
    moreover from this have "ae_seq d = int j" using chained_seq [OF ch] by (metis add_0)
    ultimately show ?thesis using seq d(2) i(2) by (metis of_nat_eq_iff)
  qed
  from Cons obtain ps where ps: "collect_proofs H l es = Inr ps"
    "\<forall>e \<in> set es. \<exists>p. map_of ps (ae_seq e) = Some p"
    "\<forall>e \<in> set (al_entries l). \<forall>p. map_of ps (ae_seq e) = Some p \<longrightarrow>
      vr_valid (verifyInclusion H p (Buf (of_hex (ae_entryHash e))) (log_root H l))" by auto
  have "vr_valid (verifyInclusion H q (Buf (of_hex (ae_entryHash d))) (log_root H l))"
    if "d \<in> set (al_entries l)" "map_of ((ae_seq e, p) # ps) (ae_seq d) = Some q" for d q
  proof (cases "ae_seq d = ae_seq e")
    case True
    with same [OF that(1)] that(2) p(2) show ?thesis by simp
  next
    case False
    with that ps(3) show ?thesis by simp
  qed
  moreover have "collect_proofs H l (e # es) = Inr ((ae_seq e, p) # ps)" using p(1) ps(1) by simp
  moreover have "\<forall>d \<in> set (e # es). \<exists>q. map_of ((ae_seq e, p) # ps) (ae_seq d) = Some q" using ps(2) by simp
  ultimately show ?case by blast
qed simp

text \<open>End to end: a bundle cut from an intact log with honest proofs verifies.\<close>

lemma bundle_of_log_verifies:
  assumes l: "log_inv H l" "length (al_entries l) \<le> 2 ^ 31"
    and e: "bc_entries input = filter P (al_entries l)"
    and p: "collect_proofs H l (bc_entries input) = Inr (bc_inclusionProofs input)"
    and rt: "bc_logRoot input = log_root H l"
    and c: "createBundle H ks now input = Inr b" and k: "key_pair va ks"
    and v: "valid_instant now" "valid_instant (ri_retainUntil (bi_retention input))"
      "\<And>t. bi_generatedAt input = Some t \<Longrightarrow> valid_instant t"
  shows "\<exists>r. verifyBundle H va b (ks_publicKeyPem ks) = Inr r \<and> bv_valid r \<and> bv_failures r = []"
proof (rule created_bundle_verifies [OF c k v])
  have sub: "set (bc_entries input) \<subseteq> set (al_entries l)" using e by auto
  then show "\<forall>e \<in> set (bc_entries input). \<forall>p. map_of (bc_inclusionProofs input) (ae_seq e) = Some p \<longrightarrow>
      vr_valid (verifyInclusion H p (Buf (of_hex (ae_entryHash e))) (bc_logRoot input))"
    using collect_proofs_ok [OF l sub] p rt by auto
qed

end

end
