(* ===== verification/Retention.thy ===== *)
theory Retention
  imports IsoDate
begin

text \<open>
  \<open>evidence/retention.ts\<close>: resolving overlapping retention rules into one period, assessing
  a write-once anchor against it, and sorting stored evidence by what may be deleted.
\<close>

section \<open>Rules\<close>

definition ART_19_MINIMUM_DAYS :: int where "ART_19_MINIMUM_DAYS = 183"

definition DAY_MS :: int where "DAY_MS = 86400000"

text \<open>
  A rule as the resolver reads it: a field that is \<open>undefined\<close> is \<open>None\<close>, and so is a
  \<open>null\<close> ceiling, which the source treats alike.
\<close>

record retention_rule =
  ru_id :: "string option"
  ru_basis :: "string option"
  ru_minimumDays :: "int option"
  ru_maximumDays :: "int option"

definition section_sign :: string where "section_sign = [CHR 0xC2, CHR 0xA7]"

definition std_rule :: "string \<Rightarrow> string \<Rightarrow> int \<Rightarrow> string \<times> retention_rule" where
  "std_rule i basis days = (i, \<lparr>ru_id = Some i, ru_basis = Some basis, ru_minimumDays = Some days,
     ru_maximumDays = None\<rparr>)"

definition STANDARD_RULES :: "retention_rule jsmap" where
  "STANDARD_RULES =
    [std_rule ''eu-ai-act-art-19''
       (''EU AI Act Art. 19 '' @ em_dash @ '' automatically generated logs, at least six months'') ART_19_MINIMUM_DAYS,
     std_rule ''eu-ai-act-annex-iv''
       (''EU AI Act Art. 11 + Annex IV '' @ em_dash @ '' technical documentation, ten years'') 3653,
     std_rule ''hipaa-164-316''
       (''HIPAA '' @ section_sign @ ''164.316(b)(2)(i) '' @ em_dash @ '' documentation retained six years'') 2191,
     std_rule ''sox-17a-4'' (''SEC 17a-4 '' @ em_dash @ '' records preserved, commonly six years'') 2191,
     std_rule ''gdpr-storage-limitation''
       (''GDPR Art. 5(1)(e) '' @ em_dash @ '' kept no longer than necessary'') 0]"

text \<open>
  \<open>STANDARD_RULES[id]\<close> on an object literal also finds the members every object inherits;
  none of them has the fields of a rule.
\<close>

definition inherited_members :: "string list" where
  "inherited_members = [''constructor'', ''__defineGetter__'', ''__defineSetter__'', ''hasOwnProperty'',
     ''__lookupGetter__'', ''__lookupSetter__'', ''isPrototypeOf'', ''propertyIsEnumerable'', ''toString'',
     ''valueOf'', ''__proto__'', ''toLocaleString'']"

definition inherited_rule :: retention_rule where
  "inherited_rule = \<lparr>ru_id = None, ru_basis = None, ru_minimumDays = None, ru_maximumDays = None\<rparr>"

definition rule_lookup :: "string \<Rightarrow> retention_rule option" where
  "rule_lookup i = (case map_get STANDARD_RULES i of
     Some r \<Rightarrow> Some r
   | None \<Rightarrow> if i \<in> set inherited_members then Some inherited_rule else None)"

section \<open>resolveRetention\<close>

record resolved_retention =
  rt_retainForDays :: "int option"
  rt_retainUntil :: "instant option"
  rt_governingRule :: "string option"
  rt_applied :: "retention_rule list"
  rt_deleteByDays :: "int option"
  rt_deleteBy :: "instant option"

text \<open>\<open>a > b\<close> on numbers that may be undefined.\<close>

definition gt_opt :: "int option \<Rightarrow> int option \<Rightarrow> bool" where
  "gt_opt a b = (case (a, b) of (Some x, Some y) \<Rightarrow> x > y | _ \<Rightarrow> False)"

fun governing_loop :: "retention_rule \<Rightarrow> retention_rule list \<Rightarrow> retention_rule" where
  "governing_loop g [] = g"
| "governing_loop g (r # rs) =
     governing_loop (if gt_opt (ru_minimumDays r) (ru_minimumDays g) then r else g) rs"

fun lookup_rules :: "string list \<Rightarrow> string + retention_rule list" where
  "lookup_rules [] = Inr []"
| "lookup_rules (i # is) = (case rule_lookup i of
     None \<Rightarrow> Inl (''unknown retention rule '' @ [CHR 0x22] @ i @ [CHR 0x22] @ ''. Known rules: ''
       @ join '', '' (map fst STANDARD_RULES))
   | Some r \<Rightarrow> bindE (lookup_rules is) (\<lambda>rs. Inr (r # rs)))"

definition show_opt_int :: "int option \<Rightarrow> string" where
  "show_opt_int d = (case d of None \<Rightarrow> ''undefined'' | Some x \<Rightarrow> show_int x)"

definition add_days :: "instant \<Rightarrow> int option \<Rightarrow> instant option" where
  "add_days from d = map_option (\<lambda>x. from + x * DAY_MS) d"

text \<open>The resolution of the rules that apply, a list with at least one rule.\<close>

definition resolve_rules :: "retention_rule list \<Rightarrow> instant \<Rightarrow> string + resolved_retention" where
  "resolve_rules applied from =
     (let governing = governing_loop (hd applied) applied;
          retainForDays = ru_minimumDays governing;
          ceilings = List.map_filter ru_maximumDays applied;
          deleteByDays = (if ceilings = [] then None else Some (Min (set ceilings)))
      in if gt_opt retainForDays deleteByDays
         then Inl (''retention rules conflict: ''
           @ (case ru_id governing of None \<Rightarrow> ''undefined'' | Some i \<Rightarrow> i) @ '' requires '' @ show_opt_int retainForDays
           @ '' days, but a ceiling of '' @ show_opt_int deleteByDays
           @ '' days also applies. This needs a legal decision, not a default.'')
         else Inr \<lparr>rt_retainForDays = retainForDays, rt_retainUntil = add_days from retainForDays,
                   rt_governingRule = ru_id governing, rt_applied = applied,
                   rt_deleteByDays = deleteByDays, rt_deleteBy = add_days from deleteByDays\<rparr>)"

definition resolveRetention :: "string list \<Rightarrow> instant \<Rightarrow> string + resolved_retention" where
  "resolveRetention ruleIds from =
     (if ruleIds = []
      then Inl (''at least one retention rule is required; evidence with no stated basis ''
        @ ''for its retention period cannot be defended'')
      else bindE (lookup_rules ruleIds) (\<lambda>applied. resolve_rules applied from))"

lemma gt_opt_simps [simp]:
  "gt_opt (Some a) (Some b) \<longleftrightarrow> b < a" "\<not> gt_opt None x" "\<not> gt_opt x None"
  by (auto simp: gt_opt_def split: option.splits)

lemma governing_loop_max:
  assumes "\<forall>r \<in> set (g # rs). ru_minimumDays r \<noteq> None"
  shows "governing_loop g rs \<in> set (g # rs) \<and>
    (\<forall>r \<in> set (g # rs). the (ru_minimumDays r) \<le> the (ru_minimumDays (governing_loop g rs)))"
  using assms
proof (induction rs arbitrary: g)
  case (Cons r rs)
  let ?g = "if gt_opt (ru_minimumDays r) (ru_minimumDays g) then r else g"
  obtain a b where ab: "ru_minimumDays r = Some a" "ru_minimumDays g = Some b" using Cons.prems by auto
  have "governing_loop ?g rs \<in> set (?g # rs) \<and>
    (\<forall>x \<in> set (?g # rs). the (ru_minimumDays x) \<le> the (ru_minimumDays (governing_loop ?g rs)))"
    by (rule Cons.IH) (use Cons.prems in auto)
  then show ?case using ab by (auto split: if_splits)
qed simp

lemma set_map_filter_iff: "c \<in> set (List.map_filter f xs) \<longleftrightarrow> (\<exists>x \<in> set xs. f x = Some c)"
  by (induction xs) (auto simp: List.map_filter_simps split: option.splits)

lemma resolve_rules_floor:
  assumes "resolve_rules applied from = Inr rt" "applied \<noteq> []" "\<forall>r \<in> set applied. ru_minimumDays r \<noteq> None"
  shows "\<exists>d. rt_retainForDays rt = Some d \<and> rt_retainUntil rt = Some (from + d * DAY_MS)
    \<and> (\<forall>r \<in> set applied. the (ru_minimumDays r) \<le> d)
    \<and> (\<exists>r \<in> set applied. ru_minimumDays r = Some d \<and> rt_governingRule rt = ru_id r)
    \<and> (\<forall>r \<in> set applied. \<forall>c. ru_maximumDays r = Some c \<longrightarrow>
        d \<le> c \<and> (\<exists>c'. rt_deleteByDays rt = Some c' \<and> c' \<le> c))"
proof -
  let ?g = "governing_loop (hd applied) applied"
  have s: "set (hd applied # applied) = set applied" using assms(2) by auto
  have g: "?g \<in> set applied" "\<forall>r \<in> set applied. the (ru_minimumDays r) \<le> the (ru_minimumDays ?g)"
    using governing_loop_max [of "hd applied" applied] assms(3) s by auto
  obtain d where d: "ru_minimumDays ?g = Some d" using g(1) assms(3) by blast
  have "d \<le> c \<and> (\<exists>c'. rt_deleteByDays rt = Some c' \<and> c' \<le> c)"
    if r: "r \<in> set applied" "ru_maximumDays r = Some c" for r c
  proof -
    have in_c: "c \<in> set (List.map_filter ru_maximumDays applied)" using r by (auto simp: set_map_filter_iff)
    then have ne: "List.map_filter ru_maximumDays applied \<noteq> []" by auto
    have "Min (set (List.map_filter ru_maximumDays applied)) \<le> c" using in_c by simp
    then show ?thesis using assms(1) d ne by (auto simp: resolve_rules_def Let_def split: if_splits)
  qed
  moreover have "rt_retainForDays rt = Some d" "rt_retainUntil rt = Some (from + d * DAY_MS)"
    "rt_governingRule rt = ru_id ?g"
    using assms(1) d by (auto simp: resolve_rules_def Let_def add_days_def split: if_splits)
  moreover have "\<forall>r \<in> set applied. the (ru_minimumDays r) \<le> d" using g(2) d by simp
  ultimately show ?thesis using g(1) d by blast
qed

lemma resolve_rules_conflict:
  assumes "applied \<noteq> []" "\<forall>r \<in> set applied. ru_minimumDays r \<noteq> None"
  shows "isOk (resolve_rules applied from) \<longleftrightarrow>
    (\<forall>r \<in> set applied. \<forall>q \<in> set applied. \<forall>c. ru_maximumDays q = Some c \<longrightarrow> the (ru_minimumDays r) \<le> c)"
proof -
  let ?g = "governing_loop (hd applied) applied" and ?cs = "List.map_filter ru_maximumDays applied"
  have s: "set (hd applied # applied) = set applied" using assms(1) by auto
  have g: "?g \<in> set applied" "\<forall>r \<in> set applied. the (ru_minimumDays r) \<le> the (ru_minimumDays ?g)"
    using governing_loop_max [of "hd applied" applied] assms(2) s by auto
  obtain d where d: "ru_minimumDays ?g = Some d" using g(1) assms(2) by blast
  have "isOk (resolve_rules applied from) \<longleftrightarrow> ?cs = [] \<or> d \<le> Min (set ?cs)"
    by (simp add: resolve_rules_def Let_def d not_less del: Min.bounded_iff)
  also have "\<dots> \<longleftrightarrow> (\<forall>c \<in> set ?cs. d \<le> c)" 
  proof (cases "?cs = []")
    case False
    then have "d \<le> Min (set ?cs) \<longleftrightarrow> (\<forall>c \<in> set ?cs. d \<le> c)" by (intro Min_ge_iff) auto
    with False show ?thesis by blast
  qed simp
  also have "\<dots> \<longleftrightarrow> (\<forall>q \<in> set applied. \<forall>c. ru_maximumDays q = Some c \<longrightarrow> d \<le> c)"
    by (auto simp: set_map_filter_iff)
  finally show ?thesis using g d by (metis option.sel order_trans)
qed

section \<open>assessAnchor\<close>

datatype lock_mode = Compliance | Governance | NoLock

record worm_anchor =
  wa_location :: string
  wa_mode :: lock_mode
  wa_retainUntil :: instant
  wa_anchoredAt :: instant

record anchor_assessment =
  aa_sufficient :: bool
  aa_statement :: string
  aa_problems :: "string list"

definition ceil_div :: "int \<Rightarrow> int \<Rightarrow> int" where
  "ceil_div a b = - ((- a) div b)"

definition anchor_problems :: "worm_anchor \<Rightarrow> resolved_retention \<Rightarrow> string list" where
  "anchor_problems anchor required =
     (if wa_mode anchor = NoLock then [''object lock is not enabled''] else [])
     @ (if wa_mode anchor = Governance
        then [''object lock is in governance mode, which a privileged user can override''] else [])
     @ (case rt_retainUntil required of
          None \<Rightarrow> []
        | Some until \<Rightarrow> if wa_retainUntil anchor < until
            then [''lock expires '' @ show_int (ceil_div (until - wa_retainUntil anchor) DAY_MS)
              @ '' days before the required period ends'']
            else [])"

definition assessAnchor :: "worm_anchor option \<Rightarrow> resolved_retention \<Rightarrow> anchor_assessment" where
  "assessAnchor anchor required = (case anchor of
     None \<Rightarrow> \<lparr>aa_sufficient = False,
       aa_statement = ''Not anchored to write-once storage. The retention period is recorded but ''
         @ ''not enforced, so this evidence can be deleted by anyone with write access.'',
       aa_problems = [''no anchor'']\<rparr>
   | Some a \<Rightarrow>
       let problems = anchor_problems a required in
       if problems = []
       then \<lparr>aa_sufficient = True,
         aa_statement = ''Anchored to write-once storage in compliance mode until ''
           @ take 10 (toISOString (wa_retainUntil a)) @ '', satisfying ''
           @ (case rt_governingRule required of None \<Rightarrow> ''undefined'' | Some i \<Rightarrow> i)
           @ '' ('' @ show_opt_int (rt_retainForDays required) @ '' days). Deletion is ''
           @ ''refused by the storage layer until that date, including by an account administrator.'',
         aa_problems = []\<rparr>
       else \<lparr>aa_sufficient = False,
         aa_statement = ''Retention is recorded but not fully enforced: '' @ join ''; '' problems @ ''.'',
         aa_problems = problems\<rparr>)"

lemma assessAnchor_sufficient:
  assumes "rt_retainUntil required = Some until"
  shows "aa_sufficient (assessAnchor anchor required) \<longleftrightarrow>
    (\<exists>a. anchor = Some a \<and> wa_mode a = Compliance \<and> until \<le> wa_retainUntil a)"
  using assms lock_mode.exhaust
  by (auto simp: assessAnchor_def anchor_problems_def Let_def split: option.splits if_splits)

section \<open>planExpiry\<close>

record expiry_candidate =
  ec_bundleId :: string
  ec_retainUntil :: instant
  ec_deleteBy :: "instant option"

record expiry_plan =
  ep_due :: "expiry_candidate list"
  ep_eligible :: "expiry_candidate list"
  ep_retained :: "expiry_candidate list"

fun expiry_loop :: "instant \<Rightarrow> expiry_candidate list \<Rightarrow> expiry_plan \<Rightarrow> expiry_plan" where
  "expiry_loop now [] plan = plan"
| "expiry_loop now (c # cs) plan =
     expiry_loop now cs
      (if ec_retainUntil c > now then plan\<lparr>ep_retained := ep_retained plan @ [c]\<rparr>
       else if (case ec_deleteBy c of None \<Rightarrow> False | Some d \<Rightarrow> d \<le> now)
       then plan\<lparr>ep_due := ep_due plan @ [c]\<rparr>
       else plan\<lparr>ep_eligible := ep_eligible plan @ [c]\<rparr>)"

definition planExpiry :: "expiry_candidate list \<Rightarrow> instant \<Rightarrow> expiry_plan" where
  "planExpiry candidates now =
     expiry_loop now candidates \<lparr>ep_due = [], ep_eligible = [], ep_retained = []\<rparr>"

text \<open>The three conditions of the partition.\<close>

definition is_retained :: "instant \<Rightarrow> expiry_candidate \<Rightarrow> bool" where
  "is_retained now c = (now < ec_retainUntil c)"

definition past_ceiling :: "instant \<Rightarrow> expiry_candidate \<Rightarrow> bool" where
  "past_ceiling now c = (\<exists>d. ec_deleteBy c = Some d \<and> d \<le> now)"

lemma expiry_loop_filter:
  "expiry_loop now cs p =
    \<lparr>ep_due = ep_due p @ filter (\<lambda>c. \<not> is_retained now c \<and> past_ceiling now c) cs,
     ep_eligible = ep_eligible p @ filter (\<lambda>c. \<not> is_retained now c \<and> \<not> past_ceiling now c) cs,
     ep_retained = ep_retained p @ filter (is_retained now) cs\<rparr>"
proof (induction cs arbitrary: p)
  case (Cons c cs)
  have "(case ec_deleteBy c of None \<Rightarrow> False | Some d \<Rightarrow> d \<le> now) = past_ceiling now c"
    by (auto simp: past_ceiling_def split: option.splits)
  with Cons show ?case by (simp add: is_retained_def)
qed simp

lemma planExpiry_filter:
  "planExpiry cs now =
    \<lparr>ep_due = filter (\<lambda>c. \<not> is_retained now c \<and> past_ceiling now c) cs,
     ep_eligible = filter (\<lambda>c. \<not> is_retained now c \<and> \<not> past_ceiling now c) cs,
     ep_retained = filter (is_retained now) cs\<rparr>"
  by (simp add: planExpiry_def expiry_loop_filter)

text \<open>Time only moves evidence out of retention.\<close>

lemma retained_antimono: "now \<le> later \<Longrightarrow> set (ep_retained (planExpiry cs later)) \<subseteq> set (ep_retained (planExpiry cs now))"
  by (auto simp: planExpiry_filter is_retained_def)

lemma due_mono:
  assumes "now \<le> later"
  shows "set (ep_due (planExpiry cs now)) \<subseteq> set (ep_due (planExpiry cs later))"
  using assms by (fastforce simp: planExpiry_filter is_retained_def past_ceiling_def)

end
