(* ===== verification/Evidence_Properties.thy ===== *)
theory Evidence_Properties
  imports Evidence_Bundle Retention
begin

text \<open>
  The properties of the evidence components at the digest the code uses, SHA-256, with their
  witnesses. Collision freedom is a hypothesis, on the finite set of inputs that occur.
\<close>

section \<open>Concrete values for the witnesses\<close>

definition leaf_a :: bytes where "leaf_a = hashLeaf sha256 (Str ''a'')"
definition leaf_b :: bytes where "leaf_b = hashLeaf sha256 (Str ''b'')"

definition tree_a :: merkle_tree where "tree_a = \<lparr>leaves = [leaf_a]\<rparr>"
definition tree_ab :: merkle_tree where "tree_ab = \<lparr>leaves = [leaf_a, leaf_b]\<rparr>"

lemma leaf_lengths [simp]: "length leaf_a = 32" "length leaf_b = 32"
  by (simp_all add: leaf_a_def leaf_b_def)

lemma lp_2 [simp]: "largestPowerOfTwoBelow 2 = 1" "largestPowerOfTwoBelow (Suc (Suc 0)) = 1"
  using lp_power_of_two [of 0] by (simp_all add: numeral_2_eq_2)

lemma tree_simps [simp]: "leaves tree_a = [leaf_a]" "leaves tree_ab = [leaf_a, leaf_b]"
  by (simp_all add: tree_a_def tree_ab_def)

lemma PATH_ab: "PATH H 0 [x, y] = [y]" "PATH H 1 [x, y] = [x]"
  by (simp_all add: PATH_split PATH_short Let_def)

lemma mth_inputs_ab: "mth_inputs H [x] = {}" "mth_inputs H [x, y] = {node_input x y}"
  by (simp add: mth_inputs.simps) (simp add: mth_inputs_split mth_inputs.simps [of H "[_]"])

definition proof_b :: inclusion_proof where
  "proof_b = \<lparr>ip_leafIndex = 1, ip_treeSize = 2, ip_path = [to_hex leaf_a]\<rparr>"

lemma proof_b: "inclusionProof H tree_ab 1 = Inr proof_b"
  using PATH_ab(2) [of H leaf_a leaf_b] leaf_range_all [of "[leaf_a, leaf_b]"]
  by (simp add: inclusionProof_def proof_b_def buildPath_eq_PATH Let_def)

definition proof_a_ab :: consistency_proof where
  "proof_a_ab = \<lparr>cp_firstSize = 1, cp_secondSize = 2, cp_path = [to_hex leaf_b]\<rparr>"

lemma SUBPROOF_ab: "SUBPROOF H 1 [x, y] True = [y]"
  by (simp add: SUBPROOF_split SUBPROOF_same Let_def)

lemma proof_a_ab: "consistencyProof H tree_ab 1 = Inr proof_a_ab"
  using SUBPROOF_ab [of H leaf_a leaf_b] leaf_range_all [of "[leaf_a, leaf_b]"]
  by (simp add: consistencyProof_def proof_a_ab_def subproof_eq_SUBPROOF Let_def)

section \<open>Merkle proofs\<close>

text \<open>C30 An inclusion proof the tree hands out verifies against the tree's root, for every leaf
  of every tree up to the size the verifier's 32-bit arithmetic covers.\<close>

theorem inclusion_proof_complete:
  assumes "inclusionProof sha256 t i = Inr pf" "hashLeaf sha256 d = leaves t ! nat i"
    "\<forall>x \<in> set (leaves t). length x = 32" "length (leaves t) \<le> 2 ^ 31"
  shows "vr_valid (verifyInclusion sha256 pf d (tree_root sha256 t))"
  using assms by (rule sha.inclusion_complete)

theorem inclusion_proof_complete_witness:
  "vr_valid (verifyInclusion sha256 proof_b (Str ''b'') (tree_root sha256 tree_ab))"
  by (rule inclusion_proof_complete [where t = tree_ab and i = 1])
    (simp_all add: proof_b leaf_b_def [symmetric])

text \<open>C21 An inclusion proof that verifies against a root proves its leaf: the leaf is in the tree
  with that root and that many leaves, at the index the proof names, unless SHA-256 collides
  on two inputs that occur in the tree and in the verification.\<close>

theorem inclusion_proof_sound:
  assumes "vr_valid (verifyInclusion sha256 pf d (tree_root sha256 t))"
    "ip_treeSize pf = int (length (leaves t))" "length (leaves t) \<le> 2 ^ 31"
    "\<forall>x \<in> set (leaves t). length x = 32"
    "inj_on sha256 (mth_inputs sha256 (leaves t) \<union>
      recon_inputs sha256 (nat (ip_leafIndex pf)) (length (leaves t)) (hashLeaf sha256 d) (map of_hex (ip_path pf)))"
  shows "0 \<le> ip_leafIndex pf \<and> nat (ip_leafIndex pf) < length (leaves t)
    \<and> hashLeaf sha256 d = leaves t ! nat (ip_leafIndex pf)"
  using assms by (rule sha.inclusion_sound)

lemma recon_inputs_b: "recon_inputs H 1 2 h [x] = {node_input x h}"
  by (simp add: recon_inputs.simps recon_one Let_def)

lemma proof_b_verifies: "vr_valid (verifyInclusion sha256 proof_b (Str ''b'') (tree_root sha256 tree_ab))"
  by (rule sha.inclusion_complete [where i = 1]) (simp_all add: proof_b leaf_b_def [symmetric])

theorem inclusion_proof_sound_witness:
  "hashLeaf sha256 (Str ''b'') = leaves tree_ab ! nat (ip_leafIndex proof_b)"
  using inclusion_proof_sound [OF proof_b_verifies]
  by (simp add: proof_b_def mth_inputs_ab recon_inputs_b [simplified] numeral_2_eq_2 leaf_b_def)

text \<open>C31 A consistency proof verifies between the root the log had at the earlier size and its
  current root, for every earlier size.\<close>

theorem consistency_proof_complete:
  assumes "consistencyProof sha256 t (int m) = Inr pf"
    "\<forall>x \<in> set (leaves t). length x = 32" "length (leaves t) \<le> 2 ^ 31"
  shows "vr_valid (verifyConsistency sha256 pf (tree_root sha256 \<lparr>leaves = take m (leaves t)\<rparr>) (tree_root sha256 t))"
  using assms by (rule sha.consistency_complete)

theorem consistency_proof_complete_witness:
  "vr_valid (verifyConsistency sha256 proof_a_ab (tree_root sha256 tree_a) (tree_root sha256 tree_ab))"
  using consistency_proof_complete [of tree_ab 1 proof_a_ab] proof_a_ab by (simp add: tree_a_def)

text \<open>C22 A consistency proof that verifies between the roots of two logs makes the first log a
  prefix of the second: nothing was removed, changed or inserted. Collision freedom is
  assumed on a set \<open>S\<close> that holds the inputs of the two trees and of the verification.\<close>

theorem consistency_proof_sound:
  assumes "vr_valid (verifyConsistency sha256 pf (tree_root sha256 t1) (tree_root sha256 t2))"
    "cp_firstSize pf = int (length (leaves t1))" "cp_secondSize pf = int (length (leaves t2))"
    "length (leaves t2) \<le> 2 ^ 31"
    "\<forall>x \<in> set (leaves t1). length x = 32" "\<forall>x \<in> set (leaves t2). length x = 32"
    "inj_on sha256 S" "mth_inputs sha256 (leaves t1) \<subseteq> S" "mth_inputs sha256 (leaves t2) \<subseteq> S"
    "\<And>s rest. split_proof (length (leaves t1)) (MTH sha256 (leaves t1)) (map of_hex (cp_path pf)) = Some (s, rest)
      \<Longrightarrow> recon2_inputs sha256 (length (leaves t1)) (length (leaves t2)) s rest \<subseteq> S"
  shows "leaves t1 = take (length (leaves t1)) (leaves t2)"
  using assms by (rule sha.consistency_sound)

lemma proof_a_ab_verifies:
  "vr_valid (verifyConsistency sha256 proof_a_ab (tree_root sha256 tree_a) (tree_root sha256 tree_ab))"
  using sha.consistency_complete [of tree_ab 1 proof_a_ab] proof_a_ab by (simp add: tree_a_def)

lemma isPowerOfTwo_1: "isPowerOfTwo 1"
  by (simp add: isPowerOfTwo_def int32_and_def)

lemma recon2_inputs_ab: "recon2_inputs H 1 2 s [x] = {node_input s x}"
  by (simp add: recon2_inputs.simps Let_def)

theorem consistency_proof_sound_witness:
  "leaves tree_a = take (length (leaves tree_a)) (leaves tree_ab)"
  by (rule consistency_proof_sound [OF proof_a_ab_verifies, of "{node_input leaf_a leaf_b}"])
    (auto simp: proof_a_ab_def mth_inputs_ab split_proof_def isPowerOfTwo_1
      recon2_inputs_ab [unfolded One_nat_def numeral_2_eq_2])

text \<open>C36 The root, the audit paths and the consistency proofs the index-based code computes are
  those of the recursive definitions of RFC 6962 on the list of leaves.\<close>

theorem merkle_is_rfc6962:
  "tree_root H t = to_hex (MTH H (leaves t))
   \<and> buildPath H (leaves t) m 0 (length (leaves t)) = map to_hex (PATH H m (leaves t))
   \<and> subproof H (leaves t) m 0 (length (leaves t)) True = map to_hex (SUBPROOF H m (leaves t) True)"
  by (simp add: tree_root_eq_MTH buildPath_eq_PATH subproof_eq_SUBPROOF)

section \<open>The audit log\<close>

lemma unsealed_ok: "json_ok (unsealed e) \<longleftrightarrow> json_ok (JObj (ae_payload e))"
  by (auto simp: unsealed_def opt_str_def split: option.splits)

lemma entryDigest_ok: "json_ok (JObj (ae_payload e)) \<longleftrightarrow> isOk (entryDigest H e)"
proof -
  have "isOk (canonicalize (unsealed e)) \<longleftrightarrow> json_ok (unsealed e)"
    by (auto simp: isOk_iff canonicalize_Inr)
  then show ?thesis by (simp add: entryDigest_def canonical_digest_def item_ok unsealed_ok)
qed

definition event_payload :: "audit_event \<Rightarrow> (string \<times> jsval) list" where
  "event_payload ev = (case ev_payload ev of None \<Rightarrow> [] | Some p \<Rightarrow> p)"

lemma log_append_ok_iff:
  "isOk (fst (log_append H now l ev)) \<longleftrightarrow>
    ev_action ev \<noteq> [] \<and> ev_actor ev \<noteq> [] \<and> ev_tenantId ev \<noteq> [] \<and> json_ok (JObj (event_payload ev))"
proof (cases "ev_action ev = [] \<or> ev_actor ev = [] \<or> ev_tenantId ev = []")
  case True
  then show ?thesis by (auto simp: log_append_def)
next
  case False
  let ?u = "\<lparr>ae_seq = int (length (al_entries l)),
      ae_recordedAt = toISOString (case ev_recordedAt ev of None \<Rightarrow> now | Some t \<Rightarrow> t),
      ae_action = ev_action ev, ae_actor = ev_actor ev, ae_tenantId = ev_tenantId ev,
      ae_subject = ev_subject ev, ae_payload = (case ev_payload ev of None \<Rightarrow> [] | Some p \<Rightarrow> p),
      ae_previousHash = al_lastHash l, ae_entryHash = []\<rparr>"
  have "isOk (fst (log_append H now l ev)) \<longleftrightarrow> isOk (entryDigest H ?u)"
    using False by (cases "entryDigest H ?u") (simp_all add: log_append_def Let_def)
  also have "\<dots> \<longleftrightarrow> json_ok (JObj (event_payload ev))"
    unfolding entryDigest_ok [symmetric] by (simp add: event_payload_def)
  finally show ?thesis using False by blast
qed

lemma chain_loop_broken:
  "\<not> cv_valid (chain_loop H i p es) \<Longrightarrow> cv_checked (chain_loop H i p es) = i + n \<Longrightarrow>
    n < length es \<and> \<not> chained H i p (take (Suc n) es) \<and> cv_brokenAt (chain_loop H i p es) = Some (ae_seq (es ! n))"
proof (induction es arbitrary: i p n)
  case Nil
  then show ?case by (simp add: cv_ok_def)
next
  case (Cons e es)
  show ?case
  proof (cases "ae_seq e = int i \<and> ae_previousHash e = p \<and> check_digest H i e = None")
    case True
    then have l: "chain_loop H i p (e # es) = chain_loop H (Suc i) (ae_entryHash e) es" by simp
    have "Suc i \<le> i + n" using chain_loop_checked_ge [of "Suc i" H "ae_entryHash e" es] Cons.prems(2) l by simp
    then obtain m where m: "n = Suc m" by (cases n) auto
    show ?thesis using Cons.IH [of "Suc i" "ae_entryHash e" m] Cons.prems True m unfolding l by simp
  next
    case False
    then have "n = 0" "\<not> chained H i p [e]" "cv_brokenAt (chain_loop H i p (e # es)) = Some (ae_seq e)"
      using Cons.prems by (auto simp: cv_broken_def check_digest_def sealed_def split: option.splits sum.splits if_splits)
    then show ?thesis by simp
  qed
qed

text \<open>An event, and the log after it.\<close>

definition ev_start :: audit_event where
  "ev_start = \<lparr>ev_action = ''run.started'', ev_actor = ''alice'', ev_tenantId = ''acme'', ev_subject = Some ''run-1'',
     ev_payload = Some [(''model'', JStr ''m''), (''attempt'', JNum (num_of_int 1))], ev_recordedAt = None\<rparr>"

definition log_1 :: audit_log where
  "log_1 = log_run sha256 empty_log [(0, ev_start)]"

lemma ev_start_ok: "isOk (fst (log_append H now l ev_start))"
  by (simp add: log_append_ok_iff ev_start_def event_payload_def)

lemma log_1_entries: "\<exists>e. al_entries log_1 = [e] \<and> ae_seq e = 0 \<and> ae_payload e = event_payload ev_start"
proof -
  obtain e where e: "fst (log_append sha256 0 empty_log ev_start) = Inr e"
    using ev_start_ok [of sha256 0 empty_log] unfolding isOk_iff by blast
  then show ?thesis
    by (auto simp: log_1_def log_append_def ev_start_def event_payload_def Let_def empty_log_def split: sum.splits)
qed

lemma log_1_inv: "log_inv sha256 log_1"
  unfolding log_1_def by (rule log_run_inv) simp

text \<open>A log built by any history of appends verifies, and each of its entries has an inclusion
  proof that verifies against its root.\<close>

theorem log_history_verifies:
  assumes "l = log_run sha256 empty_log evs" "seq < length (al_entries l)" "length (al_entries l) \<le> 2 ^ 31"
  shows "cv_valid (log_verify sha256 l) \<and>
    (\<exists>pf leaf. log_inclusionProof sha256 l (int seq) = Inr pf \<and> leafFor l (int seq) = Inr leaf
      \<and> vr_valid (verifyInclusion sha256 pf (Buf leaf) (log_root sha256 l)))"
proof -
  have "log_inv sha256 l" unfolding assms(1) by (rule log_run_inv) simp
  then show ?thesis using sha.log_inclusion [OF _ assms(2,3)] log_inv_verifies by blast
qed

theorem log_history_verifies_witness: "cv_valid (log_verify sha256 log_1)"
  using log_history_verifies [OF log_1_def, of 0] log_1_entries by auto

text \<open>Whatever is appended later, the log proves that it extends the one it was: the consistency
  proof for the earlier size verifies between the two roots.\<close>

theorem log_extension_consistent:
  assumes "l = log_run sha256 empty_log evs" "length (al_entries (log_run sha256 l evs2)) \<le> 2 ^ 31"
  shows "prefix (al_entries l) (al_entries (log_run sha256 l evs2)) \<and>
    (\<exists>pf. log_consistencyProof sha256 (log_run sha256 l evs2) (int (log_size l)) = Inr pf
      \<and> vr_valid (verifyConsistency sha256 pf (log_root sha256 l) (log_root sha256 (log_run sha256 l evs2))))"
proof -
  have "log_inv sha256 l" unfolding assms(1) by (rule log_run_inv) simp
  then show ?thesis using sha.log_consistency [OF _ assms(2)] log_run_prefix by blast
qed

theorem log_extension_consistent_witness:
  "\<exists>pf. log_consistencyProof sha256 log_1 0 = Inr pf
      \<and> vr_valid (verifyConsistency sha256 pf (log_root sha256 empty_log) (log_root sha256 log_1))"
proof -
  have "length (al_entries (log_run sha256 empty_log [(0, ev_start)])) \<le> 2 ^ 31"
    using log_1_entries by (auto simp: log_1_def)
  moreover have "empty_log = log_run sha256 empty_log []" by simp
  ultimately show ?thesis using log_extension_consistent [of empty_log "[]" "[(0, ev_start)]"]
    unfolding log_1_def log_size_def by (simp add: empty_log_def)
qed

text \<open>C23 Tamper evidence: two non-empty logs that verify and end in the same hash hold the same
  entries, up to key order and undefined properties in the payloads, unless SHA-256
  collides on the texts of their entries. So no entry can be edited, dropped, added or
  moved without changing the head.\<close>

theorem chain_head_commits:
  assumes "cv_valid (verifyChain sha256 ds)" "cv_valid (verifyChain sha256 es)" "ds \<noteq> []" "es \<noteq> []"
    "ae_entryHash (last ds) = ae_entryHash (last es)"
    "\<forall>e \<in> set ds \<union> set es. wf_entry e" "inj_on sha256 (entry_input ` (set ds \<union> set es))"
  shows "map norm_entry ds = map norm_entry es"
  using assms unfolding verifyChain_iff by (intro chain_commits)

theorem chain_head_commits_witness: "map norm_entry (al_entries log_1) = map norm_entry (al_entries log_1)"
proof -
  obtain e where e: "al_entries log_1 = [e]" "ae_payload e = event_payload ev_start" using log_1_entries by blast
  have "cv_valid (verifyChain sha256 (al_entries log_1))"
    using log_inv_verifies [OF log_1_inv] by (simp add: log_verify_def)
  moreover have "wf_entry e" by (simp add: wf_entry_def e(2) event_payload_def ev_start_def)
  ultimately show ?thesis using e by (intro chain_head_commits) auto
qed

text \<open>The verdict of \<open>verifyChain\<close>: valid exactly when positions, links and hashes are right
  throughout; and when it is not valid the entries it counted as checked do form a chain
  and the next one, whose sequence number it reports, breaks it.\<close>

theorem verifyChain_verdict:
  "(cv_valid (verifyChain H es) \<longleftrightarrow> chained H 0 GENESIS_HASH es)
   \<and> chained H 0 GENESIS_HASH (take (cv_checked (verifyChain H es)) es)
   \<and> (cv_valid (verifyChain H es) \<or>
       (\<exists>n. n = cv_checked (verifyChain H es) \<and> n < length es \<and> \<not> chained H 0 GENESIS_HASH (take (Suc n) es)
         \<and> cv_brokenAt (verifyChain H es) = Some (ae_seq (es ! n))))"
  using chain_loop_checked [of H 0 GENESIS_HASH es "cv_checked (verifyChain H es)"]
    chain_loop_broken [of H 0 GENESIS_HASH es "cv_checked (verifyChain H es)"]
  by (auto simp: verifyChain_iff verifyChain_def chain_loop_valid)

text \<open>Appending: the event is refused, and the log left as it was, exactly when it lacks an
  action, an actor or a tenant or its payload has no exact JSON form; otherwise one entry
  is added at the end.\<close>

theorem append_refuses_or_extends:
  "(isOk (fst (log_append H now l ev)) \<longleftrightarrow>
      ev_action ev \<noteq> [] \<and> ev_actor ev \<noteq> [] \<and> ev_tenantId ev \<noteq> [] \<and> json_ok (JObj (event_payload ev)))
   \<and> (case log_append H now l ev of
        (Inl msg, l') \<Rightarrow> l' = l
      | (Inr e, l') \<Rightarrow> al_entries l' = al_entries l @ [e] \<and> al_lastHash l' = ae_entryHash e \<and> sealed H e
          \<and> ae_seq e = int (length (al_entries l)) \<and> ae_previousHash e = al_lastHash l)"
  by (rule conjI [OF log_append_ok_iff]) (cases rule: log_append_cases [of H now l ev]; auto)

text \<open>A filtered view of a log that verifies, one tenant's entries for instance, passes the
  check for slices.\<close>

theorem filtered_log_is_slice:
  assumes "cv_valid (verifyChain H es)"
  shows "cv_valid (verifyEntrySlice H (filter P es))"
  using assms by (rule slice_of_chain)

theorem filtered_log_is_slice_witness:
  "cv_valid (verifyEntrySlice sha256 (forTenant log_1 ''acme''))"
  unfolding forTenant_def
  by (rule filtered_log_is_slice) (use log_inv_verifies [OF log_1_inv] in \<open>simp add: log_verify_def\<close>)

section \<open>Canonical JSON\<close>

text \<open>C26 Two values with the same canonical text are the same value, up to key order, undefined
  properties and dates written as their text.\<close>

theorem canonical_text_determines_value:
  assumes "canonicalize v = Inr s" "canonicalize w = Inr s" "wf_nums v" "wf_nums w"
  shows "norm_val v = norm_val w"
  using assms by (rule canonical_inj)

lemma canon_small: "canonicalize (JObj [(''b'', JNull), (''a'', JBool True)])
    = canonicalize (JObj [(''a'', JBool True), (''b'', JNull)])"
  unfolding canonicalize_def by (rule canonical_key_order) (simp_all add: add_mset_commute)

theorem canonical_text_determines_value_witness:
  "norm_val (JObj [(''b'', JNull), (''a'', JBool True)]) = norm_val (JObj [(''a'', JBool True), (''b'', JNull)])"
proof -
  obtain s where "canonicalize (JObj [(''b'', JNull), (''a'', JBool True)]) = Inr s"
    by (auto simp: canonicalize_Inr)
  then show ?thesis using canon_small by (intro canonical_text_determines_value [where s = s]) simp_all
qed

text \<open>The text of an object does not depend on the order in which its keys were inserted.\<close>

theorem canonical_ignores_key_order:
  assumes "distinct (map fst kvs)" "mset kvs = mset lws"
  shows "canonicalize (JObj kvs) = canonicalize (JObj lws)"
  unfolding canonicalize_def using assms by (rule canonical_key_order)

theorem canonical_ignores_key_order_witness:
  "canonicalize (JObj [(''b'', JNull), (''a'', JBool True)]) = canonicalize (JObj [(''a'', JBool True), (''b'', JNull)])"
  by (rule canonical_ignores_key_order) (simp_all add: add_mset_commute)

text \<open>\<open>canonicalize\<close> refuses exactly the values with no exact JSON form: undefined at the top or
  in an array, a function, a symbol, a bigint, a cycle, an invalid date, NaN, an infinity
  or negative zero anywhere, an undefined property alone being left out.\<close>

theorem canonicalize_refuses:
  "isOk (canonicalize v) \<longleftrightarrow> json_ok v"
  by (auto simp: isOk_iff canonicalize_Inr)

section \<open>The manifest\<close>

definition pin_input :: manifest_input where
  "pin_input = \<lparr>mi_runId = ''run-1'',
     mi_environment = \<lparr>env_reference = ''ghcr.io/org/env:1.4.2'', env_digest = ''sha256:'' @ replicate 64 (CHR ''0''),
       env_signatureVerified = None, env_openEnvSpecVersion = Some 1\<rparr>,
     mi_model = \<lparr>mp_identifier = ''anthropic/claude'', mp_sampling = [(''seed'', JNum (num_of_int 7))], mp_providerVersion = None\<rparr>,
     mi_taskSet = \<lparr>tsp_id = ''t'', tsp_version = ''1'', tsp_split = ''dev'', tsp_splitHash = replicate 64 (CHR ''0''), tsp_taskCount = 3\<rparr>,
     mi_verifier = \<lparr>vp_id = ''v'', vp_version = ''2'', vp_assurance = None\<rparr>,
     mi_seed = None, mi_toolchain = [(''platform'', ''1.0'')], mi_isolationBackend = ''docker''\<rparr>"

definition pin_manifest :: manifest where
  "pin_manifest = manifest_input.extend pin_input (manifest.fields (toISOString 0))"

lemma pin_input_pinned: "pinned pin_input"
  by (simp add: pinned_def pin_input_def sha256_digest_re_def hex64_def list_all_iff is_lower_hex_def Let_def
      trim_Nil_iff is_space_def)

text \<open>A manifest is created exactly for an input that pins everything: a non-blank run, model,
  task set, split, verifier and backend, an image digest and a split hash in full, at least
  one task and one toolchain version. It then is the input with its time of creation.\<close>

theorem createManifest_pins:
  "(isOk (createManifest i ca now) \<longleftrightarrow> pinned i) \<and>
   (\<forall>m. createManifest i ca now = Inr m \<longrightarrow> manifest_input.truncate m = i \<and> pinned m
      \<and> mf_createdAt m = toISOString (case ca of None \<Rightarrow> now | Some t \<Rightarrow> t))"
proof -
  have "isOk (createManifest i ca now) \<longleftrightarrow> checks (manifest_checks i) = Inr ()"
    by (cases "checks (manifest_checks i)") (simp_all add: createManifest_def)
  moreover have "manifest_input.truncate m = i \<and> pinned m
      \<and> mf_createdAt m = toISOString (case ca of None \<Rightarrow> now | Some t \<Rightarrow> t)" if "createManifest i ca now = Inr m" for m
    using that manifest_checks_ok [of i]
    by (auto simp: createManifest_def bindE_Inr_iff manifest_input.defs manifest.defs pinned_def)
  ultimately show ?thesis using manifest_checks_ok by blast
qed

theorem createManifest_pins_witness: "isOk (createManifest pin_input None 0)"
  using createManifest_pins [of pin_input None 0] pin_input_pinned by simp

text \<open>Two runs are comparable exactly when image digest, split hash, verifier, sampling, isolation
  backend and seed agree; a verifier counts by \<open>id@version\<close>, and the sampling up to key
  order.\<close>

theorem comparable_means:
  assumes "comparable a b = Inr r"
    "wf_nums (JObj (mp_sampling (mi_model a)))" "wf_nums (JObj (mp_sampling (mi_model b)))"
    "wf_nums (seed_json (mi_seed a))" "wf_nums (seed_json (mi_seed b))"
  shows "cr_comparable r \<longleftrightarrow> env_digest (mi_environment a) = env_digest (mi_environment b)
    \<and> tsp_splitHash (mi_taskSet a) = tsp_splitHash (mi_taskSet b)
    \<and> vp_id (mi_verifier a) @ ''@'' @ vp_version (mi_verifier a) = vp_id (mi_verifier b) @ ''@'' @ vp_version (mi_verifier b)
    \<and> norm_val (JObj (mp_sampling (mi_model a))) = norm_val (JObj (mp_sampling (mi_model b)))
    \<and> mi_isolationBackend a = mi_isolationBackend b
    \<and> mi_seed a = mi_seed b"
  using assms by (rule comparable_iff)

text \<open>A swapped model: the same run with another model.\<close>

definition pin_other_model :: manifest where
  "pin_other_model = pin_manifest\<lparr>mi_model := (mi_model pin_manifest)\<lparr>mp_identifier := ''openai/gpt''\<rparr>\<rparr>"

lemma pin_manifest_simps [simp]:
  "mi_environment pin_manifest = mi_environment pin_input" "mi_model pin_manifest = mi_model pin_input"
  "mi_taskSet pin_manifest = mi_taskSet pin_input" "mi_verifier pin_manifest = mi_verifier pin_input"
  "mi_isolationBackend pin_manifest = mi_isolationBackend pin_input" "mi_seed pin_manifest = mi_seed pin_input"
  by (simp_all add: pin_manifest_def manifest_input.defs manifest.defs)

lemma comparable_swapped: "comparable pin_manifest pin_other_model = Inr \<lparr>cr_comparable = True, cr_differences = []\<rparr>"
  by (simp add: comparable_def compared_def check_same_def pin_other_model_def pin_input_def seed_json_def
      bindE_def canonicalize_Inr split: sum.splits)
    (auto simp: canonicalize_Inr isOk_iff dest!: arg_cong [where f = isOk] simp: canonicalize_refuses)

theorem comparable_means_witness:
  "\<exists>r. comparable pin_manifest pin_other_model = Inr r \<and> cr_comparable r
    \<and> mp_identifier (mi_model pin_manifest) \<noteq> mp_identifier (mi_model pin_other_model)"
  using comparable_means [OF comparable_swapped] comparable_swapped
  by (auto simp: pin_other_model_def pin_input_def seed_json_def)

section \<open>Bundles\<close>

text \<open>A key pair for the witness: a signature is the message, and the key accepts just that.\<close>

definition echo_keys :: key_source where
  "echo_keys = \<lparr>ks_keyId = ''dev-key-1'', ks_sign = (\<lambda>m. m), ks_publicKeyPem = ''pem''\<rparr>"

definition echo_api :: "unit verifier_api" where
  "echo_api = \<lparr>va_createPublicKey = (\<lambda>p. Inr (''ed25519'', ())), va_verify = (\<lambda>m k s. s = m)\<rparr>"

lemma echo_pair: "key_pair echo_api echo_keys"
  by (simp add: key_pair_def echo_api_def echo_keys_def)

definition proofs_1 :: proof_map where
  "proofs_1 = (case collect_proofs sha256 log_1 (al_entries log_1) of Inl _ \<Rightarrow> [] | Inr ps \<Rightarrow> ps)"

definition bundle_in :: bundle_input where
  "bundle_in = \<lparr>bc_bundleId = ''b-1'', bc_tenantId = ''acme'', bc_runId = ''run-1'', bc_manifest = pin_manifest,
     bc_entries = al_entries log_1, bc_logRoot = log_root sha256 log_1, bc_logSize = 1, bc_inclusionProofs = proofs_1,
     bc_consistency = None, bi_mappings = Some [],
     bi_retention = \<lparr>ri_retainUntil = 183 * DAY, ri_policy = ''eu-ai-act-art-19'', ri_wormAnchored = False\<rparr>,
     bi_generatedAt = Some 0\<rparr>"

lemma log_1_size: "length (al_entries log_1) \<le> 2 ^ 31"
  using log_1_entries by auto

lemma proofs_1: "collect_proofs sha256 log_1 (al_entries log_1) = Inr proofs_1"
  "\<forall>e \<in> set (al_entries log_1). \<exists>p. map_of proofs_1 (ae_seq e) = Some p"
  using sha.collect_proofs_ok [OF log_1_inv log_1_size, of "al_entries log_1"] by (auto simp: proofs_1_def)

text \<open>C1 End to end: a bundle cut from a log built by appends, holding any selection of its entries
  with the proofs the log hands out and its root, verifies with the bundle and the public
  key alone, provided the key of the signer is a key pair and the dates are dates.\<close>

theorem bundle_end_to_end:
  assumes "l = log_run sha256 empty_log evs" "length (al_entries l) \<le> 2 ^ 31"
    "bc_entries input = filter P (al_entries l)"
    "collect_proofs sha256 l (bc_entries input) = Inr (bc_inclusionProofs input)"
    "bc_logRoot input = log_root sha256 l"
    "createBundle sha256 ks now input = Inr b" "key_pair va ks"
    "valid_instant now" "valid_instant (ri_retainUntil (bi_retention input))"
    "\<And>t. bi_generatedAt input = Some t \<Longrightarrow> valid_instant t"
  shows "\<exists>r. verifyBundle sha256 va b (ks_publicKeyPem ks) = Inr r \<and> bv_valid r \<and> bv_failures r = []"
proof -
  have "log_inv sha256 l" unfolding assms(1) by (rule log_run_inv) simp
  then show ?thesis using sha.bundle_of_log_verifies assms(2-) by blast
qed

lemma manifest_ok: "json_ok (manifest_json m) \<longleftrightarrow> json_ok (JObj (mp_sampling (mi_model m))) \<and> json_ok (seed_json (mi_seed m))"
proof -
  have "json_ok (JObj (map (\<lambda>(k, v). (k, JStr v)) xs))" for xs :: "(string \<times> string) list" by auto
  moreover have "seed_json s \<noteq> JUndef" for s by (simp add: seed_json_def split: option.splits)
  ultimately show ?thesis
    by (auto simp: manifest_json_def environment_json_def model_json_def task_set_json_def verifier_json_def
        opt_json_def assurance_json_def split: option.splits)
qed

lemma canonical_digest_isOk: "isOk (canonical_digest H v) \<longleftrightarrow> json_ok v"
  by (simp add: canonical_digest_def item_ok canonicalize_refuses)

lemma contents_ok:
  "json_ok (contents_json c) \<longleftrightarrow> json_ok (manifest_json (bc_manifest c)) \<and> (\<forall>e \<in> set (bc_entries c). json_ok (JObj (ae_payload e)))"
proof -
  have "json_ok (entry_json e) \<longleftrightarrow> json_ok (JObj (ae_payload e))" for e
    by (auto simp: entry_json_def unsealed_def opt_str_def split: option.splits)
  moreover have "json_ok (inclusion_json p)" "json_ok (mapping_json m)" "json_ok (consistency_json q)" for p m q
    by (auto simp: inclusion_json_def mapping_json_def opt_json_def consistency_json_def split: option.splits)
  moreover have "manifest_json m \<noteq> JUndef" for m by (simp add: manifest_json_def)
  ultimately show ?thesis
    by (auto simp: contents_json_def opt_json_def split: option.splits)
qed

lemma bundle_in_created: "\<exists>b. createBundle sha256 echo_keys 0 bundle_in = Inr b"
proof -
  obtain e where e: "al_entries log_1 = [e]" "ae_payload e = event_payload ev_start" using log_1_entries by blast
  have s: "cv_valid (verifyEntrySlice sha256 (al_entries log_1))"
    using slice_of_chain [of sha256 "al_entries log_1" "\<lambda>_. True"] log_inv_verifies [OF log_1_inv] by (simp add: log_verify_def)
  have p: "missing_proof proofs_1 (al_entries log_1) = None" using proofs_1(2) by (simp add: missing_proof_None)
  have m: "json_ok (manifest_json pin_manifest)" by (simp add: manifest_ok pin_input_def seed_json_def)
  then obtain d where d: "manifestDigest sha256 pin_manifest = Inr d"
    using canonical_digest_isOk [of sha256 "manifest_json pin_manifest"] by (auto simp: manifestDigest_def isOk_iff)
  have "json_ok (contents_json (assemble bundle_in 0 d))"
    using m e by (simp add: contents_ok assemble_def bundle_in_def event_payload_def ev_start_def)
  then obtain t where "canonicalize (contents_json (assemble bundle_in 0 d)) = Inr t"
    by (metis canonicalize_refuses isOk_iff)
  then have "\<exists>b. sign_value contents_json echo_keys 0 (assemble bundle_in 0 d) = Inr b"
    by (simp add: sign_value_def)
  moreover have "\<not> below_minimum (183 * DAY)" by (simp add: below_minimum_def MINIMUM_RETENTION_DAYS_def)
  ultimately show ?thesis using s p d e
    by (simp add: createBundle_def Let_def bundle_in_def)
qed

theorem bundle_end_to_end_witness:
  "\<exists>b r. createBundle sha256 echo_keys 0 bundle_in = Inr b \<and> verifyBundle sha256 echo_api b ''pem'' = Inr r \<and> bv_valid r"
proof -
  obtain b where b: "createBundle sha256 echo_keys 0 bundle_in = Inr b" using bundle_in_created by blast
  have "\<exists>r. verifyBundle sha256 echo_api b (ks_publicKeyPem echo_keys) = Inr r \<and> bv_valid r \<and> bv_failures r = []"
    by (rule bundle_end_to_end [OF log_1_def log_1_size, where P = "\<lambda>_. True"])
      (use b proofs_1 echo_pair in \<open>auto simp: bundle_in_def valid_instant_def DAY_def\<close>)
  with b show ?thesis by (auto simp: echo_keys_def)
qed

text \<open>C37 What a valid verdict on a bundle means: the signature is over these contents, every entry
  recomputes to its hash and the sequence numbers ascend, every entry has a proof that
  verifies against the cited root, the manifest has the cited digest, and the retention
  period is at least 183 days.\<close>

theorem verifyBundle_means:
  assumes "verifyBundle H va bundle pem = Inr r"
  shows "(bv_valid r \<longleftrightarrow> bv_failures r = []) \<and>
    (bv_valid r \<longleftrightarrow>
      sv_valid (verifySignature contents_json va bundle pem)
      \<and> (\<forall>e \<in> set (bc_entries (se_payload bundle)). sealed H e \<and> 0 \<le> ae_seq e \<and>
          (\<exists>p. map_of (bc_inclusionProofs (se_payload bundle)) (ae_seq e) = Some p
             \<and> vr_valid (verifyInclusion H p (Buf (of_hex (ae_entryHash e))) (bc_logRoot (se_payload bundle)))))
      \<and> sorted_wrt (<) (map ae_seq (bc_entries (se_payload bundle)))
      \<and> manifestDigest H (bc_manifest (se_payload bundle)) = Inr (bd_manifestDigest (se_payload bundle))
      \<and> (\<exists>ms. kept_ms (se_payload bundle) = Some ms \<and> 183 * DAY \<le> ms))"
  using verifyBundle_valid_iff [OF assms] verifyBundle_failures [OF assms]
  by (auto simp: verifyEntrySlice_iff inclusion_failures_Nil MINIMUM_RETENTION_DAYS_def)

theorem verifyBundle_means_witness:
  "\<exists>b r. createBundle sha256 echo_keys 0 bundle_in = Inr b \<and> verifyBundle sha256 echo_api b ''pem'' = Inr r
    \<and> (bv_valid r \<longleftrightarrow> bv_failures r = [])"
proof -
  obtain b where b: "createBundle sha256 echo_keys 0 bundle_in = Inr b" using bundle_in_created by blast
  obtain r where "verifyBundle sha256 echo_api b ''pem'' = Inr r"
  proof -
    have "\<exists>r. verifyBundle sha256 echo_api b (ks_publicKeyPem echo_keys) = Inr r \<and> bv_valid r \<and> bv_failures r = []"
      by (rule sha.bundle_of_log_verifies [OF log_1_inv log_1_size, where P = "\<lambda>_. True"])
        (use b proofs_1 echo_pair in \<open>auto simp: bundle_in_def valid_instant_def DAY_def\<close>)
    then show thesis using that by (auto simp: echo_keys_def)
  qed
  with b verifyBundle_means [OF this] show ?thesis by blast
qed

section \<open>Retention\<close>

text \<open>The longest floor governs: the period that is resolved is at least the minimum of every
  rule that applies, is the minimum of one of them, the governing one, and stays within
  every ceiling.\<close>

theorem retention_floor_governs:
  assumes "resolve_rules applied from_t = Inr rt" "applied \<noteq> []" "\<forall>r \<in> set applied. ru_minimumDays r \<noteq> None"
  shows "\<exists>d. rt_retainForDays rt = Some d \<and> rt_retainUntil rt = Some (from_t + d * DAY_MS)
    \<and> (\<forall>r \<in> set applied. the (ru_minimumDays r) \<le> d)
    \<and> (\<exists>r \<in> set applied. ru_minimumDays r = Some d \<and> rt_governingRule rt = ru_id r)
    \<and> (\<forall>r \<in> set applied. \<forall>c. ru_maximumDays r = Some c \<longrightarrow>
        d \<le> c \<and> (\<exists>c'. rt_deleteByDays rt = Some c' \<and> c' \<le> c))"
  using assms by (rule resolve_rules_floor)

definition two_rules :: "retention_rule list" where
  "two_rules = [\<lparr>ru_id = Some ''a'', ru_basis = None, ru_minimumDays = Some 183, ru_maximumDays = None\<rparr>,
     \<lparr>ru_id = Some ''b'', ru_basis = None, ru_minimumDays = Some 2191, ru_maximumDays = Some 3000\<rparr>]"

theorem retention_floor_governs_witness:
  "\<exists>rt. resolve_rules two_rules 0 = Inr rt \<and> rt_retainForDays rt = Some 2191"
proof -
  obtain rt where rt: "resolve_rules two_rules 0 = Inr rt" "rt_retainForDays rt = Some 2191"
    by (auto simp: two_rules_def resolve_rules_def Let_def List.map_filter_simps)
  from retention_floor_governs [OF rt(1)] rt show ?thesis by (auto simp: two_rules_def)
qed

text \<open>Rules conflict, and resolving them fails, exactly when some ceiling lies below some floor.\<close>

theorem retention_conflict:
  assumes "applied \<noteq> []" "\<forall>r \<in> set applied. ru_minimumDays r \<noteq> None"
  shows "isOk (resolve_rules applied from_t) \<longleftrightarrow>
    (\<forall>r \<in> set applied. \<forall>q \<in> set applied. \<forall>c. ru_maximumDays q = Some c \<longrightarrow> the (ru_minimumDays r) \<le> c)"
  using assms by (rule resolve_rules_conflict)

theorem retention_conflict_witness: "isOk (resolve_rules two_rules 0)"
  using retention_conflict [of two_rules 0] by (simp add: two_rules_def)

text \<open>Expiry is a partition that keeps the order: what is inside its period is retained, what is
  past both its floor and its ceiling is due, the rest is eligible; nothing retained is
  ever due, and with time evidence only leaves retention and only becomes due.\<close>

theorem expiry_partition:
  "planExpiry cs now =
    \<lparr>ep_due = filter (\<lambda>c. \<not> is_retained now c \<and> past_ceiling now c) cs,
     ep_eligible = filter (\<lambda>c. \<not> is_retained now c \<and> \<not> past_ceiling now c) cs,
     ep_retained = filter (is_retained now) cs\<rparr>
   \<and> (0 \<le> d \<longrightarrow> set (ep_retained (planExpiry cs (now + d))) \<subseteq> set (ep_retained (planExpiry cs now))
        \<and> set (ep_due (planExpiry cs now)) \<subseteq> set (ep_due (planExpiry cs (now + d))))"
  using planExpiry_filter retained_antimono [of now "now + d" cs] due_mono [of now "now + d" cs] by auto

definition expired_one :: "expiry_candidate list" where
  "expired_one = [\<lparr>ec_bundleId = ''b'', ec_retainUntil = 1, ec_deleteBy = Some 2\<rparr>]"

theorem expiry_partition_witness:
  "set (ep_due (planExpiry expired_one 2)) \<subseteq> set (ep_due (planExpiry expired_one 5))"
proof -
  have "(0::int) \<le> 3" by simp
  then have "set (ep_due (planExpiry expired_one 2)) \<subseteq> set (ep_due (planExpiry expired_one (2 + 3)))"
    using expiry_partition [of expired_one 2 3] by blast
  then show ?thesis by simp
qed

end
