(* ===== verification/Js.thy ===== *)
theory Js
  imports Audit_Log
begin

text \<open>
  Pieces of the JavaScript standard library the stores and services use beyond the prelude:
  \<open>Array.prototype.slice\<close>, \<open>parseInt\<close>, substring search, \<open>split\<close>, and the tests that
  regular expressions of the source amount to. Text is one byte per character, so the
  Unicode white space of \<open>trim\<close> and \<open>\s\<close> beyond ASCII is not white space here.
\<close>

section \<open>Arrays\<close>

definition slice_index :: "nat \<Rightarrow> int \<Rightarrow> nat" where
  "slice_index n i = (if i < 0 then nat (int n + i) else min (nat i) n)"

definition js_slice :: "'a list \<Rightarrow> int \<Rightarrow> int \<Rightarrow> 'a list" where
  "js_slice xs s e = (let a = slice_index (length xs) s; b = slice_index (length xs) e
     in take (b - a) (drop a xs))"

lemma js_slice_nonneg:
  "0 \<le> s \<Longrightarrow> 0 \<le> k \<Longrightarrow> js_slice xs s (s + k) = take (nat k) (drop (nat s) xs)"
  by (cases "nat s \<le> length xs")
     (auto simp: js_slice_def slice_index_def Let_def min_def nat_add_distrib intro: take_equalityI)

lemma set_js_slice: "x \<in> set (js_slice xs s e) \<Longrightarrow> x \<in> set xs"
  by (auto simp: js_slice_def Let_def dest: in_set_takeD in_set_dropD)

section \<open>Numbers from text\<close>

text \<open>\<open>parseInt(s, 10)\<close>: the longest prefix that is a decimal integer; \<open>None\<close> is \<open>NaN\<close>.\<close>

definition parse_int :: "string \<Rightarrow> int option" where
  "parse_int s =
     (let t = dropWhile is_space s;
          neg = (t \<noteq> [] \<and> hd t = CHR ''-'');
          u = (if t \<noteq> [] \<and> (hd t = CHR ''-'' \<or> hd t = CHR ''+'') then tl t else t);
          ds = takeWhile is_digit u
      in if ds = [] then None
         else Some (if neg then - int (read_nat 0 ds) else int (read_nat 0 ds)))"

lemma is_digit_not_sign: "is_digit c \<Longrightarrow> \<not> is_space c \<and> c \<noteq> CHR ''-'' \<and> c \<noteq> CHR ''+''"
  by (auto simp: is_digit_def is_space_def)

lemma parse_show_nat [simp]: "parse_int (show_nat n) = Some (int n)"
proof -
  obtain c cs where s: "show_nat n = c # cs" by (cases "show_nat n") auto
  have d: "\<And>x. x \<in> set (show_nat n) \<Longrightarrow> is_digit x" by (rule show_nat_digits)
  then have c: "is_digit c" using s by simp
  have "takeWhile is_digit (show_nat n) = show_nat n" using d by (simp add: takeWhile_eq_all_conv)
  moreover have "dropWhile is_space (show_nat n) = show_nat n"
    using is_digit_not_sign [OF c] by (simp add: s)
  ultimately show ?thesis
    using is_digit_not_sign [OF c] read_show_nat_acc [of n] by (simp add: parse_int_def Let_def s)
qed

lemma parse_show_int: "0 \<le> i \<Longrightarrow> parse_int (show_int i) = Some i"
  by (simp add: show_int_def)

lemma show_int_not_Nil [simp]: "show_int i \<noteq> []"
  by (simp add: show_int_def)

section \<open>Text\<close>

definition to_lower :: "char \<Rightarrow> char" where
  "to_lower c = (if 65 \<le> (of_char c :: nat) \<and> (of_char c :: nat) \<le> 90
     then char_of ((of_char c :: nat) + 32) else c)"

text \<open>Whether a test holds of some suffix: an unanchored regular expression.\<close>

fun some_suffix :: "(string \<Rightarrow> bool) \<Rightarrow> string \<Rightarrow> bool" where
  "some_suffix P [] = P []"
| "some_suffix P (c # cs) = (P (c # cs) \<or> some_suffix P cs)"

lemma some_suffix_iff: "some_suffix P s \<longleftrightarrow> (\<exists>a b. s = a @ b \<and> P b)"
proof (induction s)
  case (Cons c cs)
  show ?case unfolding some_suffix.simps Cons.IH
    by (metis append_Cons append_Nil list.exhaust list.inject)
qed simp

definition includes_str :: "string \<Rightarrow> string \<Rightarrow> bool" where
  "includes_str s t = some_suffix (starts_with t) s"

lemma starts_with_iff: "starts_with p s \<longleftrightarrow> (\<exists>r. s = p @ r)"
  by (metis append_eq_conv_conj append_take_drop_id starts_with_def)

lemma includes_str_iff: "includes_str s t \<longleftrightarrow> (\<exists>a b. s = a @ t @ b)"
  by (auto simp: includes_str_def some_suffix_iff starts_with_iff)

definition ends_with :: "string \<Rightarrow> string \<Rightarrow> bool" where
  "ends_with p s = (length p \<le> length s \<and> drop (length s - length p) s = p)"

text \<open>\<open>s.split(c)\<close> for a one-character separator.\<close>

fun split_on :: "char \<Rightarrow> string \<Rightarrow> string list" where
  "split_on c [] = [[]]"
| "split_on c (x # xs) = (if x = c then [] # split_on c xs
     else case split_on c xs of [] \<Rightarrow> [[x]] | w # ws \<Rightarrow> (x # w) # ws)"

lemma split_on_not_Nil [simp]: "split_on c s \<noteq> []"
  by (induction s) (auto split: list.splits)

lemma join_split_on: "join [c] (split_on c s) = s"
proof (induction s)
  case (Cons x xs)
  obtain w ws where "split_on c xs = w # ws" by (cases "split_on c xs") auto
  with Cons show ?case by (cases ws) auto
qed simp

lemma split_on_no_sep: "w \<in> set (split_on c s) \<Longrightarrow> c \<notin> set w"
proof (induction s arbitrary: w)
  case (Cons x xs)
  then show ?case by (cases "split_on c xs") (auto split: if_splits)
qed simp

definition quoted :: "string \<Rightarrow> string" where
  "quoted s = [CHR 0x22] @ s @ [CHR 0x22]"

section \<open>Optional text\<close>

text \<open>JavaScript truthiness of an optional string: absent and empty are both falsy.\<close>

definition given :: "string option \<Rightarrow> string option" where
  "given s = (case s of None \<Rightarrow> None | Some x \<Rightarrow> (if x = [] then None else Some x))"

lemma given_simps [simp]: "given None = None" "given (Some []) = None"
  "x \<noteq> [] \<Longrightarrow> given (Some x) = Some x"
  by (auto simp: given_def)

end
