(* ===== verification/System_Capabilities.thy ===== *)
theory System_Capabilities
  imports Js
begin

text \<open>
  \<open>system/probe.ts\<close> and \<open>system/capabilities.ts\<close>: probe results, the interpretation of a
  command's output, the recognition of a DGX Spark, the assembled capability report and the
  environment record that evidence carries. Running a command and reading a file are the
  host's: their results are arguments.
\<close>

section \<open>Probes\<close>

datatype 'a probe = POk 'a | PUnavailable string | PUnknown string

fun valueOf :: "'a probe \<Rightarrow> 'a option" where
  "valueOf (POk v) = Some v"
| "valueOf (PUnavailable _) = None"
| "valueOf (PUnknown _) = None"

record command_result =
  cr_stdout :: string
  cr_stderr :: string
  cr_code :: int

text \<open>\<open>run\<close> resolves to an error for a command that could not run, else to its output.\<close>

type_synonym run_result = "string + command_result"

definition firstLine :: "string \<Rightarrow> string option" where
  "firstLine stdout = given (find (\<lambda>l. 0 < length l) (map trim (split_on newline stdout)))"

text \<open>The text of a failed command: \<open>(stderr || stdout).trim().split(newline)[0]\<close>.\<close>

definition exit_detail :: "command_result \<Rightarrow> string" where
  "exit_detail r = hd (split_on newline (trim (if cr_stderr r \<noteq> [] then cr_stderr r else cr_stdout r)))"

definition exited :: "string \<Rightarrow> command_result \<Rightarrow> string" where
  "exited command r = command @ '' exited '' @ show_int (cr_code r)
     @ (if exit_detail r \<noteq> [] then '': '' @ exit_detail r else [])"

definition probeCommand :: "string \<Rightarrow> (string \<Rightarrow> 'a option) \<Rightarrow> run_result \<Rightarrow> 'a probe" where
  "probeCommand command parse result = (case result of
     Inl err \<Rightarrow> PUnavailable err
   | Inr r \<Rightarrow>
       if cr_code r \<noteq> 0 then PUnavailable (exited command r)
       else case parse (cr_stdout r) of
         None \<Rightarrow> PUnknown (command @ '' produced output this build does not recognise'')
       | Some v \<Rightarrow> POk v)"

section \<open>GPUs\<close>

record gpu_info =
  gi_name :: string
  gi_computeCapability :: "string option"
  gi_memoryTotalMiB :: "jsnum option"
  gi_driverVersion :: "string option"

definition finite_num :: "jsnum \<Rightarrow> bool" where
  "finite_num x = (case x of NaN \<Rightarrow> False | Infinity _ \<Rightarrow> False | _ \<Rightarrow> True)"

text \<open>A field of a comma-separated row that may be absent, empty or \<open>[N/A]\<close>.\<close>

definition row_field :: "string list \<Rightarrow> nat \<Rightarrow> string option" where
  "row_field parts i = (if i < length parts \<and> parts ! i \<noteq> [] \<and> parts ! i \<noteq> ''[N/A]''
     then Some (parts ! i) else None)"

text \<open>
  One row of \<open>nvidia-smi --query-gpu\<close>; \<open>None\<close> is a row that is skipped. \<open>num\<close> is
  \<open>Number\<close> applied to the text of a field, \<open>None\<close> for a field that is not there.
\<close>

definition gpu_row :: "(string option \<Rightarrow> jsnum) \<Rightarrow> string \<Rightarrow> gpu_info option" where
  "gpu_row num line =
     (let trimmed = trim line; parts = map trim (split_on (CHR '','') trimmed) in
      if trimmed = [] \<or> hd parts = [] then None
      else
        let memory = num (if 2 < length parts then Some (parts ! 2) else None) in
        Some \<lparr>gi_name = hd parts, gi_computeCapability = row_field parts 1,
          gi_memoryTotalMiB = (if finite_num memory then Some memory else None),
          gi_driverVersion = row_field parts 3\<rparr>)"

definition probeGpus :: "(string option \<Rightarrow> jsnum) \<Rightarrow> run_result \<Rightarrow> gpu_info list probe" where
  "probeGpus num result = (case result of
     Inl err \<Rightarrow> PUnavailable err
   | Inr r \<Rightarrow>
       if cr_code r \<noteq> 0 then PUnavailable (exited ''nvidia-smi'' r)
       else
         let gpus = List.map_filter (gpu_row num) (split_on newline (cr_stdout r)) in
         if gpus = [] then PUnavailable ''nvidia-smi reported no GPUs'' else POk gpus)"

record gpu_telemetry =
  gt_utilizationPercent :: "jsnum option"
  gt_memoryUsedMiB :: "jsnum option"
  gt_temperatureCelsius :: "jsnum option"
  gt_powerDrawWatts :: "jsnum option"

definition telemetry_row :: "(string option \<Rightarrow> jsnum) \<Rightarrow> string \<Rightarrow> gpu_telemetry option" where
  "telemetry_row num line =
     (let trimmed = trim line; parts = map trim (split_on (CHR '','') trimmed);
          cell = (\<lambda>i. let n = num (if i < length parts then Some (parts ! i) else None)
                      in if finite_num n then Some n else None)
      in if trimmed = [] then None
         else Some \<lparr>gt_utilizationPercent = cell 0, gt_memoryUsedMiB = cell 1,
           gt_temperatureCelsius = cell 2, gt_powerDrawWatts = cell 3\<rparr>)"

definition probeGpuTelemetry :: "(string option \<Rightarrow> jsnum) \<Rightarrow> run_result \<Rightarrow> gpu_telemetry list probe" where
  "probeGpuTelemetry num result = (case result of
     Inl err \<Rightarrow> PUnavailable err
   | Inr r \<Rightarrow>
       if cr_code r \<noteq> 0 then PUnavailable (''nvidia-smi exited '' @ show_int (cr_code r))
       else
         let rows = List.map_filter (telemetry_row num) (split_on newline (cr_stdout r)) in
         if rows \<noteq> [] then POk rows else PUnavailable ''nvidia-smi reported no GPUs'')"

section \<open>Identity of the machine\<close>

datatype deployment_target = TLocal | TDocker | TDgxSpark | TServer | TUnknown

record spark_identity =
  si_detected :: bool
  si_evidence :: "string list"
  si_target :: deployment_target

definition gb10 :: "string \<Rightarrow> bool" where
  "gb10 s = some_suffix (\<lambda>r. let l = map to_lower r in
     starts_with ''gb10'' l \<or> starts_with ''gb'' l \<and> 2 < length l
       \<and> is_space (l ! 2) \<and> starts_with ''10'' (drop 3 l)) s"

definition grace_blackwell :: "string \<Rightarrow> bool" where
  "grace_blackwell s = some_suffix (\<lambda>r. let l = map to_lower r in
     starts_with ''grace'' l \<and> starts_with ''blackwell'' (dropWhile is_space (drop 5 l))) s"

definition dgx_name :: "string \<Rightarrow> bool" where
  "dgx_name s = includes_str (map to_lower s) ''dgx''"

definition identifyDgxSpark ::
    "bool \<Rightarrow> bool \<Rightarrow> gpu_info list option \<Rightarrow> string option \<Rightarrow> spark_identity" where
  "identifyDgxSpark isArm64 isLinux gpus osName =
     (let gpuNames = join '' '' (map gi_name (case gpus of None \<Rightarrow> [] | Some gs \<Rightarrow> gs));
          looksGb10 = gb10 gpuNames;
          looksGraceBlackwell = grace_blackwell gpuNames;
          osLooksDgx = dgx_name (case osName of None \<Rightarrow> [] | Some n \<Rightarrow> n);
          seen =
            (if isArm64 then [''architecture is arm64''] else [])
            @ (if isLinux then [''platform is linux''] else [])
            @ (if looksGb10 then [''GPU name matches GB10: '' @ quoted gpuNames]
               else if looksGraceBlackwell then [''GPU name matches Grace Blackwell: '' @ quoted gpuNames]
               else [])
            @ (if osLooksDgx then [''OS identifies as DGX: ''
                 @ quoted (case osName of None \<Rightarrow> ''undefined'' | Some n \<Rightarrow> n)] else []);
          detected = isArm64 \<and> isLinux \<and> (looksGb10 \<or> looksGraceBlackwell \<and> osLooksDgx)
      in \<lparr>si_detected = detected,
          si_evidence = (if detected then seen
            else if \<not> isArm64 then seen @ [''not arm64, so not a DGX Spark'']
            else if \<not> isLinux then seen @ [''not linux, so not a DGX Spark'']
            else seen @ [''no GB10 or Grace Blackwell GPU reported'']),
          si_target = (if detected then TDgxSpark else if isLinux then TServer else TLocal)\<rparr>)"

section \<open>The report\<close>

record system_capabilities =
  sc_platform :: string
  sc_architecture :: string
  sc_isArm64 :: bool
  sc_kernel :: string
  sc_cpuModel :: "string option"
  sc_cpuCores :: nat
  sc_totalBytes :: int
  sc_freeBytes :: int
  sc_unified :: "bool probe"
  sc_gpu :: "gpu_info list probe"
  sc_cuda :: "string probe"
  sc_driver :: "string probe"
  sc_docker :: "string probe"
  sc_nvidiaContainerRuntime :: "bool probe"
  sc_os :: "string probe"
  sc_dgxSpark :: spark_identity
  sc_detectedAt :: string

text \<open>What \<open>node:os\<close> reports of the host.\<close>

record host =
  h_arch :: string
  h_platform :: string
  h_cpuModels :: "string list"
  h_totalmem :: int
  h_freemem :: int

text \<open>\<open>detectCapabilities\<close> after its probes have resolved.\<close>

definition detectCapabilities ::
    "host \<Rightarrow> gpu_info list probe \<Rightarrow> string probe \<Rightarrow> string probe \<Rightarrow> bool probe \<Rightarrow> string probe
      \<Rightarrow> string \<Rightarrow> bool \<Rightarrow> instant \<Rightarrow> system_capabilities" where
  "detectCapabilities h gpu cuda docker nvidiaRuntime os kernelRelease containerised now =
     (let isArm64 = (h_arch h = ''arm64'');
          isLinux = (h_platform h = ''linux'');
          gpus = valueOf gpu;
          identity = identifyDgxSpark isArm64 isLinux gpus (valueOf os);
          driverVersion = (case gpus of None \<Rightarrow> None
            | Some gs \<Rightarrow> (case find (\<lambda>g. given (gi_driverVersion g) \<noteq> None) gs of
                None \<Rightarrow> None | Some g \<Rightarrow> gi_driverVersion g))
      in \<lparr>sc_platform = h_platform h, sc_architecture = h_arch h, sc_isArm64 = isArm64,
          sc_kernel = kernelRelease,
          sc_cpuModel = (case h_cpuModels h of [] \<Rightarrow> None
            | m # _ \<Rightarrow> (if m \<noteq> [] then Some (trim m) else None)),
          sc_cpuCores = length (h_cpuModels h),
          sc_totalBytes = h_totalmem h, sc_freeBytes = h_freemem h,
          sc_unified = (if si_detected identity then POk True
            else PUnknown ''unified memory is only asserted on a recognised GB10 system''),
          sc_gpu = gpu, sc_cuda = cuda,
          sc_driver = (case given driverVersion of Some v \<Rightarrow> POk v
            | None \<Rightarrow> PUnavailable ''no driver version reported by nvidia-smi''),
          sc_docker = docker, sc_nvidiaContainerRuntime = nvidiaRuntime, sc_os = os,
          sc_dgxSpark = identity\<lparr>si_target :=
            (if containerised \<and> si_target identity \<noteq> TDgxSpark then TDocker else si_target identity)\<rparr>,
          sc_detectedAt = toISOString now\<rparr>)"

record env_record =
  er_platform :: string
  er_architecture :: string
  er_kernel :: string
  er_os :: "string option"
  er_cpuModel :: "string option"
  er_cpuCores :: nat
  er_memoryTotalBytes :: int
  er_gpuName :: "string option"
  er_gpuComputeCapability :: "string option"
  er_gpuCount :: "nat option"
  er_cudaVersion :: "string option"
  er_driverVersion :: "string option"
  er_deploymentTarget :: deployment_target
  er_dgxSpark :: bool

definition toEnvironmentRecord :: "system_capabilities \<Rightarrow> env_record" where
  "toEnvironmentRecord caps =
     (let gpus = valueOf (sc_gpu caps);
          first = (case gpus of None \<Rightarrow> None | Some [] \<Rightarrow> None | Some (g # _) \<Rightarrow> Some g)
      in \<lparr>er_platform = sc_platform caps, er_architecture = sc_architecture caps,
          er_kernel = sc_kernel caps,
          er_os = given (valueOf (sc_os caps)),
          er_cpuModel = given (sc_cpuModel caps),
          er_cpuCores = sc_cpuCores caps, er_memoryTotalBytes = sc_totalBytes caps,
          er_gpuName = (case first of None \<Rightarrow> None | Some g \<Rightarrow> given (Some (gi_name g))),
          er_gpuComputeCapability = (case first of None \<Rightarrow> None
            | Some g \<Rightarrow> given (gi_computeCapability g)),
          er_gpuCount = map_option length gpus,
          er_cudaVersion = given (valueOf (sc_cuda caps)),
          er_driverVersion = given (valueOf (sc_driver caps)),
          er_deploymentTarget = si_target (sc_dgxSpark caps),
          er_dgxSpark = si_detected (sc_dgxSpark caps)\<rparr>)"

section \<open>What a report asserts\<close>

lemma probeCommand_ok_iff:
  "probeCommand c parse result = POk v \<longleftrightarrow>
    (\<exists>r. result = Inr r \<and> cr_code r = 0 \<and> parse (cr_stdout r) = Some v)"
  by (auto simp: probeCommand_def split: sum.splits option.splits)

lemma firstLine_Some: "firstLine s = Some l \<Longrightarrow>
    l \<noteq> [] \<and> (\<exists>w \<in> set (split_on newline s). l = trim w)"
  by (auto simp: firstLine_def given_def find_Some_iff split: option.splits if_splits)

lemma gpu_row_named: "gpu_row num l = Some g \<Longrightarrow> gi_name g \<noteq> []"
  by (auto simp: gpu_row_def Let_def split: if_splits)

lemma set_map_filter: "set (List.map_filter f xs) = {y. \<exists>x \<in> set xs. f x = Some y}"
  by (force simp: map_filter_def)

lemma probeGpus_named: "probeGpus num r = POk gs \<Longrightarrow> gs \<noteq> [] \<and> (\<forall>g \<in> set gs. gi_name g \<noteq> [])"
  by (auto simp: probeGpus_def Let_def set_map_filter gpu_row_named split: sum.splits if_splits)

lemma valueOf_Some: "valueOf p = Some v \<longleftrightarrow> p = POk v"
  by (cases p) auto

lemma given_Some: "given s = Some x \<longleftrightarrow> s = Some x \<and> x \<noteq> []"
  by (cases s) (auto simp: given_def)

lemma identifyDgxSpark_detected: "si_detected (identifyDgxSpark a l gs os) \<longleftrightarrow>
    a \<and> l \<and> (let names = join '' '' (map gi_name (case gs of None \<Rightarrow> [] | Some g \<Rightarrow> g)) in
      gb10 names \<or> grace_blackwell names \<and> dgx_name (case os of None \<Rightarrow> [] | Some n \<Rightarrow> n))"
  by (simp add: identifyDgxSpark_def Let_def)

lemma identifyDgxSpark_target: "si_target (identifyDgxSpark a l gs os) = TDgxSpark \<longleftrightarrow>
    si_detected (identifyDgxSpark a l gs os)"
  by (simp add: identifyDgxSpark_def Let_def)

end
