(* ===== verification/Stores.thy ===== *)
theory Stores
  imports System_Capabilities
begin

text \<open>
  \<open>store/index.ts\<close>: the storage seam. Pagination, the audit store over the log, and the
  in-memory stores of runs, approvals and bundles. Every store is a JavaScript \<open>Map\<close> from
  ids to records; a record carries its tenant, and a read by another tenant finds nothing.
  Each method is one step: none of them awaits between reading and writing its map.
\<close>

section \<open>Callers and pages\<close>

record tenant_ctx =
  tc_tenantId :: string
  tc_actor :: string
  tc_scopes :: "string list"

record audit_query =
  aq_actor :: "string option"
  aq_action :: "string option"
  aq_subject :: "string option"
  aq_from :: "instant option"
  aq_to :: "instant option"
  aq_cursor :: "string option"
  aq_limit :: int

record 'a page =
  items :: "'a list"
  nextCursor :: "string option"

text \<open>A cursor that is not a number starts at \<open>NaN\<close>: an empty page, and no next cursor.\<close>

definition paginate :: "'a list \<Rightarrow> string option \<Rightarrow> int \<Rightarrow> 'a page" where
  "paginate xs cursor limit =
     (case (case given cursor of Some c \<Rightarrow> parse_int c | None \<Rightarrow> Some 0) of
        None \<Rightarrow> \<lparr>items = [], nextCursor = None\<rparr>
      | Some start \<Rightarrow>
          let slice = js_slice xs start (start + limit); next = start + limit in
          \<lparr>items = slice,
           nextCursor = (if next < int (length xs) then Some (show_int next) else None)\<rparr>)"

section \<open>The audit store\<close>

record store_event =
  sx_action :: string
  sx_subject :: "string option"
  sx_payload :: "(string \<times> jsval) list option"
  sx_recordedAt :: "instant option"

text \<open>\<open>{ ...event, tenantId: ctx.tenantId, actor: ctx.actor }\<close>.\<close>

definition audit_append ::
    "(bytes \<Rightarrow> bytes) \<Rightarrow> instant \<Rightarrow> tenant_ctx \<Rightarrow> store_event \<Rightarrow> audit_log
      \<Rightarrow> (string + audit_entry) \<times> audit_log" where
  "audit_append H now ctx e l = log_append H now l
     \<lparr>ev_action = sx_action e, ev_actor = tc_actor ctx, ev_tenantId = tc_tenantId ctx,
      ev_subject = sx_subject e, ev_payload = sx_payload e, ev_recordedAt = sx_recordedAt e\<rparr>"

text \<open>A filter that is applied only when it is given.\<close>

definition filter_opt :: "'k option \<Rightarrow> ('k \<Rightarrow> 'a \<Rightarrow> bool) \<Rightarrow> 'a list \<Rightarrow> 'a list" where
  "filter_opt k P xs = (case k of None \<Rightarrow> xs | Some v \<Rightarrow> filter (P v) xs)"

definition recorded_cmp :: "(instant \<Rightarrow> instant \<Rightarrow> bool) \<Rightarrow> instant \<Rightarrow> audit_entry \<Rightarrow> bool" where
  "recorded_cmp cmp t e = (case date_parse (ae_recordedAt e) of None \<Rightarrow> False | Some r \<Rightarrow> cmp r t)"

definition audit_query_items :: "audit_log \<Rightarrow> tenant_ctx \<Rightarrow> audit_query \<Rightarrow> audit_entry list" where
  "audit_query_items l ctx q =
     filter_opt (aq_to q) (recorded_cmp (\<le>))
      (filter_opt (aq_from q) (recorded_cmp (\<ge>))
       (filter_opt (given (aq_subject q)) (\<lambda>s e. ae_subject e = Some s)
        (filter_opt (given (aq_action q)) (\<lambda>a e. ae_action e = a)
         (filter_opt (given (aq_actor q)) (\<lambda>a e. ae_actor e = a)
          (forTenant l (tc_tenantId ctx))))))"

definition audit_query_page :: "audit_log \<Rightarrow> tenant_ctx \<Rightarrow> audit_query \<Rightarrow> audit_entry page" where
  "audit_query_page l ctx q = paginate (audit_query_items l ctx q) (aq_cursor q) (aq_limit q)"

definition audit_at :: "audit_log \<Rightarrow> tenant_ctx \<Rightarrow> int \<Rightarrow> string + audit_entry option" where
  "audit_at l ctx seq =
     (if seq < 0 \<or> int (log_size l) \<le> seq then Inr None
      else bindE (log_at l seq) (\<lambda>entry.
        Inr (if ae_tenantId entry = tc_tenantId ctx then Some entry else None)))"

definition audit_root :: "(bytes \<Rightarrow> bytes) \<Rightarrow> audit_log \<Rightarrow> string \<times> nat" where
  "audit_root H l = (log_root H l, log_size l)"

definition audit_inclusionProof :: "(bytes \<Rightarrow> bytes) \<Rightarrow> audit_log \<Rightarrow> int \<Rightarrow> string + inclusion_proof" where
  "audit_inclusionProof H l seq = log_inclusionProof H l seq"

definition audit_consistencyProof ::
    "(bytes \<Rightarrow> bytes) \<Rightarrow> audit_log \<Rightarrow> int \<Rightarrow> string + consistency_proof" where
  "audit_consistencyProof H l fromSize = log_consistencyProof H l fromSize"

definition entriesForSubject :: "audit_log \<Rightarrow> tenant_ctx \<Rightarrow> string \<Rightarrow> audit_entry list" where
  "entriesForSubject l ctx subject =
     filter (\<lambda>e. ae_subject e = Some subject) (forTenant l (tc_tenantId ctx))"

record audit_verdict =
  av_valid :: bool
  av_brokenAt :: "int option"
  av_reason :: "string option"

definition audit_verify :: "(bytes \<Rightarrow> bytes) \<Rightarrow> audit_log \<Rightarrow> audit_verdict" where
  "audit_verify H l = (let r = log_verify H l in
     \<lparr>av_valid = cv_valid r, av_brokenAt = cv_brokenAt r, av_reason = given (cv_reason r)\<rparr>)"

section \<open>Runs\<close>

datatype run_status = RQueued | RRunning | RCompleted | RFailed | RCancelled

record run_record =
  rr_id :: string
  rr_tenantId :: string
  rr_status :: run_status
  rr_manifest :: "(string \<times> jsval) list"
  rr_retentionRules :: "string list"
  rr_createdAt :: instant
  rr_startedAt :: "instant option"
  rr_completedAt :: "instant option"
  rr_claimedBy :: "string option"
  rr_claimedAt :: "instant option"
  rr_failureReason :: "string option"
  rr_credentialId :: "string option"
  rr_executionEnvironment :: "env_record option"

type_synonym runs = "run_record jsmap"

definition run_create :: "tenant_ctx \<Rightarrow> run_record \<Rightarrow> runs \<Rightarrow> run_record \<times> runs" where
  "run_create ctx run s =
     (let record = run\<lparr>rr_tenantId := tc_tenantId ctx\<rparr> in (record, map_set (rr_id record) record s))"

definition run_get :: "runs \<Rightarrow> tenant_ctx \<Rightarrow> string \<Rightarrow> run_record option" where
  "run_get s ctx rid = (case map_get s rid of
     Some r \<Rightarrow> if rr_tenantId r = tc_tenantId ctx then Some r else None
   | None \<Rightarrow> None)"

definition run_list :: "runs \<Rightarrow> tenant_ctx \<Rightarrow> string option \<Rightarrow> int \<Rightarrow> run_record page" where
  "run_list s ctx cursor limit =
     paginate (sort_desc rr_createdAt (filter (\<lambda>r. rr_tenantId r = tc_tenantId ctx) (map_values s)))
       cursor limit"

definition run_setStatus ::
    "instant \<Rightarrow> tenant_ctx \<Rightarrow> string \<Rightarrow> run_status \<Rightarrow> runs \<Rightarrow> run_record option \<times> runs" where
  "run_setStatus now ctx rid status s = (case run_get s ctx rid of
     None \<Rightarrow> (None, s)
   | Some r \<Rightarrow>
       let updated = r\<lparr>rr_status := status,
             rr_completedAt := (if status = RCompleted then Some now else rr_completedAt r)\<rparr>
       in (Some updated, map_set rid updated s))"

definition run_setEnvironment :: "string \<Rightarrow> env_record \<Rightarrow> runs \<Rightarrow> runs" where
  "run_setEnvironment rid environment s = (case map_get s rid of
     None \<Rightarrow> s
   | Some r \<Rightarrow> map_set rid (r\<lparr>rr_executionEnvironment := Some environment\<rparr>) s)"

definition run_claimNext :: "instant \<Rightarrow> string \<Rightarrow> runs \<Rightarrow> run_record option \<times> runs" where
  "run_claimNext now workerId s =
     (case sort_asc rr_createdAt (filter (\<lambda>r. rr_status r = RQueued) (map_values s)) of
        [] \<Rightarrow> (None, s)
      | next # _ \<Rightarrow>
          let claimed = next\<lparr>rr_status := RRunning, rr_claimedBy := Some workerId,
                rr_claimedAt := Some now, rr_startedAt := Some now\<rparr>
          in (Some claimed, map_set (rr_id claimed) claimed s))"

text \<open>The terminal statuses \<open>finish\<close> may record.\<close>

datatype run_outcome = Completed | Failed

fun outcome_status :: "run_outcome \<Rightarrow> run_status" where
  "outcome_status Completed = RCompleted"
| "outcome_status Failed = RFailed"

definition run_finish ::
    "instant \<Rightarrow> string \<Rightarrow> run_outcome \<Rightarrow> string option \<Rightarrow> runs \<Rightarrow> run_record option \<times> runs" where
  "run_finish now rid status reason s = (case map_get s rid of
     None \<Rightarrow> (None, s)
   | Some r \<Rightarrow>
       let updated = r\<lparr>rr_status := outcome_status status, rr_completedAt := Some now,
             rr_failureReason := (case given reason of None \<Rightarrow> rr_failureReason r | Some m \<Rightarrow> Some m)\<rparr>
       in (Some updated, map_set rid updated s))"

definition run_getById :: "runs \<Rightarrow> string \<Rightarrow> run_record option" where
  "run_getById s rid = map_get s rid"

section \<open>Approvals\<close>

datatype approval_status = APending | AApproved | ARejected | AEscalated | ATimedOut

datatype on_timeout = ODeny | OAllow

record approval_record =
  ap_id :: string
  ap_tenantId :: string
  ap_runId :: string
  ap_action :: string
  ap_status :: approval_status
  ap_deadline :: instant
  ap_onTimeout :: on_timeout
  ap_trialId :: string
  ap_throughStep :: int
  ap_decidedBy :: "string option"
  ap_decidedAt :: "instant option"
  ap_rationale :: "string option"
  ap_createdAt :: instant

type_synonym approvals = "approval_record jsmap"

definition approval_create :: "tenant_ctx \<Rightarrow> approval_record \<Rightarrow> approvals \<Rightarrow> approval_record \<times> approvals" where
  "approval_create ctx a s =
     (let record = a\<lparr>ap_tenantId := tc_tenantId ctx\<rparr> in (record, map_set (ap_id record) record s))"

definition approval_get :: "approvals \<Rightarrow> tenant_ctx \<Rightarrow> string \<Rightarrow> approval_record option" where
  "approval_get s ctx rid = (case map_get s rid of
     Some a \<Rightarrow> if ap_tenantId a = tc_tenantId ctx then Some a else None
   | None \<Rightarrow> None)"

definition approval_list :: "approvals \<Rightarrow> tenant_ctx \<Rightarrow> approval_status option \<Rightarrow> approval_record list" where
  "approval_list s ctx status =
     sort_asc ap_deadline
      (filter (\<lambda>a. case status of None \<Rightarrow> True | Some st \<Rightarrow> ap_status a = st)
        (filter (\<lambda>a. ap_tenantId a = tc_tenantId ctx) (map_values s)))"

definition approval_decide ::
    "instant \<Rightarrow> tenant_ctx \<Rightarrow> string \<Rightarrow> approval_status \<Rightarrow> string \<Rightarrow> string \<Rightarrow> approvals
      \<Rightarrow> approval_record option \<times> approvals" where
  "approval_decide now ctx rid status rationale decidedBy s = (case approval_get s ctx rid of
     None \<Rightarrow> (None, s)
   | Some a \<Rightarrow>
       let updated = a\<lparr>ap_status := status, ap_rationale := Some rationale,
             ap_decidedBy := Some decidedBy, ap_decidedAt := Some now\<rparr>
       in (Some updated, map_set rid updated s))"

section \<open>Bundles\<close>

text \<open>The stored bundle is opaque to the store: a type parameter.\<close>

record 'b bundle_record =
  br_id :: string
  br_tenantId :: string
  br_runId :: string
  br_bundle :: 'b
  br_retainUntil :: instant
  br_deleteBy :: "instant option"
  br_createdAt :: instant

type_synonym 'b bundles = "'b bundle_record jsmap"

definition bundle_create :: "tenant_ctx \<Rightarrow> 'b bundle_record \<Rightarrow> 'b bundles \<Rightarrow> 'b bundle_record \<times> 'b bundles" where
  "bundle_create ctx b s =
     (let record = b\<lparr>br_tenantId := tc_tenantId ctx\<rparr> in (record, map_set (br_id record) record s))"

definition bundle_get :: "'b bundles \<Rightarrow> tenant_ctx \<Rightarrow> string \<Rightarrow> 'b bundle_record option" where
  "bundle_get s ctx rid = (case map_get s rid of
     Some b \<Rightarrow> if br_tenantId b = tc_tenantId ctx then Some b else None
   | None \<Rightarrow> None)"

definition bundle_list :: "'b bundles \<Rightarrow> tenant_ctx \<Rightarrow> 'b bundle_record list" where
  "bundle_list s ctx =
     sort_desc br_createdAt (filter (\<lambda>b. br_tenantId b = tc_tenantId ctx) (map_values s))"

end
