(* ===== verification/Store_Laws.thy ===== *)
theory Store_Laws
  imports Stores "HOL-Library.Multiset"
begin

text \<open>
  What the stores of \<open>store/index.ts\<close> promise: pages that concatenate to the list, the
  tenant contract of the three maps as a locale, interpreted for runs, approvals and bundles,
  and the queue discipline of \<open>claimNext\<close>.
\<close>

section \<open>Pages\<close>

text \<open>A client that follows \<open>nextCursor\<close>; \<open>None\<close> when the fuel runs out.\<close>

fun crawl :: "nat \<Rightarrow> 'a list \<Rightarrow> string option \<Rightarrow> int \<Rightarrow> 'a list option" where
  "crawl 0 xs cursor limit = None"
| "crawl (Suc fuel) xs cursor limit =
     (let p = paginate xs cursor limit in
      case nextCursor p of
        None \<Rightarrow> Some (items p)
      | Some c \<Rightarrow> map_option ((@) (items p)) (crawl fuel xs (Some c) limit))"

lemma paginate_at:
  assumes "0 \<le> start" "0 \<le> limit" "start = (case given cursor of None \<Rightarrow> 0 | Some c \<Rightarrow> the (parse_int c))"
    "given cursor = None \<or> (\<exists>c. given cursor = Some c \<and> parse_int c \<noteq> None)"
  shows "items (paginate xs cursor limit) = take (nat limit) (drop (nat start) xs)"
    "nextCursor (paginate xs cursor limit)
      = (if start + limit < int (length xs) then Some (show_int (start + limit)) else None)"
  using assms js_slice_nonneg [of start limit xs]
  by (auto simp: paginate_def Let_def split: option.splits)

lemma crawl_from:
  assumes "0 < limit" "length xs - start < fuel" "start \<le> length xs"
    "cursor = Some (show_int (int start)) \<or> cursor = None \<and> start = 0"
  shows "crawl fuel xs cursor limit = Some (drop start xs)"
  using assms
proof (induction fuel arbitrary: start cursor)
  case 0
  then show ?case by simp
next
  case (Suc fuel)
  have p: "items (paginate xs cursor limit) = take (nat limit) (drop start xs)"
    "nextCursor (paginate xs cursor limit)
      = (if int start + limit < int (length xs) then Some (show_int (int start + limit)) else None)"
    using paginate_at [of "int start" limit cursor xs] Suc.prems
    by (auto simp: parse_show_int)
  show ?case
  proof (cases "int start + limit < int (length xs)")
    case True
    let ?s = "start + nat limit"
    have s: "int start + limit = int ?s" using Suc.prems(1) by simp
    have "length xs - ?s < fuel" "?s \<le> length xs" using True Suc.prems by linarith+
    then have "crawl fuel xs (Some (show_int (int start + limit))) limit = Some (drop ?s xs)"
      using Suc.IH [of ?s "Some (show_int (int ?s))"] Suc.prems(1) unfolding s by simp
    then show ?thesis using True p
      by (simp add: Let_def) (metis add.commute append_take_drop_id drop_drop)
  next
    case False
    then have "length xs - start \<le> nat limit" by linarith
    with False p show ?thesis by (simp add: Let_def)
  qed
qed

section \<open>The audit store\<close>

lemma set_filter_opt: "x \<in> set (filter_opt k P xs) \<longleftrightarrow> x \<in> set xs \<and> (\<forall>v. k = Some v \<longrightarrow> P v x)"
  by (cases k) (auto simp: filter_opt_def)

lemma audit_query_items_iff: "e \<in> set (audit_query_items l ctx q) \<longleftrightarrow>
    e \<in> set (al_entries l) \<and> ae_tenantId e = tc_tenantId ctx
    \<and> (\<forall>a. given (aq_actor q) = Some a \<longrightarrow> ae_actor e = a)
    \<and> (\<forall>a. given (aq_action q) = Some a \<longrightarrow> ae_action e = a)
    \<and> (\<forall>s. given (aq_subject q) = Some s \<longrightarrow> ae_subject e = Some s)
    \<and> (\<forall>t. aq_from q = Some t \<longrightarrow> recorded_cmp (\<ge>) t e)
    \<and> (\<forall>t. aq_to q = Some t \<longrightarrow> recorded_cmp (\<le>) t e)"
  by (auto simp: audit_query_items_def set_filter_opt forTenant_def)

lemma filter_opt_filter: "\<exists>Q. filter_opt k P (filter R xs) = filter Q xs"
  by (cases k) (auto simp: filter_opt_def conj_commute)

lemma audit_query_is_filter: "\<exists>Q. audit_query_items l ctx q = filter Q (al_entries l)"
  unfolding audit_query_items_def forTenant_def
  by (metis filter_opt_filter)

lemma paginate_sublist: "\<exists>a b. items (paginate xs c n) = take a (drop b xs)"
proof (cases "case given c of Some c \<Rightarrow> parse_int c | None \<Rightarrow> Some 0")
  case None
  then show ?thesis by (auto simp: paginate_def intro: exI [of _ "0::nat"])
next
  case (Some s)
  then show ?thesis by (auto simp: paginate_def Let_def js_slice_def)
qed

section \<open>Maps keyed by the id of their records\<close>

definition keyed :: "('v \<Rightarrow> string) \<Rightarrow> 'v jsmap \<Rightarrow> bool" where
  "keyed f m = (wf_map m \<and> (\<forall>(k, v) \<in> set m. f v = k))"

lemma keyed_Nil [simp]: "keyed f []"
  by (simp add: keyed_def)

lemma keyed_set [intro]: "keyed f m \<Longrightarrow> f v = k \<Longrightarrow> keyed f (map_set k v m)"
  by (auto simp: keyed_def set_map_set_distinct)

lemma keyed_get: "keyed f m \<Longrightarrow> map_get m k = Some v \<Longrightarrow> f v = k"
  by (auto simp: keyed_def dest: map_of_SomeD)

lemma keyed_values: "keyed f m \<Longrightarrow> v \<in> set (map_values m) \<longleftrightarrow> map_get m (f v) = Some v"
  using map_values_set [of m v] keyed_get [of f m _ v] by (metis keyed_def)

lemma owned_values: "keyed f m \<Longrightarrow> set (filter P (map_values m)) = {r. \<exists>k. map_get m k = Some r \<and> P r}"
  using map_values_set [of m] by (auto simp del: set_map simp: keyed_def)

lemma keyed_distinct: "keyed f m \<Longrightarrow> distinct (map_values m)"
proof -
  assume k: "keyed f m"
  then have "map f (map_values m) = map fst m" by (force simp: keyed_def)
  with k have "distinct (map f (map_values m))" by (metis keyed_def wf_map_def)
  then show ?thesis by (rule distinct_map [THEN iffD1, THEN conjunct1])
qed

section \<open>The tenant contract\<close>

locale tenant_store =
  fixes create :: "tenant_ctx \<Rightarrow> 'r \<Rightarrow> 's \<Rightarrow> 'r \<times> 's"
    and get :: "'s \<Rightarrow> tenant_ctx \<Rightarrow> string \<Rightarrow> 'r option"
    and ident :: "'r \<Rightarrow> string"
    and owner :: "'r \<Rightarrow> string"
    and wf :: "'s \<Rightarrow> bool"
  assumes get_create: "get (snd (create ctx r s)) ctx' k
      = (if k = ident r
         then (if tc_tenantId ctx' = tc_tenantId ctx then Some (fst (create ctx r s)) else None)
         else get s ctx' k)"
    and owner_create: "owner (fst (create ctx r s)) = tc_tenantId ctx"
    and ident_create: "ident (fst (create ctx r s)) = ident r"
    and wf_create: "wf s \<Longrightarrow> wf (snd (create ctx r s))"
    and get_owner: "get s ctx k = Some r \<Longrightarrow> owner r = tc_tenantId ctx"
    and get_ident: "wf s \<Longrightarrow> get s ctx k = Some r \<Longrightarrow> ident r = k"
begin

definition creates :: "(tenant_ctx \<times> 'r) list \<Rightarrow> 's \<Rightarrow> 's" where
  "creates ops s = fold (\<lambda>(ctx, r) t. snd (create ctx r t)) ops s"

lemma creates_simps [simp]: "creates [] s = s"
  "creates ((ctx, r) # ops) s = creates ops (snd (create ctx r s))"
  by (simp_all add: creates_def)

lemma creates_snoc: "creates (ops @ [(ctx, r)]) s = snd (create ctx r (creates ops s))"
  by (simp add: creates_def)

lemma wf_creates: "wf s \<Longrightarrow> wf (creates ops s)"
  by (induction ops arbitrary: s) (auto simp: wf_create)

text \<open>Reads only see the last creation of their id, and only if the same tenant made it.\<close>

lemma get_creates_other:
  "\<forall>(c, r) \<in> set ops. ident r \<noteq> k \<Longrightarrow> get (creates ops s) ctx k = get s ctx k"
  by (induction ops arbitrary: s) (auto simp: get_create)

lemma get_creates_last:
  assumes "ident r = k" "\<forall>(c, r') \<in> set later. ident r' \<noteq> k"
  shows "get (creates (earlier @ (c, r) # later) s) ctx k
    = (if tc_tenantId ctx = tc_tenantId c then Some (fst (create c r (creates earlier s))) else None)"
proof -
  have "creates (earlier @ (c, r) # later) s = creates later (snd (create c r (creates earlier s)))"
    by (simp add: creates_def)
  then show ?thesis using get_creates_other [OF assms(2)] assms(1) by (simp add: get_create)
qed

text \<open>Noninterference: creations of other tenants are invisible, except that an id they
  reuse disappears from the tenant that had it.\<close>

lemma other_tenants_invisible:
  assumes "\<forall>(c, r) \<in> set ops. tc_tenantId c \<noteq> tc_tenantId ctx"
  shows "get (creates ops s) ctx k = get s ctx k
    \<or> get (creates ops s) ctx k = None \<and> (\<exists>(c, r) \<in> set ops. ident r = k)"
  using assms
proof (induction ops arbitrary: s)
  case (Cons op ops)
  obtain c r where op: "op = (c, r)" by (cases op)
  with Cons.prems have "get (snd (create c r s)) ctx k = (if k = ident r then None else get s ctx k)"
    by (auto simp: get_create)
  with Cons.IH [of "snd (create c r s)"] Cons.prems op show ?case by (auto split: if_splits)
qed simp

end

locale tenant_listing = tenant_store create get ident owner wf
  for create :: "tenant_ctx \<Rightarrow> 'r \<Rightarrow> 's \<Rightarrow> 'r \<times> 's" and get ident owner and wf :: "'s \<Rightarrow> bool" +
  fixes listing :: "'s \<Rightarrow> tenant_ctx \<Rightarrow> 'r list"
  assumes set_listing: "wf s \<Longrightarrow> set (listing s ctx) = {r. \<exists>k. get s ctx k = Some r}"
begin

lemma listing_owned: "wf s \<Longrightarrow> r \<in> set (listing s ctx) \<Longrightarrow> owner r = tc_tenantId ctx"
  by (auto simp: set_listing get_owner)

lemma listing_get: "wf s \<Longrightarrow> r \<in> set (listing s ctx) \<longleftrightarrow> get s ctx (ident r) = Some r"
  using get_ident by (auto simp: set_listing)

lemma listing_created:
  "wf s \<Longrightarrow> fst (create ctx r s) \<in> set (listing (snd (create ctx r s)) ctx)"
  by (simp add: listing_get wf_create ident_create get_create)

end

text \<open>The three stores are instances.\<close>

lemmas store_op_defs = run_create_def run_get_def approval_create_def approval_get_def
  bundle_create_def bundle_get_def

definition run_items :: "runs \<Rightarrow> tenant_ctx \<Rightarrow> run_record list" where
  "run_items s ctx = sort_desc rr_createdAt (filter (\<lambda>r. rr_tenantId r = tc_tenantId ctx) (map_values s))"

lemma run_list_items: "run_list s ctx cursor limit = paginate (run_items s ctx) cursor limit"
  by (simp add: run_list_def run_items_def)

interpretation rs: tenant_listing run_create run_get rr_id rr_tenantId "keyed rr_id" run_items
  by unfold_locales
     (auto simp: store_op_defs Let_def map_get_set run_items_def owned_values simp del: set_filter
        dest: keyed_get split: option.splits if_splits)

interpretation aps: tenant_listing approval_create approval_get ap_id ap_tenantId "keyed ap_id"
    "\<lambda>s ctx. approval_list s ctx None"
  by unfold_locales
     (auto simp: store_op_defs Let_def map_get_set approval_list_def owned_values simp del: set_filter
        dest: keyed_get split: option.splits if_splits)

interpretation bs: tenant_listing bundle_create bundle_get br_id br_tenantId "keyed br_id" bundle_list
  by unfold_locales
     (auto simp: store_op_defs Let_def map_get_set bundle_list_def owned_values simp del: set_filter
        dest: keyed_get split: option.splits if_splits)


section \<open>The queue\<close>

definition queued :: "runs \<Rightarrow> run_record list" where
  "queued s = filter (\<lambda>r. rr_status r = RQueued) (map_values s)"

definition claim_record :: "instant \<Rightarrow> string \<Rightarrow> run_record \<Rightarrow> run_record" where
  "claim_record now w r = r\<lparr>rr_status := RRunning, rr_claimedBy := Some w,
     rr_claimedAt := Some now, rr_startedAt := Some now\<rparr>"

lemma claim_record_sel [simp]: "rr_id (claim_record now w r) = rr_id r"
  "rr_status (claim_record now w r) = RRunning" "rr_tenantId (claim_record now w r) = rr_tenantId r"
  "rr_claimedBy (claim_record now w r) = Some w"
  by (simp_all add: claim_record_def)

lemma set_queued: "keyed rr_id s \<Longrightarrow> r \<in> set (queued s) \<longleftrightarrow> map_get s (rr_id r) = Some r \<and> rr_status r = RQueued"
  using owned_values [of rr_id s "\<lambda>r. rr_status r = RQueued"] keyed_get [of rr_id s]
  unfolding queued_def by auto

lemma distinct_queued: "keyed rr_id s \<Longrightarrow> distinct (queued s)"
  unfolding queued_def by (metis distinct_filter keyed_distinct)

lemma claimNext_cases:
  obtains (idle) "queued s = []" "run_claimNext now w s = (None, s)"
  | (claimed) r where "r \<in> set (queued s)" "\<forall>q \<in> set (queued s). rr_createdAt r \<le> rr_createdAt q"
      "run_claimNext now w s = (Some (claim_record now w r), map_set (rr_id r) (claim_record now w r) s)"
proof (cases "sort_asc rr_createdAt (queued s)")
  case Nil
  then have "run_claimNext now w s = (None, s)" by (simp add: run_claimNext_def queued_def)
  with Nil show ?thesis by (intro idle) (simp_all add: sort_asc_empty_iff)
next
  case (Cons r rest)
  have "r \<in> set (queued s)" using Cons by (metis list.set_intros(1) set_sort_asc)
  moreover have "\<forall>q \<in> set (queued s). rr_createdAt r \<le> rr_createdAt q"
    using hd_sort_asc_min [where f = rr_createdAt] Cons by (metis list.sel(1))
  moreover have "run_claimNext now w s = (Some (claim_record now w r), map_set (rr_id r) (claim_record now w r) s)"
    using Cons by (simp add: run_claimNext_def queued_def claim_record_def Let_def)
  ultimately show ?thesis by (rule claimed)
qed

lemma queued_set:
  assumes "keyed rr_id s" "rr_id r' = k" "rr_status r' \<noteq> RQueued"
  shows "set (queued (map_set k r' s)) = {q \<in> set (queued s). rr_id q \<noteq> k}"
proof -
  have k: "keyed rr_id (map_set k r' s)" using assms(1,2) by (rule keyed_set)
  show ?thesis
    by (rule set_eqI) (use assms(2,3) in \<open>auto simp: set_queued [OF k] set_queued [OF assms(1)] map_get_set\<close>)
qed

lemma claimNext_keyed: "keyed rr_id s \<Longrightarrow> keyed rr_id (snd (run_claimNext now w s))"
  by (cases rule: claimNext_cases [of s now w]) auto

lemma claimNext_queued:
  assumes "keyed rr_id s"
  shows "set (queued (snd (run_claimNext now w s)))
    = set (queued s) - {q. \<exists>r. fst (run_claimNext now w s) = Some r \<and> rr_id q = rr_id r}"
proof (cases rule: claimNext_cases [of s now w])
  case (claimed r)
  then show ?thesis using queued_set [OF assms, of "claim_record now w r" "rr_id r"] by auto
qed auto

text \<open>Several claims in a row, by any workers at any times.\<close>

fun claims :: "(instant \<times> string) list \<Rightarrow> runs \<Rightarrow> run_record list \<times> runs" where
  "claims [] s = ([], s)"
| "claims ((now, w) # cs) s = (case run_claimNext now w s of
     (None, t) \<Rightarrow> claims cs t
   | (Some r, t) \<Rightarrow> (case claims cs t of (rs, u) \<Rightarrow> (r # rs, u)))"

lemma claims_id_queued:
  assumes "keyed rr_id s" "x \<in> set (fst (claims cs s))"
  shows "\<exists>q \<in> set (queued s). rr_id x = rr_id q"
  using assms
proof (induction cs arbitrary: s)
  case (Cons c cs)
  obtain now w where c: "c = (now, w)" by (cases c)
  show ?case
  proof (cases rule: claimNext_cases [of s now w])
    case idle
    then show ?thesis using Cons.IH [OF Cons.prems(1)] Cons.prems(2) c by simp
  next
    case (claimed r)
    let ?t = "map_set (rr_id r) (claim_record now w r) s"
    have k: "keyed rr_id ?t" using Cons.prems(1) by auto
    have "x = claim_record now w r \<or> x \<in> set (fst (claims cs ?t))"
      using Cons.prems(2) claimed(3) c by (auto split: prod.splits)
    then show ?thesis
      using claimed(1) Cons.IH [OF k] queued_set [OF Cons.prems(1), of "claim_record now w r" "rr_id r"] by auto
  qed
qed simp

text \<open>No run is handed out twice.\<close>

lemma claims_distinct:
  assumes "keyed rr_id s"
  shows "distinct (map rr_id (fst (claims cs s)))"
  using assms
proof (induction cs arbitrary: s)
  case (Cons c cs)
  obtain now w where c: "c = (now, w)" by (cases c)
  show ?case
  proof (cases rule: claimNext_cases [of s now w])
    case idle
    then show ?thesis using Cons c by auto
  next
    case (claimed r)
    let ?t = "map_set (rr_id r) (claim_record now w r) s"
    have k: "keyed rr_id ?t" using Cons.prems by auto
    have "rr_id r \<notin> set (map rr_id (fst (claims cs ?t)))"
      using claims_id_queued [OF k] queued_set [OF Cons.prems, of "claim_record now w r" "rr_id r"] by fastforce
    then show ?thesis using claimed(3) Cons.IH [OF k] c by (auto split: prod.splits)
  qed
qed simp

text \<open>No run waits forever: those created no later than it bound the claims before its own.\<close>

definition ahead :: "runs \<Rightarrow> run_record \<Rightarrow> run_record set" where
  "ahead s q = {p \<in> set (queued s). rr_createdAt p \<le> rr_createdAt q}"

lemma claims_reach:
  assumes "keyed rr_id s" "q \<in> set (queued s)" "card (ahead s q) \<le> length cs"
  shows "rr_id q \<in> rr_id ` set (fst (claims cs s))"
  using assms
proof (induction cs arbitrary: s)
  case Nil
  then have "ahead s q = {}" by (simp add: ahead_def)
  then show ?case using Nil.prems(2) by (auto simp: ahead_def)
next
  case (Cons c cs)
  obtain now w where c: "c = (now, w)" by (cases c)
  show ?case
  proof (cases rule: claimNext_cases [of s now w])
    case idle
    then show ?thesis using Cons.prems(2) by simp
  next
    case (claimed r)
    let ?t = "map_set (rr_id r) (claim_record now w r) s"
    have k: "keyed rr_id ?t" using Cons.prems(1) by auto
    have out: "fst (claims (c # cs) s) = claim_record now w r # fst (claims cs ?t)"
      using claimed(3) c by (simp split: prod.splits)
    show ?thesis
    proof (cases "rr_id q = rr_id r")
      case True
      then show ?thesis unfolding out by simp
    next
      case False
      have Q: "set (queued ?t) = {p \<in> set (queued s). rr_id p \<noteq> rr_id r}"
        using queued_set [OF Cons.prems(1), of "claim_record now w r" "rr_id r"] by simp
      have "ahead ?t q \<subset> ahead s q"
        using claimed(1,2) Cons.prems(2) by (auto simp: ahead_def Q)
      moreover have "finite (ahead s q)" by (simp add: ahead_def)
      ultimately have "card (ahead ?t q) < card (ahead s q)" by (rule psubset_card_mono [rotated])
      then have "card (ahead ?t q) \<le> length cs" using Cons.prems(3) by simp
      moreover have "q \<in> set (queued ?t)" using False Cons.prems(2) by (simp add: Q)
      ultimately show ?thesis unfolding out using Cons.IH [OF k] by simp
    qed
  qed
qed

end
