(* ===== verification/Api_Keys.thy ===== *)
theory Api_Keys
  imports Signer Store_Laws
begin

text \<open>
  \<open>auth/api-keys.ts\<close>: scopes, the public view of a key, and the in-memory key store. The 32
  random bytes of a new secret are an argument of \<open>create\<close>; the counter behind the ids is
  part of the state. The methods do not await, so each is one step.
\<close>

section \<open>Scopes and secrets\<close>

definition KEY_PREFIX :: string where
  "KEY_PREFIX = ''ae_live_''"

definition ALL_SCOPES :: "string list" where
  "ALL_SCOPES = [''runs:read'', ''runs:write'', ''evidence:read'', ''evidence:generate'',
     ''approvals:decide'', ''audit:read'', ''splits:held-out'']"

definition CONSEQUENTIAL_SCOPES :: "string list" where
  "CONSEQUENTIAL_SCOPES = [''runs:write'', ''evidence:generate'', ''approvals:decide'', ''splits:held-out'']"

text \<open>A key as reads return it, and the stored key with the digest of its secret.\<close>

record api_key_public =
  ak_id :: string
  ak_tenantId :: string
  ak_createdBy :: string
  ak_name :: string
  ak_description :: "string option"
  ak_masked :: string
  ak_last4 :: string
  ak_scopes :: "string list"
  ak_createdAt :: instant
  ak_expiresAt :: "instant option"
  ak_revokedAt :: "instant option"
  ak_revokedBy :: "string option"
  ak_lastUsedAt :: "instant option"

record api_key = api_key_public +
  ak_hashedSecret :: string

definition key_toPublic :: "api_key \<Rightarrow> api_key_public" where
  "key_toPublic r = api_key_public.truncate r"

definition hashSecret :: "(bytes \<Rightarrow> bytes) \<Rightarrow> string \<Rightarrow> string" where
  "hashSecret H secret = to_hex (H (utf8 secret))"

definition secretMatches :: "(bytes \<Rightarrow> bytes) \<Rightarrow> string \<Rightarrow> string \<Rightarrow> bool" where
  "secretMatches H secret hashed =
     (let a = of_hex (hashSecret H secret); b = of_hex hashed in
      if length a \<noteq> length b then False else a = b)"

text \<open>\<open>base64url\<close>: base64 without padding, with \<open>-\<close> and \<open>_\<close> for the last two digits.\<close>

definition to_base64url :: "bytes \<Rightarrow> string" where
  "to_base64url bs = map (\<lambda>c. if c = CHR ''+'' then CHR ''-'' else if c = CHR ''/'' then CHR ''_'' else c)
     (filter (\<lambda>c. c \<noteq> CHR ''='') (to_base64 bs))"

definition bullets :: "nat \<Rightarrow> string" where
  "bullets n = concat (replicate n [CHR 0xE2, CHR 0x80, CHR 0xA2])"

definition last_chars :: "nat \<Rightarrow> string \<Rightarrow> string" where
  "last_chars n s = drop (length s - n) s"

record generated_secret =
  gs_secret :: string
  gs_last4 :: string
  gs_masked :: string

definition generateSecret :: "bytes \<Rightarrow> generated_secret" where
  "generateSecret random =
     (let secret = KEY_PREFIX @ to_base64url random; l4 = last_chars 4 secret in
      \<lparr>gs_secret = secret, gs_last4 = l4, gs_masked = KEY_PREFIX @ bullets 10 @ l4\<rparr>)"

text \<open>\<open>n.toString(36)\<close>.\<close>

definition digit36 :: "nat \<Rightarrow> char" where
  "digit36 d = (if d < 10 then char_of (48 + d) else char_of (87 + d))"

fun show36 :: "nat \<Rightarrow> string" where
  "show36 n = (if n < 36 then [digit36 n] else show36 (n div 36) @ [digit36 (n mod 36)])"

declare show36.simps [simp del]

definition newKeyId :: "instant \<Rightarrow> nat \<Rightarrow> string" where
  "newKeyId now counter = ''key_'' @ show36 (nat now) @ show36 counter"

section \<open>The store\<close>

record create_key_input =
  cki_name :: string
  cki_description :: "string option"
  cki_scopes :: "string list"
  cki_expiresInDays :: "int option"

record key_error =
  ke_message :: string
  ke_status :: int

record key_store =
  ks_keys :: "api_key jsmap"
  ks_counter :: nat

definition key_create ::
    "(bytes \<Rightarrow> bytes) \<Rightarrow> instant \<Rightarrow> bytes \<Rightarrow> string \<Rightarrow> string \<Rightarrow> create_key_input \<Rightarrow> string list
      \<Rightarrow> key_store \<Rightarrow> (key_error + api_key_public \<times> string) \<times> key_store" where
  "key_create H now random tenantId createdBy input grantableScopes s =
     (let escalating = filter (\<lambda>sc. sc \<notin> set grantableScopes) (cki_scopes input) in
      if trim (cki_name input) = [] then
        (Inl \<lparr>ke_message = ''a key needs a name; an unnamed credential cannot be audited'', ke_status = 422\<rparr>, s)
      else if cki_scopes input = [] then
        (Inl \<lparr>ke_message = ''a key with no scopes can do nothing; select at least one'', ke_status = 422\<rparr>, s)
      else if escalating \<noteq> [] then
        (Inl \<lparr>ke_message = ''cannot grant scopes you do not hold: '' @ join '', '' escalating, ke_status = 403\<rparr>, s)
      else if (case cki_expiresInDays input of None \<Rightarrow> False | Some d \<Rightarrow> d \<le> 0) then
        (Inl \<lparr>ke_message = ''expiresInDays must be positive'', ke_status = 422\<rparr>, s)
      else
        let g = generateSecret random;
            record = \<lparr>ak_id = newKeyId now (ks_counter s), ak_tenantId = tenantId, ak_createdBy = createdBy,
              ak_name = trim (cki_name input),
              ak_description = (case cki_description input of None \<Rightarrow> None | Some d \<Rightarrow> given (Some (trim d))),
              ak_masked = gs_masked g, ak_last4 = gs_last4 g, ak_scopes = cki_scopes input,
              ak_createdAt = now,
              ak_expiresAt = map_option (\<lambda>d. now + d * 86400000) (cki_expiresInDays input),
              ak_revokedAt = None, ak_revokedBy = None, ak_lastUsedAt = None,
              ak_hashedSecret = hashSecret H (gs_secret g)\<rparr>
        in (Inr (key_toPublic record, gs_secret g),
            s\<lparr>ks_keys := map_set (ak_id record) record (ks_keys s), ks_counter := ks_counter s + 1\<rparr>))"

definition key_list :: "key_store \<Rightarrow> string \<Rightarrow> api_key_public list" where
  "key_list s tenantId =
     map key_toPublic (sort_desc ak_createdAt (filter (\<lambda>k. ak_tenantId k = tenantId) (map_values (ks_keys s))))"

definition key_get :: "key_store \<Rightarrow> string \<Rightarrow> string \<Rightarrow> api_key_public option" where
  "key_get s tenantId kid = (case map_get (ks_keys s) kid of
     Some k \<Rightarrow> if ak_tenantId k = tenantId then Some (key_toPublic k) else None
   | None \<Rightarrow> None)"

definition key_revoke ::
    "instant \<Rightarrow> string \<Rightarrow> string \<Rightarrow> string \<Rightarrow> key_store \<Rightarrow> api_key_public option \<times> key_store" where
  "key_revoke now tenantId kid revokedBy s = (case map_get (ks_keys s) kid of
     None \<Rightarrow> (None, s)
   | Some k \<Rightarrow>
       if ak_tenantId k \<noteq> tenantId then (None, s)
       else let updated = k\<lparr>ak_revokedAt := Some now, ak_revokedBy := Some revokedBy\<rparr>
         in (Some (key_toPublic updated), s\<lparr>ks_keys := map_set kid updated (ks_keys s)\<rparr>))"

datatype auth_failure = UnknownKey | RevokedKey | ExpiredKey

text \<open>The loop over the stored keys: the verdict on the first one the secret matches.\<close>

fun auth_loop :: "(bytes \<Rightarrow> bytes) \<Rightarrow> instant \<Rightarrow> string \<Rightarrow> api_key list \<Rightarrow> auth_failure + api_key" where
  "auth_loop H now secret [] = Inl UnknownKey"
| "auth_loop H now secret (record # rest) =
     (if \<not> secretMatches H secret (ak_hashedSecret record) then auth_loop H now secret rest
      else if ak_revokedAt record \<noteq> None then Inl RevokedKey
      else if (case ak_expiresAt record of None \<Rightarrow> False | Some t \<Rightarrow> t \<le> now) then Inl ExpiredKey
      else Inr (record\<lparr>ak_lastUsedAt := Some now\<rparr>))"

definition key_authenticate ::
    "(bytes \<Rightarrow> bytes) \<Rightarrow> instant \<Rightarrow> string \<Rightarrow> key_store \<Rightarrow> (auth_failure + api_key) \<times> key_store" where
  "key_authenticate H now secret s =
     (if \<not> starts_with KEY_PREFIX secret then (Inl UnknownKey, s)
      else case auth_loop H now secret (map_values (ks_keys s)) of
        Inl e \<Rightarrow> (Inl e, s)
      | Inr touched \<Rightarrow> (Inr touched, s\<lparr>ks_keys := map_set (ak_id touched) touched (ks_keys s)\<rparr>))"

section \<open>What a verdict means\<close>

lemma secretMatches_iff: "secretMatches H secret (hashSecret H s') \<longleftrightarrow> H (utf8 secret) = H (utf8 s')"
  by (auto simp: secretMatches_def hashSecret_def Let_def)

lemma auth_loop_Inr: "auth_loop H now secret ks = Inr t \<Longrightarrow>
    \<exists>k \<in> set ks. t = k\<lparr>ak_lastUsedAt := Some now\<rparr> \<and> secretMatches H secret (ak_hashedSecret k)
      \<and> ak_revokedAt k = None \<and> (\<forall>e. ak_expiresAt k = Some e \<longrightarrow> now < e)"
  by (induction ks) (auto split: if_splits option.splits)

lemma auth_loop_unknown: "\<forall>k \<in> set ks. \<not> secretMatches H secret (ak_hashedSecret k) \<Longrightarrow>
    auth_loop H now secret ks = Inl UnknownKey"
  by (induction ks) auto

lemma auth_loop_only:
  assumes "k \<in> set ks" "secretMatches H secret (ak_hashedSecret k)"
    "\<forall>k' \<in> set ks. secretMatches H secret (ak_hashedSecret k') \<longrightarrow> k' = k"
  shows "auth_loop H now secret ks =
    (if ak_revokedAt k \<noteq> None then Inl RevokedKey
     else if (case ak_expiresAt k of None \<Rightarrow> False | Some t \<Rightarrow> t \<le> now) then Inl ExpiredKey
     else Inr (k\<lparr>ak_lastUsedAt := Some now\<rparr>))"
  using assms
proof (induction ks)
  case (Cons a ks)
  show ?case
  proof (cases "secretMatches H secret (ak_hashedSecret a)")
    case True
    then have "a = k" using Cons.prems(3) by simp
    with True show ?thesis by simp
  next
    case False
    then have k: "k \<in> set ks" using Cons.prems(1,2) by auto
    have "\<forall>k' \<in> set ks. secretMatches H secret (ak_hashedSecret k') \<longrightarrow> k' = k"
      using Cons.prems(3) by (meson list.set_intros(2))
    from Cons.IH [OF k Cons.prems(2) this] False show ?thesis by simp
  qed
qed simp

lemma key_toPublic_sel [simp]: "ak_id (key_toPublic k) = ak_id k" "ak_tenantId (key_toPublic k) = ak_tenantId k"
  "ak_scopes (key_toPublic k) = ak_scopes k" "ak_revokedAt (key_toPublic k) = ak_revokedAt k"
  "ak_expiresAt (key_toPublic k) = ak_expiresAt k" "ak_name (key_toPublic k) = ak_name k"
  by (simp_all add: key_toPublic_def api_key_public.truncate_def)

section \<open>Histories\<close>

datatype key_op =
    KCreate instant bytes string string create_key_input "string list"
  | KRevoke instant string string string
  | KAuth instant string

fun key_step :: "(bytes \<Rightarrow> bytes) \<Rightarrow> key_op \<Rightarrow> key_store \<Rightarrow> key_store" where
  "key_step H (KCreate now r t who i g) s = snd (key_create H now r t who i g s)"
| "key_step H (KRevoke now t k who) s = snd (key_revoke now t k who s)"
| "key_step H (KAuth now secret) s = snd (key_authenticate H now secret s)"

definition key_steps :: "(bytes \<Rightarrow> bytes) \<Rightarrow> key_op list \<Rightarrow> key_store \<Rightarrow> key_store" where
  "key_steps H ops s = fold (key_step H) ops s"

text \<open>A key that is revoked, under its id.\<close>

definition dead :: "string \<Rightarrow> string \<Rightarrow> key_store \<Rightarrow> bool" where
  "dead kid hashed s = (\<exists>k. map_get (ks_keys s) kid = Some k \<and> ak_hashedSecret k = hashed \<and> ak_revokedAt k \<noteq> None)"

text \<open>The ids a history generates; the clock and the counter keep them apart.\<close>

fun op_fresh :: "string \<Rightarrow> key_op \<Rightarrow> key_store \<Rightarrow> bool" where
  "op_fresh kid (KCreate now _ _ _ _ _) s = (newKeyId now (ks_counter s) \<noteq> kid)"
| "op_fresh kid _ s = True"

fun ops_fresh :: "(bytes \<Rightarrow> bytes) \<Rightarrow> string \<Rightarrow> key_op list \<Rightarrow> key_store \<Rightarrow> bool" where
  "ops_fresh H kid [] s = True"
| "ops_fresh H kid (op # ops) s = (op_fresh kid op s \<and> ops_fresh H kid ops (key_step H op s))"

lemma key_create_keyed: "keyed ak_id (ks_keys s) \<Longrightarrow> keyed ak_id (ks_keys (snd (key_create H now r t b i g s)))"
  by (auto simp: key_create_def Let_def)

lemma key_revoke_keyed: "keyed ak_id (ks_keys s) \<Longrightarrow> keyed ak_id (ks_keys (snd (key_revoke now t k b s)))"
proof (cases "map_get (ks_keys s) k")
  case (Some r)
  assume kd: "keyed ak_id (ks_keys s)"
  then have "ak_id r = k" using Some by (rule keyed_get)
  with kd Some show ?thesis by (auto simp: key_revoke_def Let_def)
qed (simp add: key_revoke_def)

lemma auth_touched:
  assumes "auth_loop H now secret (map_values m) = Inr t" "keyed ak_id m"
  obtains k where "map_get m (ak_id t) = Some k" "t = k\<lparr>ak_lastUsedAt := Some now\<rparr>" "ak_revokedAt k = None"
proof -
  obtain k where k: "k \<in> set (map_values m)" "t = k\<lparr>ak_lastUsedAt := Some now\<rparr>" "ak_revokedAt k = None"
    using auth_loop_Inr [OF assms(1)] by blast
  then have "map_get m (ak_id k) = Some k" using keyed_values [OF assms(2)] by blast
  with k show ?thesis by (intro that) auto
qed

lemma key_auth_keyed: "keyed ak_id (ks_keys s) \<Longrightarrow> keyed ak_id (ks_keys (snd (key_authenticate H now x s)))"
  by (auto simp: key_authenticate_def split: sum.splits)

lemma key_step_keyed: "keyed ak_id (ks_keys s) \<Longrightarrow> keyed ak_id (ks_keys (key_step H op s))"
  by (cases op) (simp_all add: key_create_keyed key_revoke_keyed key_auth_keyed)

lemma dead_create: "newKeyId now (ks_counter s) \<noteq> kid \<Longrightarrow> dead kid h s \<Longrightarrow> dead kid h (snd (key_create H now r t b i g s))"
  by (auto simp: key_create_def Let_def dead_def map_get_set)

lemma dead_revoke: "dead kid h s \<Longrightarrow> dead kid h (snd (key_revoke now t k b s))"
  by (auto simp: key_revoke_def Let_def dead_def map_get_set split: option.splits)

lemma dead_auth:
  assumes "dead kid h s" "keyed ak_id (ks_keys s)"
  shows "dead kid h (snd (key_authenticate H now x s))"
proof (cases "auth_loop H now x (map_values (ks_keys s))")
  case (Inr t)
  then obtain k where "map_get (ks_keys s) (ak_id t) = Some k" "ak_revokedAt k = None"
    using auth_touched assms(2) by metis
  then have "ak_id t \<noteq> kid" using assms(1) by (auto simp: dead_def)
  then show ?thesis using assms(1) Inr by (auto simp: key_authenticate_def dead_def map_get_set)
qed (use assms in \<open>simp add: key_authenticate_def\<close>)

lemma dead_step: "dead kid h s \<Longrightarrow> keyed ak_id (ks_keys s) \<Longrightarrow> op_fresh kid op s \<Longrightarrow> dead kid h (key_step H op s)"
  by (cases op) (simp_all add: dead_create dead_revoke dead_auth)

lemma dead_forever:
  "dead kid h s \<Longrightarrow> keyed ak_id (ks_keys s) \<Longrightarrow> ops_fresh H kid ops s \<Longrightarrow> dead kid h (key_steps H ops s)"
proof (induction ops arbitrary: s)
  case (Cons op ops)
  then show ?case using dead_step [of kid h s op H] key_step_keyed [of s H op] by (simp add: key_steps_def)
qed (simp add: key_steps_def)

end
