(* ===== verification/Credentials.thy ===== *)
theory Credentials
  imports Api_Keys
begin

text \<open>
  \<open>auth/encryption.ts\<close> and \<open>auth/provider-credentials.ts\<close>: the master key, sealing and
  opening a secret, the removal of sensitive keys, and the store of provider credentials.
  AES-256-GCM is the platform's: a record of the two functions, whose laws are hypotheses of
  the lemmas that need them (\<open>aead_laws\<close>). Nonces and id suffixes are arguments. The regular
  expressions of \<open>redactSecrets\<close> are not modelled.
\<close>

section \<open>The secret box\<close>

definition KEY_BYTES :: nat where "KEY_BYTES = 32"
definition IV_BYTES :: nat where "IV_BYTES = 12"
definition TAG_BYTES :: nat where "TAG_BYTES = 16"

text \<open>\<open>aes-256-gcm\<close>: key, nonce and associated data; ciphertext and tag, or a failure.\<close>

record aead =
  gcm_encrypt :: "bytes \<Rightarrow> bytes \<Rightarrow> bytes \<Rightarrow> bytes \<Rightarrow> bytes \<times> bytes"
  gcm_decrypt :: "bytes \<Rightarrow> bytes \<Rightarrow> bytes \<Rightarrow> bytes \<Rightarrow> bytes \<Rightarrow> bytes option"

definition aead_laws :: "aead \<Rightarrow> bool" where
  "aead_laws C = (\<forall>k iv a p ct tag. gcm_encrypt C k iv a p = (ct, tag) \<longrightarrow>
     length tag = TAG_BYTES \<and> gcm_decrypt C k iv a ct tag = Some p)"

definition is_hex_char :: "char \<Rightarrow> bool" where
  "is_hex_char c = (hex_val c \<noteq> None)"

definition loadMasterKey :: "string option \<Rightarrow> string + bytes option" where
  "loadMasterKey raw = (case given raw of
     None \<Rightarrow> Inr None
   | Some s \<Rightarrow>
       if \<not> (length s = 64 \<and> list_all is_hex_char s) then
         Inl (''AGENT_EVAL_ENCRYPTION_KEY must be 64 hex characters (32 bytes). ''
           @ ''Generate one with: node -e '' @ quoted
             ''console.log(require('node:crypto').randomBytes(32).toString('hex'))'')
       else Inr (Some (of_hex s)))"

record sealed_secret =
  sl_v :: int
  sl_iv :: string
  sl_tag :: string
  sl_ciphertext :: string

text \<open>A \<open>SecretBox\<close> is its key.\<close>

definition box_fromEnv :: "string option \<Rightarrow> string + bytes option" where
  "box_fromEnv raw = loadMasterKey raw"

definition box_fromKey :: "bytes \<Rightarrow> string + bytes" where
  "box_fromKey key = (if length key \<noteq> KEY_BYTES
     then Inl (''master key must be '' @ show_nat KEY_BYTES @ '' bytes, got '' @ show_nat (length key))
     else Inr key)"

definition box_seal :: "aead \<Rightarrow> bytes \<Rightarrow> bytes \<Rightarrow> string \<Rightarrow> string \<Rightarrow> sealed_secret" where
  "box_seal C key iv plaintext aad =
     (case gcm_encrypt C key iv (utf8 aad) (utf8 plaintext) of (ct, tag) \<Rightarrow>
       \<lparr>sl_v = 1, sl_iv = to_base64 iv, sl_tag = to_base64 tag, sl_ciphertext = to_base64 ct\<rparr>)"

definition of_utf8 :: "bytes \<Rightarrow> string" where
  "of_utf8 bs = map (\<lambda>w. char_of (unat w)) bs"

definition box_open :: "aead \<Rightarrow> bytes \<Rightarrow> sealed_secret \<Rightarrow> string \<Rightarrow> string + string" where
  "box_open C key secret_box aad =
     (if sl_v secret_box \<noteq> 1 then Inl (''unsupported sealed secret version '' @ show_int (sl_v secret_box))
      else if length (of_base64 (sl_tag secret_box)) \<noteq> TAG_BYTES
      then Inl ''authentication tag has the wrong length''
      else case gcm_decrypt C key (of_base64 (sl_iv secret_box)) (utf8 aad)
          (of_base64 (sl_ciphertext secret_box)) (of_base64 (sl_tag secret_box)) of
        None \<Rightarrow> Inl (''Could not decrypt the credential. The master key may have changed, ''
          @ ''or the record may have been altered.'')
      | Some p \<Rightarrow> Inr (of_utf8 p))"

definition maskSecret :: "string \<Rightarrow> string" where
  "maskSecret secret = (if length secret \<le> 8 then bullets 8
     else take 3 secret @ bullets 10 @ last_chars 4 secret)"

definition safeEqual :: "string \<Rightarrow> string \<Rightarrow> bool" where
  "safeEqual a b = (let ba = utf8 a; bb = utf8 b in if length ba \<noteq> length bb then False else ba = bb)"

section \<open>Sensitive keys\<close>

definition SENSITIVE_KEYS :: "string list" where
  "SENSITIVE_KEYS = [''apikey'', ''api_key'', ''secret'', ''secrethash'', ''password'', ''token'',
     ''authorization'', ''x-api-key'', ''ciphertext'', ''privatekey'']"

definition sensitive :: "string \<Rightarrow> bool" where
  "sensitive k = (map to_lower k \<in> set SENSITIVE_KEYS)"

text \<open>
  A date, having no enumerable properties, becomes an empty object; assigning \<open>__proto__\<close> adds
  no property; a cycle exhausts the stack.
\<close>

function stripSecrets :: "jsval \<Rightarrow> string + jsval" where
  "stripSecrets (JArr xs) = bindE (mapE stripSecrets xs) (\<lambda>ys. Inr (JArr ys))"
| "stripSecrets (JObj kvs) =
     bindE (mapE (\<lambda>(k, v). if sensitive k then Inr (k, JStr ''[redacted]'')
           else bindE (stripSecrets v) (\<lambda>w. Inr (k, w))) kvs)
       (\<lambda>out. Inr (JObj (filter (\<lambda>(k, v). k \<noteq> ''__proto__'') out)))"
| "stripSecrets (JDate t) = Inr (JObj [])"
| "stripSecrets JBack = Inl ''Maximum call stack size exceeded''"
| "stripSecrets JUndef = Inr JUndef"
| "stripSecrets JNull = Inr JNull"
| "stripSecrets (JBool b) = Inr (JBool b)"
| "stripSecrets (JNum n) = Inr (JNum n)"
| "stripSecrets (JStr s) = Inr (JStr s)"
| "stripSecrets (JBigint i) = Inr (JBigint i)"
| "stripSecrets JFunc = Inr JFunc"
| "stripSecrets JSym = Inr JSym"
  by pat_completeness auto
termination
  by (relation "measure size") (auto dest: size_val_prop size_val_item)

text \<open>No property under a sensitive key has a value other than the marker, at any depth.\<close>

function stripped :: "jsval \<Rightarrow> bool" where
  "stripped (JArr xs) = (\<forall>x \<in> set xs. stripped x)"
| "stripped (JObj kvs) = (\<forall>(k, v) \<in> set kvs. stripped v \<and> (sensitive k \<longrightarrow> v = JStr ''[redacted]''))"
| "stripped (JDate t) = True"
| "stripped JBack = True"
| "stripped JUndef = True"
| "stripped JNull = True"
| "stripped (JBool b) = True"
| "stripped (JNum n) = True"
| "stripped (JStr s) = True"
| "stripped (JBigint i) = True"
| "stripped JFunc = True"
| "stripped JSym = True"
  by pat_completeness auto
termination
  by (relation "measure size") (auto dest: size_val_prop size_val_item)

lemma mapE_all: "mapE f xs = Inr ys \<Longrightarrow> y \<in> set ys \<Longrightarrow> \<exists>x \<in> set xs. f x = Inr y"
  by (induction xs arbitrary: ys) (auto simp: bindE_Inr_iff)

lemma stripSecrets_stripped: "stripSecrets v = Inr w \<Longrightarrow> stripped w"
proof (induction v arbitrary: w rule: stripSecrets.induct)
  case (1 xs)
  then obtain ys where ys: "mapE stripSecrets xs = Inr ys" "w = JArr ys" by (auto simp: bindE_Inr_iff)
  have "stripped y" if "y \<in> set ys" for y using mapE_all [OF ys(1) that] 1 by blast
  with ys show ?case by simp
next
  case (2 kvs)
  let ?f = "\<lambda>(k, v). if sensitive k then Inr (k, JStr ''[redacted]'')
           else bindE (stripSecrets v) (\<lambda>w. Inr (k, w))"
  obtain out where out: "mapE ?f kvs = Inr out" "w = JObj (filter (\<lambda>(k, v). k \<noteq> ''__proto__'') out)"
    using "2.prems" unfolding stripSecrets.simps bindE_Inr_iff by auto
  have "stripped u \<and> (sensitive k \<longrightarrow> u = JStr ''[redacted]'')" if ku: "(k, u) \<in> set out" for k u
  proof -
    obtain k' v where kv: "(k', v) \<in> set kvs" "?f (k', v) = Inr (k, u)" using mapE_all [OF out(1) ku] by auto
    show ?thesis
    proof (cases "sensitive k'")
      case True
      with kv(2) show ?thesis by auto
    next
      case False
      with kv(2) have "stripSecrets v = Inr u" "k = k'" by (auto simp: bindE_Inr_iff)
      with "2.IH" [OF kv(1) refl] False show ?thesis by auto
    qed
  qed
  with out(2) show ?case by auto
qed auto

section \<open>Sealing and opening\<close>

lemma of_utf8_utf8 [simp]: "of_utf8 (utf8 s) = s"
proof -
  have "char_of (unat (word_of_nat (of_char c :: nat) :: byte)) = c" for c
    using nat_of_char_less_256 [of c] by (simp add: unat_of_nat)
  then show ?thesis by (simp add: of_utf8_def utf8_def o_def)
qed

lemma box_roundtrip: "aead_laws C \<Longrightarrow> box_open C key (box_seal C key iv p aad) aad = Inr p"
  by (auto simp: box_open_def box_seal_def aead_laws_def split: prod.splits)

lemma box_wrong_context:
  assumes "aead_laws C"
    "\<And>ct tag. gcm_encrypt C key iv (utf8 aad) (utf8 p) = (ct, tag) \<Longrightarrow> gcm_decrypt C key iv (utf8 aad') ct tag = None"
  shows "\<exists>e. box_open C key (box_seal C key iv p aad) aad' = Inl e"
proof -
  obtain ct tag where e: "gcm_encrypt C key iv (utf8 aad) (utf8 p) = (ct, tag)" by (metis prod.exhaust)
  have "length tag = TAG_BYTES" using assms(1) e by (auto simp: aead_laws_def)
  with assms(2) [OF e] e show ?thesis by (simp add: box_open_def box_seal_def)
qed

lemma safeEqual_iff: "safeEqual a b \<longleftrightarrow> a = b"
  by (auto simp: safeEqual_def Let_def)

lemma length_of_hex: "even (length s) \<Longrightarrow> list_all is_hex_char s \<Longrightarrow> length (of_hex s) = length s div 2"
  by (induction s rule: of_hex.induct) (auto simp: is_hex_char_def)

lemma loadMasterKey_bytes: "loadMasterKey raw = Inr (Some key) \<Longrightarrow> length key = KEY_BYTES"
  using length_of_hex by (auto simp: loadMasterKey_def KEY_BYTES_def split: option.splits if_splits)

section \<open>Provider credentials\<close>

record credential_public =
  pc_id :: string
  pc_tenantId :: string
  pc_providerId :: string
  pc_name :: string
  pc_masked :: string
  pc_baseUrl :: "string option"
  pc_createdBy :: string
  pc_createdAt :: instant
  pc_updatedAt :: instant
  pc_lastUsedAt :: "instant option"
  pc_revokedAt :: "instant option"

record credential = credential_public +
  pc_sealed :: "sealed_secret option"

definition cred_toPublic :: "credential \<Rightarrow> credential_public" where
  "cred_toPublic r = credential_public.truncate r"

record create_credential_input =
  cci_providerId :: string
  cci_name :: string
  cci_apiKey :: "string option"
  cci_baseUrl :: "string option"

record cred_error =
  ce_message :: string
  ce_status :: int

record cred_store =
  cs_credentials :: "credential jsmap"
  cs_counter :: nat

definition newCredId :: "instant \<Rightarrow> nat \<Rightarrow> bytes \<Rightarrow> string" where
  "newCredId now counter random = ''cred_'' @ show36 (nat now) @ show36 counter @ to_hex random"

definition cred_aad :: "string \<Rightarrow> string \<Rightarrow> string" where
  "cred_aad tenantId cid = ''agent-eval:provider-credential:'' @ tenantId @ '':'' @ cid"

text \<open>\<open>box\<close> is the optional key; \<open>rand\<close> and \<open>iv\<close> are the random bytes drawn.\<close>

definition cred_create ::
    "aead \<Rightarrow> bytes option \<Rightarrow> instant \<Rightarrow> bytes \<Rightarrow> bytes \<Rightarrow> string \<Rightarrow> string \<Rightarrow> create_credential_input
      \<Rightarrow> cred_store \<Rightarrow> (cred_error + credential_public) \<times> cred_store" where
  "cred_create C box now rand iv tenantId createdBy input s =
     (if trim (cci_name input) = [] then
        (Inl \<lparr>ce_message = ''a credential needs a name so it can be told apart from the others'',
           ce_status = 422\<rparr>, s)
      else
        let cid = newCredId now (cs_counter s) rand;
            s' = s\<lparr>cs_counter := cs_counter s + 1\<rparr>;
            record = \<lparr>pc_id = cid, pc_tenantId = tenantId, pc_providerId = cci_providerId input,
              pc_name = trim (cci_name input),
              pc_masked = (case given (cci_apiKey input) of Some k \<Rightarrow> maskSecret k
                | None \<Rightarrow> ''no credential required''),
              pc_baseUrl = given (cci_baseUrl input), pc_createdBy = createdBy,
              pc_createdAt = now, pc_updatedAt = now, pc_lastUsedAt = None, pc_revokedAt = None,
              pc_sealed = None\<rparr>
        in case given (cci_apiKey input) of
          None \<Rightarrow> (Inr (cred_toPublic record), s'\<lparr>cs_credentials := map_set cid record (cs_credentials s)\<rparr>)
        | Some apiKey \<Rightarrow> (case box of
            None \<Rightarrow> (Inl \<lparr>ce_message = ''Cannot store a provider credential: encryption is not configured. ''
                @ ''Set AGENT_EVAL_ENCRYPTION_KEY to 64 hex characters. Credentials are never stored in plaintext.'',
                ce_status = 503\<rparr>, s')
          | Some key \<Rightarrow>
              let secret_box = record\<lparr>pc_sealed := Some (box_seal C key iv apiKey (cred_aad tenantId cid))\<rparr>
              in (Inr (cred_toPublic secret_box), s'\<lparr>cs_credentials := map_set cid secret_box (cs_credentials s)\<rparr>)))"

definition cred_list :: "cred_store \<Rightarrow> string \<Rightarrow> string option \<Rightarrow> credential_public list" where
  "cred_list s tenantId providerId =
     map cred_toPublic (sort_desc pc_createdAt
       (filter (\<lambda>c. case given providerId of None \<Rightarrow> True | Some p \<Rightarrow> pc_providerId c = p)
         (filter (\<lambda>c. pc_tenantId c = tenantId) (map_values (cs_credentials s)))))"

definition cred_get :: "cred_store \<Rightarrow> string \<Rightarrow> string \<Rightarrow> credential_public option" where
  "cred_get s tenantId cid = (case map_get (cs_credentials s) cid of
     Some c \<Rightarrow> if pc_tenantId c = tenantId then Some (cred_toPublic c) else None
   | None \<Rightarrow> None)"

record revealed =
  rv_apiKey :: "string option"
  rv_baseUrl :: "string option"
  rv_providerId :: string

definition cred_reveal ::
    "aead \<Rightarrow> bytes option \<Rightarrow> instant \<Rightarrow> string \<Rightarrow> string \<Rightarrow> cred_store
      \<Rightarrow> (cred_error + revealed option) \<times> cred_store" where
  "cred_reveal C box now tenantId cid s = (case map_get (cs_credentials s) cid of
     None \<Rightarrow> (Inr None, s)
   | Some c \<Rightarrow>
       if pc_tenantId c \<noteq> tenantId then (Inr None, s)
       else if pc_revokedAt c \<noteq> None then
         (Inl \<lparr>ce_message = ''This provider credential has been revoked.'', ce_status = 409\<rparr>, s)
       else case (case pc_sealed c of
             None \<Rightarrow> Inr None
           | Some secret_box \<Rightarrow> (case box of
               None \<Rightarrow> Inl \<lparr>ce_message = ''Encryption is not configured, so this credential cannot be decrypted.'',
                 ce_status = 503\<rparr>
             | Some key \<Rightarrow> (case box_open C key secret_box (cred_aad tenantId cid) of
                 Inl msg \<Rightarrow> Inl \<lparr>ce_message = msg, ce_status = 500\<rparr>
               | Inr k \<Rightarrow> Inr (Some k)))) of
         Inl e \<Rightarrow> (Inl e, s)
       | Inr apiKey \<Rightarrow>
           (Inr (Some \<lparr>rv_apiKey = given apiKey, rv_baseUrl = given (pc_baseUrl c),
              rv_providerId = pc_providerId c\<rparr>),
            s\<lparr>cs_credentials := map_set cid (c\<lparr>pc_lastUsedAt := Some now\<rparr>) (cs_credentials s)\<rparr>))"

definition cred_revoke :: "instant \<Rightarrow> string \<Rightarrow> string \<Rightarrow> cred_store \<Rightarrow> credential_public option \<times> cred_store" where
  "cred_revoke now tenantId cid s = (case map_get (cs_credentials s) cid of
     None \<Rightarrow> (None, s)
   | Some c \<Rightarrow>
       if pc_tenantId c \<noteq> tenantId then (None, s)
       else let updated = c\<lparr>pc_revokedAt := Some now, pc_updatedAt := now, pc_sealed := None\<rparr>
         in (Some (cred_toPublic updated), s\<lparr>cs_credentials := map_set cid updated (cs_credentials s)\<rparr>))"

section \<open>What the store keeps\<close>

lemma cred_toPublic_sel [simp]: "pc_id (cred_toPublic c) = pc_id c" "pc_tenantId (cred_toPublic c) = pc_tenantId c"
  "pc_baseUrl (cred_toPublic c) = pc_baseUrl c" "pc_providerId (cred_toPublic c) = pc_providerId c"
  "pc_revokedAt (cred_toPublic c) = pc_revokedAt c" "pc_masked (cred_toPublic c) = pc_masked c"
  by (simp_all add: cred_toPublic_def credential_public.truncate_def)

text \<open>A revoked credential holds no ciphertext.\<close>

definition cred_inv :: "cred_store \<Rightarrow> bool" where
  "cred_inv s = (\<forall>k c. map_get (cs_credentials s) k = Some c \<longrightarrow>
     pc_id c = k \<and> (pc_revokedAt c \<noteq> None \<longrightarrow> pc_sealed c = None))"

lemma cred_create_inv: "cred_inv s \<Longrightarrow> cred_inv (snd (cred_create C box now suf iv t who input s))"
  by (auto simp: cred_create_def Let_def cred_inv_def map_get_set split: option.splits)

lemma cred_reveal_inv: "cred_inv s \<Longrightarrow> cred_inv (snd (cred_reveal C box now t cid s))"
  by (auto simp: cred_reveal_def cred_inv_def map_get_set split: option.splits sum.splits)

lemma cred_revoke_inv: "cred_inv s \<Longrightarrow> cred_inv (snd (cred_revoke now t cid s))"
  by (auto simp: cred_revoke_def Let_def cred_inv_def map_get_set split: option.splits)

lemma cred_reveal_other: "map_get (cs_credentials s) cid = Some c \<Longrightarrow> pc_tenantId c \<noteq> t \<Longrightarrow>
    cred_reveal C box now t cid s = (Inr None, s)"
  by (simp add: cred_reveal_def)

lemma cred_created:
  assumes "cred_create C (Some key) now rand iv t who input s = (Inr p, s')"
  shows "\<exists>c. map_get (cs_credentials s') (pc_id p) = Some c \<and> p = cred_toPublic c \<and> pc_tenantId c = t
    \<and> pc_revokedAt c = None \<and> pc_baseUrl c = given (cci_baseUrl input) \<and> pc_providerId c = cci_providerId input
    \<and> pc_sealed c = map_option (\<lambda>k. box_seal C key iv k (cred_aad t (pc_id p))) (given (cci_apiKey input))"
  using assms
  by (cases "given (cci_apiKey input)") (auto simp: cred_create_def Let_def map_get_set split: if_splits)

lemma given_idem [simp]: "given (given x) = given x"
  by (cases x) (auto simp: given_def)

lemma given_given: "given x = Some k \<Longrightarrow> given (Some k) = Some k"
  by (metis given_idem)

lemma cred_create_reveal:
  assumes "aead_laws C" "cred_create C (Some key) now rand iv t who input s = (Inr p, s')"
  shows "\<exists>r s''. cred_reveal C (Some key) later t (pc_id p) s' = (Inr (Some r), s'')
    \<and> rv_apiKey r = given (cci_apiKey input) \<and> rv_baseUrl r = given (cci_baseUrl input)
    \<and> rv_providerId r = cci_providerId input"
proof -
  obtain c where c: "map_get (cs_credentials s') (pc_id p) = Some c" "pc_tenantId c = t"
    "pc_revokedAt c = None" "pc_baseUrl c = given (cci_baseUrl input)" "pc_providerId c = cci_providerId input"
    "pc_sealed c = map_option (\<lambda>k. box_seal C key iv k (cred_aad t (pc_id p))) (given (cci_apiKey input))"
    using cred_created [OF assms(2)] by blast
  show ?thesis
  proof (cases "given (cci_apiKey input)")
    case None
    with c show ?thesis by (simp add: cred_reveal_def)
  next
    case (Some k)
    with c show ?thesis by (simp add: cred_reveal_def box_roundtrip [OF assms(1)] given_given [OF Some])
  qed
qed

end
