(* ===== verification/Executor.thy ===== *)
theory Executor
  imports Credentials
begin

text \<open>
  \<open>worker/executor.ts\<close> and the parts of \<open>providers/registry.ts\<close> and \<open>providers/types.ts\<close> it
  uses: the execution backends, the resolution of a provider and its configuration, and the
  events a run reports. The child process and the provider's \<open>generate\<close> are arguments: what
  the process did, what the provider answered or threw.
\<close>

section \<open>Results\<close>

record execution_event =
  ee_action :: string
  ee_payload :: "(string \<times> jsval) list"

record execution_result =
  er_outcome :: run_outcome
  er_reason :: "string option"
  er_events :: "execution_event list"

definition event :: "string \<Rightarrow> (string \<times> jsval) list \<Rightarrow> execution_event" where
  "event action payload = \<lparr>ee_action = action, ee_payload = payload\<rparr>"

definition failed_with :: "string \<Rightarrow> execution_event list \<Rightarrow> execution_result" where
  "failed_with reason events = \<lparr>er_outcome = Failed, er_reason = Some reason, er_events = events\<rparr>"

definition JInt :: "int \<Rightarrow> jsval" where
  "JInt i = JNum (num_of_int i)"

definition JIntNull :: "int option \<Rightarrow> jsval" where
  "JIntNull i = (case i of None \<Rightarrow> JNull | Some n \<Rightarrow> JInt n)"

definition JStrNull :: "string option \<Rightarrow> jsval" where
  "JStrNull s = (case s of None \<Rightarrow> JNull | Some x \<Rightarrow> JStr x)"

section \<open>The local process\<close>

record local_options =
  lo_enabled :: bool
  lo_command :: "string option"
  lo_args :: "string list option"
  lo_timeoutMs :: "int option"

definition local_unavailable :: "local_options \<Rightarrow> string option" where
  "local_unavailable opts = (if \<not> lo_enabled opts then Some
     (''Local process execution is disabled. It provides no isolation boundary '' @ em_dash @ '' ''
      @ ''no guest kernel, no egress control, no credential brokering '' @ em_dash @ '' so it must be ''
      @ ''enabled explicitly with AGENT_EVAL_LOCAL_EXEC=1.'') else None)"

text \<open>What the child did. \<open>ch_spawnError\<close> is the message of an \<open>error\<close> event: no exit code then.\<close>

record child =
  ch_pid :: "int option"
  ch_code :: "int option"
  ch_signal :: "string option"
  ch_stdout :: string
  ch_stderr :: string
  ch_timedOut :: bool
  ch_durationMs :: int

definition local_script :: string where
  "local_script = ''const c=require('' @ quoted ''node:crypto'' @ '');''
     @ ''const h=c.createHash('' @ quoted ''sha256'' @ '').update(process.argv[1]).digest('' @ quoted ''hex'' @ '');''
     @ ''process.stdout.write(JSON.stringify({runId:process.argv[1],digest:h}));''"

text \<open>The events before the verdict on the exit code.\<close>

definition process_events :: "string \<Rightarrow> int \<Rightarrow> child \<Rightarrow> execution_event list" where
  "process_events command timeoutMs ch =
     [event ''execution.started'' [(''backend'', JStr ''local-process''), (''isolated'', JBool False),
        (''command'', JStr command), (''timeoutMs'', JInt timeoutMs)],
      event ''process.spawned'' [(''pid'', JIntNull (ch_pid ch)), (''command'', JStr command)],
      event ''process.exited'' [(''exitCode'', JIntNull (ch_code ch)), (''signal'', JStrNull (ch_signal ch)),
        (''durationMs'', JInt (ch_durationMs ch)),
        (''stdoutBytes'', JInt (int (length (ch_stdout ch)))),
        (''stderrBytes'', JInt (int (length (ch_stderr ch))))]]"

definition code_text :: "int option \<Rightarrow> string" where
  "code_text c = (case c of None \<Rightarrow> ''null'' | Some n \<Rightarrow> show_int n)"

text \<open>\<open>proc\<close> runs a command with its arguments and a timeout; \<open>execPath\<close> is \<open>process.execPath\<close>.\<close>

definition local_execute ::
    "string \<Rightarrow> (string \<Rightarrow> string list \<Rightarrow> int \<Rightarrow> child) \<Rightarrow> local_options \<Rightarrow> string \<Rightarrow> execution_result" where
  "local_execute execPath proc opts runId = (case given (local_unavailable opts) of
     Some blocked \<Rightarrow> failed_with blocked []
   | None \<Rightarrow>
       let command = (case lo_command opts of None \<Rightarrow> execPath | Some c \<Rightarrow> c);
           args = (case lo_args opts of None \<Rightarrow> [''-e'', local_script, runId] | Some a \<Rightarrow> a);
           timeoutMs = (case lo_timeoutMs opts of None \<Rightarrow> 30000 | Some t \<Rightarrow> t);
           ch = proc command args timeoutMs;
           events = process_events command timeoutMs ch
       in if ch_timedOut ch then
            let reason = ''Execution exceeded the '' @ show_int timeoutMs @ ''ms timeout and was killed.''
            in failed_with reason (events @ [event ''execution.failed'' [(''reason'', JStr reason)]])
          else
            let passed = (ch_code ch = Some 0);
                events2 = events @ [event ''verifier.result''
                  [(''verifier'', JStr ''process-exit-code''), (''passed'', JBool passed),
                   (''exitCode'', JIntNull (ch_code ch)), (''output'', JStr (take 2000 (ch_stdout ch))),
                   (''note'', JStr ''No rubric was applied: this run had no verifier adapter configured.'')]]
            in if \<not> passed then
                 let reason = ''Process exited with code '' @ code_text (ch_code ch)
                       @ (if trim (ch_stderr ch) \<noteq> [] then '': '' @ take 300 (trim (ch_stderr ch)) else ''.'')
                 in failed_with reason (events2 @ [event ''execution.failed'' [(''reason'', JStr reason)]])
               else \<lparr>er_outcome = Completed, er_reason = None,
                 er_events = events2 @ [event ''execution.completed'' [(''durationMs'', JInt (ch_durationMs ch))]]\<rparr>)"

section \<open>Providers\<close>

record provider_config =
  cf_apiKey :: "string option"
  cf_baseUrl :: "string option"

record model_request =
  mr_model :: string
  mr_content :: string
  mr_temperature :: "jsnum option"
  mr_maxTokens :: "jsnum option"

record response_tool_call =
  rc_toolCallId :: string
  rc_name :: string
  rc_arguments :: jsval

record model_response =
  mp_provider :: string
  mp_model :: string
  mp_providerRequestId :: "string option"
  mp_text :: string
  mp_toolCalls :: "response_tool_call list"
  mp_finishReason :: string
  mp_inputTokens :: "int option"
  mp_outputTokens :: "int option"
  mp_totalTokens :: "int option"
  mp_latencyMs :: int

text \<open>Unknown is a real answer: a capability that is neither known to be there nor known to be missing.\<close>

datatype support = Supported | Unsupported | SupportUnknown

text \<open>What a provider call throws: a \<open>ProviderError\<close> with its category and detail, or another error.\<close>

datatype thrown = ProviderError string string "(string \<times> jsval) list" | OtherError string

fun thrown_message :: "thrown \<Rightarrow> string" where
  "thrown_message (ProviderError c m d) = m"
| "thrown_message (OtherError m) = m"

type_synonym provider = "model_request \<Rightarrow> provider_config \<Rightarrow> thrown + model_response"

type_synonym registry = "provider jsmap"

definition provider_register :: "string \<Rightarrow> provider \<Rightarrow> registry \<Rightarrow> registry" where
  "provider_register pid p r = map_set pid p r"

definition provider_has :: "registry \<Rightarrow> string \<Rightarrow> bool" where
  "provider_has r pid = map_has r pid"

definition provider_get :: "registry \<Rightarrow> string \<Rightarrow> thrown + provider" where
  "provider_get r pid = (case map_get r pid of
     None \<Rightarrow> Inl (ProviderError ''NOT_CONFIGURED''
       (''Unknown provider '' @ quoted pid @ ''. Registered: '' @ join '', '' (map fst r) @ ''.'')
       [(''provider'', JStr pid), (''retryable'', JBool False)])
   | Some p \<Rightarrow> Inr p)"

definition ENV_KEYS :: "(string \<times> string) list" where
  "ENV_KEYS = [(''openai'', ''OPENAI_API_KEY''), (''anthropic'', ''ANTHROPIC_API_KEY''),
     (''xai'', ''XAI_API_KEY''), (''google'', ''GOOGLE_API_KEY''), (''deepseek'', ''DEEPSEEK_API_KEY''),
     (''mistral'', ''MISTRAL_API_KEY''), (''minimax'', ''MINIMAX_API_KEY''),
     (''moonshot'', ''MOONSHOT_API_KEY''), (''zai'', ''ZAI_API_KEY''),
     (''dashscope'', ''DASHSCOPE_API_KEY''), (''openai-compatible'', ''OPENAI_COMPATIBLE_API_KEY'')]"

definition ENV_BASE_URLS :: "(string \<times> string) list" where
  "ENV_BASE_URLS = [(''ollama'', ''OLLAMA_BASE_URL''), (''vllm'', ''VLLM_BASE_URL''),
     (''tensorrt-llm'', ''TENSORRT_LLM_BASE_URL''), (''nim'', ''NIM_BASE_URL''),
     (''openai-compatible'', ''OPENAI_COMPATIBLE_BASE_URL'')]"

definition env_lookup :: "(string \<Rightarrow> string option) \<Rightarrow> (string \<times> string) list \<Rightarrow> string \<Rightarrow> string option" where
  "env_lookup env names pid = (case map_of names pid of None \<Rightarrow> None | Some var \<Rightarrow> given (env var))"

definition override :: "'a option \<Rightarrow> 'a option \<Rightarrow> 'a option" where
  "override a b = (case b of None \<Rightarrow> a | Some v \<Rightarrow> Some v)"

definition resolveConfig :: "(string \<Rightarrow> string option) \<Rightarrow> string \<Rightarrow> provider_config \<Rightarrow> provider_config" where
  "resolveConfig env pid overrides =
     \<lparr>cf_apiKey = override (env_lookup env ENV_KEYS pid) (cf_apiKey overrides),
      cf_baseUrl = override (env_lookup env ENV_BASE_URLS pid) (cf_baseUrl overrides)\<rparr>"

definition no_overrides :: provider_config where
  "no_overrides = \<lparr>cf_apiKey = None, cf_baseUrl = None\<rparr>"

section \<open>Model execution\<close>

record run_context =
  rx_tenantId :: string
  rx_credentialId :: "string option"

text \<open>
  The world of a \<open>ModelExecutor\<close>: the registry, the environment and, if it was given one, the
  credential resolver, which throws, finds nothing, or reveals a key and a base URL.
\<close>

record model_world =
  mw_registry :: registry
  mw_env :: "string \<Rightarrow> string option"
  mw_resolve :: "(string \<Rightarrow> string \<Rightarrow> string + (string option \<times> string option) option) option"

definition model_unavailable :: "bool \<Rightarrow> string option" where
  "model_unavailable enabled = (if \<not> enabled
     then Some ''Model execution is disabled. Set AGENT_EVAL_MODEL_EXEC=1 to enable it.'' else None)"

text \<open>\<open>obj?.key\<close> on a JSON value: a property of an object, nothing of anything else.\<close>

fun get_prop :: "jsval \<Rightarrow> string \<Rightarrow> jsval" where
  "get_prop (JObj kvs) k = (case map_of kvs k of None \<Rightarrow> JUndef | Some v \<Rightarrow> v)"
| "get_prop _ k = JUndef"

fun index_of_char :: "char \<Rightarrow> string \<Rightarrow> int" where
  "index_of_char c [] = - 1"
| "index_of_char c (x # xs) = (if x = c then 0 else
     (let i = index_of_char c xs in if i < 0 then - 1 else i + 1))"

definition num_field :: "jsval \<Rightarrow> jsnum option" where
  "num_field v = (case v of JNum n \<Rightarrow> Some n | _ \<Rightarrow> None)"

text \<open>The configuration of the call: the environment's, overridden by the run's credential.\<close>

definition run_config ::
    "model_world \<Rightarrow> string \<Rightarrow> run_context option \<Rightarrow> (string \<times> (string \<times> jsval) list) + provider_config" where
  "run_config w pid run =
     (let config = resolveConfig (mw_env w) pid no_overrides in
      case given (case run of None \<Rightarrow> None | Some r \<Rightarrow> rx_credentialId r) of
        None \<Rightarrow> Inr config
      | Some cid \<Rightarrow>
          let refuse = (\<lambda>reason. Inl (reason, [(''reason'', JStr reason), (''credentialId'', JStr cid)]))
          in case mw_resolve w of
            None \<Rightarrow> refuse (''Run names provider credential '' @ quoted cid
              @ '', but this worker was started '' @ ''without access to the credential store.'')
          | Some resolve \<Rightarrow> (case resolve (case run of None \<Rightarrow> [] | Some r \<Rightarrow> rx_tenantId r) cid of
              Inl msg \<Rightarrow> refuse msg
            | Inr None \<Rightarrow> refuse (''Provider credential '' @ quoted cid @ '' was not found for this tenant.'')
            | Inr (Some (key, base)) \<Rightarrow> Inr \<lparr>cf_apiKey = override (cf_apiKey config) key,
                cf_baseUrl = override (cf_baseUrl config) base\<rparr>))"

text \<open>What follows the request event, once the provider has answered.\<close>

definition response_events :: "model_response \<Rightarrow> execution_event list" where
  "response_events rp =
     event ''model.response''
       ([(''provider'', JStr (mp_provider rp)), (''model'', JStr (mp_model rp)),
         (''finishReason'', JStr (mp_finishReason rp)), (''latencyMs'', JInt (mp_latencyMs rp)),
         (''inputTokens'', JIntNull (mp_inputTokens rp)), (''outputTokens'', JIntNull (mp_outputTokens rp)),
         (''totalTokens'', JIntNull (mp_totalTokens rp)),
         (''toolCalls'', JInt (int (length (mp_toolCalls rp)))), (''text'', JStr (take 2000 (mp_text rp)))]
        @ (case given (mp_providerRequestId rp) of None \<Rightarrow> [] | Some i \<Rightarrow> [(''providerRequestId'', JStr i)]))
     # map (\<lambda>c. event ''tool.call'' [(''toolCallId'', JStr (rc_toolCallId c)), (''name'', JStr (rc_name c)),
         (''arguments'', rc_arguments c)]) (mp_toolCalls rp)
     @ [event ''verifier.result'' [(''verifier'', JStr ''non-empty-response''),
         (''passed'', JBool (trim (mp_text rp) \<noteq> [])),
         (''note'', JStr ''No rubric was applied: this run had no verifier adapter configured.'')]]"

definition settle :: "execution_event list \<Rightarrow> thrown + model_response \<Rightarrow> execution_result" where
  "settle events answer = (case answer of
     Inr rp \<Rightarrow>
       let events2 = events @ response_events rp in
       if trim (mp_text rp) = [] then
         let reason = ''The model returned an empty response.''
         in failed_with reason (events2 @ [event ''execution.failed'' [(''reason'', JStr reason)]])
       else \<lparr>er_outcome = Completed, er_reason = None,
         er_events = events2 @ [event ''execution.completed'' [(''latencyMs'', JInt (mp_latencyMs rp))]]\<rparr>
   | Inl (ProviderError category msg detail) \<Rightarrow>
       let reason = category @ '': '' @ msg
       in failed_with reason (events @ [event ''model.error''
            ([(''category'', JStr category), (''message'', JStr msg)] @ detail),
            event ''execution.failed'' [(''reason'', JStr reason)]])
   | Inl (OtherError msg) \<Rightarrow>
       let reason = ''Provider call failed: '' @ msg
       in failed_with reason (events @ [event ''model.error'' [(''message'', JStr msg)],
            event ''execution.failed'' [(''reason'', JStr reason)]]))"

text \<open>An identifier that is not a string has no \<open>indexOf\<close>: the call throws.\<close>

definition model_execute ::
    "bool \<Rightarrow> model_world \<Rightarrow> string \<Rightarrow> (string \<times> jsval) list \<Rightarrow> run_context option
      \<Rightarrow> string + execution_result" where
  "model_execute enabled w runId manifest run = (case given (model_unavailable enabled) of
     Some blocked \<Rightarrow> Inr (failed_with blocked [])
   | None \<Rightarrow>
       let model = get_prop (JObj manifest) ''model'' in
       case (case get_prop model ''identifier'' of
           JUndef \<Rightarrow> Inr [] | JNull \<Rightarrow> Inr [] | JStr s \<Rightarrow> Inr s
         | _ \<Rightarrow> Inl ''identifier.indexOf is not a function'') of
         Inl msg \<Rightarrow> Inl msg
       | Inr identifier \<Rightarrow>
           let slash = index_of_char (CHR ''/'') identifier in
           if slash < 1 then
             let reason = ''Model identifier '' @ quoted identifier @ '' is not routable. ''
                   @ ''Use '' @ quoted ''<provider>/<model-id>'' @ '', for example ''
                   @ quoted ''ollama/some-model'' @ ''.''
             in Inr (failed_with reason [event ''execution.failed'' [(''reason'', JStr reason)]])
           else
             let pid = take (nat slash) identifier; modelId = drop (nat slash + 1) identifier in
             case provider_get (mw_registry w) pid of
               Inl e \<Rightarrow> Inr (failed_with (thrown_message e) [event ''execution.failed''
                 [(''reason'', JStr (thrown_message e)), (''providerId'', JStr pid)]])
             | Inr generate \<Rightarrow> (case run_config w pid run of
                 Inl (reason, payload) \<Rightarrow> Inr (failed_with reason [event ''execution.failed'' payload])
               | Inr config \<Rightarrow>
                   let sampling = (case get_prop model ''sampling'' of JUndef \<Rightarrow> JObj [] | JNull \<Rightarrow> JObj [] | v \<Rightarrow> v);
                       cred = given (case run of None \<Rightarrow> None | Some r \<Rightarrow> rx_credentialId r);
                       request = event ''model.request''
                         ([(''provider'', JStr pid), (''model'', JStr modelId), (''sampling'', sampling)]
                          @ (case given (cf_baseUrl config) of None \<Rightarrow> [] | Some u \<Rightarrow> [(''baseUrl'', JStr u)])
                          @ (case cred of None \<Rightarrow> [] | Some c \<Rightarrow> [(''credentialId'', JStr c)]))
                   in Inr (settle [request] (generate
                        \<lparr>mr_model = modelId,
                         mr_content = ''Run '' @ runId @ ''. Reply with a one-sentence acknowledgement.'',
                         mr_temperature = num_field (get_prop sampling ''temperature''),
                         mr_maxTokens = num_field (get_prop sampling ''max_tokens'')\<rparr> config))))"

section \<open>Choosing a backend\<close>

datatype executor = ModelEx bool | LocalEx local_options | UnavailableEx string

definition selectExecutor :: "string \<Rightarrow> local_options \<Rightarrow> bool \<Rightarrow> executor" where
  "selectExecutor requested local modelExecEnabled =
     (if requested = ''model'' then ModelEx modelExecEnabled
      else if requested = ''local-process'' \<or> requested = ''trusted-dev'' then LocalEx local
      else UnavailableEx (''Isolation backend '' @ quoted requested @ '' is not available in this deployment. ''
        @ ''The VMM supervisor, egress proxy and credential broker are designed but not built. ''
        @ ''Configure a run with isolationBackend '' @ quoted ''local-process''
        @ '' to execute without isolation, ''
        @ ''and note that the resulting evidence records an unisolated run.''))"

fun unavailableReason :: "executor \<Rightarrow> string option" where
  "unavailableReason (ModelEx enabled) = model_unavailable enabled"
| "unavailableReason (LocalEx opts) = local_unavailable opts"
| "unavailableReason (UnavailableEx reason) = Some reason"

record exec_world =
  xw_execPath :: string
  xw_proc :: "string \<Rightarrow> string list \<Rightarrow> int \<Rightarrow> child"
  xw_model :: model_world

fun execute ::
    "exec_world \<Rightarrow> executor \<Rightarrow> string \<Rightarrow> (string \<times> jsval) list \<Rightarrow> run_context option
      \<Rightarrow> string + execution_result" where
  "execute w (ModelEx enabled) runId manifest run = model_execute enabled (xw_model w) runId manifest run"
| "execute w (LocalEx opts) runId manifest run = Inr (local_execute (xw_execPath w) (xw_proc w) opts runId)"
| "execute w (UnavailableEx reason) runId manifest run = Inr (failed_with reason [])"

section \<open>What the results say\<close>

text \<open>A failure always says why, and a completed run passed its verifier.\<close>

definition honest :: "execution_result \<Rightarrow> bool" where
  "honest r = ((er_outcome r = Failed \<longrightarrow> er_reason r \<noteq> None)
     \<and> (er_outcome r = Completed \<longrightarrow> er_reason r = None
          \<and> (\<exists>e \<in> set (er_events r). ee_action e = ''verifier.result''
               \<and> map_of (ee_payload e) ''passed'' = Some (JBool True))))"

lemma honest_failed [simp]: "honest (failed_with reason events)"
  by (simp add: honest_def failed_with_def)

lemma local_execute_honest: "honest (local_execute execPath proc opts runId)"
proof (cases "given (local_unavailable opts)")
  case None
  then show ?thesis
    by (simp add: local_execute_def Let_def del: honest_failed) (simp add: honest_def failed_with_def event_def)
qed (simp add: local_execute_def)

lemma settle_honest: "honest (settle events answer)"
  by (cases answer)
     (auto simp: settle_def Let_def honest_def failed_with_def response_events_def event_def
       split: thrown.splits)

lemma model_execute_honest: "model_execute enabled w runId manifest run = Inr r \<Longrightarrow> honest r"
  by (auto simp: model_execute_def Let_def settle_honest
      split: option.splits sum.splits if_splits prod.splits)

lemma execute_honest: "execute w x runId manifest run = Inr r \<Longrightarrow> honest r"
  by (cases x) (auto simp: local_execute_honest model_execute_honest)

text \<open>Only three requested backends run anything; every other is refused by name.\<close>

lemma selectExecutor_refuses:
  "requested \<notin> {''model'', ''local-process'', ''trusted-dev''} \<Longrightarrow>
    \<exists>reason. selectExecutor requested local m = UnavailableEx reason \<and> reason \<noteq> []"
  by (simp add: selectExecutor_def)

text \<open>A credential that names a base URL but holds no key is combined with the key of the
  environment: that key goes to that URL.\<close>

lemma run_config_mixes:
  assumes "rx_credentialId r = Some cid" "cid \<noteq> []" "mw_resolve w = Some resolve"
    "resolve (rx_tenantId r) cid = Inr (Some (None, Some url))"
    "env_lookup (mw_env w) ENV_KEYS pid = Some key"
  shows "run_config w pid (Some r) = Inr \<lparr>cf_apiKey = Some key, cf_baseUrl = Some url\<rparr>"
  using assms by (simp add: run_config_def Let_def resolveConfig_def override_def no_overrides_def)

end
