(* ===== verification/Effects.thy ===== *)
theory Effects
  imports Prelude
begin

text \<open>
  Computations over a state that may throw, the shape of every \<open>async\<close> function of the
  services: what was written before an exception stays written. Sequencing, \<open>try\<close>/\<open>catch\<close>,
  and the relations between the state before and after that every such computation keeps.
\<close>

section \<open>Computations\<close>

type_synonym ('s, 'e, 'a) act = "'s \<Rightarrow> ('e + 'a) \<times> 's"

definition ret :: "'a \<Rightarrow> ('s, 'e, 'a) act" where
  "ret x s = (Inr x, s)"

definition throw :: "'e \<Rightarrow> ('s, 'e, 'a) act" where
  "throw e s = (Inl e, s)"

definition andthen :: "('s, 'e, 'a) act \<Rightarrow> ('a \<Rightarrow> ('s, 'e, 'b) act) \<Rightarrow> ('s, 'e, 'b) act" where
  "andthen m f s = (case m s of (Inl e, s') \<Rightarrow> (Inl e, s') | (Inr x, s') \<Rightarrow> f x s')"

definition catch :: "('s, 'e, 'a) act \<Rightarrow> ('e \<Rightarrow> ('s, 'e, 'a) act) \<Rightarrow> ('s, 'e, 'a) act" where
  "catch m h s = (case m s of (Inl e, s') \<Rightarrow> h e s' | (Inr x, s') \<Rightarrow> (Inr x, s'))"

text \<open>A pure computation that may throw, and a state transformer with a result.\<close>

definition lift :: "'e + 'a \<Rightarrow> ('s, 'e, 'a) act" where
  "lift r s = (r, s)"

lemma andthen_Inr: "andthen m f s = (Inr y, s'') \<longleftrightarrow> (\<exists>x s'. m s = (Inr x, s') \<and> f x s' = (Inr y, s''))"
  by (auto simp: andthen_def split: prod.splits sum.splits)

lemma andthen_Inl: "andthen m f s = (Inl e, s'') \<longleftrightarrow>
    m s = (Inl e, s'') \<or> (\<exists>x s'. m s = (Inr x, s') \<and> f x s' = (Inl e, s''))"
  by (auto simp: andthen_def split: prod.splits sum.splits)

lemma andthen_simps [simp]:
  "andthen (ret x) f = f x"
  "andthen (throw e) f = throw e"
  "andthen (lift (Inr x)) f = f x"
  "andthen (lift (Inl e)) f = throw e"
  by (auto simp: andthen_def ret_def throw_def lift_def)

lemma andthen_ret [simp]: "andthen m ret = m"
  by (rule ext) (simp add: andthen_def ret_def split: prod.split sum.split)

lemma andthen_assoc: "andthen (andthen m f) g = andthen m (\<lambda>x. andthen (f x) g)"
  by (rule ext) (simp add: andthen_def split: prod.split sum.split)

section \<open>What a computation keeps\<close>

text \<open>
  A relation between the state before and after, whether the computation returns or throws.
  For a reflexive and transitive relation it is enough that each piece keeps it.
\<close>

definition keeps :: "('s \<Rightarrow> 's \<Rightarrow> bool) \<Rightarrow> ('s, 'e, 'a) act \<Rightarrow> bool" where
  "keeps R m = (\<forall>s. R s (snd (m s)))"

lemma keepsD: "keeps R m \<Longrightarrow> m s = (r, s') \<Longrightarrow> R s s'"
  by (auto simp: keeps_def dest: spec [of _ s])

lemma keeps_ret [intro!]: "(\<And>s. R s s) \<Longrightarrow> keeps R (ret x)"
  by (simp add: keeps_def ret_def)

lemma keeps_throw [intro!]: "(\<And>s. R s s) \<Longrightarrow> keeps R (throw x)"
  by (simp add: keeps_def throw_def)

lemma keeps_lift [intro!]: "(\<And>s. R s s) \<Longrightarrow> keeps R (lift x)"
  by (simp add: keeps_def lift_def)

lemma keeps_andthen [intro!]:
  assumes "\<And>a b c. R a b \<Longrightarrow> R b c \<Longrightarrow> R a c" "keeps R m" "\<And>x. keeps R (f x)"
  shows "keeps R (andthen m f)"
  unfolding keeps_def
proof
  fix s
  obtain r s1 where m: "m s = (r, s1)" by (cases "m s")
  have 1: "R s s1" using keepsD [OF assms(2) m] .
  show "R s (snd (andthen m f s))"
  proof (cases r)
    case (Inr x)
    have "R s1 (snd (f x s1))" using assms(3) by (simp add: keeps_def)
    with 1 assms(1) m Inr show ?thesis by (auto simp: andthen_def)
  qed (use 1 m in \<open>simp add: andthen_def\<close>)
qed

lemma keeps_catch [intro!]:
  assumes "\<And>a b c. R a b \<Longrightarrow> R b c \<Longrightarrow> R a c" "keeps R m" "\<And>e. keeps R (h e)"
  shows "keeps R (catch m h)"
  unfolding keeps_def
proof
  fix s
  obtain r s1 where m: "m s = (r, s1)" by (cases "m s")
  have 1: "R s s1" using keepsD [OF assms(2) m] .
  have "\<And>e. R s1 (snd (h e s1))" using assms(3) by (simp add: keeps_def)
  with 1 assms(1) m show "R s (snd (catch m h s))" by (auto simp: catch_def split: sum.split)
qed

end
