(* ===== verification/Worker.thy ===== *)
theory Worker
  imports Executor Effects
begin

text \<open>
  \<open>worker/worker.ts\<close>: one tick of the run worker over the run store and the audit log, its
  statistics, and the polling loop. A tick may throw where an \<open>await\<close> may (an audit append
  that is refused, a probe that fails), and what it wrote before stays written. The clock is
  one reading per tick; log lines are output and are left out.
\<close>

section \<open>The state and its effects\<close>

record worker_stats =
  ws_claimed :: nat
  ws_completed :: nat
  ws_failed :: nat
  ws_lastActivityAt :: "instant option"

record worker_state =
  wk_runs :: runs
  wk_log :: audit_log
  wk_stats :: worker_stats

text \<open>A computation that may throw, over the state.\<close>

type_synonym 'a action = "(worker_state, string, 'a) act"

definition update_runs :: "(runs \<Rightarrow> runs) \<Rightarrow> unit action" where
  "update_runs f s = (Inr (), s\<lparr>wk_runs := f (wk_runs s)\<rparr>)"

definition update_stats :: "(worker_stats \<Rightarrow> worker_stats) \<Rightarrow> unit action" where
  "update_stats f s = (Inr (), s\<lparr>wk_stats := f (wk_stats s)\<rparr>)"

record worker_options =
  wo_workerId :: string
  wo_selectExecutor :: "string \<Rightarrow> executor"
  wo_world :: exec_world
  wo_captureEnvironment :: "(string + env_record option) option"
  wo_digest :: "bytes \<Rightarrow> bytes"
  wo_string :: "jsval \<Rightarrow> string"

text \<open>\<open>audit.append\<close> under the worker's identity, in the run's tenant, about the run.\<close>

definition run_ctx :: "worker_options \<Rightarrow> run_record \<Rightarrow> tenant_ctx" where
  "run_ctx w r = \<lparr>tc_tenantId = rr_tenantId r, tc_actor = wo_workerId w, tc_scopes = []\<rparr>"

definition audit :: "worker_options \<Rightarrow> instant \<Rightarrow> run_record \<Rightarrow> string \<Rightarrow> (string \<times> jsval) list \<Rightarrow> unit action" where
  "audit w now r action payload s =
     (case audit_append (wo_digest w) now (run_ctx w r)
         \<lparr>sx_action = action, sx_subject = Some (rr_id r), sx_payload = Some payload, sx_recordedAt = None\<rparr>
         (wk_log s) of
       (Inl msg, l) \<Rightarrow> (Inl msg, s\<lparr>wk_log := l\<rparr>)
     | (Inr e, l) \<Rightarrow> (Inr (), s\<lparr>wk_log := l\<rparr>))"

fun audit_events :: "worker_options \<Rightarrow> instant \<Rightarrow> run_record \<Rightarrow> execution_event list \<Rightarrow> unit action" where
  "audit_events w now r [] = ret ()"
| "audit_events w now r (e # es) =
     andthen (audit w now r (ee_action e) (ee_payload e)) (\<lambda>_. audit_events w now r es)"

definition finish :: "instant \<Rightarrow> run_record \<Rightarrow> run_outcome \<Rightarrow> string option \<Rightarrow> unit action" where
  "finish now r outcome reason = update_runs (\<lambda>s. snd (run_finish now (rr_id r) outcome reason s))"

section \<open>The tick\<close>

fun target_name :: "deployment_target \<Rightarrow> string" where
  "target_name TLocal = ''local''"
| "target_name TDocker = ''docker''"
| "target_name TDgxSpark = ''dgx-spark''"
| "target_name TServer = ''server''"
| "target_name TUnknown = ''unknown''"

text \<open>\<open>String(manifest.isolationBackend ?? 'unknown')\<close>; \<open>wo_string\<close> is \<open>String\<close> of the rest.\<close>

definition backend_of :: "worker_options \<Rightarrow> run_record \<Rightarrow> string" where
  "backend_of w r = (case get_prop (JObj (rr_manifest r)) ''isolationBackend'' of
     JUndef \<Rightarrow> ''unknown'' | JNull \<Rightarrow> ''unknown'' | JStr s \<Rightarrow> s | v \<Rightarrow> wo_string w v)"

definition env_payload :: "env_record \<Rightarrow> (string \<times> jsval) list" where
  "env_payload e =
     [(''target'', JStr (target_name (er_deploymentTarget e))), (''architecture'', JStr (er_architecture e))]
     @ (case given (er_gpuName e) of None \<Rightarrow> [] | Some g \<Rightarrow> [(''gpu'', JStr g)])
     @ (case given (er_cudaVersion e) of None \<Rightarrow> [] | Some c \<Rightarrow> [(''cuda'', JStr c)])"

definition capture :: "worker_options \<Rightarrow> instant \<Rightarrow> run_record \<Rightarrow> unit action" where
  "capture w now r = (case wo_captureEnvironment w of
     None \<Rightarrow> ret ()
   | Some (Inl msg) \<Rightarrow> (\<lambda>s. (Inl msg, s))
   | Some (Inr None) \<Rightarrow> ret ()
   | Some (Inr (Some environment)) \<Rightarrow>
       andthen (update_runs (run_setEnvironment (rr_id r) environment))
         (\<lambda>_. audit w now r ''compute.node.selected'' (env_payload environment)))"

definition count_failed :: "unit action" where
  "count_failed = update_stats (\<lambda>st. st\<lparr>ws_failed := ws_failed st + 1\<rparr>)"

definition count_completed :: "unit action" where
  "count_completed = update_stats (\<lambda>st. st\<lparr>ws_completed := ws_completed st + 1\<rparr>)"

text \<open>The three ways a claimed run ends.\<close>

definition end_blocked :: "worker_options \<Rightarrow> instant \<Rightarrow> run_record \<Rightarrow> string \<Rightarrow> unit action" where
  "end_blocked w now r blocked =
     andthen (audit w now r ''execution.unavailable''
         [(''backend'', JStr (backend_of w r)), (''reason'', JStr blocked)]) (\<lambda>_.
     andthen (audit w now r ''run.failed'' [(''reason'', JStr blocked)]) (\<lambda>_.
     andthen (finish now r Failed (Some blocked)) (\<lambda>_. count_failed)))"

definition end_threw :: "worker_options \<Rightarrow> instant \<Rightarrow> run_record \<Rightarrow> string \<Rightarrow> unit action" where
  "end_threw w now r msg =
     (let reason = ''Executor threw: '' @ msg in
      andthen (audit w now r ''run.failed'' [(''reason'', JStr reason)]) (\<lambda>_.
      andthen (finish now r Failed (Some reason)) (\<lambda>_. count_failed)))"

definition end_result :: "worker_options \<Rightarrow> instant \<Rightarrow> run_record \<Rightarrow> execution_result \<Rightarrow> unit action" where
  "end_result w now r result =
     andthen (audit_events w now r (er_events result)) (\<lambda>_.
     andthen (audit w now r (if er_outcome result = Completed then ''run.completed'' else ''run.failed'')
         (case given (er_reason result) of None \<Rightarrow> [] | Some m \<Rightarrow> [(''reason'', JStr m)])) (\<lambda>_.
     andthen (finish now r (er_outcome result) (er_reason result)) (\<lambda>_.
       if er_outcome result = Completed then count_completed else count_failed)))"

definition run_claimed :: "worker_options \<Rightarrow> instant \<Rightarrow> run_record \<Rightarrow> unit action" where
  "run_claimed w now r =
     andthen (audit w now r ''run.claimed''
         [(''worker'', JStr (wo_workerId w)), (''backend'', JStr (backend_of w r))]) (\<lambda>_.
     andthen (capture w now r) (\<lambda>_.
       let executor = wo_selectExecutor w (backend_of w r) in
       case given (unavailableReason executor) of
         Some blocked \<Rightarrow> end_blocked w now r blocked
       | None \<Rightarrow> (case execute (wo_world w) executor (rr_id r) (rr_manifest r)
             (Some \<lparr>rx_tenantId = rr_tenantId r, rx_credentialId = given (rr_credentialId r)\<rparr>) of
           Inl msg \<Rightarrow> end_threw w now r msg
         | Inr result \<Rightarrow> end_result w now r result)))"

definition tick :: "worker_options \<Rightarrow> instant \<Rightarrow> bool action" where
  "tick w now s = (case run_claimNext now (wo_workerId w) (wk_runs s) of
     (None, t) \<Rightarrow> (Inr False, s\<lparr>wk_runs := t\<rparr>)
   | (Some r, t) \<Rightarrow>
       andthen (update_stats (\<lambda>st. st\<lparr>ws_claimed := ws_claimed st + 1, ws_lastActivityAt := Some now\<rparr>))
         (\<lambda>_. andthen (run_claimed w now r) (\<lambda>_. ret True)) (s\<lparr>wk_runs := t\<rparr>))"

text \<open>
  The loop, for the clock readings of its ticks: a tick that throws is logged and the loop
  goes on, and so it does after an empty one, once the poll interval has passed.
\<close>

fun worker_loop :: "worker_options \<Rightarrow> instant list \<Rightarrow> worker_state \<Rightarrow> worker_state" where
  "worker_loop w [] s = s"
| "worker_loop w (now # ts) s = worker_loop w ts (snd (tick w now s))"

record worker_status =
  wt_running :: bool
  wt_workerId :: string
  wt_claimed :: nat
  wt_completed :: nat
  wt_failed :: nat
  wt_lastActivityAt :: "instant option"

definition status :: "worker_options \<Rightarrow> bool \<Rightarrow> worker_state \<Rightarrow> worker_status" where
  "status w stopped s = \<lparr>wt_running = (\<not> stopped), wt_workerId = wo_workerId w,
     wt_claimed = ws_claimed (wk_stats s), wt_completed = ws_completed (wk_stats s),
     wt_failed = ws_failed (wk_stats s), wt_lastActivityAt = ws_lastActivityAt (wk_stats s)\<rparr>"

section \<open>Effects of the actions\<close>

text \<open>The entries of a tick: appended, about the run, by the worker, in the run's tenant.\<close>

definition entry_by :: "worker_options \<Rightarrow> run_record \<Rightarrow> audit_entry \<Rightarrow> bool" where
  "entry_by w r e = (ae_subject e = Some (rr_id r) \<and> ae_actor e = wo_workerId w \<and> ae_tenantId e = rr_tenantId r)"

definition logs :: "worker_options \<Rightarrow> run_record \<Rightarrow> worker_state \<Rightarrow> worker_state \<Rightarrow> bool" where
  "logs w r s s' = ((log_inv (wo_digest w) (wk_log s) \<longrightarrow> log_inv (wo_digest w) (wk_log s'))
     \<and> (\<exists>es. al_entries (wk_log s') = al_entries (wk_log s) @ es \<and> (\<forall>e \<in> set es. entry_by w r e)))"

lemma logs_refl [simp]: "logs w r s s"
  by (simp add: logs_def)

lemma logs_trans: "logs w r a b \<Longrightarrow> logs w r b c \<Longrightarrow> logs w r a c"
  unfolding logs_def by fastforce

lemma log_append_subject:
  "log_append H now l ev = (Inr e, l') \<Longrightarrow> ae_subject e = ev_subject ev"
  by (auto simp: log_append_def Let_def split: if_splits sum.splits)

lemma audit_logs: "keeps (logs w r) (audit w now r action payload)"
  unfolding keeps_def
proof
  fix s
  let ?ev = "\<lparr>ev_action = action, ev_actor = wo_workerId w, ev_tenantId = rr_tenantId r,
    ev_subject = Some (rr_id r), ev_payload = Some payload, ev_recordedAt = None\<rparr>"
  have a: "audit w now r action payload s = (case log_append (wo_digest w) now (wk_log s) ?ev of
      (Inl msg, l) \<Rightarrow> (Inl msg, s\<lparr>wk_log := l\<rparr>) | (Inr e, l) \<Rightarrow> (Inr (), s\<lparr>wk_log := l\<rparr>))"
    by (simp add: audit_def audit_append_def run_ctx_def)
  note inv = log_append_inv [of "wo_digest w" "wk_log s" now ?ev]
  show "logs w r s (snd (audit w now r action payload s))"
  proof (cases rule: log_append_cases [of "wo_digest w" now "wk_log s" ?ev])
    case (refused msg)
    then show ?thesis using inv by (simp add: a logs_def)
  next
    case (sealed e)
    have "ae_subject e = Some (rr_id r)" using log_append_subject [OF sealed(1)] by simp
    then show ?thesis using sealed inv by (simp add: a logs_def entry_by_def)
  qed
qed

lemma keeps_runs: "keeps (logs w r) (update_runs f)" "keeps (logs w r) (update_stats g)"
  by (simp_all add: keeps_def update_runs_def update_stats_def logs_def)

lemma audit_events_logs: "keeps (logs w r) (audit_events w now r es)"
  by (induction es) (auto intro: audit_logs logs_trans)

lemma capture_logs: "keeps (logs w r) (capture w now r)"
  unfolding capture_def
  by (auto simp: keeps_def [of _ "\<lambda>s. (Inl _, s)"] intro: audit_logs logs_trans keeps_runs split: option.splits sum.splits)

lemmas worker_logs = audit_logs audit_events_logs capture_logs keeps_runs

lemma run_claimed_logs: "keeps (logs w r) (run_claimed w now r)"
  unfolding run_claimed_def end_blocked_def end_threw_def end_result_def finish_def count_failed_def
    count_completed_def Let_def
  by (auto intro: worker_logs logs_trans split: option.splits sum.splits)


section \<open>What becomes of the run\<close>

definition status_of :: "worker_state \<Rightarrow> string \<Rightarrow> run_status option" where
  "status_of s k = map_option rr_status (map_get (wk_runs s) k)"

definition settled :: "worker_state \<Rightarrow> nat" where
  "settled s = ws_completed (wk_stats s) + ws_failed (wk_stats s)"

text \<open>Before the end, no status and no count changes; the end changes the run's, and one count.\<close>

definition pending :: "worker_state \<Rightarrow> worker_state \<Rightarrow> bool" where
  "pending s s' = ((keyed rr_id (wk_runs s) \<longrightarrow> keyed rr_id (wk_runs s'))
     \<and> status_of s' = status_of s \<and> wk_stats s' = wk_stats s)"

definition concluded :: "string \<Rightarrow> worker_state \<Rightarrow> worker_state \<Rightarrow> bool" where
  "concluded k s s' = ((keyed rr_id (wk_runs s) \<longrightarrow> keyed rr_id (wk_runs s'))
     \<and> (\<forall>j. j \<noteq> k \<longrightarrow> status_of s' j = status_of s j)
     \<and> (status_of s k \<noteq> None \<longrightarrow> status_of s' k \<in> {Some RCompleted, Some RFailed})
     \<and> settled s' = settled s + 1 \<and> ws_claimed (wk_stats s') = ws_claimed (wk_stats s))"

definition closing :: "string \<Rightarrow> unit action \<Rightarrow> bool" where
  "closing k m = (\<forall>s. case m s of (Inl _, s') \<Rightarrow> pending s s' | (Inr _, s') \<Rightarrow> concluded k s s')"

lemma pending_refl [simp]: "pending s s"
  by (simp add: pending_def)

lemma pending_trans: "pending a b \<Longrightarrow> pending b c \<Longrightarrow> pending a c"
  by (simp add: pending_def)

lemma pending_concluded: "pending a b \<Longrightarrow> concluded k b c \<Longrightarrow> concluded k a c"
  by (simp add: pending_def concluded_def settled_def)

lemma closing_andthen:
  assumes "keeps pending m" "\<And>x. closing k (f x)"
  shows "closing k (andthen m f)"
  unfolding closing_def
proof
  fix s
  obtain r s1 where m: "m s = (r, s1)" by (cases "m s")
  have 1: "pending s s1" using assms(1) m by (auto simp: keeps_def dest: spec [of _ s])
  show "case andthen m f s of (Inl _, s') \<Rightarrow> pending s s' | (Inr _, s') \<Rightarrow> concluded k s s'"
  proof (cases r)
    case (Inr x)
    obtain r2 s2 where f: "f x s1 = (r2, s2)" by (cases "f x s1")
    have "case f x s1 of (Inl _, s') \<Rightarrow> pending s1 s' | (Inr _, s') \<Rightarrow> concluded k s1 s'"
      using assms(2) by (simp add: closing_def)
    with f have 2: "case r2 of Inl _ \<Rightarrow> pending s1 s2 | Inr _ \<Rightarrow> concluded k s1 s2" by simp
    show ?thesis using 1 2 m Inr f pending_trans pending_concluded
      by (cases r2) (auto simp: andthen_def)
  qed (use 1 m in \<open>simp add: andthen_def\<close>)
qed

lemma audit_pending: "keeps pending (audit w now r action payload)"
  by (auto simp: keeps_def audit_def pending_def status_of_def split: prod.splits sum.splits)

lemma audit_events_pending: "keeps pending (audit_events w now r es)"
  by (induction es) (auto intro: audit_pending pending_trans)

lemma setEnvironment_keyed: "keyed rr_id s \<Longrightarrow> keyed rr_id (run_setEnvironment k e s)"
proof (cases "map_get s k")
  case (Some r)
  assume kd: "keyed rr_id s"
  then have "rr_id r = k" using Some by (rule keyed_get)
  with kd Some show ?thesis by (auto simp: run_setEnvironment_def)
qed (simp add: run_setEnvironment_def)

lemma setEnvironment_pending: "keeps pending (update_runs (run_setEnvironment k e))"
  unfolding keeps_def
proof
  fix s
  have "status_of (snd (update_runs (run_setEnvironment k e) s)) j = status_of s j" for j
    by (simp add: update_runs_def status_of_def run_setEnvironment_def map_get_set split: option.splits)
  then show "pending s (snd (update_runs (run_setEnvironment k e) s))"
    using setEnvironment_keyed by (auto simp: pending_def update_runs_def)
qed

lemma capture_pending: "keeps pending (capture w now r)"
  unfolding capture_def
  by (auto simp: keeps_def [of _ "\<lambda>s. (Inl _, s)"] intro: audit_pending pending_trans setEnvironment_pending
      split: option.splits sum.splits)

lemma run_finish_effect:
  "map_get (snd (run_finish now k out reason s)) j = (if j = k
    then map_option (\<lambda>r. r\<lparr>rr_status := outcome_status out, rr_completedAt := Some now,
      rr_failureReason := (case given reason of None \<Rightarrow> rr_failureReason r | Some m \<Rightarrow> Some m)\<rparr>) (map_get s k)
    else map_get s j)"
  by (simp add: run_finish_def Let_def map_get_set split: option.splits)

lemma run_finish_keyed: "keyed rr_id s \<Longrightarrow> keyed rr_id (snd (run_finish now k out reason s))"
proof (cases "map_get s k")
  case (Some r)
  assume kd: "keyed rr_id s"
  then have "rr_id r = k" using Some by (rule keyed_get)
  with kd Some show ?thesis by (auto simp: run_finish_def Let_def)
qed (simp add: run_finish_def)

lemma closing_finish:
  "closing (rr_id r) (andthen (finish now r out reason) (\<lambda>_. count_failed))"
  "closing (rr_id r) (andthen (finish now r out reason) (\<lambda>_. count_completed))"
  by (cases out; auto simp: closing_def andthen_def finish_def update_runs_def update_stats_def count_failed_def
      count_completed_def concluded_def settled_def status_of_def run_finish_effect run_finish_keyed)+

lemmas worker_pending = audit_pending audit_events_pending capture_pending

lemma end_blocked_closing: "closing (rr_id r) (end_blocked w now r blocked)"
  unfolding end_blocked_def
  by (rule closing_andthen, rule audit_pending, rule closing_andthen, rule audit_pending, rule closing_finish(1))

lemma end_threw_closing: "closing (rr_id r) (end_threw w now r msg)"
  unfolding end_threw_def Let_def by (rule closing_andthen, rule audit_pending, rule closing_finish(1))

lemma end_result_closing: "closing (rr_id r) (end_result w now r result)"
proof -
  have "closing (rr_id r) (andthen (finish now r (er_outcome result) (er_reason result))
      (\<lambda>_. if er_outcome result = Completed then count_completed else count_failed))"
    using closing_finish by simp
  then show ?thesis unfolding end_result_def
    by (intro closing_andthen [OF audit_events_pending] closing_andthen [OF audit_pending])
qed

lemma run_claimed_closing: "closing (rr_id r) (run_claimed w now r)"
  unfolding run_claimed_def Let_def
  by (rule closing_andthen [OF audit_pending], rule closing_andthen [OF capture_pending])
    (simp add: end_blocked_closing end_threw_closing end_result_closing split: option.splits sum.splits)

section \<open>The queue runs dry\<close>

definition waiting :: "worker_state \<Rightarrow> string set" where
  "waiting s = {k. status_of s k = Some RQueued}"

lemma finite_waiting: "finite (waiting s)"
proof -
  have "waiting s \<subseteq> fst ` set (wk_runs s)"
    by (force simp: waiting_def status_of_def dest: map_of_SomeD)
  then show ?thesis by (rule finite_subset) simp
qed

lemma waiting_queued: "keyed rr_id (wk_runs s) \<Longrightarrow> waiting s = rr_id ` set (queued (wk_runs s))"
proof -
  assume kd: "keyed rr_id (wk_runs s)"
  have "k \<in> waiting s \<longleftrightarrow> k \<in> rr_id ` set (queued (wk_runs s))" for k
  proof
    assume "k \<in> waiting s"
    then obtain r where r: "map_get (wk_runs s) k = Some r" "rr_status r = RQueued"
      by (auto simp: waiting_def status_of_def)
    moreover from this have "rr_id r = k" using keyed_get [OF kd] by simp
    ultimately have "r \<in> set (queued (wk_runs s))" by (simp add: set_queued [OF kd])
    with \<open>rr_id r = k\<close> show "k \<in> rr_id ` set (queued (wk_runs s))" by blast
  next
    assume "k \<in> rr_id ` set (queued (wk_runs s))"
    then show "k \<in> waiting s" by (auto simp: waiting_def status_of_def set_queued [OF kd])
  qed
  then show ?thesis by blast
qed

text \<open>The state in which the claimed run is executed.\<close>

definition claimed_state :: "instant \<Rightarrow> run_record \<Rightarrow> worker_options \<Rightarrow> worker_state \<Rightarrow> worker_state" where
  "claimed_state now r w s = s\<lparr>wk_runs := map_set (rr_id r) (claim_record now (wo_workerId w) r) (wk_runs s),
     wk_stats := (wk_stats s)\<lparr>ws_claimed := ws_claimed (wk_stats s) + 1, ws_lastActivityAt := Some now\<rparr>\<rparr>"

lemma tick_cases:
  obtains (idle) "queued (wk_runs s) = []" "tick w now s = (Inr False, s)"
  | (ran) r where "r \<in> set (queued (wk_runs s))" "\<forall>q \<in> set (queued (wk_runs s)). rr_createdAt r \<le> rr_createdAt q"
      "tick w now s = andthen (run_claimed w now (claim_record now (wo_workerId w) r)) (\<lambda>_. ret True)
        (claimed_state now r w s)"
proof (cases rule: claimNext_cases [of "wk_runs s" now "wo_workerId w"])
  case idle
  then show ?thesis by (intro that(1)) (simp_all add: tick_def)
next
  case (claimed r)
  then show ?thesis
    by (intro that(2) [of r]) (simp_all add: tick_def claimed_state_def andthen_def update_stats_def)
qed

lemma claimed_state_facts:
  assumes "keyed rr_id (wk_runs s)" "r \<in> set (queued (wk_runs s))"
  shows "keyed rr_id (wk_runs (claimed_state now r w s))"
    "status_of (claimed_state now r w s) j = (if j = rr_id r then Some RRunning else status_of s j)"
    "settled (claimed_state now r w s) = settled s"
    "ws_claimed (wk_stats (claimed_state now r w s)) = ws_claimed (wk_stats s) + 1"
    "wk_log (claimed_state now r w s) = wk_log s"
  using assms by (auto simp: claimed_state_def status_of_def map_get_set settled_def)

lemma tick_ran:
  assumes "keyed rr_id (wk_runs s)" "queued (wk_runs s) \<noteq> []"
  obtains r s' where "r \<in> set (queued (wk_runs s))"
    "\<forall>q \<in> set (queued (wk_runs s)). rr_createdAt r \<le> rr_createdAt q"
    "tick w now s = (Inr True, s') \<and> concluded (rr_id r) (claimed_state now r w s) s'
     \<or> (\<exists>e. tick w now s = (Inl e, s')) \<and> pending (claimed_state now r w s) s'"
proof (cases rule: tick_cases [of s w now])
  case (ran r)
  let ?c = "claim_record now (wo_workerId w) r" and ?s = "claimed_state now r w s"
  obtain x s' where x: "run_claimed w now ?c ?s = (x, s')" by (cases "run_claimed w now ?c ?s")
  have "case x of Inl _ \<Rightarrow> pending ?s s' | Inr _ \<Rightarrow> concluded (rr_id r) ?s s'"
    using run_claimed_closing [of ?c w now] x by (auto simp: closing_def dest!: spec [of _ ?s])
  moreover have "tick w now s = (case x of Inl e \<Rightarrow> (Inl e, s') | Inr _ \<Rightarrow> (Inr True, s'))"
    unfolding ran(3) andthen_def x by (simp add: ret_def split: sum.splits)
  ultimately show ?thesis using ran(1,2) by (intro that [of r s']) (auto split: sum.splits)
qed (use assms in simp)

lemma tick_waiting:
  assumes "keyed rr_id (wk_runs s)"
  shows "keyed rr_id (wk_runs (snd (tick w now s)))"
    "card (waiting (snd (tick w now s))) = card (waiting s) - 1"
proof -
  have "keyed rr_id (wk_runs (snd (tick w now s))) \<and> card (waiting (snd (tick w now s))) = card (waiting s) - 1"
  proof (cases "queued (wk_runs s) = []")
    case True
    then have "waiting s = {}" using waiting_queued [OF assms] by simp
    then show ?thesis using assms True by (cases rule: tick_cases [of s w now]) auto
  next
    case False
    then obtain r s' where r: "r \<in> set (queued (wk_runs s))"
      and t: "tick w now s = (Inr True, s') \<and> concluded (rr_id r) (claimed_state now r w s) s'
        \<or> (\<exists>e. tick w now s = (Inl e, s')) \<and> pending (claimed_state now r w s) s'"
      using tick_ran [OF assms] by metis
    note c = claimed_state_facts [OF assms r, of now w]
    have "keyed rr_id (wk_runs s')" using t c(1) by (auto simp: pending_def concluded_def)
    moreover have "waiting s' = waiting s - {rr_id r}"
    proof -
      have o: "status_of s' j = status_of s j" if "j \<noteq> rr_id r" for j
        using t c(2) [of j] that by (auto simp: pending_def concluded_def)
      have n: "status_of s' (rr_id r) \<noteq> Some RQueued"
        using t c(2) [of "rr_id r"] by (auto simp: pending_def concluded_def)
      have "j \<in> waiting s' \<longleftrightarrow> j \<in> waiting s - {rr_id r}" for j
        using o [of j] n by (cases "j = rr_id r") (simp_all add: waiting_def)
      then show ?thesis by blast
    qed
    moreover have "rr_id r \<in> waiting s" using r waiting_queued [OF assms] by simp
    ultimately show ?thesis using t finite_waiting by (auto simp: card_Diff_singleton)
  qed
  then show "keyed rr_id (wk_runs (snd (tick w now s)))"
    "card (waiting (snd (tick w now s))) = card (waiting s) - 1" by simp_all
qed

lemma loop_waiting:
  "keyed rr_id (wk_runs s) \<Longrightarrow> card (waiting (worker_loop w ts s)) = card (waiting s) - length ts"
proof (induction ts arbitrary: s)
  case (Cons now ts)
  then show ?case using tick_waiting [OF Cons.prems, of w now] by simp
qed simp

end
