(* ===== verification/Run_Lifecycle.thy ===== *)
theory Run_Lifecycle
  imports Worker
begin

text \<open>
  The life of a run under every interleaving of the operations of \<open>InMemoryRunStore\<close>: API
  calls and any number of workers. Each operation is one step of a labelled transition
  relation; a trace records the operations and what they returned.
\<close>

datatype run_op =
    OpCreate tenant_ctx run_record
  | OpStatus instant tenant_ctx string run_status
  | OpEnvironment string env_record
  | OpClaim instant string
  | OpFinish instant string run_outcome "string option"

inductive run_step :: "runs \<Rightarrow> run_op \<times> run_record option \<Rightarrow> runs \<Rightarrow> bool" where
  create: "run_create ctx r s = (r', s') \<Longrightarrow> run_step s (OpCreate ctx r, Some r') s'"
| set_status: "run_setStatus now ctx k st s = (res, s') \<Longrightarrow> run_step s (OpStatus now ctx k st, res) s'"
| environment: "run_step s (OpEnvironment k e, None) (run_setEnvironment k e s)"
| claim: "run_claimNext now w s = (res, s') \<Longrightarrow> run_step s (OpClaim now w, res) s'"
| finish: "run_finish now k out reason s = (res, s') \<Longrightarrow> run_step s (OpFinish now k out reason, res) s'"

inductive_cases run_stepE [elim!]: "run_step s (OpCreate ctx r, res) s'" "run_step s (OpStatus now ctx k st, res) s'"
  "run_step s (OpEnvironment k e, res) s'" "run_step s (OpClaim now w, res) s'"
  "run_step s (OpFinish now k out reason, res) s'"

inductive_simps run_step_simps: "run_step s (OpCreate ctx r, res) s'" "run_step s (OpStatus now ctx k st, res) s'"
  "run_step s (OpEnvironment k e, res) s'" "run_step s (OpClaim now w, res) s'"
  "run_step s (OpFinish now k out reason, res) s'"

type_synonym run_event = "run_op \<times> run_record option"

inductive run_trace :: "runs \<Rightarrow> run_event list \<Rightarrow> runs \<Rightarrow> bool" where
  none: "run_trace s [] s"
| more: "run_step s ev t \<Longrightarrow> run_trace t evs u \<Longrightarrow> run_trace s (ev # evs) u"

inductive_simps run_trace_simps: "run_trace s [] u" "run_trace s (ev # evs) u"

section \<open>Every step is a function\<close>

lemma run_step_total: "\<exists>res s'. run_step s (op, res) s'"
proof (cases op)
  case (OpCreate ctx r)
  then show ?thesis by (metis run_step.create prod.exhaust)
next
  case (OpStatus now ctx k st)
  then show ?thesis by (metis run_step.set_status prod.exhaust)
next
  case (OpEnvironment k e)
  then show ?thesis using run_step.environment by blast
next
  case (OpClaim now w)
  then show ?thesis by (metis run_step.claim prod.exhaust)
next
  case (OpFinish now k out reason)
  then show ?thesis by (metis run_step.finish prod.exhaust)
qed

lemma run_step_det: "run_step s (op, res) s' \<Longrightarrow> run_step s (op, res2) s2 \<Longrightarrow> res2 = res \<and> s2 = s'"
  by (cases op) auto

section \<open>The map stays keyed\<close>

lemma setStatus_keyed: "keyed rr_id s \<Longrightarrow> keyed rr_id (snd (run_setStatus now ctx k st s))"
proof (cases "run_get s ctx k")
  case (Some r)
  assume kd: "keyed rr_id s"
  then have "rr_id r = k" using Some by (rule rs.get_ident)
  with kd Some show ?thesis by (auto simp: run_setStatus_def Let_def)
qed (simp add: run_setStatus_def)

lemma run_step_keyed: "run_step s ev s' \<Longrightarrow> keyed rr_id s \<Longrightarrow> keyed rr_id s'"
proof (induction rule: run_step.induct)
  case (create ctx r s r' s')
  then show ?case using rs.wf_create [of s ctx r] by simp
next
  case (set_status now ctx k st s res s')
  then show ?case using setStatus_keyed [of s now ctx k st] by simp
next
  case (environment s k e)
  then show ?case by (rule setEnvironment_keyed)
next
  case (claim now w s res s')
  then show ?case using claimNext_keyed [of s now w] by simp
next
  case (finish now k out reason s res s')
  then show ?case using run_finish_keyed [of s now k out reason] by simp
qed

lemma run_trace_keyed: "run_trace s evs u \<Longrightarrow> keyed rr_id s \<Longrightarrow> keyed rr_id u"
  by (induction rule: run_trace.induct) (auto intro: run_step_keyed)

section \<open>A queued run is claimed once\<close>

definition is_queued :: "string \<Rightarrow> runs \<Rightarrow> bool" where
  "is_queued k s = (\<exists>r. map_get s k = Some r \<and> rr_status r = RQueued)"

text \<open>Whether an event hands out the run, or puts it in the queue.\<close>

fun hands_out :: "string \<Rightarrow> run_event \<Rightarrow> bool" where
  "hands_out k (OpClaim now w, Some r) = (rr_id r = k)"
| "hands_out k _ = False"

fun enqueues :: "string \<Rightarrow> run_event \<Rightarrow> bool" where
  "enqueues k (OpCreate ctx r, _) = (rr_id r = k \<and> rr_status r = RQueued)"
| "enqueues k (OpStatus now ctx j st, Some _) = (j = k \<and> st = RQueued)"
| "enqueues k _ = False"

definition count_ev :: "('a \<Rightarrow> bool) \<Rightarrow> 'a list \<Rightarrow> nat" where
  "count_ev P xs = length (filter P xs)"

lemma count_ev_simps [simp]: "count_ev P [] = 0" "count_ev P (x # xs) = (if P x then 1 else 0) + count_ev P xs"
  by (simp_all add: count_ev_def)

definition flag :: "bool \<Rightarrow> nat" where
  "flag b = (if b then 1 else 0)"

lemma flag_simps [simp]: "flag True = 1" "flag False = 0"
  by (simp_all add: flag_def)

lemma claim_is_queued:
  assumes "keyed rr_id s" "run_claimNext now w s = (res, s')"
  shows "flag (hands_out k (OpClaim now w, res)) + flag (is_queued k s') \<le> flag (is_queued k s)"
proof (cases rule: claimNext_cases [of s now w])
  case idle
  then show ?thesis using assms(2) by simp
next
  case (claimed r)
  then have "res = Some (claim_record now w r)" "s' = map_set (rr_id r) (claim_record now w r) s"
    using assms(2) by simp_all
  moreover have "is_queued (rr_id r) s" using claimed(1) by (auto simp: is_queued_def set_queued [OF assms(1)])
  ultimately show ?thesis by (auto simp: is_queued_def map_get_set flag_def)
qed

lemma run_step_balance:
  "run_step s ev s' \<Longrightarrow> keyed rr_id s \<Longrightarrow>
    flag (hands_out k ev) + flag (is_queued k s') \<le> flag (enqueues k ev) + flag (is_queued k s)"
proof (induction rule: run_step.induct)
  case (create ctx r s r' s')
  then show ?case by (auto simp: run_create_def Let_def is_queued_def map_get_set flag_def split: if_splits)
next
  case (set_status now ctx j st s res s')
  then show ?case
    by (auto simp: run_setStatus_def Let_def is_queued_def map_get_set flag_def split: option.splits if_splits)
next
  case (environment s j e)
  then show ?case
    by (auto simp: run_setEnvironment_def is_queued_def map_get_set flag_def split: option.splits if_splits)
next
  case (claim now w s res s')
  then show ?case using claim_is_queued [of s now w res s' k] by simp
next
  case (finish now j out reason s res s')
  then have "s' = snd (run_finish now j out reason s)" by simp
  then show ?case by (cases out) (auto simp: is_queued_def run_finish_effect flag_def)
qed

lemma run_trace_balance:
  "run_trace s evs u \<Longrightarrow> keyed rr_id s \<Longrightarrow>
    count_ev (hands_out k) evs + flag (is_queued k u) \<le> count_ev (enqueues k) evs + flag (is_queued k s)"
proof (induction rule: run_trace.induct)
  case (more s ev t evs u)
  have "count_ev (hands_out k) evs + flag (is_queued k u) \<le> count_ev (enqueues k) evs + flag (is_queued k t)"
    using more.IH run_step_keyed [OF more.hyps(1) more.prems] .
  moreover have "flag (hands_out k ev) + flag (is_queued k t) \<le> flag (enqueues k ev) + flag (is_queued k s)"
    using run_step_balance [OF more.hyps(1) more.prems] .
  ultimately show ?case by (simp add: flag_def)
qed simp

section \<open>A cancelled run does not stay cancelled\<close>

definition demo_ctx :: tenant_ctx where
  "demo_ctx = \<lparr>tc_tenantId = ''acme'', tc_actor = ''ann'', tc_scopes = []\<rparr>"

definition demo_run :: run_record where
  "demo_run = \<lparr>rr_id = ''r1'', rr_tenantId = ''acme'', rr_status = RQueued, rr_manifest = [],
     rr_retentionRules = [], rr_createdAt = 5, rr_startedAt = None, rr_completedAt = None,
     rr_claimedBy = None, rr_claimedAt = None, rr_failureReason = None, rr_credentialId = None,
     rr_executionEnvironment = None\<rparr>"

definition demo_trace :: "runs" where
  "demo_trace = (let s1 = snd (run_create demo_ctx demo_run []); s2 = snd (run_claimNext 10 ''w'' s1);
     s3 = snd (run_setStatus 11 demo_ctx ''r1'' RCancelled s2) in snd (run_finish 12 ''r1'' Completed None s3))"

lemma cancelled_then_completed:
  "\<exists>evs. run_trace [] evs demo_trace
    \<and> map fst evs = [OpCreate demo_ctx demo_run, OpClaim 10 ''w'', OpStatus 11 demo_ctx ''r1'' RCancelled,
        OpFinish 12 ''r1'' Completed None]
    \<and> map_option rr_status (map_get demo_trace ''r1'') = Some RCompleted"
proof -
  let ?s1 = "run_create demo_ctx demo_run []"
  let ?s2 = "run_claimNext 10 ''w'' (snd ?s1)"
  let ?s3 = "run_setStatus 11 demo_ctx ''r1'' RCancelled (snd ?s2)"
  let ?s4 = "run_finish 12 ''r1'' Completed None (snd ?s3)"
  have d: "demo_trace = snd ?s4" by (simp add: demo_trace_def Let_def)
  have "run_trace [] [(OpCreate demo_ctx demo_run, Some (fst ?s1)), (OpClaim 10 ''w'', fst ?s2),
      (OpStatus 11 demo_ctx ''r1'' RCancelled, fst ?s3), (OpFinish 12 ''r1'' Completed None, fst ?s4)] demo_trace"
    unfolding d by (rule run_trace.intros run_step.intros surjective_pairing)+
  moreover have "map_option rr_status (map_get demo_trace ''r1'') = Some RCompleted" by code_simp
  ultimately show ?thesis by (intro exI conjI) auto
qed

end
