(* ===== verification/Float64.thy ===== *)
theory Float64
  imports Js "HOL-Library.Log_Nat"
begin

text \<open>
  JavaScript numbers where the source computes with fractions. A finite IEEE 754 double is
  its exact rational value; every arithmetic operation is the exact one followed by
  \<open>fl\<close>, rounding to 53 significant bits, ties to even, with gradual underflow. The sign of
  zero is not kept, and magnitudes at or beyond \<open>2 ^ 1024\<close>, which the quantities modelled
  (token counts, dollars, bytes, milliseconds, scores) do not reach, are not infinities here.
\<close>

section \<open>Rounding\<close>

definition round_even :: "rat \<Rightarrow> int" where
  "round_even x = (let f = \<lfloor>x\<rfloor>; r = x - of_int f in
     if r < 1 / 2 then f else if 1 / 2 < r then f + 1 else if even f then f else f + 1)"

text \<open>The exponent of the leading bit: \<open>2 powi expo x \<le> \<bar>x\<bar> < 2 powi (expo x + 1)\<close>.\<close>

definition expo :: "rat \<Rightarrow> int" where
  "expo x = (case quotient_of \<bar>x\<bar> of (n, d) \<Rightarrow>
     let k = bitlen n - bitlen d in if \<bar>x\<bar> < 2 powi k then k - 1 else k)"

definition ulp :: "rat \<Rightarrow> rat" where
  "ulp x = 2 powi (max (expo x) (- 1022) - 52)"

definition fl :: "rat \<Rightarrow> rat" where
  "fl x = (if x = 0 then 0 else of_int (round_even (x / ulp x)) * ulp x)"

text \<open>The operations.\<close>

definition fadd :: "rat \<Rightarrow> rat \<Rightarrow> rat" where "fadd x y = fl (x + y)"
definition fsub :: "rat \<Rightarrow> rat \<Rightarrow> rat" where "fsub x y = fl (x - y)"
definition fmul :: "rat \<Rightarrow> rat \<Rightarrow> rat" where "fmul x y = fl (x * y)"
definition fdiv :: "rat \<Rightarrow> rat \<Rightarrow> rat" where "fdiv x y = fl (x / y)"

text \<open>\<open>Math.round\<close> (ties towards positive infinity).\<close>

definition math_round :: "rat \<Rightarrow> int" where
  "math_round x = \<lfloor>x + 1 / 2\<rfloor>"

text \<open>\<open>x.toFixed(k)\<close> of a number below \<open>10 ^ 21\<close>: the nearest multiple, the larger on a tie.\<close>

definition pad_left :: "nat \<Rightarrow> string \<Rightarrow> string" where
  "pad_left k s = replicate (k - length s) (CHR ''0'') @ s"

definition to_fixed :: "nat \<Rightarrow> rat \<Rightarrow> string" where
  "to_fixed k x =
     (let n = \<lfloor>\<bar>x\<bar> * 10 ^ k + 1 / 2\<rfloor>; ds = pad_left (k + 1) (show_int n); i = length ds - k
      in (if x < 0 then ''-'' else []) @ take i ds @ (if k = 0 then [] else ''.'' @ drop i ds))"

section \<open>Numbers as text\<close>

text \<open>
  \<open>Number::toString\<close> for a finite double: the fewest digits that round to it. The decimal
  exponent \<open>n\<close> has \<open>10 powi (n - 1) \<le> x < 10 powi n\<close>; 340 steps reach every small double.
\<close>

fun shift_up :: "nat \<Rightarrow> rat \<Rightarrow> int" where
  "shift_up 0 x = 1"
| "shift_up (Suc fuel) x = (if 1 \<le> x then 1 else shift_up fuel (10 * x) - 1)"

definition dec_expo :: "rat \<Rightarrow> int" where
  "dec_expo x = (if 1 \<le> x then int (length (show_nat (nat \<lfloor>x\<rfloor>))) else shift_up 340 x)"

fun shortest :: "nat \<Rightarrow> nat \<Rightarrow> int \<Rightarrow> rat \<Rightarrow> nat \<times> nat" where
  "shortest 0 k n x = (nat \<lfloor>x * 10 powi (int k - n)\<rfloor>, k)"
| "shortest (Suc fuel) k n x =
     (let s = \<lfloor>x * 10 powi (int k - n)\<rfloor>; back = (\<lambda>i. of_int i * 10 powi (n - int k) :: rat);
          lo = (fl (back s) = x); hi = (fl (back (s + 1)) = x)
      in if lo \<and> (\<not> hi \<or> x - back s \<le> back (s + 1) - x) then (nat s, k)
         else if hi then (nat (s + 1), k) else shortest fuel (Suc k) n x)"

text \<open>Rounding up may carry into a further digit, and then the exponent is one more.\<close>

definition num_text :: "rat \<Rightarrow> string" where
  "num_text x = (if x = 0 then ''0'' else
     (if x < 0 then ''-'' else [])
     @ (let n = dec_expo \<bar>x\<bar> in case shortest 17 1 n \<bar>x\<bar> of (s, k) \<Rightarrow>
          dec_string (strip_zeros s) (n + int (length (show_nat s)) - int k)))"

lemma num_text_examples: "num_text 15 = ''15''"
  by code_simp

section \<open>The nearest integer\<close>

lemma round_even_of_int [simp]: "round_even (of_int n) = n"
  by (simp add: round_even_def)

lemma round_even_bounds: "\<lfloor>x\<rfloor> \<le> round_even x" "round_even x \<le> \<lfloor>x\<rfloor> + 1"
  by (simp_all add: round_even_def Let_def)

lemma round_even_near: "\<bar>of_int (round_even x) - x\<bar> \<le> 1 / 2"
proof -
  define f where "f = \<lfloor>x\<rfloor>"
  have f: "of_int f \<le> x" "x < of_int f + 1" using floor_correct [of x] by (simp_all add: f_def)
  then show ?thesis unfolding round_even_def f_def [symmetric] by (auto simp: Let_def abs_if)
qed

lemma round_even_mono: "x \<le> y \<Longrightarrow> round_even x \<le> round_even y"
proof (cases "\<lfloor>x\<rfloor> = \<lfloor>y\<rfloor>")
  case True
  assume "x \<le> y"
  with True show ?thesis by (auto simp: round_even_def Let_def)
next
  case False
  assume "x \<le> y"
  then have "\<lfloor>x\<rfloor> + 1 \<le> \<lfloor>y\<rfloor>" using False floor_mono [of x y] by linarith
  then show ?thesis using round_even_bounds [of x] round_even_bounds [of y] by linarith
qed

lemma round_even_minus: "round_even (- x) = - round_even x"
proof (cases "x = of_int \<lfloor>x\<rfloor>")
  case True
  then show ?thesis by (metis of_int_minus round_even_of_int)
next
  case False
  define f where "f = \<lfloor>x\<rfloor>"
  have f: "of_int f \<le> x" "x < of_int f + 1" using floor_correct [of x] by (simp_all add: f_def)
  moreover have "of_int f \<noteq> x" using False by (metis f_def)
  ultimately have "\<lfloor>- x\<rfloor> = - f - 1" by (intro floor_unique) auto
  then show ?thesis using f \<open>of_int f \<noteq> x\<close>
    unfolding round_even_def f_def [symmetric] by (auto simp: Let_def)
qed

section \<open>The exponent\<close>

lemma bits_bounds: "0 < n \<Longrightarrow> 2 powi (bitlen n - 1) \<le> (of_int n :: rat) \<and> of_int n < (2 powi bitlen n :: rat)"
proof -
  assume n: "0 < n"
  have b: "2 ^ nat (bitlen n - 1) \<le> n" "n < 2 ^ nat (bitlen n)" "0 < bitlen n"
  proof -
    show u: "2 ^ nat (bitlen n - 1) \<le> n" "n < 2 ^ nat (bitlen n)" using bitlen_bounds [OF n] by auto
    show "0 < bitlen n"
    proof (rule ccontr)
      assume "\<not> 0 < bitlen n"
      then have "nat (bitlen n) = 0" by simp
      with u(2) have "n < 1" by (simp only: power_0)
      with n show False by simp
    qed
  qed
  have "(2::rat) powi (bitlen n - 1) = of_int (2 ^ nat (bitlen n - 1))"
    "(2::rat) powi bitlen n = of_int (2 ^ nat (bitlen n))"
    using b(3) by (simp_all add: power_int_def)
  then show ?thesis using b(1,2) by (simp only: of_int_le_iff of_int_less_iff)
qed

lemma expo_bounds: "x \<noteq> 0 \<Longrightarrow> 2 powi expo x \<le> \<bar>x\<bar> \<and> \<bar>x\<bar> < 2 powi (expo x + 1)"
proof -
  assume x: "x \<noteq> 0"
  obtain n d where q: "quotient_of \<bar>x\<bar> = (n, d)" by (cases "quotient_of \<bar>x\<bar>")
  have d: "0 < d" using q by (rule quotient_of_denom_pos)
  have eq: "\<bar>x\<bar> = of_int n / of_int d" using q by (rule quotient_of_div)
  then have n: "0 < n" using x d by (metis abs_le_zero_iff div_by_0 divide_le_0_iff less_le_not_le
      linorder_not_le of_int_0_le_iff of_int_0_less_iff order_less_le zero_less_abs_iff)
  note bn = bits_bounds [OF n] and bd = bits_bounds [OF d]
  have p: "(2::rat) powi (bitlen n - 1) / 2 powi bitlen d = 2 powi (bitlen n - bitlen d - 1)"
    "(2::rat) powi bitlen n / 2 powi (bitlen d - 1) = 2 powi (bitlen n - bitlen d + 1)"
    by (simp_all add: power_int_diff power_int_add)
  have pos: "0 < rat_of_int d" "0 < rat_of_int n" "0 < (2::rat) powi (bitlen d - 1)" using d n by simp_all
  have lo: "2 powi (bitlen n - bitlen d - 1) \<le> \<bar>x\<bar>"
    unfolding eq p(1) [symmetric] using frac_le [OF less_imp_le [OF pos(2)] _ pos(1)] bn bd by simp
  have hi: "\<bar>x\<bar> < 2 powi (bitlen n - bitlen d + 1)"
    unfolding eq p(2) [symmetric] using frac_less [OF less_imp_le [OF pos(2)] _ pos(3)] bn bd by simp
  show ?thesis using lo hi by (auto simp: expo_def q Let_def)
qed


lemma expo_less: "x \<noteq> 0 \<Longrightarrow> \<bar>x\<bar> < 2 powi k \<Longrightarrow> expo x < k"
proof -
  assume "x \<noteq> 0" "\<bar>x\<bar> < 2 powi k"
  then have "(2::rat) powi expo x < 2 powi k" using expo_bounds [of x] by linarith
  moreover have "(2::rat) powi k \<le> 2 powi expo x" if "k \<le> expo x"
    using that by (rule power_int_increasing) simp
  ultimately show ?thesis by (meson leD not_less)
qed

lemma expo_mono: "x \<noteq> 0 \<Longrightarrow> \<bar>x\<bar> \<le> \<bar>y\<bar> \<Longrightarrow> expo x \<le> expo y"
proof -
  assume x: "x \<noteq> 0" "\<bar>x\<bar> \<le> \<bar>y\<bar>"
  then have "y \<noteq> 0" by auto
  then have "\<bar>x\<bar> < 2 powi (expo y + 1)" using x expo_bounds [of y] by linarith
  then show ?thesis using expo_less [of x "expo y + 1"] x by simp
qed

lemma expo_minus [simp]: "expo (- x) = expo x"
  by (simp add: expo_def)

lemma ulp_pos [simp]: "0 < ulp x"
  by (simp add: ulp_def)

lemma ulp_nonneg [simp]: "0 \<le> ulp x" "ulp x \<noteq> 0"
  by (simp_all add: ulp_def)

lemma powi_shift: "2 ^ 52 * (2::rat) powi (k - 52) = 2 powi k" "2 ^ 53 * (2::rat) powi (k - 52) = 2 powi (k + 1)"
proof -
  have "(2::rat) powi k = 2 powi ((k - 52) + 52)" by simp
  also have "\<dots> = 2 powi (k - 52) * 2 powi 52" by (rule power_int_add) simp
  finally show s: "2 ^ 52 * (2::rat) powi (k - 52) = 2 powi k" by simp
  have "(2::rat) powi (k + 1) = 2 powi k * 2" by (simp add: power_int_add)
  then show "2 ^ 53 * (2::rat) powi (k - 52) = 2 powi (k + 1)" using s by simp
qed

lemma ulp_minus [simp]: "ulp (- x) = ulp x"
  by (simp add: ulp_def)

section \<open>Laws of rounding\<close>

lemma fl_0 [simp]: "fl 0 = 0"
  by (simp add: fl_def)

lemma fl_minus: "fl (- x) = - fl x"
  using round_even_minus [of "x / ulp x"] by (simp add: fl_def)

lemma fl_exact: "x = of_int m * ulp x \<Longrightarrow> fl x = x"
proof -
  assume x: "x = of_int m * ulp x"
  have "x / ulp x = of_int m" using x by (metis nonzero_mult_div_cancel_right ulp_nonneg(2))
  then show ?thesis using x by (simp add: fl_def)
qed

lemma fl_error: "\<bar>fl x - x\<bar> \<le> ulp x / 2"
proof (cases "x = 0")
  case False
  have u: "0 < ulp x" by simp
  have "fl x - x = (of_int (round_even (x / ulp x)) - x / ulp x) * ulp x"
    using False u by (simp add: fl_def field_simps)
  then have "\<bar>fl x - x\<bar> = \<bar>of_int (round_even (x / ulp x)) - x / ulp x\<bar> * ulp x"
    using u by (simp add: abs_mult)
  also have "\<dots> \<le> 1 / 2 * ulp x" using round_even_near u by (intro mult_right_mono) auto
  finally show ?thesis by simp
qed simp

text \<open>The scaled magnitude of a number is below \<open>2 ^ 53\<close>, and at least \<open>2 ^ 52\<close> if normal.\<close>

lemma scaled_upper: "0 < x \<Longrightarrow> x / ulp x < 2 ^ 53"
proof -
  assume x: "0 < x"
  let ?e = "max (expo x) (- 1022)"
  have "x < 2 powi (expo x + 1)" using expo_bounds [of x] x by simp
  also have "\<dots> \<le> 2 powi (?e + 1)" by (rule power_int_increasing) auto
  also have "(2::rat) powi (?e + 1) = 2 ^ 53 * 2 powi (?e - 52)"
    by (simp only: powi_shift)
  finally show ?thesis using ulp_pos [of x] by (simp add: ulp_def pos_divide_less_eq)
qed

lemma scaled_lower: "0 < x \<Longrightarrow> - 1022 \<le> expo x \<Longrightarrow> 2 ^ 52 \<le> x / ulp x"
proof -
  assume x: "0 < x" "- 1022 \<le> expo x"
  have "2 ^ 52 * (2::rat) powi (expo x - 52) = 2 powi expo x"
    by (simp only: powi_shift)
  also have "\<dots> \<le> x" using expo_bounds [of x] x by simp
  finally show ?thesis using x ulp_pos [of x] by (simp add: ulp_def pos_le_divide_eq max_absorb1)
qed

lemma round_even_le_int: "x \<le> of_int n \<Longrightarrow> round_even x \<le> n"
  using round_even_mono [of x "of_int n"] by simp

lemma round_even_ge_int: "of_int n \<le> x \<Longrightarrow> n \<le> round_even x"
  using round_even_mono [of "of_int n" x] by simp

lemma fl_nonneg: "0 \<le> x \<Longrightarrow> 0 \<le> fl x"
proof -
  assume "0 \<le> x"
  then have "0 \<le> x / ulp x" using ulp_pos [of x] by simp
  then have "0 \<le> round_even (x / ulp x)" using round_even_ge_int [of 0] by simp
  then show ?thesis using ulp_pos [of x] by (simp add: fl_def)
qed

lemma fl_mono_pos: "0 < x \<Longrightarrow> x \<le> y \<Longrightarrow> fl x \<le> fl y"
proof -
  assume x: "0 < x" "x \<le> y"
  show ?thesis
  proof (cases "ulp x = ulp y")
    case True
    have "x / ulp x \<le> y / ulp x" using x(2) ulp_nonneg(1) by (rule divide_right_mono)
    then have "round_even (x / ulp x) \<le> round_even (y / ulp x)" by (rule round_even_mono)
    then show ?thesis using x True ulp_pos [of y] by (simp add: fl_def)
  next
    case False
    let ?a = "max (expo x) (- 1022)" and ?b = "expo y"
    have "expo x \<le> expo y" using expo_mono [of x y] x by simp
    moreover have "?a \<noteq> max (expo y) (- 1022)" using False by (auto simp: ulp_def)
    ultimately have e: "?a + 1 \<le> ?b" "- 1022 \<le> expo y" by linarith+
    have "x / ulp x \<le> of_int (2 ^ 53)" using scaled_upper [of x] x by simp
    then have "round_even (x / ulp x) \<le> 2 ^ 53" by (rule round_even_le_int)
    then have "of_int (round_even (x / ulp x)) * ulp x \<le> of_int (2 ^ 53) * ulp x"
      by (intro mult_right_mono ulp_nonneg(1)) (simp only: of_int_le_iff)
    then have "fl x \<le> of_int (2 ^ 53) * ulp x" using x unfolding fl_def by simp
    also have "\<dots> = 2 powi (?a + 1)"
      using powi_shift(2) [of ?a] by (simp add: ulp_def)
    also have "\<dots> \<le> 2 powi ?b" using e(1) by (intro power_int_increasing) auto
    also have "\<dots> = of_int (2 ^ 52) * ulp y"
      using powi_shift(1) [of ?b] e(2) by (simp add: ulp_def max_absorb1)
    also have "\<dots> \<le> fl y"
    proof -
      have "of_int (2 ^ 52) \<le> y / ulp y" using scaled_lower [of y] x e(2) by simp
      then have "2 ^ 52 \<le> round_even (y / ulp y)" by (rule round_even_ge_int)
      then have "of_int (2 ^ 52) * ulp y \<le> of_int (round_even (y / ulp y)) * ulp y"
        using ulp_pos [of y] by (intro mult_right_mono) (simp_all only: of_int_le_iff less_imp_le)
      then show ?thesis using x unfolding fl_def by simp
    qed
    finally show ?thesis .
  qed
qed

lemma fl_mono: "x \<le> y \<Longrightarrow> fl x \<le> fl y"
proof -
  assume xy: "x \<le> y"
  consider "0 < x" | "x \<le> 0" "0 \<le> y" | "y < 0" by linarith
  then show ?thesis
  proof cases
    case 1
    then show ?thesis using fl_mono_pos xy by blast
  next
    case 2
    then show ?thesis using fl_nonneg [of y] fl_nonneg [of "- x"] by (simp add: fl_minus)
  next
    case 3
    then show ?thesis using fl_mono_pos [of "- y" "- x"] xy by (simp add: fl_minus)
  qed
qed

text \<open>Integers up to \<open>2 ^ 53\<close> are doubles.\<close>

lemma fl_of_int [simp]: "\<bar>n\<bar> \<le> 2 ^ 53 \<Longrightarrow> fl (of_int n) = of_int n"
proof -
  assume n: "\<bar>n\<bar> \<le> 2 ^ 53"
  let ?x = "of_int n :: rat"
  let ?e = "max (expo ?x) (- 1022) - 52"
  show ?thesis
  proof (cases "n = 0")
    case False
    have "\<bar>?x\<bar> \<le> 2 ^ 53" using n by (metis of_int_abs of_int_le_iff of_int_numeral of_int_power)
    then have "\<bar>?x\<bar> < 2 powi 54" by (simp add: power_int_def)
    then have e54: "expo ?x < 54" using expo_less [of ?x 54] False by simp
    show ?thesis
    proof (cases "?e \<le> 0")
      case True
      have "2 powi (- ?e + ?e) = 2 powi (- ?e) * (2::rat) powi ?e" by (rule power_int_add) simp
      then have "2 powi (- ?e) * 2 powi ?e = (1::rat)" by simp
      moreover have "2 powi (- ?e) = (of_int (2 ^ nat (- ?e)) :: rat)" using True by (simp add: power_int_def)
      ultimately have "?x = of_int (n * 2 ^ nat (- ?e)) * ulp ?x"
        by (simp add: ulp_def mult.assoc)
      then show ?thesis by (rule fl_exact)
    next
      case False
      then have e: "?e = 1" using e54 by linarith
      then have ex: "expo ?x = 53" by linarith
      then have "2 powi 53 \<le> \<bar>?x\<bar>" using expo_bounds [of ?x] \<open>n \<noteq> 0\<close> by simp
      then have "of_int (2 ^ 53) \<le> \<bar>?x\<bar>" by (simp add: power_int_def)
      then have "2 ^ 53 \<le> \<bar>n\<bar>" by (metis of_int_abs of_int_le_iff)
      with n have "\<bar>n\<bar> = 2 ^ 53" by simp
      then have "n = (if 0 \<le> n then 2 ^ 52 else - (2 ^ 52)) * 2" by (auto split: if_splits)
      then have "?x = of_int (if 0 \<le> n then 2 ^ 52 else - (2 ^ 52)) * ulp ?x"
        using ex by (simp add: ulp_def)
      then show ?thesis by (rule fl_exact)
    qed
  qed simp
qed

lemma fl_numeral [simp]: "numeral k \<le> (2 ^ 53 :: int) \<Longrightarrow> fl (numeral k) = numeral k"
  using fl_of_int [of "numeral k"] by simp

lemma fl_one [simp]: "fl 1 = 1"
  using fl_of_int [of 1] by simp

lemma fl_le_of_int: "x \<le> of_int n \<Longrightarrow> \<bar>n\<bar> \<le> 2 ^ 53 \<Longrightarrow> fl x \<le> of_int n"
  using fl_mono [of x "of_int n"] by simp

lemma fl_ge_of_int: "of_int n \<le> x \<Longrightarrow> \<bar>n\<bar> \<le> 2 ^ 53 \<Longrightarrow> of_int n \<le> fl x"
  using fl_mono [of "of_int n" x] by simp

lemma fl_le_one: "x \<le> 1 \<Longrightarrow> fl x \<le> 1"
  using fl_le_of_int [of x 1] by simp

lemma fadd_nonneg: "0 \<le> x \<Longrightarrow> 0 \<le> y \<Longrightarrow> 0 \<le> fadd x y"
  and fmul_nonneg: "0 \<le> x \<Longrightarrow> 0 \<le> y \<Longrightarrow> 0 \<le> fmul x y"
  and fdiv_nonneg: "0 \<le> x \<Longrightarrow> 0 \<le> y \<Longrightarrow> 0 \<le> fdiv x y"
  by (simp_all add: fadd_def fmul_def fdiv_def fl_nonneg)

lemma fadd_mono: "x \<le> x' \<Longrightarrow> y \<le> y' \<Longrightarrow> fadd x y \<le> fadd x' y'"
  by (simp add: fadd_def fl_mono)

lemma fmul_mono: "x \<le> x' \<Longrightarrow> y \<le> y' \<Longrightarrow> 0 \<le> x' \<Longrightarrow> 0 \<le> y \<Longrightarrow> fmul x y \<le> fmul x' y'"
  by (simp add: fmul_def fl_mono mult_mono)

text \<open>The operations do round: one tenth, and the sum every JavaScript programmer knows.\<close>

lemma fl_tenth: "fl (1 / 10) \<noteq> 1 / 10" "fadd (fl (1 / 10)) (fl (2 / 10)) \<noteq> fl (3 / 10)"
  by code_simp+

end
