(* ===== verification/Blob_Store.thy ===== *)
theory Blob_Store
  imports Js
begin

text \<open>
  \<open>trajectories/blob-store.ts\<close>: content-addressed storage of screenshots, in memory and on a
  file system, and the contract of both as a locale. A file system is a map from paths to
  contents; \<open>path.resolve\<close> and \<open>path.join\<close> are concatenation for a normal absolute root.
\<close>

section \<open>Addresses and formats\<close>

datatype image_format = Webp | Avif | Png

record blob_metadata =
  bm_address :: string
  bm_bytes :: nat
  bm_format :: image_format

definition computeAddress :: "(bytes \<Rightarrow> bytes) \<Rightarrow> bytes \<Rightarrow> string" where
  "computeAddress H b = ''sha256:'' @ to_hex (H b)"

definition isContentAddress :: "string \<Rightarrow> bool" where
  "isContentAddress s = sha256_digest_re s"

text \<open>\<open>bytes.toString('ascii', a, b)\<close>: the top bit of every byte is dropped.\<close>

definition ascii :: "bytes \<Rightarrow> nat \<Rightarrow> nat \<Rightarrow> string" where
  "ascii bs a b = map (\<lambda>w. char_of (unat w mod 128)) (take (b - a) (drop a bs))"

definition detectFormat :: "bytes \<Rightarrow> image_format option" where
  "detectFormat bs =
     (if 8 \<le> length bs \<and> bs ! 0 = 137 \<and> bs ! 1 = 80 \<and> bs ! 2 = 78 \<and> bs ! 3 = 71 then Some Png
      else if 12 \<le> length bs \<and> ascii bs 0 4 = ''RIFF'' \<and> ascii bs 8 12 = ''WEBP'' then Some Webp
      else if 12 \<le> length bs \<and> ascii bs 4 8 = ''ftyp'' \<and> ascii bs 8 12 \<in> {''avif'', ''avis''} then Some Avif
      else None)"

fun CONTENT_TYPES :: "image_format \<Rightarrow> string" where
  "CONTENT_TYPES Webp = ''image/webp''"
| "CONTENT_TYPES Avif = ''image/avif''"
| "CONTENT_TYPES Png = ''image/png''"

section \<open>The in-memory store\<close>

type_synonym blobs = "bytes jsmap"

definition mem_put :: "(bytes \<Rightarrow> bytes) \<Rightarrow> bytes \<Rightarrow> blobs \<Rightarrow> (string + blob_metadata) \<times> blobs" where
  "mem_put H b s = (case detectFormat b of
     None \<Rightarrow> (Inl ''Unrecognized image format. Screenshots must be WebP, AVIF or PNG.'', s)
   | Some f \<Rightarrow>
       let address = computeAddress H b in
       (Inr \<lparr>bm_address = address, bm_bytes = length b, bm_format = f\<rparr>,
        if map_has s address then s else map_set address b s))"

definition mem_get :: "(bytes \<Rightarrow> bytes) \<Rightarrow> blobs \<Rightarrow> string \<Rightarrow> string + (bytes \<times> image_format) option" where
  "mem_get H s address =
     (if \<not> isContentAddress address then Inl (''Not a content address: '' @ address)
      else case map_get s address of
        None \<Rightarrow> Inr None
      | Some b \<Rightarrow>
          if computeAddress H b \<noteq> address
          then Inl (''Blob integrity failure: '' @ address @ '' hashes to '' @ computeAddress H b @ ''.'')
          else case detectFormat b of
            None \<Rightarrow> Inl (''Stored blob '' @ address @ '' is not a recognized image.'')
          | Some f \<Rightarrow> Inr (Some (b, f)))"

definition mem_has :: "blobs \<Rightarrow> string \<Rightarrow> bool" where
  "mem_has s address = (isContentAddress address \<and> map_has s address)"

definition mem_size :: "blobs \<Rightarrow> nat" where
  "mem_size s = length s"

section \<open>The file store\<close>

type_synonym fs = "bytes jsmap"

definition pathFor :: "string \<Rightarrow> string \<Rightarrow> string" where
  "pathFor root_dir address = (let hex = drop 7 address in root_dir @ ''/'' @ take 2 hex @ ''/'' @ hex)"

definition file_has :: "string \<Rightarrow> fs \<Rightarrow> string \<Rightarrow> bool" where
  "file_has root_dir d address = (isContentAddress address \<and> map_has d (pathFor root_dir address))"

text \<open>
  \<open>put\<close>. The last argument is what became of \<open>mkdir\<close>, \<open>writeFile\<close> and \<open>rename\<close>: \<open>None\<close>
  if they succeeded (the rename is atomic), else the error and the file system when the
  error was caught and the temporary file removed.
\<close>

definition file_put ::
    "(bytes \<Rightarrow> bytes) \<Rightarrow> string \<Rightarrow> (string \<times> fs) option \<Rightarrow> bytes \<Rightarrow> fs
      \<Rightarrow> (string + blob_metadata) \<times> fs" where
  "file_put H root_dir failure b d = (case detectFormat b of
     None \<Rightarrow> (Inl (''Unrecognized image format. Screenshots must be WebP, AVIF or PNG; ''
        @ ''the format is detected from the file header, not from a caller-supplied label.''), d)
   | Some f \<Rightarrow>
       let address = computeAddress H b;
           done_meta = \<lparr>bm_address = address, bm_bytes = length b, bm_format = f\<rparr>
       in if file_has root_dir d address then (Inr done_meta, d)
          else case failure of
            None \<Rightarrow> (Inr done_meta, map_set (pathFor root_dir address) b d)
          | Some (msg, d') \<Rightarrow>
              if file_has root_dir d' address then (Inr done_meta, d')
              else (Inl (''Could not store blob '' @ address @ '': '' @ msg), d'))"

definition file_get ::
    "(bytes \<Rightarrow> bytes) \<Rightarrow> string \<Rightarrow> fs \<Rightarrow> string \<Rightarrow> string + (bytes \<times> image_format) option" where
  "file_get H root_dir d address =
     (if \<not> isContentAddress address then Inl (''Not a content address: '' @ address)
      else case map_get d (pathFor root_dir address) of
        None \<Rightarrow> Inr None
      | Some b \<Rightarrow>
          if computeAddress H b \<noteq> address
          then Inl (''Blob integrity failure: '' @ address @ '' contains bytes hashing to ''
            @ computeAddress H b @ ''. The store has been corrupted or tampered with.'')
          else case detectFormat b of
            None \<Rightarrow> Inl (''Stored blob '' @ address @ '' is not a recognized image.'')
          | Some f \<Rightarrow> Inr (Some (b, f)))"

section \<open>The contract\<close>

locale blob_store =
  fixes H :: "bytes \<Rightarrow> bytes"
    and put :: "bytes \<Rightarrow> 's \<Rightarrow> (string + blob_metadata) \<times> 's"
    and get :: "'s \<Rightarrow> string \<Rightarrow> string + (bytes \<times> image_format) option"
    and sound :: "'s \<Rightarrow> bool"
  assumes put_refuses: "detectFormat b = None \<Longrightarrow> \<exists>e. put b s = (Inl e, s)"
    and put_sound: "sound s \<Longrightarrow> sound (snd (put b s))"
    and put_meta: "put b s = (Inr m, s') \<Longrightarrow>
      bm_address m = computeAddress H b \<and> bm_bytes m = length b \<and> detectFormat b = Some (bm_format m)"
    and put_get: "sound s \<Longrightarrow> put b s = (Inr m, s') \<Longrightarrow> \<exists>b' f. get s' (bm_address m) = Inr (Some (b', f))"
    and put_keeps: "get s a = Inr (Some x) \<Longrightarrow> get (snd (put b s)) a = Inr (Some x)"
    and get_verified: "get s a = Inr (Some (b, f)) \<Longrightarrow> computeAddress H b = a \<and> detectFormat b = Some f"
begin

definition puts :: "bytes list \<Rightarrow> 's \<Rightarrow> 's" where
  "puts bs s = fold (\<lambda>b t. snd (put b t)) bs s"

lemma puts_simps [simp]: "puts [] s = s" "puts (b # bs) s = puts bs (snd (put b s))"
  by (simp_all add: puts_def)

lemma puts_sound: "sound s \<Longrightarrow> sound (puts bs s)"
  by (induction bs arbitrary: s) (simp_all add: put_sound)

text \<open>No sequence of writes changes what a stored address resolves to.\<close>

lemma puts_keep: "get s a = Inr (Some x) \<Longrightarrow> get (puts bs s) a = Inr (Some x)"
  by (induction bs arbitrary: s) (simp_all add: put_keeps)

text \<open>What was stored is what is served, if the digest does not collide on the two.\<close>

lemma stored_served:
  assumes "sound s" "put b s = (Inr m, s')" "inj_on H S"
    "b \<in> S" "\<And>b' f. get s' (bm_address m) = Inr (Some (b', f)) \<Longrightarrow> b' \<in> S"
  shows "get (puts bs s') (bm_address m) = Inr (Some (b, bm_format m))"
proof -
  obtain b' f where g: "get s' (bm_address m) = Inr (Some (b', f))" using put_get [OF assms(1,2)] by blast
  have "to_hex (H b') = to_hex (H b)"
    using get_verified [OF g] put_meta [OF assms(2)] by (simp add: computeAddress_def)
  then have "b' = b" using assms(3,4) assms(5) [OF g] by (auto dest: inj_onD)
  moreover have "f = bm_format m" using get_verified [OF g] put_meta [OF assms(2)] \<open>b' = b\<close> by simp
  ultimately show ?thesis using puts_keep [OF g] by simp
qed

end


section \<open>Both stores keep it\<close>

definition addressed :: "(bytes \<Rightarrow> bytes) \<Rightarrow> (string \<Rightarrow> string) \<Rightarrow> bytes jsmap \<Rightarrow> bool" where
  "addressed H p s = (\<forall>a b. isContentAddress a \<longrightarrow> map_get s (p a) = Some b \<longrightarrow>
     computeAddress H b = a \<and> detectFormat b \<noteq> None)"

lemma address_wf: "isContentAddress (computeAddress sha256 b)"
  using sha.digest_address [of b] by (simp add: computeAddress_def isContentAddress_def)

lemma address_parts: "isContentAddress a \<Longrightarrow> a = ''sha256:'' @ drop 7 a \<and> length (drop 7 a) = 64"
  using append_take_drop_id [of 7 a]
  by (simp only: isContentAddress_def sha256_digest_re_def hex64_def)

lemma drop_pathFor: "length (drop 7 a) = 64 \<Longrightarrow> drop (length r + 4) (pathFor r a) = drop 7 a"
  by (simp add: pathFor_def Let_def)

lemma pathFor_inj: "isContentAddress a \<Longrightarrow> isContentAddress b \<Longrightarrow> pathFor r a = pathFor r b \<longleftrightarrow> a = b"
  using address_parts drop_pathFor by metis

lemma mem_get_Some: "mem_get H s a = Inr (Some (b, f)) \<longleftrightarrow>
    isContentAddress a \<and> map_get s a = Some b \<and> computeAddress H b = a \<and> detectFormat b = Some f"
  by (cases "map_get s a") (auto simp: mem_get_def split: option.splits)

lemma file_get_Some: "file_get H r s a = Inr (Some (b, f)) \<longleftrightarrow>
    isContentAddress a \<and> map_get s (pathFor r a) = Some b \<and> computeAddress H b = a \<and> detectFormat b = Some f"
  by (cases "map_get s (pathFor r a)") (auto simp: file_get_def split: option.splits)

definition put_at :: "(bytes \<Rightarrow> bytes) \<Rightarrow> (string \<Rightarrow> string) \<Rightarrow> bytes \<Rightarrow> bytes jsmap \<Rightarrow> bytes jsmap" where
  "put_at H p b s = (if map_has s (p (computeAddress H b)) then s else map_set (p (computeAddress H b)) b s)"

lemma mem_put_ok: "detectFormat b = Some f \<Longrightarrow> mem_put H b s =
    (Inr \<lparr>bm_address = computeAddress H b, bm_bytes = length b, bm_format = f\<rparr>, put_at H (\<lambda>a. a) b s)"
  by (simp add: mem_put_def put_at_def Let_def)

lemma file_put_ok: "detectFormat b = Some f \<Longrightarrow> file_put sha256 r None b s =
    (Inr \<lparr>bm_address = computeAddress sha256 b, bm_bytes = length b, bm_format = f\<rparr>, put_at sha256 (pathFor r) b s)"
  by (simp add: file_put_def put_at_def file_has_def address_wf Let_def)

lemma put_at_addressed:
  assumes "addressed sha256 p s" "detectFormat b = Some f"
    "\<And>a. isContentAddress a \<Longrightarrow> p a = p (computeAddress sha256 b) \<longleftrightarrow> a = computeAddress sha256 b"
  shows "addressed sha256 p (put_at sha256 p b s)"
    "\<exists>b'. map_get (put_at sha256 p b s) (p (computeAddress sha256 b)) = Some b'"
  using assms by (auto simp: put_at_def addressed_def map_get_set map_has_def)

lemma put_at_served:
  assumes "addressed sha256 p s" "detectFormat b = Some f"
    "\<And>a. isContentAddress a \<Longrightarrow> p a = p (computeAddress sha256 b) \<longleftrightarrow> a = computeAddress sha256 b"
  shows "\<exists>b' f'. map_get (put_at sha256 p b s) (p (computeAddress sha256 b)) = Some b'
    \<and> computeAddress sha256 b' = computeAddress sha256 b \<and> detectFormat b' = Some f'"
proof -
  obtain b' where g: "map_get (put_at sha256 p b s) (p (computeAddress sha256 b)) = Some b'"
    using put_at_addressed(2) [OF assms] by blast
  have "computeAddress sha256 b' = computeAddress sha256 b \<and> detectFormat b' \<noteq> None"
    using put_at_addressed(1) [OF assms] address_wf g unfolding addressed_def by blast
  with g show ?thesis by blast
qed

lemma put_at_keeps: "map_get s k = Some c \<Longrightarrow> map_get (put_at H p b s) k = Some c"
  by (auto simp: put_at_def map_get_set map_has_def)

text \<open>A refused write changes nothing; the other laws need a recognised format.\<close>

lemma put_refused: "detectFormat b = None \<Longrightarrow> \<exists>e. mem_put H b s = (Inl e, s)"
    "detectFormat b = None \<Longrightarrow> \<exists>e. file_put H r w b d = (Inl e, d)"
  by (simp_all add: mem_put_def file_put_def)

interpretation mb: blob_store sha256 "mem_put sha256" "mem_get sha256" "addressed sha256 (\<lambda>a. a)"
proof
  fix b a m x f and s s' :: blobs
  consider (no) e where "mem_put sha256 b s = (Inl e, s)" | (yes) f where "detectFormat b = Some f"
    using put_refused(1) by (cases "detectFormat b") blast+
  note cases = this
  show "detectFormat b = None \<Longrightarrow> \<exists>e. mem_put sha256 b s = (Inl e, s)" by (rule put_refused)
  show "addressed sha256 (\<lambda>a. a) s \<Longrightarrow> addressed sha256 (\<lambda>a. a) (snd (mem_put sha256 b s))"
    by (cases rule: cases) (simp_all add: mem_put_ok put_at_addressed(1))
  show "mem_put sha256 b s = (Inr m, s') \<Longrightarrow>
      bm_address m = computeAddress sha256 b \<and> bm_bytes m = length b \<and> detectFormat b = Some (bm_format m)"
    by (cases rule: cases) (auto simp: mem_put_ok)
  show "addressed sha256 (\<lambda>a. a) s \<Longrightarrow> mem_put sha256 b s = (Inr m, s') \<Longrightarrow>
      \<exists>b' f. mem_get sha256 s' (bm_address m) = Inr (Some (b', f))"
  proof (cases rule: cases)
    case (yes f)
    assume "addressed sha256 (\<lambda>a. a) s" "mem_put sha256 b s = (Inr m, s')"
    moreover from this have "m = \<lparr>bm_address = computeAddress sha256 b, bm_bytes = length b, bm_format = f\<rparr>"
      "s' = put_at sha256 (\<lambda>a. a) b s" by (simp_all add: mem_put_ok yes)
    ultimately show ?thesis
      using put_at_served [of "\<lambda>a. a" s b f] yes address_wf [of b] by (simp add: mem_get_Some)
  qed simp
  show "mem_get sha256 s a = Inr (Some x) \<Longrightarrow> mem_get sha256 (snd (mem_put sha256 b s)) a = Inr (Some x)"
    by (cases rule: cases; cases x) (simp_all add: mem_get_Some mem_put_ok put_at_keeps)
  show "mem_get sha256 s a = Inr (Some (b, f)) \<Longrightarrow> computeAddress sha256 b = a \<and> detectFormat b = Some f"
    by (simp add: mem_get_Some)
qed

text \<open>The file store when its writes succeed.\<close>

interpretation fb: blob_store sha256 "file_put sha256 root_dir None" "file_get sha256 root_dir"
    "addressed sha256 (pathFor root_dir)" for root_dir
proof
  fix b a m x f and s s' :: fs
  have inj: "\<And>a. isContentAddress a \<Longrightarrow> pathFor root_dir a = pathFor root_dir (computeAddress sha256 b)
      \<longleftrightarrow> a = computeAddress sha256 b" by (rule pathFor_inj [OF _ address_wf])
  consider (no) e where "file_put sha256 root_dir None b s = (Inl e, s)" | (yes) f where "detectFormat b = Some f"
    using put_refused(2) by (cases "detectFormat b") blast+
  note cases = this
  show "detectFormat b = None \<Longrightarrow> \<exists>e. file_put sha256 root_dir None b s = (Inl e, s)" by (rule put_refused)
  show "addressed sha256 (pathFor root_dir) s \<Longrightarrow>
      addressed sha256 (pathFor root_dir) (snd (file_put sha256 root_dir None b s))"
    by (cases rule: cases) (simp_all add: file_put_ok put_at_addressed(1) inj)
  show "file_put sha256 root_dir None b s = (Inr m, s') \<Longrightarrow>
      bm_address m = computeAddress sha256 b \<and> bm_bytes m = length b \<and> detectFormat b = Some (bm_format m)"
    by (cases rule: cases) (auto simp: file_put_ok)
  show "addressed sha256 (pathFor root_dir) s \<Longrightarrow> file_put sha256 root_dir None b s = (Inr m, s') \<Longrightarrow>
      \<exists>b' f. file_get sha256 root_dir s' (bm_address m) = Inr (Some (b', f))"
  proof (cases rule: cases)
    case (yes f)
    assume "addressed sha256 (pathFor root_dir) s" "file_put sha256 root_dir None b s = (Inr m, s')"
    moreover from this have "m = \<lparr>bm_address = computeAddress sha256 b, bm_bytes = length b, bm_format = f\<rparr>"
      "s' = put_at sha256 (pathFor root_dir) b s" by (simp_all add: file_put_ok yes)
    ultimately show ?thesis
      using put_at_served [of "pathFor root_dir" s b f] inj yes address_wf [of b] by (simp add: file_get_Some)
  qed simp
  show "file_get sha256 root_dir s a = Inr (Some x) \<Longrightarrow>
      file_get sha256 root_dir (snd (file_put sha256 root_dir None b s)) a = Inr (Some x)"
    by (cases rule: cases; cases x) (simp_all add: file_get_Some file_put_ok put_at_keeps)
  show "file_get sha256 root_dir s a = Inr (Some (b, f)) \<Longrightarrow> computeAddress sha256 b = a \<and> detectFormat b = Some f"
    by (simp add: file_get_Some)
qed

section \<open>The header test\<close>

text \<open>Only half of the PNG signature is compared, and bytes above 127 pass for ASCII.\<close>

lemma detectFormat_lenient:
  "detectFormat [137, 80, 78, 71, 0, 0, 0, 0] = Some Png"
  "detectFormat ([210, 201, 198, 198, 0, 0, 0, 0] @ [215, 197, 194, 208]) = Some Webp"
  by code_simp+

end
