(* ===== verification/Atif.thy ===== *)
theory Atif
  imports Float64 Blob_Store
begin

text \<open>
  \<open>trajectories/atif.ts\<close>: the trajectory document, what its schema accepts beyond the types
  of its fields, appending a step, and the totals. Every numeric field is a double
  (\<open>rat\<close>) or, where the schema says \<open>int()\<close>, an integer; token sums stay below \<open>2 ^ 53\<close>, where
  they are exact. \<open>zod\<close> supplies the pattern of \<open>datetime\<close> and the text of the first
  issue, and \<open>Date.parse\<close> of a time with an offset is the platform's: all three are arguments.
\<close>

section \<open>The document\<close>

definition ATIF_VERSION :: string where
  "ATIF_VERSION = ''1.7''"

datatype reasoning_effort = EffortLow | EffortMedium | EffortHigh | EffortXhigh | EffortMax

record agent_descriptor =
  ad_model_identifier :: string
  ad_model_version :: "string option"
  ad_provider :: string
  ad_system_prompt :: "string option"
  ad_system_prompt_sha256 :: "string option"
  ad_temperature :: "rat option"
  ad_top_p :: "rat option"
  ad_max_output_tokens :: "int option"
  ad_reasoning_effort :: "reasoning_effort option"

record step_metrics =
  sm_prompt_tokens :: "int option"
  sm_completion_tokens :: "int option"
  sm_reasoning_tokens :: "int option"
  sm_total_tokens :: "int option"
  sm_cost_usd :: "rat option"
  sm_latency_ms :: "rat option"

record reasoning_trace =
  rt_content :: "string option"
  rt_redacted :: bool
  rt_redaction_reason :: "string option"
  rt_content_sha256 :: "string option"
  rt_provider_trace_id :: "string option"

record atif_tool_call =
  tc_tool_call_id :: string
  tc_name :: string
  tc_arguments :: "(string \<times> jsval) list"
  tc_stdout :: "string option"
  tc_stderr :: "string option"
  tc_exit_code :: "int option option"
  tc_duration_ms :: "rat option"
  tc_blocked_by_policy :: "string option"
  tc_output_truncated :: bool

record observation =
  ob_text :: "string option"
  ob_screenshot :: "string option"
  ob_screenshot_width :: "int option"
  ob_screenshot_height :: "int option"
  ob_screenshot_format :: "image_format option"
  ob_state :: "(string \<times> jsval) list option"
  ob_reward :: "rat option"
  ob_terminated :: bool
  ob_truncated :: bool

record traj_step =
  st_step_id :: int
  st_started_at :: string
  st_ended_at :: "string option"
  st_output_text :: "string option"
  st_reasoning :: "reasoning_trace option"
  st_tool_calls :: "atif_tool_call list"
  st_observation :: "observation option"
  st_metrics :: "step_metrics option"
  st_finish_reason :: "string option"
  st_approval_id :: "string option"
  st_error :: "string option"

datatype traj_outcome = OSuccess | OFailure | OError | OIncomplete | OBlockedByPolicy

record trajectory =
  tj_atif_version :: string
  tj_trial_id :: string
  tj_run_id :: string
  tj_task_id :: string
  tj_agent :: agent_descriptor
  tj_started_at :: string
  tj_ended_at :: "string option"
  tj_steps :: "traj_step list"
  tj_outcome :: "traj_outcome option"
  tj_score :: "rat option"
  tj_isolation_backend :: "string option"

section \<open>What the schema accepts\<close>

definition opt_all :: "('a \<Rightarrow> bool) \<Rightarrow> 'a option \<Rightarrow> bool" where
  "opt_all P x = (case x of None \<Rightarrow> True | Some v \<Rightarrow> P v)"

lemma opt_all_simps [simp]: "opt_all P None" "opt_all P (Some v) = P v"
  by (simp_all add: opt_all_def)

definition valid_agent :: "agent_descriptor \<Rightarrow> bool" where
  "valid_agent a =
     (ad_model_identifier a \<noteq> [] \<and> opt_all (\<lambda>v. v \<noteq> []) (ad_model_version a) \<and> ad_provider a \<noteq> []
      \<and> opt_all hex64 (ad_system_prompt_sha256 a)
      \<and> opt_all (\<lambda>t. 0 \<le> t \<and> t \<le> 2) (ad_temperature a) \<and> opt_all (\<lambda>p. 0 \<le> p \<and> p \<le> 1) (ad_top_p a)
      \<and> opt_all (\<lambda>n. 0 < n) (ad_max_output_tokens a)
      \<and> (ad_system_prompt a \<noteq> None \<or> ad_system_prompt_sha256 a \<noteq> None))"

definition valid_metrics :: "step_metrics \<Rightarrow> bool" where
  "valid_metrics m =
     (opt_all (\<lambda>n. 0 \<le> n) (sm_prompt_tokens m) \<and> opt_all (\<lambda>n. 0 \<le> n) (sm_completion_tokens m)
      \<and> opt_all (\<lambda>n. 0 \<le> n) (sm_reasoning_tokens m) \<and> opt_all (\<lambda>n. 0 \<le> n) (sm_total_tokens m)
      \<and> opt_all (\<lambda>c. 0 \<le> c) (sm_cost_usd m) \<and> opt_all (\<lambda>l. 0 \<le> l) (sm_latency_ms m)
      \<and> opt_all (\<lambda>t. opt_all (\<lambda>p. opt_all (\<lambda>c. p + c \<le> t) (sm_completion_tokens m)) (sm_prompt_tokens m))
          (sm_total_tokens m))"

definition valid_reasoning :: "reasoning_trace \<Rightarrow> bool" where
  "valid_reasoning r =
     (opt_all (\<lambda>s. s \<noteq> []) (rt_redaction_reason r) \<and> opt_all hex64 (rt_content_sha256 r)
      \<and> (if rt_redacted r then rt_redaction_reason r \<noteq> None else rt_content r \<noteq> None))"

definition valid_tool_call :: "atif_tool_call \<Rightarrow> bool" where
  "valid_tool_call c = (tc_tool_call_id c \<noteq> [] \<and> tc_name c \<noteq> [] \<and> opt_all (\<lambda>d. 0 \<le> d) (tc_duration_ms c))"

definition valid_content_ref :: "string \<Rightarrow> bool" where
  "valid_content_ref s = sha256_digest_re s"

definition valid_observation :: "observation \<Rightarrow> bool" where
  "valid_observation ob =
     (opt_all valid_content_ref (ob_screenshot ob)
      \<and> opt_all (\<lambda>n. 0 < n) (ob_screenshot_width ob) \<and> opt_all (\<lambda>n. 0 < n) (ob_screenshot_height ob)
      \<and> (ob_screenshot ob \<noteq> None \<or> ob_screenshot_format ob = None))"

text \<open>\<open>is_dt\<close> is the pattern of \<open>z.string().datetime({ offset: true })\<close>, \<open>dp\<close> is \<open>Date.parse\<close>.\<close>

definition valid_step :: "(string \<Rightarrow> bool) \<Rightarrow> (string \<Rightarrow> instant option) \<Rightarrow> traj_step \<Rightarrow> bool" where
  "valid_step is_dt dp s =
     (1 \<le> st_step_id s \<and> is_dt (st_started_at s) \<and> opt_all is_dt (st_ended_at s)
      \<and> opt_all valid_reasoning (st_reasoning s) \<and> list_all valid_tool_call (st_tool_calls s)
      \<and> opt_all valid_observation (st_observation s) \<and> opt_all valid_metrics (st_metrics s)
      \<and> opt_all (\<lambda>e. case (dp e, dp (st_started_at s)) of
            (Some b, Some a) \<Rightarrow> a \<le> b | _ \<Rightarrow> False) (st_ended_at s))"

text \<open>The check of the sequence, position by position.\<close>

fun sequence_issues :: "nat \<Rightarrow> traj_step list \<Rightarrow> string list" where
  "sequence_issues index [] = []"
| "sequence_issues index (s # ss) =
     (if st_step_id s \<noteq> int index + 1 then
        [''step_id must be '' @ show_nat (index + 1) @ '' at position '' @ show_nat index
         @ '' but was '' @ show_int (st_step_id s) @ ''. ''
         @ ''ATIF step ids are 1-indexed and gapless: a gap means a step is missing, ''
         @ ''and a trajectory with a missing step is not a record of what the agent did.'']
      else []) @ sequence_issues (Suc index) ss"

definition valid_trajectory :: "(string \<Rightarrow> bool) \<Rightarrow> (string \<Rightarrow> instant option) \<Rightarrow> trajectory \<Rightarrow> bool" where
  "valid_trajectory is_dt dp d =
     (tj_atif_version d = ATIF_VERSION \<and> tj_trial_id d \<noteq> [] \<and> tj_run_id d \<noteq> [] \<and> tj_task_id d \<noteq> []
      \<and> valid_agent (tj_agent d) \<and> is_dt (tj_started_at d) \<and> opt_all is_dt (tj_ended_at d)
      \<and> list_all (valid_step is_dt dp) (tj_steps d)
      \<and> sequence_issues 0 (tj_steps d) = [])"

definition parseTrajectory ::
    "(string \<Rightarrow> bool) \<Rightarrow> (string \<Rightarrow> instant option) \<Rightarrow> (trajectory \<Rightarrow> string) \<Rightarrow> trajectory \<Rightarrow> string + trajectory" where
  "parseTrajectory is_dt dp first_issue d =
     (if valid_trajectory is_dt dp d then Inr d
      else Inl (''Invalid ATIF v'' @ ATIF_VERSION @ '' document: '' @ first_issue d))"

section \<open>Appending\<close>

definition nextStepId :: "traj_step list \<Rightarrow> int" where
  "nextStepId steps = int (length steps) + 1"

definition appendStep :: "traj_step list \<Rightarrow> traj_step \<Rightarrow> string + traj_step list" where
  "appendStep steps s =
     (let expected = nextStepId steps in
      if st_step_id s \<noteq> expected then
        Inl (''Out-of-sequence step: expected step_id '' @ show_int expected @ '', received ''
          @ show_int (st_step_id s) @ ''. ''
          @ ''Steps are appended in order; a mismatch means the client and server disagree ''
          @ ''about how much of the trajectory exists.'')
      else Inr (steps @ [s]))"

section \<open>Totals\<close>

record totals =
  to_prompt_tokens :: int
  to_completion_tokens :: int
  to_reasoning_tokens :: int
  to_total_tokens :: int
  to_cost_usd :: rat
  to_latency_ms :: rat
  to_steps :: nat
  to_steps_reporting_tokens :: nat
  to_steps_reporting_cost :: nat
  to_tool_calls :: nat
  to_blocked_tool_calls :: nat

definition or0 :: "'a::zero option \<Rightarrow> 'a" where
  "or0 x = (case x of None \<Rightarrow> 0 | Some v \<Rightarrow> v)"

definition zero_totals :: "nat \<Rightarrow> totals" where
  "zero_totals n = \<lparr>to_prompt_tokens = 0, to_completion_tokens = 0, to_reasoning_tokens = 0,
     to_total_tokens = 0, to_cost_usd = 0, to_latency_ms = 0, to_steps = n,
     to_steps_reporting_tokens = 0, to_steps_reporting_cost = 0, to_tool_calls = 0,
     to_blocked_tool_calls = 0\<rparr>"

definition add_step :: "totals \<Rightarrow> traj_step \<Rightarrow> totals" where
  "add_step acc0 s =
     (let acc = acc0\<lparr>to_tool_calls := to_tool_calls acc0 + length (st_tool_calls s),
            to_blocked_tool_calls := to_blocked_tool_calls acc0
              + length (filter (\<lambda>c. tc_blocked_by_policy c \<noteq> None) (st_tool_calls s))\<rparr>
      in case st_metrics s of
        None \<Rightarrow> acc
      | Some m \<Rightarrow>
          acc\<lparr>to_steps_reporting_tokens := to_steps_reporting_tokens acc
                + (if sm_prompt_tokens m \<noteq> None \<or> sm_completion_tokens m \<noteq> None \<or> sm_total_tokens m \<noteq> None
                   then 1 else 0),
              to_steps_reporting_cost := to_steps_reporting_cost acc + (if sm_cost_usd m \<noteq> None then 1 else 0),
              to_prompt_tokens := to_prompt_tokens acc + or0 (sm_prompt_tokens m),
              to_completion_tokens := to_completion_tokens acc + or0 (sm_completion_tokens m),
              to_reasoning_tokens := to_reasoning_tokens acc + or0 (sm_reasoning_tokens m),
              to_total_tokens := to_total_tokens acc + (case sm_total_tokens m of Some t \<Rightarrow> t
                | None \<Rightarrow> or0 (sm_prompt_tokens m) + or0 (sm_completion_tokens m)),
              to_cost_usd := fadd (to_cost_usd acc) (or0 (sm_cost_usd m)),
              to_latency_ms := fadd (to_latency_ms acc) (or0 (sm_latency_ms m))\<rparr>)"

definition round_micro :: "rat \<Rightarrow> rat" where
  "round_micro c = fdiv (of_int (math_round (fmul c 1000000))) 1000000"

definition traj_totals :: "traj_step list \<Rightarrow> totals" where
  "traj_totals ss =
     (let acc = fold (\<lambda>s acc. add_step acc s) ss (zero_totals (length ss))
      in acc\<lparr>to_cost_usd := round_micro (to_cost_usd acc)\<rparr>)"

text \<open>A \<open>Set\<close> of references, listed in the order of first mention.\<close>

definition referencedBlobs :: "traj_step list \<Rightarrow> string list" where
  "referencedBlobs ss = fold (\<lambda>s refs.
     case given (case st_observation s of None \<Rightarrow> None | Some ob \<Rightarrow> ob_screenshot ob) of
       None \<Rightarrow> refs
     | Some r \<Rightarrow> if r \<in> set refs then refs else refs @ [r]) ss []"

section \<open>The sequence invariant\<close>

definition gapless :: "traj_step list \<Rightarrow> bool" where
  "gapless ss = (\<forall>i < length ss. st_step_id (ss ! i) = int i + 1)"

lemma gapless_Nil [simp]: "gapless []"
  by (simp add: gapless_def)

lemma sequence_issues_Nil: "sequence_issues k ss = [] \<longleftrightarrow> (\<forall>i < length ss. st_step_id (ss ! i) = int (k + i) + 1)"
proof (induction ss arbitrary: k)
  case (Cons s ss)
  show ?case
    by (auto simp: Cons.IH nth_Cons' less_Suc_eq_0_disj split: if_splits)
qed simp

lemma sequence_gapless: "sequence_issues 0 ss = [] \<longleftrightarrow> gapless ss"
  by (simp add: sequence_issues_Nil gapless_def)

lemma appendStep_Inr: "appendStep ss s = Inr ss' \<longleftrightarrow> st_step_id s = int (length ss) + 1 \<and> ss' = ss @ [s]"
  by (auto simp: appendStep_def nextStepId_def Let_def)

lemma appendStep_gapless: "gapless ss \<Longrightarrow> appendStep ss s = Inr ss' \<Longrightarrow> gapless ss'"
  by (auto simp: appendStep_Inr gapless_def nth_append less_Suc_eq)

lemma gapless_append: "gapless (ss @ [s]) \<longleftrightarrow> gapless ss \<and> st_step_id s = int (length ss) + 1"
  by (auto simp: gapless_def nth_append less_Suc_eq)

lemma gapless_distinct: "gapless ss \<Longrightarrow> distinct (map st_step_id ss)"
  by (auto simp: gapless_def distinct_conv_nth)

section \<open>Laws of the totals\<close>

lemma add_step_counts [simp]:
  "to_tool_calls (add_step acc s) = to_tool_calls acc + length (st_tool_calls s)"
  "to_blocked_tool_calls (add_step acc s) = to_blocked_tool_calls acc
     + length (filter (\<lambda>c. tc_blocked_by_policy c \<noteq> None) (st_tool_calls s))"
  "to_steps (add_step acc s) = to_steps acc"
  by (simp_all add: add_step_def Let_def split: option.splits)

lemma fold_tool_calls:
  "to_tool_calls (fold (\<lambda>s acc. add_step acc s) ss acc) = to_tool_calls acc + sum_list (map (length \<circ> st_tool_calls) ss)"
  by (induction ss arbitrary: acc) simp_all

lemma fold_steps: "to_steps (fold (\<lambda>s acc. add_step acc s) ss acc) = to_steps acc"
  by (induction ss arbitrary: acc) simp_all

lemma fold_blocked: "to_blocked_tool_calls acc \<le> to_tool_calls acc \<Longrightarrow>
    to_blocked_tool_calls (fold (\<lambda>s acc. add_step acc s) ss acc)
      \<le> to_tool_calls (fold (\<lambda>s acc. add_step acc s) ss acc)"
  by (induction ss arbitrary: acc) (simp_all add: add_mono)

lemma fold_reporting:
  "to_steps_reporting_tokens (fold (\<lambda>s acc. add_step acc s) ss acc) \<le> to_steps_reporting_tokens acc + length ss
   \<and> to_steps_reporting_cost (fold (\<lambda>s acc. add_step acc s) ss acc) \<le> to_steps_reporting_cost acc + length ss"
proof (induction ss arbitrary: acc)
  case (Cons s ss)
  have "to_steps_reporting_tokens (add_step acc s) \<le> to_steps_reporting_tokens acc + 1"
    "to_steps_reporting_cost (add_step acc s) \<le> to_steps_reporting_cost acc + 1"
    by (simp_all add: add_step_def Let_def split: option.splits)
  then show ?case using Cons [of "add_step acc s"] by simp
qed simp



lemma or0_nonneg: "opt_all (\<lambda>c. 0 \<le> c) x \<Longrightarrow> 0 \<le> or0 x" for x :: "'a::linordered_idom option"
  by (cases x) (simp_all add: or0_def)

lemma add_step_nonneg:
  "opt_all valid_metrics (st_metrics s) \<Longrightarrow> 0 \<le> to_cost_usd acc \<Longrightarrow> 0 \<le> to_cost_usd (add_step acc s)"
  by (auto simp: add_step_def Let_def valid_metrics_def intro!: fadd_nonneg or0_nonneg split: option.splits)

lemma fold_cost_nonneg:
  "\<forall>s \<in> set ss. opt_all valid_metrics (st_metrics s) \<Longrightarrow> 0 \<le> to_cost_usd acc \<Longrightarrow>
    0 \<le> to_cost_usd (fold (\<lambda>s acc. add_step acc s) ss acc)"
  by (induction ss arbitrary: acc) (simp_all add: add_step_nonneg)

lemma round_micro_nonneg: "0 \<le> c \<Longrightarrow> 0 \<le> round_micro c"
proof -
  assume "0 \<le> c"
  then have "0 \<le> fmul c 1000000" by (rule fmul_nonneg) simp
  then have "0 \<le> math_round (fmul c 1000000)" by (simp add: math_round_def)
  then show ?thesis by (simp add: round_micro_def fdiv_nonneg)
qed

text \<open>The parts are compared with the whole only when both are reported.\<close>

lemma metrics_part_exceeds_whole:
  "valid_metrics \<lparr>sm_prompt_tokens = Some 10, sm_completion_tokens = None, sm_reasoning_tokens = None,
     sm_total_tokens = Some 5, sm_cost_usd = None, sm_latency_ms = None\<rparr>"
  by (simp add: valid_metrics_def)

section \<open>References\<close>

definition shot :: "traj_step \<Rightarrow> string option" where
  "shot s = given (case st_observation s of None \<Rightarrow> None | Some ob \<Rightarrow> ob_screenshot ob)"

lemma referencedBlobs_fold:
  "distinct refs \<Longrightarrow>
    (let r = fold (\<lambda>s refs. case shot s of None \<Rightarrow> refs | Some r \<Rightarrow> if r \<in> set refs then refs else refs @ [r]) ss refs
     in distinct r \<and> set r = set refs \<union> {r. \<exists>s \<in> set ss. shot s = Some r})"
proof (induction ss arbitrary: refs)
  case (Cons s ss)
  then show ?case
  proof (cases "shot s")
    case (Some r)
    have "distinct (if r \<in> set refs then refs else refs @ [r])" using Cons.prems by simp
    from Cons.IH [OF this] Some show ?thesis by (auto simp: Let_def)
  qed (simp add: Let_def)
qed simp

lemma referencedBlobs_set:
  "distinct (referencedBlobs ss) \<and> set (referencedBlobs ss) = {r. \<exists>s \<in> set ss. shot s = Some r}"
  using referencedBlobs_fold [of "[]" ss] by (simp add: referencedBlobs_def shot_def [abs_def] Let_def)

end
