(* ===== verification/Trial_Store.thy ===== *)
theory Trial_Store
  imports Atif Stores
begin

text \<open>
  \<open>trajectories/store.ts\<close>: the in-memory trial store. Every method awaits its read of the
  trial before it writes it back, so each writing method is a read that captures the trial
  and a commit from that capture; a call that is not interleaved is the two in a row.
\<close>

datatype trial_status = TRunning | TCompleted | TFailed | TPendingApproval | TTerminated | TCancelled

record trial_record =
  tr_id :: string
  tr_tenantId :: string
  tr_runId :: string
  tr_taskId :: string
  tr_status :: trial_status
  tr_agent :: agent_descriptor
  tr_steps :: "traj_step list"
  tr_startedAt :: instant
  tr_endedAt :: "instant option"
  tr_outcome :: "traj_outcome option"
  tr_score :: "rat option"
  tr_isolationBackend :: "string option"
  tr_pendingApprovalId :: "string option"

record create_trial_input =
  cti_id :: string
  cti_runId :: string
  cti_taskId :: string
  cti_agent :: agent_descriptor
  cti_isolationBackend :: "string option"

type_synonym trials = "trial_record jsmap"

fun trial_status_name :: "trial_status \<Rightarrow> string" where
  "trial_status_name TRunning = ''running''"
| "trial_status_name TCompleted = ''completed''"
| "trial_status_name TFailed = ''failed''"
| "trial_status_name TPendingApproval = ''pending_approval''"
| "trial_status_name TTerminated = ''terminated_by_policy''"
| "trial_status_name TCancelled = ''cancelled''"

definition toTrajectory :: "trial_record \<Rightarrow> trajectory" where
  "toTrajectory t = \<lparr>tj_atif_version = ATIF_VERSION, tj_trial_id = tr_id t, tj_run_id = tr_runId t,
     tj_task_id = tr_taskId t, tj_agent = tr_agent t, tj_started_at = toISOString (tr_startedAt t),
     tj_ended_at = map_option toISOString (tr_endedAt t), tj_steps = tr_steps t,
     tj_outcome = tr_outcome t, tj_score = tr_score t,
     tj_isolation_backend = given (tr_isolationBackend t)\<rparr>"

definition trialTotals :: "trial_record \<Rightarrow> totals" where
  "trialTotals t = traj_totals (tr_steps t)"

definition trial_not_found :: "string \<Rightarrow> string" where
  "trial_not_found trialId = ''Trial '' @ trialId @ '' does not exist, or belongs to another tenant.''"

definition createTrial ::
    "instant \<Rightarrow> tenant_ctx \<Rightarrow> create_trial_input \<Rightarrow> trials \<Rightarrow> (string + trial_record) \<times> trials" where
  "createTrial now ctx input s =
     (if map_has s (cti_id input) then (Inl (''Trial '' @ cti_id input @ '' already exists.''), s)
      else
        let record = \<lparr>tr_id = cti_id input, tr_tenantId = tc_tenantId ctx, tr_runId = cti_runId input,
              tr_taskId = cti_taskId input, tr_status = TRunning, tr_agent = cti_agent input,
              tr_steps = [], tr_startedAt = now, tr_endedAt = None, tr_outcome = None, tr_score = None,
              tr_isolationBackend = given (cti_isolationBackend input), tr_pendingApprovalId = None\<rparr>
        in (Inr record, map_set (tr_id record) record s))"

definition getTrial :: "trials \<Rightarrow> tenant_ctx \<Rightarrow> string \<Rightarrow> trial_record option" where
  "getTrial s ctx trialId = (case map_get s trialId of
     Some t \<Rightarrow> if tr_tenantId t = tc_tenantId ctx then Some t else None
   | None \<Rightarrow> None)"

definition listTrialsForRun :: "trials \<Rightarrow> tenant_ctx \<Rightarrow> string \<Rightarrow> trial_record list" where
  "listTrialsForRun s ctx runId =
     sort_asc tr_startedAt
       (filter (\<lambda>t. tr_tenantId t = tc_tenantId ctx \<and> tr_runId t = runId) (map_values s))"

text \<open>What each call computes from the trial it read: the update to write back, or its throw.\<close>

definition append_update :: "string \<Rightarrow> traj_step \<Rightarrow> trial_record option \<Rightarrow> string + trial_record" where
  "append_update trialId st trial = (case trial of
     None \<Rightarrow> Inl (trial_not_found trialId)
   | Some t \<Rightarrow>
       if tr_status t \<noteq> TRunning \<and> tr_status t \<noteq> TPendingApproval then
         Inl (''Trial '' @ trialId @ '' is '' @ trial_status_name (tr_status t)
           @ '' and accepts no further steps. '' @ ''A concluded trajectory is a closed record.'')
       else bindE (appendStep (tr_steps t) st) (\<lambda>steps. Inr (t\<lparr>tr_steps := steps\<rparr>)))"

definition trial_appendStep ::
    "tenant_ctx \<Rightarrow> string \<Rightarrow> traj_step \<Rightarrow> trials \<Rightarrow> (string + trial_record) \<times> trials" where
  "trial_appendStep ctx trialId st s = (case append_update trialId st (getTrial s ctx trialId) of
     Inl e \<Rightarrow> (Inl e, s)
   | Inr t \<Rightarrow> (Inr t, map_set trialId t s))"

definition finish_update ::
    "instant \<Rightarrow> traj_outcome \<Rightarrow> rat option \<Rightarrow> trial_record \<Rightarrow> trial_record" where
  "finish_update now outcome score t = t\<lparr>
     tr_status := (if outcome = OSuccess then TCompleted
       else if outcome = OBlockedByPolicy then TTerminated else TFailed),
     tr_outcome := Some outcome, tr_endedAt := Some now,
     tr_score := (case score of None \<Rightarrow> tr_score t | Some x \<Rightarrow> Some x),
     tr_pendingApprovalId := None\<rparr>"

definition finishTrial ::
    "instant \<Rightarrow> tenant_ctx \<Rightarrow> string \<Rightarrow> traj_outcome \<Rightarrow> rat option \<Rightarrow> trials
      \<Rightarrow> trial_record option \<times> trials" where
  "finishTrial now ctx trialId outcome score s = (case getTrial s ctx trialId of
     None \<Rightarrow> (None, s)
   | Some t \<Rightarrow> let updated = finish_update now outcome score t
       in (Some updated, map_set trialId updated s))"

definition status_update :: "trial_status \<Rightarrow> string option \<Rightarrow> trial_record \<Rightarrow> trial_record" where
  "status_update status approvalId t = t\<lparr>tr_status := status,
     tr_pendingApprovalId := (if status = TPendingApproval then given approvalId else None)\<rparr>"

definition setTrialStatus ::
    "tenant_ctx \<Rightarrow> string \<Rightarrow> trial_status \<Rightarrow> string option \<Rightarrow> trials \<Rightarrow> trial_record option \<times> trials" where
  "setTrialStatus ctx trialId status approvalId s = (case getTrial s ctx trialId of
     None \<Rightarrow> (None, s)
   | Some t \<Rightarrow> let updated = status_update status approvalId t
       in (Some updated, map_set trialId updated s))"

definition trajectoriesForRun :: "trials \<Rightarrow> tenant_ctx \<Rightarrow> string \<Rightarrow> trajectory list" where
  "trajectoriesForRun s ctx runId = map toTrajectory (listTrialsForRun s ctx runId)"

definition expectedNextStep :: "trials \<Rightarrow> tenant_ctx \<Rightarrow> string \<Rightarrow> int option" where
  "expectedNextStep s ctx trialId = map_option (\<lambda>t. nextStepId (tr_steps t)) (getTrial s ctx trialId)"

section \<open>Calls in flight\<close>

text \<open>
  The state with the calls that have read their trial and not yet written: a pending commit
  is the key and the record it will write. A call that throws or finds nothing leaves none.
\<close>

record trial_system =
  sy_trials :: trials
  sy_pending :: "(string \<times> trial_record) list"

inductive trial_step :: "trial_system \<Rightarrow> trial_system \<Rightarrow> bool" where
  create: "createTrial now ctx input (sy_trials y) = (Inr t, s') \<Longrightarrow>
    trial_step y (y\<lparr>sy_trials := s'\<rparr>)"
| append_begin: "append_update k st (getTrial (sy_trials y) ctx k) = Inr t \<Longrightarrow>
    trial_step y (y\<lparr>sy_pending := sy_pending y @ [(k, t)]\<rparr>)"
| finish_begin: "getTrial (sy_trials y) ctx k = Some t0 \<Longrightarrow>
    trial_step y (y\<lparr>sy_pending := sy_pending y @ [(k, finish_update now outcome score t0)]\<rparr>)"
| status_begin: "getTrial (sy_trials y) ctx k = Some t0 \<Longrightarrow>
    trial_step y (y\<lparr>sy_pending := sy_pending y @ [(k, status_update status approval t0)]\<rparr>)"
| commit: "sy_pending y = before @ (k, t) # after \<Longrightarrow>
    trial_step y \<lparr>sy_trials = map_set k t (sy_trials y), sy_pending = before @ after\<rparr>"

inductive trial_reachable :: "trial_system \<Rightarrow> bool" where
  start: "trial_reachable \<lparr>sy_trials = [], sy_pending = []\<rparr>"
| step: "trial_reachable y \<Longrightarrow> trial_step y y' \<Longrightarrow> trial_reachable y'"

inductive_cases trial_stepE: "trial_step y y'"

section \<open>The invariant\<close>

definition trial_ok :: "string \<Rightarrow> trial_record \<Rightarrow> bool" where
  "trial_ok k t = (tr_id t = k \<and> gapless (tr_steps t)
     \<and> (tr_pendingApprovalId t \<noteq> None \<longrightarrow> tr_status t = TPendingApproval))"

definition trials_inv :: "trials \<Rightarrow> bool" where
  "trials_inv s = (\<forall>k t. map_get s k = Some t \<longrightarrow> trial_ok k t)"

definition sy_inv :: "trial_system \<Rightarrow> bool" where
  "sy_inv y = (trials_inv (sy_trials y) \<and> (\<forall>(k, t) \<in> set (sy_pending y). trial_ok k t))"

lemma getTrial_Some: "getTrial s ctx k = Some t \<longleftrightarrow> map_get s k = Some t \<and> tr_tenantId t = tc_tenantId ctx"
  by (auto simp: getTrial_def split: option.splits)

lemma append_update_Inr: "append_update k st r = Inr t' \<longleftrightarrow>
    (\<exists>t. r = Some t \<and> tr_status t \<in> {TRunning, TPendingApproval}
      \<and> st_step_id st = int (length (tr_steps t)) + 1 \<and> t' = t\<lparr>tr_steps := tr_steps t @ [st]\<rparr>)"
  by (auto simp: append_update_def bindE_Inr_iff appendStep_Inr split: option.splits if_splits)

lemma trial_ok_updates:
  assumes "trial_ok k t"
  shows "trial_ok k (finish_update now outcome score t)" "trial_ok k (status_update status approval t)"
    "append_update k st (Some t) = Inr t' \<Longrightarrow> trial_ok k t'"
  using assms by (auto simp: trial_ok_def finish_update_def status_update_def append_update_Inr gapless_append)

lemma trials_inv_set: "trials_inv s \<Longrightarrow> trial_ok k t \<Longrightarrow> trials_inv (map_set k t s)"
  by (simp add: trials_inv_def map_get_set)

lemma getTrial_ok: "trials_inv s \<Longrightarrow> getTrial s ctx k = Some t \<Longrightarrow> trial_ok k t"
  by (auto simp: getTrial_Some trials_inv_def)

lemma createTrial_inv: "trials_inv s \<Longrightarrow> trials_inv (snd (createTrial now ctx input s))"
  by (auto simp: createTrial_def Let_def trial_ok_def intro: trials_inv_set)

lemma createTrial_Inr: "createTrial now ctx input s = (Inr t, s') \<Longrightarrow>
    map_get s (cti_id input) = None \<and> s' = map_set (cti_id input) t s \<and> tr_tenantId t = tc_tenantId ctx"
  by (cases "map_get s (cti_id input)") (simp_all add: createTrial_def Let_def map_has_def, auto)

lemma trial_step_inv: "trial_step y y' \<Longrightarrow> sy_inv y \<Longrightarrow> sy_inv y'"
proof (induction rule: trial_step.induct)
  case (create now ctx input y t s')
  then show ?case using createTrial_inv [of "sy_trials y" now ctx input] by (simp add: sy_inv_def)
next
  case (append_begin k st y ctx t)
  then obtain t0 where t0: "getTrial (sy_trials y) ctx k = Some t0" by (auto simp: append_update_Inr)
  have "trial_ok k t0" using getTrial_ok [OF _ t0] append_begin.prems by (simp add: sy_inv_def)
  then have "trial_ok k t" using trial_ok_updates(3) append_begin.hyps t0 by simp
  then show ?case using append_begin.prems by (simp add: sy_inv_def)
next
  case (finish_begin y ctx k t0 now outcome score)
  then show ?case using getTrial_ok trial_ok_updates(1) by (auto simp: sy_inv_def)
next
  case (status_begin y ctx k t0 status approval)
  then show ?case using getTrial_ok trial_ok_updates(2) by (auto simp: sy_inv_def)
next
  case (commit y before k t after)
  then show ?case by (auto simp: sy_inv_def intro: trials_inv_set)
qed

lemma trial_reachable_inv: "trial_reachable y \<Longrightarrow> sy_inv y"
proof (induction rule: trial_reachable.induct)
  case start
  then show ?case by (simp add: sy_inv_def trials_inv_def)
next
  case (step y y')
  then show ?case using trial_step_inv by blast
qed

text \<open>The owner of a trial never changes: an id is refused once it is taken.\<close>

definition owned :: "trial_system \<Rightarrow> string \<Rightarrow> string \<Rightarrow> bool" where
  "owned y k tenant = ((\<exists>t. map_get (sy_trials y) k = Some t \<and> tr_tenantId t = tenant)
     \<and> (\<forall>t. (k, t) \<in> set (sy_pending y) \<longrightarrow> tr_tenantId t = tenant))"

lemma update_tenant [simp]: "tr_tenantId (finish_update now outcome score t) = tr_tenantId t"
  "tr_tenantId (status_update status approval t) = tr_tenantId t"
  by (simp_all add: finish_update_def status_update_def)

lemma owned_step: "trial_step y y' \<Longrightarrow> owned y k tenant \<Longrightarrow> owned y' k tenant"
proof (induction rule: trial_step.induct)
  case (create now ctx input y t s')
  note c = createTrial_Inr [OF create.hyps]
  obtain t0 where "map_get (sy_trials y) k = Some t0" using create.prems by (auto simp: owned_def)
  with c have "k \<noteq> cti_id input" by auto
  then have "map_get s' k = map_get (sy_trials y) k" using c by (simp add: map_get_set)
  then show ?case using create.prems by (simp add: owned_def)
next
  case (append_begin k' st y ctx t)
  then show ?case by (auto simp: owned_def append_update_Inr getTrial_Some)
next
  case (finish_begin y ctx k' t0 now outcome score)
  then show ?case by (auto simp: owned_def getTrial_Some)
next
  case (status_begin y ctx k' t0 status approval)
  then show ?case by (auto simp: owned_def getTrial_Some)
next
  case (commit y before k' t after)
  have pend: "\<And>u. (k, u) \<in> set (sy_pending y) \<Longrightarrow> tr_tenantId u = tenant"
    and cur: "\<exists>u. map_get (sy_trials y) k = Some u \<and> tr_tenantId u = tenant"
    using commit.prems unfolding owned_def by blast+
  have rest: "tr_tenantId u = tenant" if "(k, u) \<in> set (before @ after)" for u
    by (rule pend) (use that commit.hyps in auto)
  have new: "tr_tenantId t = tenant" if "k' = k"
    by (rule pend) (use that commit.hyps in auto)
  show ?case unfolding owned_def trial_system.simps map_get_set using rest new cur by metis
qed

section \<open>Sequential calls\<close>

text \<open>A call that is not interleaved is its read followed by its commit.\<close>

lemma append_is_two_steps:
  "append_update k st (getTrial s ctx k) = Inr t \<Longrightarrow>
    trial_appendStep ctx k st s = (Inr t, map_set k t s)"
  by (simp add: trial_appendStep_def)

text \<open>Two appends started together: both are accepted, and one step is lost.\<close>

lemma interleaved_appends_lose_a_step:
  assumes "getTrial s ctx k = Some t" "tr_status t = TRunning"
    "st_step_id a = nextStepId (tr_steps t)" "st_step_id b = nextStepId (tr_steps t)"
  shows "\<exists>ta tb. append_update k a (getTrial s ctx k) = Inr ta \<and> append_update k b (getTrial s ctx k) = Inr tb
    \<and> getTrial (map_set k tb (map_set k ta s)) ctx k = Some (t\<lparr>tr_steps := tr_steps t @ [b]\<rparr>)"
  using assms by (auto simp: append_update_Inr nextStepId_def getTrial_Some map_get_set)

text \<open>A concluded trial is reopened by a status call, and then takes steps again.\<close>

lemma concluded_trial_reopens:
  assumes "getTrial s ctx k = Some t" "st_step_id st = nextStepId (tr_steps t)"
  shows "\<exists>u v. finishTrial now ctx k outcome score s = (Some u, map_set k u s)
    \<and> (let s1 = map_set k u s; s2 = snd (setTrialStatus ctx k TRunning None s1)
       in fst (trial_appendStep ctx k st s2) = Inr v \<and> tr_steps v = tr_steps t @ [st]
         \<and> tr_endedAt v = Some now)"
proof -
  let ?u = "finish_update now outcome score t"
  let ?s1 = "map_set k ?u s"
  let ?w = "status_update TRunning None ?u"
  have t: "map_get s k = Some t" "tr_tenantId t = tc_tenantId ctx" using assms(1) by (simp_all add: getTrial_Some)
  have f: "finishTrial now ctx k outcome score s = (Some ?u, ?s1)"
    using assms(1) by (simp add: finishTrial_def Let_def)
  have "getTrial ?s1 ctx k = Some ?u" using t by (simp add: getTrial_Some map_get_set)
  then have w: "snd (setTrialStatus ctx k TRunning None ?s1) = map_set k ?w ?s1"
    by (simp add: setTrialStatus_def Let_def)
  have "getTrial (map_set k ?w ?s1) ctx k = Some ?w" using t by (simp add: getTrial_Some map_get_set)
  then have "append_update k st (getTrial (map_set k ?w ?s1) ctx k) = Inr (?w\<lparr>tr_steps := tr_steps t @ [st]\<rparr>)"
    using assms(2) by (auto simp: append_update_Inr status_update_def finish_update_def nextStepId_def)
  then have "fst (trial_appendStep ctx k st (map_set k ?w ?s1)) = Inr (?w\<lparr>tr_steps := tr_steps t @ [st]\<rparr>)"
    by (simp add: append_is_two_steps)
  with f w show ?thesis by (intro exI [of _ ?u] exI [of _ "?w\<lparr>tr_steps := tr_steps t @ [st]\<rparr>"])
      (simp add: Let_def status_update_def finish_update_def)
qed

end
