(* ===== verification/Task_Registry.thy ===== *)
theory Task_Registry
  imports Store_Laws
begin

text \<open>
  \<open>tasks/registry.ts\<close>: split labels, the held-out gate and its audit payload, the content
  hash of a task set, and the in-memory task store. \<open>createTask\<close> awaits between reading
  the set and writing it back, so it is two steps here.
\<close>

section \<open>Splits and the gate\<close>

datatype split_kind = TRAIN | DEV | HELD_OUT

fun split_name :: "split_kind \<Rightarrow> string" where
  "split_name TRAIN = ''TRAIN''"
| "split_name DEV = ''DEV''"
| "split_name HELD_OUT = ''HELD_OUT''"

definition SPLITS :: "split_kind list" where
  "SPLITS = [TRAIN, DEV, HELD_OUT]"

definition HELD_OUT_SCOPE :: string where
  "HELD_OUT_SCOPE = ''splits:held-out''"

definition is_sep :: "char \<Rightarrow> bool" where
  "is_sep c = (is_space c \<or> c = CHR ''-'')"

text \<open>\<open>replace\<close> of every run of separators by one underscore.\<close>

fun squash :: "bool \<Rightarrow> string \<Rightarrow> string" where
  "squash inrun [] = []"
| "squash inrun (c # cs) =
     (if is_sep c then (if inrun then squash True cs else CHR ''_'' # squash True cs)
      else c # squash False cs)"

definition normalizeSplit :: "string \<Rightarrow> split_kind option" where
  "normalizeSplit raw =
     (let k = squash False (map to_upper (trim raw)) in
      if k = ''HELD_OUT'' \<or> k = ''HELDOUT'' then Some HELD_OUT
      else if k = ''TRAIN'' \<or> k = ''TRAINING'' then Some TRAIN
      else if k = ''DEV'' \<or> k = ''VALIDATION'' \<or> k = ''VAL'' then Some DEV
      else None)"

datatype access_outcome = Allowed | Denied

record split_access =
  sa_outcome :: access_outcome
  sa_status :: int
  sa_reason :: string
  sa_split :: split_kind
  sa_requiredScope :: "string option"

definition checkSplitAccess :: "tenant_ctx \<Rightarrow> split_kind \<Rightarrow> split_access" where
  "checkSplitAccess ctx split =
     (if split \<noteq> HELD_OUT then
        \<lparr>sa_outcome = Allowed, sa_status = 200,
         sa_reason = ''The '' @ split_name split @ '' split is not access-controlled.'',
         sa_split = split, sa_requiredScope = None\<rparr>
      else if HELD_OUT_SCOPE \<in> set (tc_scopes ctx) then
        \<lparr>sa_outcome = Allowed, sa_status = 200,
         sa_reason = ''Caller holds '' @ HELD_OUT_SCOPE @ ''.'',
         sa_split = split, sa_requiredScope = None\<rparr>
      else
        \<lparr>sa_outcome = Denied, sa_status = 403,
         sa_reason = ''Scheduling a run against a HELD_OUT split requires the ''
           @ quoted HELD_OUT_SCOPE @ '' scope. ''
           @ ''Held-out results are only meaningful while the split stays out of the loop that ''
           @ ''produced the model, so this is not overridable.'',
         sa_split = split, sa_requiredScope = Some HELD_OUT_SCOPE\<rparr>)"

section \<open>Records\<close>

record task_record =
  tk_id :: string
  tk_tenantId :: string
  tk_taskSetId :: string
  tk_prompt :: string
  tk_environmentRef :: "string option"
  tk_groundTruth :: "(string \<times> jsval) list option"
  tk_egressAllowlist :: "string list"
  tk_createdAt :: instant

record task_set_record =
  ts_id :: string
  ts_tenantId :: string
  ts_name :: string
  ts_version :: string
  ts_split :: split_kind
  ts_taskIds :: "string list"
  ts_contentHash :: string
  ts_createdAt :: instant

text \<open>The bytes hashed, one \<open>update\<close> after the other.\<close>

definition task_set_text :: "string \<Rightarrow> string \<Rightarrow> split_kind \<Rightarrow> string list \<Rightarrow> string" where
  "task_set_text sid version split taskIds =
     line_of ''taskset:v1'' @ line_of sid @ line_of version @ line_of (split_name split)
     @ line_of (''count:'' @ show_nat (length taskIds)) @ concat (map line_of taskIds)"

definition computeTaskSetHash ::
    "(bytes \<Rightarrow> bytes) \<Rightarrow> string \<Rightarrow> string \<Rightarrow> split_kind \<Rightarrow> string list \<Rightarrow> string" where
  "computeTaskSetHash H sid version split taskIds =
     ''sha256:'' @ to_hex (H (utf8 (task_set_text sid version split taskIds)))"

definition splitDenialAudit ::
    "tenant_ctx \<Rightarrow> string \<Rightarrow> string \<Rightarrow> split_kind \<Rightarrow> string \<Rightarrow> (string \<times> jsval) list" where
  "splitDenialAudit ctx sid version split contentHash =
     [(''taskSetId'', JStr sid), (''taskSetVersion'', JStr version), (''split'', JStr (split_name split)),
      (''contentHash'', JStr contentHash), (''requiredScope'', JStr HELD_OUT_SCOPE),
      (''heldScopes'', JArr (map JStr (tc_scopes ctx)))]"

section \<open>The store\<close>

record create_task_input =
  ci_id :: string
  ci_taskSetId :: string
  ci_prompt :: string
  ci_environmentRef :: "string option"
  ci_groundTruth :: "(string \<times> jsval) list option"
  ci_egressAllowlist :: "string list option"

record create_task_set_input =
  csi_id :: string
  csi_name :: string
  csi_version :: string
  csi_split :: split_kind
  csi_taskIds :: "string list option"

record task_store =
  tst_taskSets :: "task_set_record jsmap"
  tst_tasks :: "task_record jsmap"

definition empty_task_store :: task_store where
  "empty_task_store = \<lparr>tst_taskSets = [], tst_tasks = []\<rparr>"

definition createTaskSet ::
    "(bytes \<Rightarrow> bytes) \<Rightarrow> instant \<Rightarrow> tenant_ctx \<Rightarrow> create_task_set_input \<Rightarrow> task_store
      \<Rightarrow> (string + task_set_record) \<times> task_store" where
  "createTaskSet H now ctx input s =
     (if map_has (tst_taskSets s) (csi_id input)
      then (Inl (''Task set '' @ csi_id input @ '' already exists.''), s)
      else
        let taskIds = (case csi_taskIds input of None \<Rightarrow> [] | Some ids \<Rightarrow> ids);
            record = \<lparr>ts_id = csi_id input, ts_tenantId = tc_tenantId ctx, ts_name = csi_name input,
              ts_version = csi_version input, ts_split = csi_split input, ts_taskIds = taskIds,
              ts_contentHash = computeTaskSetHash H (csi_id input) (csi_version input)
                (csi_split input) taskIds,
              ts_createdAt = now\<rparr>
        in (Inr record, s\<lparr>tst_taskSets := map_set (ts_id record) record (tst_taskSets s)\<rparr>))"

definition getTaskSet :: "task_store \<Rightarrow> tenant_ctx \<Rightarrow> string \<Rightarrow> task_set_record option" where
  "getTaskSet s ctx k = (case map_get (tst_taskSets s) k of
     Some r \<Rightarrow> if ts_tenantId r = tc_tenantId ctx then Some r else None
   | None \<Rightarrow> None)"

definition listTaskSets :: "task_store \<Rightarrow> tenant_ctx \<Rightarrow> split_kind option \<Rightarrow> task_set_record list" where
  "listTaskSets s ctx split =
     sort_asc ts_createdAt
      (filter (\<lambda>r. case split of None \<Rightarrow> True | Some sp \<Rightarrow> ts_split r = sp)
        (filter (\<lambda>r. ts_tenantId r = tc_tenantId ctx) (map_values (tst_taskSets s))))"

text \<open>\<open>createTask\<close> up to its \<open>await\<close>, and from there on with the set it read.\<close>

definition createTask_begin ::
    "tenant_ctx \<Rightarrow> create_task_input \<Rightarrow> task_store \<Rightarrow> string + task_set_record" where
  "createTask_begin ctx input s =
     (if map_has (tst_tasks s) (ci_id input)
      then Inl (''Task '' @ ci_id input @ '' already exists.'')
      else case getTaskSet s ctx (ci_taskSetId input) of
        None \<Rightarrow> Inl (''Task set '' @ ci_taskSetId input @ '' does not exist for this tenant.'')
      | Some r \<Rightarrow> Inr r)"

definition createTask_commit ::
    "(bytes \<Rightarrow> bytes) \<Rightarrow> instant \<Rightarrow> tenant_ctx \<Rightarrow> create_task_input \<Rightarrow> task_set_record \<Rightarrow> task_store
      \<Rightarrow> task_record \<times> task_store" where
  "createTask_commit H now ctx input r s =
     (let record = \<lparr>tk_id = ci_id input, tk_tenantId = tc_tenantId ctx,
            tk_taskSetId = ci_taskSetId input, tk_prompt = ci_prompt input,
            tk_environmentRef = given (ci_environmentRef input),
            tk_groundTruth = ci_groundTruth input,
            tk_egressAllowlist = (case ci_egressAllowlist input of None \<Rightarrow> [] | Some a \<Rightarrow> a),
            tk_createdAt = now\<rparr>;
          taskIds = ts_taskIds r @ [tk_id record]
      in (record,
          s\<lparr>tst_tasks := map_set (tk_id record) record (tst_tasks s),
            tst_taskSets := map_set (ts_id r)
              (r\<lparr>ts_taskIds := taskIds,
                 ts_contentHash := computeTaskSetHash H (ts_id r) (ts_version r) (ts_split r) taskIds\<rparr>)
              (tst_taskSets s)\<rparr>))"

definition createTask ::
    "(bytes \<Rightarrow> bytes) \<Rightarrow> instant \<Rightarrow> tenant_ctx \<Rightarrow> create_task_input \<Rightarrow> task_store
      \<Rightarrow> (string + task_record) \<times> task_store" where
  "createTask H now ctx input s = (case createTask_begin ctx input s of
     Inl e \<Rightarrow> (Inl e, s)
   | Inr r \<Rightarrow> (case createTask_commit H now ctx input r s of (t, s') \<Rightarrow> (Inr t, s')))"

definition getTask :: "task_store \<Rightarrow> tenant_ctx \<Rightarrow> string \<Rightarrow> task_record option" where
  "getTask s ctx k = (case map_get (tst_tasks s) k of
     Some t \<Rightarrow> if tk_tenantId t = tc_tenantId ctx then Some t else None
   | None \<Rightarrow> None)"

definition listTasks :: "task_store \<Rightarrow> tenant_ctx \<Rightarrow> string \<Rightarrow> task_record list" where
  "listTasks s ctx taskSetId =
     sort_asc tk_createdAt
      (filter (\<lambda>t. tk_tenantId t = tc_tenantId ctx \<and> tk_taskSetId t = taskSetId)
        (map_values (tst_tasks s)))"

text \<open>Assigning the property \<open>__proto__\<close> sets the prototype and adds no property.\<close>

definition egressData :: "task_store \<Rightarrow> tenant_ctx \<Rightarrow> (string \<times> string list) list" where
  "egressData s ctx =
     fold (\<lambda>t out. if tk_tenantId t \<noteq> tc_tenantId ctx \<or> tk_id t = ''__proto__'' then out
         else map_set (tk_id t) (tk_egressAllowlist t) out)
       (map_values (tst_tasks s)) []"

section \<open>The gate\<close>

lemma checkSplitAccess_denied: "sa_outcome (checkSplitAccess ctx sp) = Denied \<longleftrightarrow>
    sp = HELD_OUT \<and> HELD_OUT_SCOPE \<notin> set (tc_scopes ctx)"
  by (simp add: checkSplitAccess_def)

lemma checkSplitAccess_status:
  "sa_status (checkSplitAccess ctx sp) = (if sa_outcome (checkSplitAccess ctx sp) = Denied then 403 else 200)"
  by (simp add: checkSplitAccess_def)

lemma upper_code [simp]:
  "(of_char c :: nat) \<le> 122 \<Longrightarrow> ((of_char c :: nat) - 32) mod 256 = of_char c - 32"
  by (rule mod_less) linarith

lemma to_upper_idem [simp]: "to_upper (to_upper c) = to_upper c"
  by (auto simp: to_upper_def)

lemma is_space_to_upper [simp]: "is_space (to_upper c) \<longleftrightarrow> is_space c"
proof (cases "97 \<le> (of_char c :: nat) \<and> (of_char c :: nat) \<le> 122")
  case True
  then have "(of_char (to_upper c) :: nat) = of_char c - 32" by (simp add: to_upper_def)
  with True show ?thesis by (auto simp: is_space_def)
next
  case False
  then show ?thesis by (auto simp: to_upper_def)
qed

lemma trim_map_upper: "trim (map to_upper s) = map to_upper (trim s)"
  by (simp add: trim_def trim_left_def dropWhile_map o_def rev_map)

lemma normalizeSplit_upper: "normalizeSplit (map to_upper raw) = normalizeSplit raw"
  by (simp add: normalizeSplit_def trim_map_upper o_def)

lemma dropWhile_space_idem: "dropWhile is_space (dropWhile is_space s) = dropWhile is_space s"
  by (rule dropWhile_idem)

lemma trim_left_space: "is_space c \<Longrightarrow> trim (c # s) = trim s"
  by (simp add: trim_def trim_left_def)

lemma trim_right_space: "is_space c \<Longrightarrow> trim (s @ [c]) = trim s"
proof (cases "\<forall>x \<in> set s. is_space x")
  case True
  moreover assume "is_space c"
  ultimately show ?thesis by (metis trim_Nil_iff Un_iff set_append set_ConsD empty_iff empty_set)
next
  case False
  assume c: "is_space c"
  then have "dropWhile is_space (s @ [c]) = dropWhile is_space s @ [c]"
    using False by (auto simp: dropWhile_append)
  then show ?thesis using c by (simp add: trim_def trim_left_def)
qed

lemma normalizeSplit_padded:
  "\<forall>c \<in> set a \<union> set b. is_space c \<Longrightarrow> normalizeSplit (a @ raw @ b) = normalizeSplit raw"
proof -
  assume sp: "\<forall>c \<in> set a \<union> set b. is_space c"
  have l: "trim (a @ s) = trim s" if "\<forall>c \<in> set a. is_space c" for a s
    using that by (induction a) (auto simp: trim_left_space)
  have r: "trim (s @ b) = trim s" if "\<forall>c \<in> set b. is_space c" for b s
    using that
  proof (induction b rule: rev_induct)
    case (snoc x xs)
    then show ?case using trim_right_space [of x "s @ xs"] by simp
  qed simp
  show ?thesis using sp l [of a "raw @ b"] r [of b raw] by (simp add: normalizeSplit_def)
qed

lemma normalizeSplit_labels: "normalizeSplit ''TRAIN'' = Some TRAIN" "normalizeSplit ''DEV'' = Some DEV"
    "normalizeSplit ''HELD_OUT'' = Some HELD_OUT" "normalizeSplit '' held-out '' = Some HELD_OUT"
    "normalizeSplit ''Heldout'' = Some HELD_OUT" "normalizeSplit ''test'' = None"
  by code_simp+

lemma normalizeSplit_name: "normalizeSplit (split_name sp) = Some sp"
  by (cases sp) (simp_all add: normalizeSplit_labels)

section \<open>The content hash\<close>

lemma newline_not_digit: "\<not> is_digit newline"
  by (simp add: is_digit_def newline_def)

lemma newline_not_shown: "newline \<notin> set (show_nat n)"
  using show_nat_digits newline_not_digit by blast

lemma newline_not_in_split: "newline \<notin> set (split_name sp)"
  by (cases sp) (simp_all add: newline_def)

lemma split_name_inj [simp]: "split_name a = split_name b \<longleftrightarrow> a = b"
  by (cases a; cases b) simp_all

definition one_line :: "string \<Rightarrow> string \<Rightarrow> string list \<Rightarrow> bool" where
  "one_line sid version taskIds = (\<forall>s \<in> {sid, version} \<union> set taskIds. newline \<notin> set s)"

lemma task_set_text_inj:
  assumes "one_line i v ts" "one_line i' v' ts'"
  shows "task_set_text i v sp ts = task_set_text i' v' sp' ts' \<longleftrightarrow> i = i' \<and> v = v' \<and> sp = sp' \<and> ts = ts'"
proof -
  have c: "newline \<notin> set (''count:'' @ show_nat n)" for n
    using newline_not_shown by (simp add: newline_def)
  have t: "newline \<notin> set ''taskset:v1''" by (simp add: newline_def)
  have l: "newline \<notin> set i" "newline \<notin> set i'" "newline \<notin> set v" "newline \<notin> set v'"
    "\<forall>s \<in> set ts \<union> set ts'. newline \<notin> set s"
    using assms by (auto simp: one_line_def)
  show ?thesis
    unfolding task_set_text_def append_assoc line_of_eq [OF t t] line_of_eq [OF l(1,2)]
      line_of_eq [OF l(3,4)] line_of_eq [OF newline_not_in_split newline_not_in_split]
      line_of_eq [OF c c] concat_lines_eq [OF l(5)]
    by auto
qed

section \<open>The invariant of the store\<close>

definition pinned :: "(bytes \<Rightarrow> bytes) \<Rightarrow> task_set_record \<Rightarrow> bool" where
  "pinned H r = (ts_contentHash r = computeTaskSetHash H (ts_id r) (ts_version r) (ts_split r) (ts_taskIds r))"

definition task_inv :: "(bytes \<Rightarrow> bytes) \<Rightarrow> task_store \<Rightarrow> bool" where
  "task_inv H s = (keyed ts_id (tst_taskSets s) \<and> keyed tk_id (tst_tasks s)
     \<and> (\<forall>k r. map_get (tst_taskSets s) k = Some r \<longrightarrow> pinned H r))"

definition listed :: "task_store \<Rightarrow> bool" where
  "listed s = (\<forall>k t. map_get (tst_tasks s) k = Some t \<longrightarrow>
     (\<exists>r. map_get (tst_taskSets s) (tk_taskSetId t) = Some r \<and> k \<in> set (ts_taskIds r)
        \<and> ts_tenantId r = tk_tenantId t))"

lemma task_inv_empty [simp]: "task_inv H empty_task_store" "listed empty_task_store"
  by (simp_all add: task_inv_def listed_def empty_task_store_def)

lemma createTaskSet_inv:
  "task_inv H s \<Longrightarrow> task_inv H (snd (createTaskSet H now ctx input s))"
  by (auto simp: createTaskSet_def Let_def task_inv_def map_get_set pinned_def)

lemma createTaskSet_listed: "listed s \<Longrightarrow> listed (snd (createTaskSet H now ctx input s))"
  by (fastforce simp: createTaskSet_def Let_def listed_def map_get_set map_has_def)

lemma createTask_commit_inv:
  "task_inv H s \<Longrightarrow> task_inv H (snd (createTask_commit H now ctx input r s))"
  by (auto simp: createTask_commit_def Let_def task_inv_def map_get_set pinned_def)

lemma getTaskSet_Some: "getTaskSet s ctx k = Some r \<longleftrightarrow>
    map_get (tst_taskSets s) k = Some r \<and> ts_tenantId r = tc_tenantId ctx"
  by (auto simp: getTaskSet_def split: option.splits)

lemma createTask_begin_Inr: "createTask_begin ctx input s = Inr r \<longleftrightarrow>
    map_get (tst_tasks s) (ci_id input) = None \<and> getTaskSet s ctx (ci_taskSetId input) = Some r"
  by (auto simp: createTask_begin_def map_has_def split: option.splits)

lemma createTask_inv: "task_inv H s \<Longrightarrow> task_inv H (snd (createTask H now ctx input s))"
  using createTask_commit_inv [of H s now ctx input]
  by (auto simp: createTask_def split: sum.splits prod.splits) (metis snd_conv)

lemma createTask_listed:
  assumes "task_inv H s" "listed s"
  shows "listed (snd (createTask H now ctx input s))"
proof (cases "createTask_begin ctx input s")
  case (Inr r)
  then have r: "map_get (tst_taskSets s) (ci_taskSetId input) = Some r" "ts_tenantId r = tc_tenantId ctx"
    "map_get (tst_tasks s) (ci_id input) = None"
    by (auto simp: createTask_begin_Inr getTaskSet_Some)
  then have i: "ts_id r = ci_taskSetId input" using assms(1) by (auto simp: task_inv_def dest: keyed_get)
  show ?thesis using Inr r i assms(2)
    by (fastforce simp: createTask_def createTask_commit_def Let_def listed_def map_get_set)
qed (use assms in \<open>simp add: createTask_def\<close>)

end
