(* ===== verification/Policy_Engine.thy ===== *)
theory Policy_Engine
  imports Float64
begin

text \<open>
  \<open>policy/engine.ts\<close>: loading the compiled policy bundle and asking it for decisions, every
  way of not getting an answer included; and the rules of \<open>policies/*.rego\<close> the gate asks,
  as an instance of the engine's loaded policy. The WebAssembly runtime (reading the file,
  instantiating the module, \<open>setData\<close>, \<open>evaluate\<close>) is a parameter.
\<close>

section \<open>Inputs and decisions\<close>

datatype entrypoint = RequireApproval | AllowEgress | DenyBudget | AuthzAllow

fun entrypoint_name :: "entrypoint \<Rightarrow> string" where
  "entrypoint_name RequireApproval = ''agenteval/approval/require_approval''"
| "entrypoint_name AllowEgress = ''agenteval/egress/allow_egress''"
| "entrypoint_name DenyBudget = ''agenteval/budget/deny_budget''"
| "entrypoint_name AuthzAllow = ''agenteval/authz/allow''"

text \<open>The input documents the gate builds, by their keys.\<close>

record budget_input =
  bi_tokens_used :: int
  bi_budget_limit :: int
  bi_cost_incurred :: rat
  bi_max_cost :: rat

record egress_input =
  ei_task_id :: string
  ei_domain :: string
  ei_tool :: string

record approval_input =
  ai_action :: string
  ai_tool :: string
  ai_cost :: rat
  ai_run_id :: string
  ai_task_id :: string

datatype policy_input = BudgetInput budget_input | EgressInput egress_input | ApprovalInput approval_input

record policy_decision =
  pd_value :: jsval
  pd_evaluated :: bool
  pd_unavailableReason :: "string option"
  pd_bundleDigest :: string
  pd_entrypoint :: entrypoint
  pd_durationMs :: int

section \<open>The engine\<close>

text \<open>
  A loaded policy with its data set: an evaluation throws, or returns an array of results
  (\<open>None\<close>: something that is not an array).
\<close>

type_synonym loaded_policy = "policy_input \<Rightarrow> entrypoint \<Rightarrow> string + jsval list option"

text \<open>The outside of the engine: the file, the loader and \<open>setData\<close>, each of which may throw.\<close>

record 'd runtime =
  rt_readFile :: "string \<Rightarrow> string + bytes"
  rt_loader :: "bytes \<Rightarrow> string + ('d \<Rightarrow> string + loaded_policy)"

record 'd engine =
  pe_policy :: "loaded_policy option"
  pe_loadFailure :: "string option"
  pe_digest :: string
  pe_bundlePath :: string
  pe_data :: 'd

definition new_engine :: "string \<Rightarrow> 'd \<Rightarrow> 'd engine" where
  "new_engine path data = \<lparr>pe_policy = None, pe_loadFailure = None, pe_digest = ''unloaded'',
     pe_bundlePath = path, pe_data = data\<rparr>"

definition load_failed :: "'d engine \<Rightarrow> string \<Rightarrow> 'd engine" where
  "load_failed e msg = e\<lparr>pe_loadFailure := Some
     (''Policy bundle could not be loaded from '' @ pe_bundlePath e @ '': '' @ msg
      @ ''. Run scripts/build-policy-bundle.sh. ''
      @ ''Every decision will fail closed until it is available.'')\<rparr>"

text \<open>
  \<open>load\<close>. Concurrent callers share the promise of the load in flight, so a load is one step
  whatever their number.
\<close>

definition engine_load :: "(bytes \<Rightarrow> bytes) \<Rightarrow> 'd runtime \<Rightarrow> 'd engine \<Rightarrow> 'd engine" where
  "engine_load H rt e =
     (if pe_policy e \<noteq> None \<or> given (pe_loadFailure e) \<noteq> None then e
      else case rt_readFile rt (pe_bundlePath e) of
        Inl msg \<Rightarrow> load_failed e msg
      | Inr wasm \<Rightarrow>
          let e' = e\<lparr>pe_digest := ''sha256:'' @ to_hex (H wasm)\<rparr> in
          case rt_loader rt wasm of
            Inl msg \<Rightarrow> load_failed e' msg
          | Inr setData \<Rightarrow> (case setData (pe_data e') of
              Inl msg \<Rightarrow> load_failed e' msg
            | Inr policy \<Rightarrow> e'\<lparr>pe_policy := Some policy\<rparr>))"

definition engine_ready :: "'d engine \<Rightarrow> bool" where
  "engine_ready e = (pe_policy e \<noteq> None)"

definition undecided :: "'d engine \<Rightarrow> entrypoint \<Rightarrow> int \<Rightarrow> string \<Rightarrow> policy_decision" where
  "undecided e ep ms reason = \<lparr>pd_value = JUndef, pd_evaluated = False, pd_unavailableReason = Some reason,
     pd_bundleDigest = pe_digest e, pd_entrypoint = ep, pd_durationMs = ms\<rparr>"

text \<open>\<open>ms\<close> is the time the evaluation took by the clock.\<close>

definition engine_evaluate ::
    "(bytes \<Rightarrow> bytes) \<Rightarrow> 'd runtime \<Rightarrow> int \<Rightarrow> entrypoint \<Rightarrow> policy_input \<Rightarrow> 'd engine
      \<Rightarrow> policy_decision \<times> 'd engine" where
  "engine_evaluate H rt ms ep input e0 =
     (let e = engine_load H rt e0 in
      (case pe_policy e of
         None \<Rightarrow> undecided e ep ms (case pe_loadFailure e of
             None \<Rightarrow> ''Policy engine is not loaded.'' | Some m \<Rightarrow> m)
       | Some policy \<Rightarrow> (case policy input ep of
           Inl msg \<Rightarrow> undecided e ep ms (''Policy evaluation threw: '' @ msg)
         | Inr None \<Rightarrow> undecided e ep ms
             (''Entrypoint '' @ quoted (entrypoint_name ep) @ '' returned no result.'')
         | Inr (Some []) \<Rightarrow> undecided e ep ms
             (''Entrypoint '' @ quoted (entrypoint_name ep) @ '' returned no result.'')
         | Inr (Some (v # _)) \<Rightarrow> \<lparr>pd_value = v, pd_evaluated = True, pd_unavailableReason = None,
             pd_bundleDigest = pe_digest e, pd_entrypoint = ep, pd_durationMs = ms\<rparr>), e))"

fun typeof :: "jsval \<Rightarrow> string" where
  "typeof JUndef = ''undefined''"
| "typeof JNull = ''object''"
| "typeof (JBool _) = ''boolean''"
| "typeof (JNum _) = ''number''"
| "typeof (JStr _) = ''string''"
| "typeof (JBigint _) = ''bigint''"
| "typeof JFunc = ''function''"
| "typeof JSym = ''symbol''"
| "typeof JBack = ''object''"
| "typeof (JDate _) = ''object''"
| "typeof (JArr _) = ''object''"
| "typeof (JObj _) = ''object''"

definition decideBoolean ::
    "(bytes \<Rightarrow> bytes) \<Rightarrow> 'd runtime \<Rightarrow> int \<Rightarrow> entrypoint \<Rightarrow> policy_input \<Rightarrow> bool \<Rightarrow> 'd engine
      \<Rightarrow> (bool \<times> policy_decision) \<times> 'd engine" where
  "decideBoolean H rt ms ep input safeDefault e =
     (case engine_evaluate H rt ms ep input e of (decision, e') \<Rightarrow>
       (if \<not> pd_evaluated decision then (safeDefault, decision)
        else case pd_value decision of
          JBool b \<Rightarrow> (b, decision)
        | v \<Rightarrow> (safeDefault, decision\<lparr>pd_evaluated := False,
            pd_unavailableReason := Some (''Expected boolean from '' @ quoted (entrypoint_name ep)
              @ '', got '' @ typeof v @ ''.'')\<rparr>), e'))"

section \<open>The rules of policies/*.rego\<close>

text \<open>The part of \<open>data\<close> the rules read; absent data makes the rule that reads it undefined.\<close>

record rego_data =
  rd_threshold :: "rat option"
  rd_task_allowlist :: "(string \<times> string list) list"

definition deny_budget :: "budget_input \<Rightarrow> bool" where
  "deny_budget i = (bi_tokens_used i > bi_budget_limit i \<or> bi_cost_incurred i > bi_max_cost i)"

definition allow_egress :: "rego_data \<Rightarrow> egress_input \<Rightarrow> bool" where
  "allow_egress d i =
     ((case map_of (rd_task_allowlist d) (ei_task_id i) of
         None \<Rightarrow> False | Some domains \<Rightarrow> ei_domain i \<in> set domains)
      \<or> ei_domain i = ''telemetry.internal'')"

definition require_approval :: "rego_data \<Rightarrow> approval_input \<Rightarrow> bool" where
  "require_approval d i =
     (ai_action i \<in> {''delete'', ''write_prod'', ''drop_db''}
      \<or> (case rd_threshold d of None \<Rightarrow> False | Some t \<Rightarrow> ai_cost i > t)
      \<or> ai_tool i \<in> {''shell'', ''aws_cli'', ''kubernetes_admin''})"

definition rego_policy :: "rego_data \<Rightarrow> loaded_policy" where
  "rego_policy d input ep = Inr (Some (case (ep, input) of
     (DenyBudget, BudgetInput i) \<Rightarrow> [JBool (deny_budget i)]
   | (AllowEgress, EgressInput i) \<Rightarrow> [JBool (allow_egress d i)]
   | (RequireApproval, ApprovalInput i) \<Rightarrow> [JBool (require_approval d i)]
   | _ \<Rightarrow> [JBool False]))"

definition rego_runtime :: "bytes \<Rightarrow> rego_data runtime" where
  "rego_runtime wasm = \<lparr>rt_readFile = (\<lambda>_. Inr wasm),
     rt_loader = (\<lambda>_. Inr (\<lambda>d. Inr (rego_policy d)))\<rparr>"

section \<open>Laws of the engine\<close>

definition engine_inv :: "'d engine \<Rightarrow> bool" where
  "engine_inv e = (\<not> (pe_policy e \<noteq> None \<and> pe_loadFailure e \<noteq> None)
     \<and> pe_loadFailure e \<noteq> Some [])"

lemma engine_inv_new [simp]: "engine_inv (new_engine p d)"
  by (simp add: engine_inv_def new_engine_def)

lemma load_failed_sel [simp]: "pe_policy (load_failed e m) = pe_policy e"
  "pe_loadFailure (load_failed e m) \<noteq> None" "pe_loadFailure (load_failed e m) \<noteq> Some []"
  "pe_digest (load_failed e m) = pe_digest e"
  by (simp_all add: load_failed_def)

lemma engine_load_inv: "engine_inv e \<Longrightarrow> engine_inv (engine_load H rt e)"
  by (auto simp: engine_load_def engine_inv_def Let_def given_def split: sum.splits option.splits if_splits)

text \<open>After a load the engine has an answer or a reason, and a second load changes nothing.\<close>

lemma engine_load_done: "pe_policy (engine_load H rt e) \<noteq> None \<or> given (pe_loadFailure (engine_load H rt e)) \<noteq> None"
  by (auto simp: engine_load_def load_failed_def Let_def given_def split: sum.splits option.splits if_splits)

lemma engine_load_idem: "engine_load H rt' (engine_load H rt e) = engine_load H rt e"
  using engine_load_done [of H rt e] by (auto simp: engine_load_def [of H rt' "engine_load H rt e"])

lemma engine_evaluate_snd [simp]: "snd (engine_evaluate H rt ms ep i e) = engine_load H rt e"
  by (simp add: engine_evaluate_def Let_def)

lemma decideBoolean_snd [simp]: "snd (decideBoolean H rt ms ep i b e) = engine_load H rt e"
  by (simp add: decideBoolean_def case_prod_beta)

text \<open>An evaluated decision is the engine's own boolean; any other is the safe default, with a reason.\<close>

lemma decideBoolean_evaluated:
  assumes "decideBoolean H rt ms ep i b e = ((r, d), e')"
  shows "pd_evaluated d \<and> pd_value d = JBool r
      \<and> (\<exists>p rest. pe_policy e' = Some p \<and> p i ep = Inr (Some (JBool r # rest)))
    \<or> \<not> pd_evaluated d \<and> r = b \<and> pd_unavailableReason d \<noteq> None"
  using assms
  by (auto simp: decideBoolean_def engine_evaluate_def undecided_def Let_def
      split: prod.splits if_splits option.splits sum.splits list.splits jsval.splits)

lemma decideBoolean_entrypoint:
  "decideBoolean H rt ms ep i b e = ((r, d), e') \<Longrightarrow> pd_entrypoint d = ep \<and> pd_bundleDigest d = pe_digest e'"
  by (auto simp: decideBoolean_def engine_evaluate_def undecided_def Let_def
      split: prod.splits if_splits option.splits sum.splits list.splits jsval.splits)

lemma decideBoolean_down:
  assumes "pe_policy (engine_load H rt e) = None"
  shows "\<exists>d. decideBoolean H rt ms ep i b e = ((b, d), engine_load H rt e)
    \<and> \<not> pd_evaluated d \<and> pd_unavailableReason d \<noteq> None"
  using assms by (auto simp: decideBoolean_def engine_evaluate_def undecided_def Let_def)

lemma decideBoolean_rego:
  "pe_policy e = Some (rego_policy d) \<Longrightarrow>
    decideBoolean H rt ms ep i b e = ((r, dec), e') \<Longrightarrow>
    e' = e \<and> pd_evaluated dec \<and> Inr (Some [JBool r]) = rego_policy d i ep"
  by (auto simp: decideBoolean_def engine_evaluate_def undecided_def Let_def engine_load_def rego_policy_def
      split: prod.splits if_splits option.splits sum.splits list.splits jsval.splits entrypoint.splits
        policy_input.splits)

end
