(* ===== verification/Policy_Gate.thy ===== *)
theory Policy_Gate
  imports Policy_Engine
begin

text \<open>
  \<open>policy/gate.ts\<close>: the gate every tool call passes, its three checks in order, and the
  audit payload of its verdict. Token counts are integers, dollars are doubles.
\<close>

datatype gate_outcome = GAllow | GDeny | GRequireApproval | GTerminateRun

datatype gate_rule = RuleBudget | RuleEgress | RuleApproval

record tool_call =
  tl_runId :: string
  tl_trialId :: string
  tl_taskId :: string
  tl_tenantId :: string
  tl_stepId :: int
  tl_tool :: string
  tl_action :: string
  tl_arguments :: "(string \<times> jsval) list"
  tl_domain :: "string option"
  tl_tokensUsed :: int
  tl_costIncurredUsd :: rat
  tl_budgetTokens :: "int option"
  tl_maxCostUsd :: "rat option"
  tl_callCostUsd :: "rat option"

record gate_result =
  gr_outcome :: gate_outcome
  gr_reason :: string
  gr_rule :: "gate_rule option"
  gr_decisions :: "policy_decision list"
  gr_approvalAction :: "string option"

definition KNOWN_DESTRUCTIVE :: "string set" where
  "KNOWN_DESTRUCTIVE = {''delete'', ''drop_db'', ''write_prod'', ''deploy'', ''transfer_funds'',
     ''send_email'', ''exec_shell'', ''modify_iam'', ''rotate_credentials''}"

definition MAX_SAFE_INTEGER :: int where
  "MAX_SAFE_INTEGER = 2 ^ 53 - 1"

definition default :: "'a \<Rightarrow> 'a option \<Rightarrow> 'a" where
  "default d x = (case x of None \<Rightarrow> d | Some v \<Rightarrow> v)"

definition reason_text :: "policy_decision \<Rightarrow> string" where
  "reason_text d = default ''undefined'' (pd_unavailableReason d)"

definition projected_cost :: "tool_call \<Rightarrow> rat" where
  "projected_cost c = fadd (tl_costIncurredUsd c) (default 0 (tl_callCostUsd c))"

text \<open>The first check, when the call has a budget at all.\<close>

definition check_budget ::
    "(bytes \<Rightarrow> bytes) \<Rightarrow> 'd runtime \<Rightarrow> (entrypoint \<Rightarrow> int) \<Rightarrow> bool \<Rightarrow> tool_call \<Rightarrow> 'd engine
      \<Rightarrow> (gate_result option \<times> policy_decision list) \<times> 'd engine" where
  "check_budget H rt ms strict c e =
     (if tl_budgetTokens c = None \<and> tl_maxCostUsd c = None then ((None, []), e)
      else case decideBoolean H rt (ms DenyBudget) DenyBudget
          (BudgetInput \<lparr>bi_tokens_used = tl_tokensUsed c,
             bi_budget_limit = default MAX_SAFE_INTEGER (tl_budgetTokens c),
             bi_cost_incurred = projected_cost c,
             bi_max_cost = default (of_int MAX_SAFE_INTEGER) (tl_maxCostUsd c)\<rparr>) strict e of
        ((overBudget, decision), e') \<Rightarrow>
          ((if overBudget then
              let limit = (case tl_budgetTokens c of
                    Some b \<Rightarrow> if tl_tokensUsed c > b
                      then show_int (tl_tokensUsed c) @ '' tokens used against a '' @ show_int b @ '' limit''
                      else ''$'' @ to_fixed 4 (projected_cost c) @ '' against a $''
                        @ to_fixed 4 (default 0 (tl_maxCostUsd c)) @ '' cap''
                  | None \<Rightarrow> ''$'' @ to_fixed 4 (projected_cost c) @ '' against a $''
                        @ to_fixed 4 (default 0 (tl_maxCostUsd c)) @ '' cap'')
              in Some \<lparr>gr_outcome = GTerminateRun,
                gr_reason = (if pd_evaluated decision then ''Run exceeded its budget: '' @ limit @ ''.''
                  else ''Budget could not be verified ('' @ reason_text decision @ ''), so the run was stopped.''),
                gr_rule = Some RuleBudget, gr_decisions = [decision], gr_approvalAction = None\<rparr>
            else None, [decision]), e'))"

text \<open>The second check, when the call names a destination.\<close>

definition check_egress ::
    "(bytes \<Rightarrow> bytes) \<Rightarrow> 'd runtime \<Rightarrow> (entrypoint \<Rightarrow> int) \<Rightarrow> bool \<Rightarrow> tool_call
      \<Rightarrow> policy_decision list \<Rightarrow> 'd engine
      \<Rightarrow> (gate_result option \<times> policy_decision list) \<times> 'd engine" where
  "check_egress H rt ms strict c ds e = (case tl_domain c of
     None \<Rightarrow> ((None, ds), e)
   | Some domain \<Rightarrow>
       (case decideBoolean H rt (ms AllowEgress) AllowEgress
          (EgressInput \<lparr>ei_task_id = tl_taskId c, ei_domain = domain, ei_tool = tl_tool c\<rparr>) (\<not> strict) e of
        ((allowed, decision), e') \<Rightarrow>
          ((if \<not> allowed then
              Some \<lparr>gr_outcome = GDeny,
                gr_reason = (if pd_evaluated decision
                  then ''Egress to '' @ quoted domain @ '' is not on the allowlist for task '' @ tl_taskId c @ ''.''
                  else ''Egress to '' @ quoted domain @ '' could not be authorized ('' @ reason_text decision @ '').''),
                gr_rule = Some RuleEgress, gr_decisions = ds @ [decision], gr_approvalAction = None\<rparr>
            else None, ds @ [decision]), e')))"

text \<open>The third check decides between a person and letting the call run.\<close>

definition check_approval ::
    "(bytes \<Rightarrow> bytes) \<Rightarrow> 'd runtime \<Rightarrow> (entrypoint \<Rightarrow> int) \<Rightarrow> bool \<Rightarrow> tool_call
      \<Rightarrow> policy_decision list \<Rightarrow> 'd engine \<Rightarrow> gate_result \<times> 'd engine" where
  "check_approval H rt ms strict c ds e =
     (case decideBoolean H rt (ms RequireApproval) RequireApproval
        (ApprovalInput \<lparr>ai_action = tl_action c, ai_tool = tl_tool c, ai_cost = default 0 (tl_callCostUsd c),
           ai_run_id = tl_runId c, ai_task_id = tl_taskId c\<rparr>) strict e of
      ((needsApproval, decision), e') \<Rightarrow>
        (if needsApproval \<or> tl_action c \<in> KNOWN_DESTRUCTIVE then
           let why = (if \<not> pd_evaluated decision
                 then ''policy could not be evaluated ('' @ reason_text decision @ '')''
                 else if needsApproval then ''policy requires human approval for this action''
                 else quoted (tl_action c) @ '' is a destructive action'')
           in \<lparr>gr_outcome = GRequireApproval,
                gr_reason = ''Step '' @ show_int (tl_stepId c) @ '' calling '' @ quoted (tl_tool c)
                  @ '' was suspended: '' @ why @ ''.'',
                gr_rule = Some RuleApproval, gr_decisions = ds @ [decision],
                gr_approvalAction = Some (tl_tool c @ '':'' @ tl_action c)\<rparr>
         else \<lparr>gr_outcome = GAllow,
                gr_reason = ''No policy objected to '' @ quoted (tl_tool c) @ '' ('' @ tl_action c @ '').'',
                gr_rule = None, gr_decisions = ds @ [decision], gr_approvalAction = None\<rparr>, e'))"

definition evaluateToolCall ::
    "(bytes \<Rightarrow> bytes) \<Rightarrow> 'd runtime \<Rightarrow> (entrypoint \<Rightarrow> int) \<Rightarrow> bool option \<Rightarrow> tool_call \<Rightarrow> 'd engine
      \<Rightarrow> gate_result \<times> 'd engine" where
  "evaluateToolCall H rt ms strictOption c e =
     (let strict = default True strictOption in
      case check_budget H rt ms strict c e of
        ((Some stop, _), e1) \<Rightarrow> (stop, e1)
      | ((None, ds1), e1) \<Rightarrow>
          (case check_egress H rt ms strict c ds1 e1 of
             ((Some stop, _), e2) \<Rightarrow> (stop, e2)
           | ((None, ds2), e2) \<Rightarrow> check_approval H rt ms strict c ds2 e2))"

section \<open>The audit payload\<close>

fun outcome_text :: "gate_outcome \<Rightarrow> string" where
  "outcome_text GAllow = ''allow''"
| "outcome_text GDeny = ''deny''"
| "outcome_text GRequireApproval = ''require_approval''"
| "outcome_text GTerminateRun = ''terminate_run''"

fun rule_value :: "gate_rule option \<Rightarrow> jsval" where
  "rule_value None = JNull"
| "rule_value (Some RuleBudget) = JStr ''budget''"
| "rule_value (Some RuleEgress) = JStr ''egress''"
| "rule_value (Some RuleApproval) = JStr ''approval''"

definition gate_auditPayload :: "tool_call \<Rightarrow> gate_result \<Rightarrow> (string \<times> jsval) list" where
  "gate_auditPayload c r =
     [(''runId'', JStr (tl_runId c)), (''trialId'', JStr (tl_trialId c)),
      (''stepId'', JNum (num_of_int (tl_stepId c))), (''tool'', JStr (tl_tool c)),
      (''action'', JStr (tl_action c))]
     @ (case tl_domain c of None \<Rightarrow> [] | Some d \<Rightarrow> [(''domain'', JStr d)])
     @ [(''outcome'', JStr (outcome_text (gr_outcome r))), (''reason'', JStr (gr_reason r)),
        (''rule'', rule_value (gr_rule r)),
        (''policyBundle'', JStr (case gr_decisions r of [] \<Rightarrow> ''unloaded'' | d # _ \<Rightarrow> pd_bundleDigest d)),
        (''evaluations'', JArr (map (\<lambda>d. JObj
          ([(''entrypoint'', JStr (entrypoint_name (pd_entrypoint d))),
            (''evaluated'', JBool (pd_evaluated d)), (''value'', pd_value d)]
           @ (case given (pd_unavailableReason d) of None \<Rightarrow> []
              | Some m \<Rightarrow> [(''unavailableReason'', JStr m)]))) (gr_decisions r)))]"

section \<open>What the gate guarantees\<close>

text \<open>The answer the engine gives to an entrypoint, safe default included.\<close>

definition answer ::
    "(bytes \<Rightarrow> bytes) \<Rightarrow> 'd runtime \<Rightarrow> entrypoint \<Rightarrow> policy_input \<Rightarrow> bool \<Rightarrow> 'd engine \<Rightarrow> bool" where
  "answer H rt ep i b e = (case pe_policy (engine_load H rt e) of None \<Rightarrow> b
     | Some p \<Rightarrow> (case p i ep of Inr (Some (JBool r # _)) \<Rightarrow> r | _ \<Rightarrow> b))"

lemma decideBoolean_answer: "fst (fst (decideBoolean H rt ms ep i b e)) = answer H rt ep i b e"
  by (auto simp: decideBoolean_def engine_evaluate_def undecided_def answer_def Let_def
      split: prod.splits if_splits option.splits sum.splits list.splits jsval.splits)

lemma answer_load [simp]: "answer H rt ep i b (engine_load H rt e) = answer H rt ep i b e"
  by (simp add: answer_def engine_load_idem)

lemma answer_down: "pe_policy (engine_load H rt e) = None \<Longrightarrow> answer H rt ep i b e = b"
  by (simp add: answer_def)

lemma decided: "decideBoolean H rt ms ep i b e = ((r, d), e') \<Longrightarrow>
    r = answer H rt ep i b e \<and> e' = engine_load H rt e"
  by (metis decideBoolean_answer decideBoolean_snd fst_conv snd_conv)

definition budget_of :: "tool_call \<Rightarrow> policy_input" where
  "budget_of c = BudgetInput \<lparr>bi_tokens_used = tl_tokensUsed c,
     bi_budget_limit = default MAX_SAFE_INTEGER (tl_budgetTokens c),
     bi_cost_incurred = projected_cost c,
     bi_max_cost = default (of_int MAX_SAFE_INTEGER) (tl_maxCostUsd c)\<rparr>"

definition egress_of :: "tool_call \<Rightarrow> string \<Rightarrow> policy_input" where
  "egress_of c domain = EgressInput \<lparr>ei_task_id = tl_taskId c, ei_domain = domain, ei_tool = tl_tool c\<rparr>"

definition approval_of :: "tool_call \<Rightarrow> policy_input" where
  "approval_of c = ApprovalInput \<lparr>ai_action = tl_action c, ai_tool = tl_tool c,
     ai_cost = default 0 (tl_callCostUsd c), ai_run_id = tl_runId c, ai_task_id = tl_taskId c\<rparr>"

definition budgeted :: "tool_call \<Rightarrow> bool" where
  "budgeted c = (tl_budgetTokens c \<noteq> None \<or> tl_maxCostUsd c \<noteq> None)"

text \<open>The specification: three questions, the first that objects decides.\<close>

definition gate_spec :: "(entrypoint \<Rightarrow> policy_input \<Rightarrow> bool \<Rightarrow> bool) \<Rightarrow> bool \<Rightarrow> tool_call \<Rightarrow> gate_outcome" where
  "gate_spec ask strict c =
     (if budgeted c \<and> ask DenyBudget (budget_of c) strict then GTerminateRun
      else if (\<exists>d. tl_domain c = Some d \<and> \<not> ask AllowEgress (egress_of c d) (\<not> strict)) then GDeny
      else if ask RequireApproval (approval_of c) strict \<or> tl_action c \<in> KNOWN_DESTRUCTIVE
      then GRequireApproval else GAllow)"

lemma check_budget_outcome:
  "check_budget H rt ms strict c e = ((r, ds), e') \<Longrightarrow>
    (r \<noteq> None \<longleftrightarrow> budgeted c \<and> answer H rt DenyBudget (budget_of c) strict e)
    \<and> (\<forall>x. r = Some x \<longrightarrow> gr_outcome x = GTerminateRun \<and> gr_rule x = Some RuleBudget)
    \<and> e' \<in> {e, engine_load H rt e}"
  by (auto simp: check_budget_def budgeted_def budget_of_def Let_def dest!: decided
      split: prod.splits if_splits)

lemma check_egress_outcome:
  "check_egress H rt ms strict c ds0 e = ((r, ds), e') \<Longrightarrow>
    (r \<noteq> None \<longleftrightarrow> (\<exists>d. tl_domain c = Some d \<and> \<not> answer H rt AllowEgress (egress_of c d) (\<not> strict) e))
    \<and> (\<forall>x. r = Some x \<longrightarrow> gr_outcome x = GDeny \<and> gr_rule x = Some RuleEgress)
    \<and> e' \<in> {e, engine_load H rt e}"
proof (cases "tl_domain c")
  case (Some d)
  assume "check_egress H rt ms strict c ds0 e = ((r, ds), e')"
  with Some show ?thesis
    by (auto simp: check_egress_def egress_of_def dest!: decided split: prod.splits if_splits)
qed (auto simp: check_egress_def)

lemma check_approval_outcome:
  "gr_outcome (fst (check_approval H rt ms strict c ds e))
    = (if answer H rt RequireApproval (approval_of c) strict e \<or> tl_action c \<in> KNOWN_DESTRUCTIVE
       then GRequireApproval else GAllow)"
  by (auto simp: check_approval_def approval_of_def Let_def dest!: decided split: prod.splits)

lemma evaluateToolCall_outcome:
  "gr_outcome (fst (evaluateToolCall H rt ms so c e))
    = gate_spec (\<lambda>ep i b. answer H rt ep i b e) (default True so) c"
proof -
  let ?s = "default True so"
  obtain r1 ds1 e1 where b: "check_budget H rt ms ?s c e = ((r1, ds1), e1)" by (metis prod.exhaust)
  obtain r2 ds2 e2 where g: "check_egress H rt ms ?s c ds1 e1 = ((r2, ds2), e2)" by (metis prod.exhaust)
  note B = check_budget_outcome [OF b] and G = check_egress_outcome [OF g]
  have same: "answer H rt ep i q e1 = answer H rt ep i q e" "answer H rt ep i q e2 = answer H rt ep i q e" for ep i q
    using B G by (auto simp: engine_load_idem)
  show ?thesis
  proof (cases r1)
    case (Some x)
    then show ?thesis using B b by (simp add: evaluateToolCall_def Let_def gate_spec_def)
  next
    case None
    note r1 = this
    show ?thesis
    proof (cases r2)
      case (Some x)
      then show ?thesis using B G b g r1 by (auto simp: evaluateToolCall_def Let_def gate_spec_def same)
    next
      case None
      then show ?thesis using B G b g r1 check_approval_outcome [of H rt ms ?s c ds2 e2]
        by (auto simp: evaluateToolCall_def Let_def gate_spec_def same)
    qed
  qed
qed

end
