(* ===== verification/Service_Properties.thy ===== *)
theory Service_Properties
  imports Run_Lifecycle Trial_Store Blob_Store Credentials Api_Keys Task_Registry Policy_Gate
begin

text \<open>
  The properties of the service around the evidence: the policy gate, the run queue and its
  worker, trials, blobs, tasks, and the two kinds of credentials, with their witnesses.
\<close>

section \<open>The policy gate\<close>

text \<open>C28 The gate refines its specification: with the answers of the policy engine, safe defaults
  included, the outcome is decided by budget, then egress, then approval or the local list of
  destructive actions, whatever the engine's state, and for strict and lenient gates alike.\<close>

theorem gate_refines_spec:
  "gr_outcome (fst (evaluateToolCall H rt ms so c e))
    = gate_spec (\<lambda>ep i b. answer H rt ep i b e) (default True so) c"
  by (rule evaluateToolCall_outcome)

text \<open>C20 The gate fails closed: when the policy bundle cannot be loaded, a strict gate lets no
  call through. A budgeted call terminates the run, a call that names a destination is denied,
  and every other call needs a person.\<close>

theorem gate_fails_closed:
  assumes "pe_policy (engine_load H rt e) = None" "default True so"
  shows "gr_outcome (fst (evaluateToolCall H rt ms so c e)) =
    (if budgeted c then GTerminateRun else if tl_domain c \<noteq> None then GDeny else GRequireApproval)"
  unfolding evaluateToolCall_outcome gate_spec_def answer_down [OF assms(1)] using assms(2) by simp

definition demo_call :: tool_call where
  "demo_call = \<lparr>tl_runId = ''r'', tl_trialId = ''t'', tl_taskId = ''k'', tl_tenantId = ''acme'', tl_stepId = 1,
     tl_tool = ''http'', tl_action = ''read'', tl_arguments = [], tl_domain = Some ''a.org'', tl_tokensUsed = 5,
     tl_costIncurredUsd = 0, tl_budgetTokens = None, tl_maxCostUsd = None, tl_callCostUsd = None\<rparr>"

definition no_bundle :: "rego_data runtime" where
  "no_bundle = \<lparr>rt_readFile = (\<lambda>_. Inl ''ENOENT''), rt_loader = (\<lambda>_. Inl ''not read'')\<rparr>"

definition demo_data :: rego_data where
  "demo_data = \<lparr>rd_threshold = Some 10, rd_task_allowlist = [(''k'', [''a.org''])]\<rparr>"

theorem gate_fails_closed_witness:
  "gr_outcome (fst (evaluateToolCall (\<lambda>b. b) no_bundle (\<lambda>_. 0) None demo_call
      (new_engine ''policy.wasm'' demo_data))) = GDeny"
  by (subst gate_fails_closed)
    (simp_all add: engine_load_def new_engine_def no_bundle_def load_failed_def given_def default_def
      budgeted_def demo_call_def)

text \<open>C27 With the repository's own Rego rules loaded the gate decides exactly as they say: over
  a budget terminates, a destination outside the task's allowlist is denied, and a restricted
  tool, a destructive action or a cost over the threshold asks a person.\<close>

theorem gate_enforces_rego:
  assumes "pe_policy e = Some (rego_policy d)"
  shows "gr_outcome (fst (evaluateToolCall H rt ms so c e)) =
    (if budgeted c \<and> (tl_tokensUsed c > default MAX_SAFE_INTEGER (tl_budgetTokens c)
          \<or> projected_cost c > default (of_int MAX_SAFE_INTEGER) (tl_maxCostUsd c)) then GTerminateRun
     else if \<exists>dm. tl_domain c = Some dm \<and> \<not> (dm = ''telemetry.internal''
          \<or> (\<exists>ds. map_of (rd_task_allowlist d) (tl_taskId c) = Some ds \<and> dm \<in> set ds)) then GDeny
     else if tl_action c \<in> {''delete'', ''write_prod'', ''drop_db''} \<union> KNOWN_DESTRUCTIVE
          \<or> tl_tool c \<in> {''shell'', ''aws_cli'', ''kubernetes_admin''}
          \<or> (\<exists>t. rd_threshold d = Some t \<and> default 0 (tl_callCostUsd c) > t) then GRequireApproval
     else GAllow)"
proof -
  have l: "engine_load H rt e = e" using assms by (simp add: engine_load_def)
  have a: "answer H rt ep i b e = (case rego_policy d i ep of Inr (Some (JBool r # _)) \<Rightarrow> r | _ \<Rightarrow> b)" for ep i b
    using assms l by (simp add: answer_def)
  have budget: "answer H rt DenyBudget (budget_of c) b e
      \<longleftrightarrow> tl_tokensUsed c > default MAX_SAFE_INTEGER (tl_budgetTokens c)
        \<or> projected_cost c > default (of_int MAX_SAFE_INTEGER) (tl_maxCostUsd c)" for b
    by (simp add: a rego_policy_def budget_of_def deny_budget_def)
  have egress: "answer H rt AllowEgress (egress_of c dm) b e \<longleftrightarrow> dm = ''telemetry.internal''
      \<or> (\<exists>ds. map_of (rd_task_allowlist d) (tl_taskId c) = Some ds \<and> dm \<in> set ds)" for dm b
    by (auto simp: a rego_policy_def egress_of_def allow_egress_def split: option.splits)
  have approval: "answer H rt RequireApproval (approval_of c) b e
      \<longleftrightarrow> tl_action c \<in> {''delete'', ''write_prod'', ''drop_db''}
        \<or> tl_tool c \<in> {''shell'', ''aws_cli'', ''kubernetes_admin''}
        \<or> (\<exists>t. rd_threshold d = Some t \<and> default 0 (tl_callCostUsd c) > t)" for b
    by (auto simp: a rego_policy_def approval_of_def require_approval_def split: option.splits)
  show ?thesis
    unfolding evaluateToolCall_outcome gate_spec_def budget egress approval Un_iff by (simp only: disj_ac)
qed

theorem gate_enforces_rego_witness:
  "gr_outcome (fst (evaluateToolCall (\<lambda>b. b) no_bundle (\<lambda>_. 0) None (demo_call\<lparr>tl_tool := ''shell''\<rparr>)
      ((new_engine ''policy.wasm'' demo_data)\<lparr>pe_policy := Some (rego_policy demo_data)\<rparr>))) = GRequireApproval"
  by (subst gate_enforces_rego [where d = demo_data])
    (simp_all add: default_def budgeted_def demo_call_def demo_data_def)

section \<open>The run queue and its worker\<close>

text \<open>C19 However API calls and workers interleave, a run is handed to a worker at most as often as
  it was put in the queue: two workers never execute the same submission.\<close>

theorem claimed_at_most_once:
  assumes "run_trace [] evs s"
  shows "count_ev (hands_out k) evs + flag (is_queued k s) \<le> count_ev (enqueues k) evs"
  using run_trace_balance [OF assms, of k] by (simp add: is_queued_def flag_def)

theorem claimed_at_most_once_witness:
  "\<exists>evs. run_trace [] evs demo_trace
    \<and> count_ev (hands_out ''r1'') evs + flag (is_queued ''r1'' demo_trace) \<le> count_ev (enqueues ''r1'') evs"
  using cancelled_then_completed claimed_at_most_once by blast

lemma loop_keyed: "keyed rr_id (wk_runs s) \<Longrightarrow> keyed rr_id (wk_runs (worker_loop w ts s))"
  by (induction ts arbitrary: s) (simp_all add: tick_waiting(1))

text \<open>C29 The worker drains the queue: after as many polls as runs are waiting none is, whatever
  the executors, the audit log and the environment probe do on the way.\<close>

theorem worker_drains_queue:
  assumes "keyed rr_id (wk_runs s)" "card (waiting s) \<le> length ts"
  shows "queued (wk_runs (worker_loop w ts s)) = []"
proof -
  have "card (waiting (worker_loop w ts s)) = 0" using loop_waiting [OF assms(1), of w ts] assms(2) by simp
  then have "waiting (worker_loop w ts s) = {}" using finite_waiting card_0_eq by blast
  then show ?thesis using waiting_queued [OF loop_keyed [OF assms(1)]] by simp
qed

definition demo_state :: worker_state where
  "demo_state = \<lparr>wk_runs = [(''r1'', demo_run)], wk_log = empty_log,
     wk_stats = \<lparr>ws_claimed = 0, ws_completed = 0, ws_failed = 0, ws_lastActivityAt = None\<rparr>\<rparr>"

definition demo_options :: worker_options where
  "demo_options = \<lparr>wo_workerId = ''w'', wo_selectExecutor = (\<lambda>_. UnavailableEx ''none''),
     wo_world = \<lparr>xw_execPath = ''node'', xw_proc = (\<lambda>_ _ _. undefined), xw_model = undefined\<rparr>,
     wo_captureEnvironment = None, wo_digest = (\<lambda>b. b), wo_string = (\<lambda>_. [])\<rparr>"

lemma demo_state_keyed: "keyed rr_id (wk_runs demo_state)"
  by (simp add: keyed_def wf_map_def demo_state_def demo_run_def)

lemma demo_state_queued: "queued (wk_runs demo_state) = [demo_run]"
  by (simp add: queued_def demo_state_def demo_run_def)

theorem worker_drains_queue_witness: "queued (wk_runs (worker_loop demo_options [10] demo_state)) = []"
  by (rule worker_drains_queue [OF demo_state_keyed])
    (simp add: waiting_queued [OF demo_state_keyed] demo_state_queued)

lemma tick_concludes:
  assumes "keyed rr_id (wk_runs s)" "queued (wk_runs s) \<noteq> []"
  obtains r s' res where "tick w now s = (res, s')" "r \<in> set (queued (wk_runs s))"
    "\<forall>q \<in> set (queued (wk_runs s)). rr_createdAt r \<le> rr_createdAt q"
    "\<forall>j. j \<noteq> rr_id r \<longrightarrow> status_of s' j = status_of s j"
    "if isl res then status_of s' (rr_id r) = Some RRunning \<and> settled s' = settled s
     else status_of s' (rr_id r) \<in> {Some RCompleted, Some RFailed} \<and> settled s' = settled s + 1"
    "logs w (claim_record now (wo_workerId w) r) s s'"
proof (cases rule: tick_cases [of s w now])
  case (ran r)
  let ?c = "claim_record now (wo_workerId w) r" and ?s = "claimed_state now r w s"
  note facts = claimed_state_facts [OF assms(1) ran(1), of now w]
  obtain x s' where x: "run_claimed w now ?c ?s = (x, s')" by (cases "run_claimed w now ?c ?s")
  obtain res where t: "tick w now s = (res, s')" "isl res = isl x"
    using ran(3) x by (cases x) (auto simp: andthen_def ret_def)
  have c: "case x of Inl _ \<Rightarrow> pending ?s s' | Inr _ \<Rightarrow> concluded (rr_id r) ?s s'"
    using run_claimed_closing [of ?c w now] x by (auto simp: closing_def dest!: spec [of _ ?s])
  have "logs w ?c ?s s'" using run_claimed_logs [of w ?c now] x by (metis keeps_def snd_conv)
  then have l: "logs w ?c s s'" using facts(5) by (simp add: logs_def)
  show ?thesis
  proof (rule that [OF t(1) ran(1,2) _ _ l])
    show "\<forall>j. j \<noteq> rr_id r \<longrightarrow> status_of s' j = status_of s j"
      using c facts(2) by (cases x) (auto simp: pending_def concluded_def)
    show "if isl res then status_of s' (rr_id r) = Some RRunning \<and> settled s' = settled s
      else status_of s' (rr_id r) \<in> {Some RCompleted, Some RFailed} \<and> settled s' = settled s + 1"
      using c facts(2-4) t(2) by (cases x) (auto simp: pending_def concluded_def settled_def)
  qed
qed (use assms in simp)

text \<open>C25 One poll of a non-empty queue runs an oldest queued run to its end: its status becomes
  completed or failed, exactly one counter moves, no other run changes status. Only when an audit
  append or the environment probe throws does it end otherwise, with the run left running. Either
  way the log only grows, by entries about this run under the worker's identity in the run's
  tenant, and stays well-formed.\<close>

theorem tick_concludes_run:
  assumes "keyed rr_id (wk_runs s)" "queued (wk_runs s) \<noteq> []"
  shows "\<exists>r s' res. tick w now s = (res, s')
    \<and> r \<in> set (queued (wk_runs s)) \<and> (\<forall>q \<in> set (queued (wk_runs s)). rr_createdAt r \<le> rr_createdAt q)
    \<and> (\<forall>j. j \<noteq> rr_id r \<longrightarrow> status_of s' j = status_of s j)
    \<and> (if isl res then status_of s' (rr_id r) = Some RRunning \<and> settled s' = settled s
       else status_of s' (rr_id r) \<in> {Some RCompleted, Some RFailed} \<and> settled s' = settled s + 1)
    \<and> logs w (claim_record now (wo_workerId w) r) s s'"
  by (rule tick_concludes [OF assms, of w now]) (intro exI conjI, assumption+)

theorem tick_concludes_run_witness:
  "\<exists>s' res. tick demo_options 10 demo_state = (res, s')
    \<and> (if isl res then status_of s' ''r1'' = Some RRunning \<and> settled s' = settled demo_state
       else status_of s' ''r1'' \<in> {Some RCompleted, Some RFailed} \<and> settled s' = settled demo_state + 1)"
proof -
  have i: "rr_id demo_run = ''r1''" by (simp add: demo_run_def)
  have "queued (wk_runs demo_state) \<noteq> []" by (simp add: demo_state_queued)
  from tick_concludes_run [OF demo_state_keyed this, of demo_options 10]
  obtain r s' res where "tick demo_options 10 demo_state = (res, s')" "r = demo_run"
    "if isl res then status_of s' (rr_id r) = Some RRunning \<and> settled s' = settled demo_state
     else status_of s' (rr_id r) \<in> {Some RCompleted, Some RFailed} \<and> settled s' = settled demo_state + 1"
    by (auto simp: demo_state_queued)
  then show ?thesis using i by (intro exI [of _ s'] exI [of _ res]) (auto split: if_splits)
qed

text \<open>No executor reports a success that was not checked: a completed result carries a passed
  verifier event and no failure reason, a failed one always says why, whatever the process or
  the provider did.\<close>

theorem executions_are_honest:
  assumes "execute w x runId manifest run = Inr r"
  shows "honest r"
  using assms by (rule execute_honest)

theorem executions_are_honest_witness:
  "honest (local_execute ''node'' (\<lambda>_ _ _. \<lparr>ch_pid = Some 7, ch_code = Some 0, ch_signal = None, ch_stdout = ''ok'',
      ch_stderr = [], ch_timedOut = False, ch_durationMs = 3\<rparr>)
     \<lparr>lo_enabled = True, lo_command = None, lo_args = None, lo_timeoutMs = None\<rparr> ''r1'')"
  by (rule executions_are_honest [of "\<lparr>xw_execPath = ''node'', xw_proc = (\<lambda>_ _ _. \<lparr>ch_pid = Some 7, ch_code = Some 0,
      ch_signal = None, ch_stdout = ''ok'', ch_stderr = [], ch_timedOut = False, ch_durationMs = 3\<rparr>), xw_model = undefined\<rparr>"
      "LocalEx \<lparr>lo_enabled = True, lo_command = None, lo_args = None, lo_timeoutMs = None\<rparr>" "''r1''" "[]" None])
    simp

section \<open>Tenants and pages\<close>

text \<open>C38 A client that follows \<open>nextCursor\<close> from the first page reads every run of its tenant
  once, in order, and stops, for every positive page size.\<close>

theorem pages_cover_runs:
  assumes "0 < limit" "length (run_items s ctx) < fuel"
  shows "crawl fuel (run_items s ctx) None limit = Some (run_items s ctx)
    \<and> run_list s ctx cursor limit = paginate (run_items s ctx) cursor limit"
  using crawl_from [of limit "run_items s ctx" 0 fuel None] assms by (simp_all add: run_list_items)

theorem pages_cover_runs_witness:
  "crawl 2 (run_items [(''r1'', demo_run)] demo_ctx) None 1 = Some [demo_run]"
  using pages_cover_runs [of 1 "[(''r1'', demo_run)]" demo_ctx 2 None]
  by (simp add: run_items_def demo_run_def demo_ctx_def sort_desc_def)

text \<open>Creations by other tenants never show a tenant a run: each of its lookups answers as
  before, or, when another tenant reused the id, finds nothing. Every run it lists is its own.\<close>

theorem tenants_isolated:
  assumes "\<forall>(c, r) \<in> set ops. tc_tenantId c \<noteq> tc_tenantId ctx"
  shows "run_get (fold (\<lambda>(c, r) t. snd (run_create c r t)) ops s) ctx k = run_get s ctx k
    \<or> run_get (fold (\<lambda>(c, r) t. snd (run_create c r t)) ops s) ctx k = None \<and> (\<exists>(c, r) \<in> set ops. rr_id r = k)"
  using rs.other_tenants_invisible [OF assms, of s k] by (simp add: rs.creates_def)

theorem tenants_isolated_witness:
  "run_get (fold (\<lambda>(c, r) t. snd (run_create c r t)) [(demo_ctx\<lparr>tc_tenantId := ''evil''\<rparr>, demo_run\<lparr>rr_id := ''r2''\<rparr>)]
      [(''r1'', demo_run)]) demo_ctx ''r1'' = Some demo_run"
  using tenants_isolated [of "[(demo_ctx\<lparr>tc_tenantId := ''evil''\<rparr>, demo_run\<lparr>rr_id := ''r2''\<rparr>)]" demo_ctx
      "[(''r1'', demo_run)]" "''r1''"]
  by (simp add: demo_ctx_def demo_run_def run_get_def)

section \<open>Trials and screenshots\<close>

lemma gapless_numbers: "gapless ss \<longleftrightarrow> map st_step_id ss = map int [1..<Suc (length ss)]"
  by (simp add: list_eq_iff_nth_eq [of "map st_step_id ss"] gapless_def add.commute del: upt_Suc)

text \<open>C24 In every state the trial store can reach, with any number of calls between their read and
  their write, every trial sits under its own id, its steps are numbered 1, 2, 3 without a gap,
  and only a trial that is pending approval names an approval.\<close>

theorem trials_stay_gapless:
  assumes "trial_reachable y" "map_get (sy_trials y) k = Some t"
  shows "tr_id t = k \<and> map st_step_id (tr_steps t) = map int [1..<Suc (length (tr_steps t))]
    \<and> (tr_pendingApprovalId t \<noteq> None \<longrightarrow> tr_status t = TPendingApproval)"
proof -
  have "trial_ok k t" using trial_reachable_inv [OF assms(1)] assms(2) by (simp add: sy_inv_def trials_inv_def)
  then show ?thesis unfolding trial_ok_def gapless_numbers by simp
qed

definition demo_trial_input :: create_trial_input where
  "demo_trial_input = \<lparr>cti_id = ''t1'', cti_runId = ''r1'', cti_taskId = ''k'',
     cti_agent = undefined, cti_isolationBackend = None\<rparr>"

definition demo_step :: traj_step where
  "demo_step = \<lparr>st_step_id = 1, st_started_at = ''2026-01-01T00:00:00Z'', st_ended_at = None, st_output_text = Some ''hi'',
     st_reasoning = None, st_tool_calls = [], st_observation = None, st_metrics = None, st_finish_reason = None,
     st_approval_id = None, st_error = None\<rparr>"

definition demo_trial :: trial_record where
  "demo_trial = \<lparr>tr_id = ''t1'', tr_tenantId = ''acme'', tr_runId = ''r1'', tr_taskId = ''k'',
     tr_status = TRunning, tr_agent = undefined, tr_steps = [], tr_startedAt = 5, tr_endedAt = None,
     tr_outcome = None, tr_score = None, tr_isolationBackend = None, tr_pendingApprovalId = None\<rparr>"

lemma demo_trial_reachable:
  "trial_reachable \<lparr>sy_trials = [(''t1'', demo_trial\<lparr>tr_steps := [demo_step]\<rparr>)], sy_pending = []\<rparr>"
proof -
  let ?t = "demo_trial\<lparr>tr_steps := [demo_step]\<rparr>"
  have "createTrial 5 demo_ctx demo_trial_input [] = (Inr demo_trial, [(''t1'', demo_trial)])"
    by (simp add: createTrial_def demo_trial_input_def demo_ctx_def demo_trial_def given_def map_has_def Let_def)
  then have 1: "trial_reachable \<lparr>sy_trials = [(''t1'', demo_trial)], sy_pending = []\<rparr>"
    using trial_step.create [of 5 demo_ctx demo_trial_input "\<lparr>sy_trials = [], sy_pending = []\<rparr>"]
      trial_reachable.start by (auto intro: trial_reachable.step)
  have "append_update ''t1'' demo_step (getTrial [(''t1'', demo_trial)] demo_ctx ''t1'') = Inr ?t"
    by (simp add: append_update_Inr getTrial_def demo_ctx_def demo_trial_def demo_step_def)
  then have 2: "trial_reachable \<lparr>sy_trials = [(''t1'', demo_trial)], sy_pending = [(''t1'', ?t)]\<rparr>"
    using trial_step.append_begin [of "''t1''" demo_step "\<lparr>sy_trials = [(''t1'', demo_trial)], sy_pending = []\<rparr>"]
      trial_reachable.step [OF 1] by simp
  show ?thesis
    using trial_reachable.step [OF 2 trial_step.commit [of _ "[]" "''t1''" ?t "[]"]] by simp
qed

theorem trials_stay_gapless_witness:
  "tr_id (demo_trial\<lparr>tr_steps := [demo_step]\<rparr>) = ''t1''
    \<and> map st_step_id (tr_steps (demo_trial\<lparr>tr_steps := [demo_step]\<rparr>)) = [1]"
  using trials_stay_gapless [OF demo_trial_reachable, of "''t1''" "demo_trial\<lparr>tr_steps := [demo_step]\<rparr>"] by simp

text \<open>A stored screenshot is served back byte for byte, in the format detected when it was put,
  after any number of further puts, barring a SHA-256 collision with bytes the store already
  holds.\<close>

theorem blob_served_as_stored:
  assumes "addressed sha256 (pathFor dir) s" "file_put sha256 dir None b s = (Inr m, s')"
    "inj_on sha256 ({b} \<union> snd ` set s)"
  shows "file_get sha256 dir (fold (\<lambda>c t. snd (file_put sha256 dir None c t)) cs s') (bm_address m)
      = Inr (Some (b, bm_format m))"
proof -
  have "b' \<in> {b} \<union> snd ` set s" if g: "file_get sha256 dir s' (bm_address m) = Inr (Some (b', f))" for b' f
  proof -
    have "map_get s' (pathFor dir (bm_address m)) = Some b'" using g by (simp add: file_get_Some)
    moreover have "s' = put_at sha256 (pathFor dir) b s"
      using assms(2) put_refused(2) [of b sha256 dir None s] file_put_ok [of b _ dir s] by (cases "detectFormat b") auto
    ultimately show ?thesis by (force simp: put_at_def map_get_set split: if_splits dest: map_of_SomeD)
  qed
  then show ?thesis using fb.stored_served [OF assms(1-3)] by (simp add: fb.puts_def)
qed

definition demo_png :: bytes where
  "demo_png = [137, 80, 78, 71, 13, 10, 26, 10]"

theorem blob_served_as_stored_witness:
  "\<exists>m s'. file_put sha256 ''blobs'' None demo_png [] = (Inr m, s')
    \<and> file_get sha256 ''blobs'' s' (bm_address m) = Inr (Some (demo_png, Png))"
proof -
  have "detectFormat demo_png = Some Png" by (simp add: detectFormat_def demo_png_def)
  note f = file_put_ok [OF this, of "''blobs''" "[]"]
  have "addressed sha256 (pathFor ''blobs'') []" by (simp add: addressed_def)
  then show ?thesis using f blob_served_as_stored [OF _ f, of "[]"] by (intro exI conjI) (rule f, simp)
qed

section \<open>Task splits\<close>



text \<open>The content hash of a task set pins it: two sets of one-line fields with equal hashes agree
  in id, version, split and the ordered list of task ids, barring a collision of the digest on
  their two texts.\<close>

theorem task_set_hash_pins:
  assumes "one_line i v ts" "one_line i' v' ts'"
    "inj_on H (utf8 ` {task_set_text i v sp ts, task_set_text i' v' sp' ts'})"
  shows "computeTaskSetHash H i v sp ts = computeTaskSetHash H i' v' sp' ts'
    \<longleftrightarrow> i = i' \<and> v = v' \<and> sp = sp' \<and> ts = ts'"
proof
  assume "computeTaskSetHash H i v sp ts = computeTaskSetHash H i' v' sp' ts'"
  then have "H (utf8 (task_set_text i v sp ts)) = H (utf8 (task_set_text i' v' sp' ts'))"
    by (simp add: computeTaskSetHash_def)
  with assms(3) have "utf8 (task_set_text i v sp ts) = utf8 (task_set_text i' v' sp' ts')" by (auto dest: inj_onD)
  then show "i = i' \<and> v = v' \<and> sp = sp' \<and> ts = ts'" by (simp add: task_set_text_inj [OF assms(1,2)])
qed simp

theorem task_set_hash_pins_witness:
  "computeTaskSetHash (\<lambda>b. b) ''s'' ''1'' DEV [''a''] \<noteq> computeTaskSetHash (\<lambda>b. b) ''s'' ''1'' DEV [''a'', ''b'']"
  using task_set_hash_pins [of "''s''" "''1''" "[''a'']" "''s''" "''1''" "[''a'', ''b'']" "\<lambda>b. b" DEV DEV]
  by (simp add: one_line_def newline_def inj_on_def)

section \<open>API keys\<close>

lemma key_create_Inr:
  assumes "key_create H now random t who input grantable s = (Inr (p, secret), s')"
  obtains r where "p = key_toPublic r" "ks_keys s' = map_set (ak_id r) r (ks_keys s)" "ak_tenantId r = t"
    "ak_scopes r = cki_scopes input" "set (cki_scopes input) \<subseteq> set grantable" "ak_revokedAt r = None"
    "ak_hashedSecret r = hashSecret H secret" "starts_with KEY_PREFIX secret"
proof -
  let ?g = "generateSecret random"
  have e: "filter (\<lambda>sc. sc \<notin> set grantable) (cki_scopes input) = []"
    using assms by (auto simp: key_create_def Let_def split: if_splits)
  then have g: "set (cki_scopes input) \<subseteq> set grantable" by (auto simp: filter_empty_conv)
  show ?thesis
    using assms e
    by (intro that [OF _ _ _ _ g])
      (auto simp: key_create_def Let_def generateSecret_def starts_with_iff split: if_splits)
qed

text \<open>C33 An issued key works as issued: the secret handed out once authenticates as the new key of
  its tenant, with exactly the scopes asked for, all of which its creator could grant, until it
  expires, provided no stored key has the same hash.\<close>

theorem issued_key_authenticates:
  assumes "key_create H now random t who input grantable s = (Inr (p, secret), s')"
    "keyed ak_id (ks_keys s)" "map_get (ks_keys s) (ak_id p) = None"
    "\<forall>k \<in> set (map_values (ks_keys s)). \<not> secretMatches H secret (ak_hashedSecret k)"
    "\<forall>e. ak_expiresAt p = Some e \<longrightarrow> later < e"
  shows "\<exists>k. fst (key_authenticate H later secret s') = Inr k \<and> ak_id k = ak_id p \<and> ak_tenantId k = t
    \<and> ak_scopes k = cki_scopes input \<and> set (ak_scopes k) \<subseteq> set grantable"
proof (rule key_create_Inr [OF assms(1)])
  fix r
  assume r: "p = key_toPublic r" "ks_keys s' = map_set (ak_id r) r (ks_keys s)" "ak_tenantId r = t"
    "ak_scopes r = cki_scopes input" "set (cki_scopes input) \<subseteq> set grantable" "ak_revokedAt r = None"
    "ak_hashedSecret r = hashSecret H secret" "starts_with KEY_PREFIX secret"
  have kd: "keyed ak_id (ks_keys s')" using assms(2) r(2) by auto
  have vals: "k = r \<or> k \<in> set (map_values (ks_keys s))" if "k \<in> set (map_values (ks_keys s'))" for k
  proof -
    have "map_get (ks_keys s') (ak_id k) = Some k" using that keyed_values [OF kd] by blast
    then have "(if ak_id k = ak_id r then Some r else map_get (ks_keys s) (ak_id k)) = Some k"
      by (simp only: r(2) map_get_set)
    then show ?thesis using keyed_values [OF assms(2)] by (metis option.inject)
  qed
  have "map_get (ks_keys s') (ak_id r) = Some r" by (simp only: r(2) map_get_set simp_thms if_True)
  then have m: "r \<in> set (map_values (ks_keys s'))" using keyed_values [OF kd] by blast
  have h: "secretMatches H secret (ak_hashedSecret r)" by (simp only: r(7) secretMatches_iff)
  have only: "\<forall>k' \<in> set (map_values (ks_keys s')). secretMatches H secret (ak_hashedSecret k') \<longrightarrow> k' = r"
    using vals assms(4) by blast
  have live: "\<not> (case ak_expiresAt r of None \<Rightarrow> False | Some e \<Rightarrow> e \<le> later)"
    using assms(5) r(1) by (auto split: option.splits)
  have "auth_loop H later secret (map_values (ks_keys s')) = Inr (r\<lparr>ak_lastUsedAt := Some later\<rparr>)"
    unfolding auth_loop_only [OF m h only] using r(6) live by (simp only: simp_thms if_False)
  then have "fst (key_authenticate H later secret s') = Inr (r\<lparr>ak_lastUsedAt := Some later\<rparr>)"
    using r(8) by (simp only: key_authenticate_def simp_thms if_False sum.case fst_conv)
  with r(1,3,4,5) show ?thesis by simp
qed

definition demo_key_input :: create_key_input where
  "demo_key_input = \<lparr>cki_name = ''ci'', cki_description = None, cki_scopes = [''runs:read''], cki_expiresInDays = None\<rparr>"

definition no_keys :: key_store where
  "no_keys = \<lparr>ks_keys = [], ks_counter = 0\<rparr>"

lemma demo_key_created:
  "\<exists>p secret s'. key_create H 5 (replicate 32 7) ''acme'' ''ann'' demo_key_input [''runs:read''] no_keys
      = (Inr (p, secret), s') \<and> ak_expiresAt p = None"
proof -
  have "trim ''ci'' \<noteq> []" by code_simp
  then show ?thesis by (simp add: key_create_def demo_key_input_def no_keys_def Let_def)
qed

theorem issued_key_authenticates_witness:
  "\<exists>p secret s' k. key_create (\<lambda>b. b) 5 (replicate 32 7) ''acme'' ''ann'' demo_key_input [''runs:read''] no_keys
      = (Inr (p, secret), s') \<and> fst (key_authenticate (\<lambda>b. b) 9 secret s') = Inr k \<and> ak_scopes k = [''runs:read'']"
proof -
  obtain p secret s' where c: "key_create (\<lambda>b. b) 5 (replicate 32 7) ''acme'' ''ann'' demo_key_input [''runs:read''] no_keys
      = (Inr (p, secret), s')" "ak_expiresAt p = None" using demo_key_created by blast
  have "\<exists>k. fst (key_authenticate (\<lambda>b. b) 9 secret s') = Inr k \<and> ak_id k = ak_id p \<and> ak_tenantId k = ''acme''
      \<and> ak_scopes k = cki_scopes demo_key_input \<and> set (ak_scopes k) \<subseteq> set [''runs:read'']"
    by (rule issued_key_authenticates [OF c(1)]) (simp_all add: no_keys_def c(2))
  with c(1) show ?thesis by (auto simp: demo_key_input_def)
qed

text \<open>C34 Revocation is final: no later creation, revocation or authentication brings a revoked key
  back, so no secret ever authenticates as it, as long as its id is not drawn again.\<close>

theorem revoked_key_stays_dead:
  assumes "fst (key_revoke now t kid who s) \<noteq> None" "keyed ak_id (ks_keys s)"
    "ops_fresh H kid ops (snd (key_revoke now t kid who s))"
    "fst (key_authenticate H later secret (key_steps H ops (snd (key_revoke now t kid who s)))) = Inr k"
  shows "ak_id k \<noteq> kid"
proof -
  let ?s = "snd (key_revoke now t kid who s)"
  obtain h where "dead kid h ?s"
    using assms(1) by (auto simp: key_revoke_def dead_def Let_def map_get_set split: option.splits if_splits)
  moreover have kd: "keyed ak_id (ks_keys ?s)" using assms(2) by (rule key_revoke_keyed)
  ultimately have d: "dead kid h (key_steps H ops ?s)" using assms(3) by (rule dead_forever)
  have kd': "keyed ak_id (ks_keys (key_steps H ops ?s))"
    using kd by (induction ops rule: rev_induct) (simp_all add: key_steps_def key_step_keyed)
  have l: "auth_loop H later secret (map_values (ks_keys (key_steps H ops ?s))) = Inr k"
    using assms(4) unfolding key_authenticate_def by (simp split: if_splits sum.splits)
  obtain k0 where "map_get (ks_keys (key_steps H ops ?s)) (ak_id k) = Some k0" "ak_revokedAt k0 = None"
    using auth_touched [OF l kd'] by metis
  then show ?thesis using d unfolding dead_def by force
qed

definition demo_key :: api_key where
  "demo_key = \<lparr>ak_id = ''key_1'', ak_tenantId = ''acme'', ak_createdBy = ''ann'', ak_name = ''ci'', ak_description = None,
     ak_masked = [], ak_last4 = [], ak_scopes = [''runs:read''], ak_createdAt = 5, ak_expiresAt = None,
     ak_revokedAt = None, ak_revokedBy = None, ak_lastUsedAt = None, ak_hashedSecret = ''00''\<rparr>"

definition other_key :: api_key where
  "other_key = demo_key\<lparr>ak_id := ''key_2'', ak_hashedSecret := to_hex (utf8 (KEY_PREFIX @ ''x''))\<rparr>"

theorem revoked_key_stays_dead_witness:
  "let s = \<lparr>ks_keys = [(''key_1'', demo_key), (''key_2'', other_key)], ks_counter = 2\<rparr>;
       s' = snd (key_revoke 6 ''acme'' ''key_1'' ''ann'' s)
   in \<exists>k. fst (key_authenticate (\<lambda>b. b) 9 (KEY_PREFIX @ ''x'') (key_steps (\<lambda>b. b) [KAuth 7 ''y''] s')) = Inr k
     \<and> ak_id k \<noteq> ''key_1''"
proof -
  let ?s = "\<lparr>ks_keys = [(''key_1'', demo_key), (''key_2'', other_key)], ks_counter = 2\<rparr>"
  let ?a = "fst (key_authenticate (\<lambda>b. b) 9 (KEY_PREFIX @ ''x'')
      (key_steps (\<lambda>b. b) [KAuth 7 ''y''] (snd (key_revoke 6 ''acme'' ''key_1'' ''ann'' ?s))))"
  have "\<not> isl ?a" by code_simp
  then obtain k where k: "?a = Inr k" by (cases ?a) auto
  have "fst (key_revoke 6 ''acme'' ''key_1'' ''ann'' ?s) \<noteq> None" by (simp add: key_revoke_def demo_key_def Let_def)
  moreover have "keyed ak_id (ks_keys ?s)" by (simp add: keyed_def wf_map_def demo_key_def other_key_def)
  ultimately have "ak_id k \<noteq> ''key_1''" by (rule revoked_key_stays_dead [OF _ _ _ k]) simp
  with k show ?thesis unfolding Let_def by blast
qed

section \<open>Provider credentials\<close>

text \<open>C35 A stored provider credential comes back as it was given: what \<open>create\<close> sealed,
  \<open>revealForProviderCall\<close> opens for the same tenant, key, base URL and provider included, with
  any cipher that decrypts what it encrypts.\<close>

theorem credential_round_trip:
  assumes "aead_laws C" "cred_create C (Some key) now rand iv t who input s = (Inr p, s')"
  shows "\<exists>r. fst (cred_reveal C (Some key) later t (pc_id p) s') = Inr (Some r)
    \<and> rv_apiKey r = given (cci_apiKey input) \<and> rv_baseUrl r = given (cci_baseUrl input)
    \<and> rv_providerId r = cci_providerId input"
  using cred_create_reveal [OF assms, of later] by (metis fst_conv)

definition null_cipher :: aead where
  "null_cipher = \<lparr>gcm_encrypt = (\<lambda>k iv a p. (p, replicate 16 0)), gcm_decrypt = (\<lambda>k iv a ct tag. Some ct)\<rparr>"

lemma null_cipher_laws: "aead_laws null_cipher"
  by (simp add: aead_laws_def null_cipher_def TAG_BYTES_def)

definition demo_cred_input :: create_credential_input where
  "demo_cred_input = \<lparr>cci_providerId = ''openai'', cci_name = ''prod'', cci_apiKey = Some ''sk-1'', cci_baseUrl = None\<rparr>"

theorem credential_round_trip_witness:
  "\<exists>p s' r. cred_create null_cipher (Some []) 5 [1, 2] [3] ''acme'' ''ann'' demo_cred_input
      \<lparr>cs_credentials = [], cs_counter = 0\<rparr> = (Inr p, s')
    \<and> fst (cred_reveal null_cipher (Some []) 6 ''acme'' (pc_id p) s') = Inr (Some r) \<and> rv_apiKey r = Some ''sk-1''"
proof -
  have "trim ''prod'' \<noteq> []" by code_simp
  then obtain p s' where c: "cred_create null_cipher (Some []) 5 [1, 2] [3] ''acme'' ''ann'' demo_cred_input
      \<lparr>cs_credentials = [], cs_counter = 0\<rparr> = (Inr p, s')"
    by (simp add: cred_create_def demo_cred_input_def given_def Let_def)
  from credential_round_trip [OF null_cipher_laws c, of 6] c show ?thesis
    by (auto simp: demo_cred_input_def given_def)
qed

text \<open>What \<open>stripSecrets\<close> returns holds no secret under a sensitive name, in any casing and at
  any depth of objects and arrays: every such value is the redaction marker.\<close>

theorem secrets_stripped:
  assumes "stripSecrets v = Inr w"
  shows "stripped w"
  using assms by (rule stripSecrets_stripped)

theorem secrets_stripped_witness:
  "stripped (JObj [(''user'', JStr ''ann''), (''apiKey'', JStr ''[redacted]''),
     (''nested'', JArr [JObj [(''Token'', JStr ''[redacted]'')]])])"
  by (rule secrets_stripped [of "JObj [(''user'', JStr ''ann''), (''apiKey'', JStr ''sk-1''),
     (''nested'', JArr [JObj [(''Token'', JBool True)]])]"]) code_simp

end
