(* ===== verification/Model_Registry.thy ===== *)
theory Model_Registry
  imports Task_Registry Executor
begin

text \<open>
  \<open>models/registry.ts\<close>: models a deployment benchmarks, each as an append-only list of
  revisions under the key \<open>tenant:model\<close>. Registration with its validation, the endpoint
  guard, lookups, updates, capability probes, and the fingerprint of a configuration. The URL
  parser and the collation of \<open>localeCompare\<close> are arguments. Optional number fields are integers.
\<close>

section \<open>Data\<close>

datatype deployment_type = CLOUD_API | SELF_HOSTED | LOCAL | OPENAI_COMPATIBLE | REMOTE_ENDPOINT

fun deployment_name :: "deployment_type \<Rightarrow> string" where
  "deployment_name CLOUD_API = ''CLOUD_API''"
| "deployment_name SELF_HOSTED = ''SELF_HOSTED''"
| "deployment_name LOCAL = ''LOCAL''"
| "deployment_name OPENAI_COMPATIBLE = ''OPENAI_COMPATIBLE''"
| "deployment_name REMOTE_ENDPOINT = ''REMOTE_ENDPOINT''"

definition DEPLOYMENT_TYPES :: "deployment_type list" where
  "DEPLOYMENT_TYPES = [CLOUD_API, SELF_HOSTED, LOCAL, OPENAI_COMPATIBLE, REMOTE_ENDPOINT]"

definition endpointIsIdentity :: "deployment_type \<Rightarrow> bool" where
  "endpointIsIdentity d = (d \<noteq> CLOUD_API)"

record token_pricing =
  tp_inputPerMillionUsd :: rat
  tp_outputPerMillionUsd :: rat
  tp_cachedInputPerMillionUsd :: "rat option"
  tp_reasoningOutputPerMillionUsd :: "rat option"
  tp_source :: "string option"
  tp_asOf :: "string option"

record hardware_pricing =
  hp_hourlyUsd :: rat
  hp_source :: "string option"
  hp_asOf :: "string option"

datatype pricing = TokenPriced token_pricing | HardwarePriced hardware_pricing | UnknownPrice

datatype capability_source = Probed | Declared | Operator | SourceUnknown

record model_capabilities =
  mc_streaming :: support
  mc_tools :: support
  mc_vision :: support
  mc_structuredOutput :: support
  mc_modelListing :: support
  mc_requiresApiKey :: bool
  mc_multiTurn :: support
  mc_parallelToolCalls :: support
  mc_jsonMode :: support
  mc_reasoning :: support
  mc_audio :: support
  mc_systemMessages :: support
  mc_source :: capability_source
  mc_probedAt :: "string option"

definition unknownCapabilities :: model_capabilities where
  "unknownCapabilities = \<lparr>mc_streaming = SupportUnknown, mc_tools = SupportUnknown, mc_vision = SupportUnknown,
     mc_structuredOutput = SupportUnknown, mc_modelListing = SupportUnknown, mc_requiresApiKey = True,
     mc_multiTurn = SupportUnknown, mc_parallelToolCalls = SupportUnknown, mc_jsonMode = SupportUnknown,
     mc_reasoning = SupportUnknown, mc_audio = SupportUnknown, mc_systemMessages = SupportUnknown,
     mc_source = SourceUnknown, mc_probedAt = None\<rparr>"

text \<open>A \<open>Partial<ModelCapabilities>\<close>: its spread over full capabilities.\<close>

record capabilities_patch =
  cp_streaming :: "support option"
  cp_tools :: "support option"
  cp_vision :: "support option"
  cp_structuredOutput :: "support option"
  cp_modelListing :: "support option"
  cp_requiresApiKey :: "bool option"
  cp_multiTurn :: "support option"
  cp_parallelToolCalls :: "support option"
  cp_jsonMode :: "support option"
  cp_reasoning :: "support option"
  cp_audio :: "support option"
  cp_systemMessages :: "support option"
  cp_source :: "capability_source option"
  cp_probedAt :: "string option"

definition or_else :: "'a \<Rightarrow> 'a option \<Rightarrow> 'a" where
  "or_else d x = (case x of None \<Rightarrow> d | Some v \<Rightarrow> v)"

definition first_some :: "'a option \<Rightarrow> 'a option \<Rightarrow> 'a option" where
  "first_some x y = (case x of None \<Rightarrow> y | Some v \<Rightarrow> Some v)"

lemma or_else_simps [simp]: "or_else d None = d" "or_else d (Some v) = v"
  "first_some None y = y" "first_some (Some v) y = Some v"
  by (simp_all add: or_else_def first_some_def)

definition patch_capabilities :: "model_capabilities \<Rightarrow> capabilities_patch \<Rightarrow> model_capabilities" where
  "patch_capabilities c p = \<lparr>mc_streaming = or_else (mc_streaming c) (cp_streaming p),
     mc_tools = or_else (mc_tools c) (cp_tools p), mc_vision = or_else (mc_vision c) (cp_vision p),
     mc_structuredOutput = or_else (mc_structuredOutput c) (cp_structuredOutput p),
     mc_modelListing = or_else (mc_modelListing c) (cp_modelListing p),
     mc_requiresApiKey = or_else (mc_requiresApiKey c) (cp_requiresApiKey p),
     mc_multiTurn = or_else (mc_multiTurn c) (cp_multiTurn p),
     mc_parallelToolCalls = or_else (mc_parallelToolCalls c) (cp_parallelToolCalls p),
     mc_jsonMode = or_else (mc_jsonMode c) (cp_jsonMode p),
     mc_reasoning = or_else (mc_reasoning c) (cp_reasoning p), mc_audio = or_else (mc_audio c) (cp_audio p),
     mc_systemMessages = or_else (mc_systemMessages c) (cp_systemMessages p),
     mc_source = or_else (mc_source c) (cp_source p), mc_probedAt = first_some (cp_probedAt p) (mc_probedAt c)\<rparr>"

definition no_patch :: capabilities_patch where
  "no_patch = \<lparr>cp_streaming = None, cp_tools = None, cp_vision = None, cp_structuredOutput = None,
     cp_modelListing = None, cp_requiresApiKey = None, cp_multiTurn = None, cp_parallelToolCalls = None,
     cp_jsonMode = None, cp_reasoning = None, cp_audio = None, cp_systemMessages = None,
     cp_source = None, cp_probedAt = None\<rparr>"

lemma patch_no_patch [simp]: "patch_capabilities c no_patch = c"
  by (simp add: patch_capabilities_def no_patch_def)

record registered_model =
  rm_modelId :: string
  rm_revision :: int
  rm_tenantId :: string
  rm_displayName :: string
  rm_provider :: string
  rm_deploymentType :: deployment_type
  rm_modelIdentifier :: string
  rm_resolvedModelId :: "string option"
  rm_baseUrl :: "string option"
  rm_credentialId :: "string option"
  rm_capabilities :: model_capabilities
  rm_contextWindow :: "int option"
  rm_maxOutputTokens :: "int option"
  rm_pricing :: pricing
  rm_metadata :: "jsval jsmap"
  rm_createdAt :: instant
  rm_supersededAt :: "instant option"

section \<open>The fingerprint\<close>

definition fingerprint_text :: "registered_model \<Rightarrow> string" where
  "fingerprint_text m = line_of ''model:v1'' @ line_of (rm_provider m)
     @ line_of (deployment_name (rm_deploymentType m)) @ line_of (rm_modelIdentifier m)
     @ line_of (or_else [] (rm_resolvedModelId m))
     @ line_of (if endpointIsIdentity (rm_deploymentType m) then or_else [] (rm_baseUrl m) else [])"

definition modelFingerprint :: "(bytes \<Rightarrow> bytes) \<Rightarrow> registered_model \<Rightarrow> string" where
  "modelFingerprint H m = ''sha256:'' @ to_hex (H (utf8 (fingerprint_text m)))"

section \<open>Validation\<close>

record register_input =
  rg_modelId :: string
  rg_displayName :: string
  rg_provider :: string
  rg_deploymentType :: deployment_type
  rg_modelIdentifier :: string
  rg_baseUrl :: "string option"
  rg_credentialId :: "string option"
  rg_capabilities :: capabilities_patch
  rg_contextWindow :: "int option"
  rg_maxOutputTokens :: "int option"
  rg_pricing :: "pricing option"
  rg_metadata :: "jsval jsmap"

definition id_first :: "char \<Rightarrow> bool" where
  "id_first c = (CHR ''a'' \<le> c \<and> c \<le> CHR ''z'' \<or> CHR ''0'' \<le> c \<and> c \<le> CHR ''9'')"

definition ID_RE :: "string \<Rightarrow> bool" where
  "ID_RE s = (case s of [] \<Rightarrow> False
     | c # cs \<Rightarrow> id_first c \<and> list_all (\<lambda>x. id_first x \<or> x \<in> set ''._-'') cs \<and> length cs \<le> 63)"

text \<open>\<open>parse_url\<close> is \<open>new URL\<close>: the protocol with its colon and the host name, or a throw.\<close>

type_synonym url_parser = "string \<Rightarrow> (string \<times> string) option"

definition assertSafeEndpoint :: "url_parser \<Rightarrow> bool option \<Rightarrow> string \<Rightarrow> string + unit" where
  "assertSafeEndpoint parse_url allow url = (case parse_url url of
     None \<Rightarrow> Inl (''baseUrl '' @ quoted url @ '' is not a valid URL.'')
   | Some (protocol, hostname) \<Rightarrow>
       if protocol \<noteq> ''http:'' \<and> protocol \<noteq> ''https:''
       then Inl (''baseUrl scheme '' @ quoted protocol @ '' is not allowed. Only http and https are permitted.'')
       else let host = map to_lower hostname in
         if host = ''169.254.169.254'' \<or> host = ''metadata.google.internal'' \<or> ends_with ''.internal'' host
         then Inl (''baseUrl host '' @ quoted host @ '' is a cloud metadata endpoint and cannot be registered.'')
         else if (host = ''localhost'' \<or> host = ''::1'' \<or> host = ''[::1]'' \<or> starts_with ''127.'' host)
             \<and> \<not> or_else True allow
         then Inl (''baseUrl host '' @ quoted host @ '' is loopback, which is not permitted in this deployment.'')
         else Inr ())"

definition validate :: "url_parser \<Rightarrow> register_input \<Rightarrow> string + unit" where
  "validate parse_url i =
     (if \<not> ID_RE (rg_modelId i)
      then Inl (''modelId '' @ quoted (rg_modelId i) @ '' must be 1-64 chars of [a-z0-9._-] starting alphanumeric.'')
      else if trim (rg_modelIdentifier i) = []
      then Inl (''modelIdentifier is required '' @ [CHR 0xE2, CHR 0x80, CHR 0x94]
        @ '' it is what the provider is asked for.'')
      else if endpointIsIdentity (rg_deploymentType i) \<and> given (rg_baseUrl i) = None
      then Inl (''deploymentType '' @ deployment_name (rg_deploymentType i)
        @ '' requires a baseUrl. The endpoint is part of this ''
        @ ''model'' @ [CHR 0x27] @ ''s identity: the same weights served at a different precision or on different ''
        @ ''hardware is a different system to benchmark.'')
      else case given (rg_baseUrl i) of
        None \<Rightarrow> Inr () | Some url \<Rightarrow> assertSafeEndpoint parse_url None url)"

section \<open>The registry\<close>

type_synonym models = "registered_model list jsmap"

definition model_key :: "string \<Rightarrow> string \<Rightarrow> string" where
  "model_key tenantId modelId = tenantId @ '':'' @ modelId"

text \<open>Spreading one object over another.\<close>

definition spread :: "'v jsmap \<Rightarrow> 'v jsmap \<Rightarrow> 'v jsmap" where
  "spread a b = fold (\<lambda>(k, v) m. map_set k v m) b a"

definition model_register ::
    "url_parser \<Rightarrow> instant \<Rightarrow> tenant_ctx \<Rightarrow> register_input \<Rightarrow> models \<Rightarrow> (string + registered_model) \<times> models" where
  "model_register parse_url now ctx i s = (case validate parse_url i of
     Inl e \<Rightarrow> (Inl e, s)
   | Inr _ \<Rightarrow>
       let k = model_key (tc_tenantId ctx) (rg_modelId i) in
       if map_has s k
       then (Inl (''Model '' @ quoted (rg_modelId i)
          @ '' is already registered. Use update() to create a new revision.''), s)
       else
         let record = \<lparr>rm_modelId = rg_modelId i, rm_revision = 1, rm_tenantId = tc_tenantId ctx,
               rm_displayName = rg_displayName i, rm_provider = rg_provider i,
               rm_deploymentType = rg_deploymentType i, rm_modelIdentifier = rg_modelIdentifier i,
               rm_resolvedModelId = None, rm_baseUrl = given (rg_baseUrl i),
               rm_credentialId = given (rg_credentialId i),
               rm_capabilities = patch_capabilities unknownCapabilities (rg_capabilities i),
               rm_contextWindow = rg_contextWindow i, rm_maxOutputTokens = rg_maxOutputTokens i,
               rm_pricing = or_else UnknownPrice (rg_pricing i), rm_metadata = rg_metadata i,
               rm_createdAt = now, rm_supersededAt = None\<rparr>
         in (Inr record, map_set k [record] s))"

definition current_of :: "'a list option \<Rightarrow> 'a option" where
  "current_of revisions = (case revisions of None \<Rightarrow> None | Some [] \<Rightarrow> None | Some rs \<Rightarrow> Some (last rs))"

definition model_get :: "models \<Rightarrow> tenant_ctx \<Rightarrow> string \<Rightarrow> registered_model option" where
  "model_get s ctx modelId = current_of (map_get s (model_key (tc_tenantId ctx) modelId))"

definition model_getRevision :: "models \<Rightarrow> tenant_ctx \<Rightarrow> string \<Rightarrow> int \<Rightarrow> registered_model option" where
  "model_getRevision s ctx modelId revision =
     (case map_get s (model_key (tc_tenantId ctx) modelId) of
        None \<Rightarrow> None | Some rs \<Rightarrow> find (\<lambda>r. rm_revision r = revision) rs)"

text \<open>\<open>collate\<close> ranks the identifiers as \<open>localeCompare\<close> orders them.\<close>

definition model_list :: "(string \<Rightarrow> int) \<Rightarrow> models \<Rightarrow> tenant_ctx \<Rightarrow> registered_model list" where
  "model_list collate s ctx = sort_asc (\<lambda>m. collate (rm_modelId m))
     (List.map_filter (\<lambda>(k, rs). if starts_with (tc_tenantId ctx @ '':'') k then current_of (Some rs) else None) s)"

record model_patch =
  up_displayName :: "string option"
  up_provider :: "string option"
  up_deploymentType :: "deployment_type option"
  up_modelIdentifier :: "string option"
  up_baseUrl :: "string option"
  up_credentialId :: "string option"
  up_capabilities :: capabilities_patch
  up_contextWindow :: "int option"
  up_maxOutputTokens :: "int option"
  up_pricing :: "pricing option"
  up_metadata :: "jsval jsmap"

definition merged_input :: "registered_model \<Rightarrow> string \<Rightarrow> model_patch \<Rightarrow> register_input" where
  "merged_input current modelId p = \<lparr>rg_modelId = modelId,
     rg_displayName = or_else (rm_displayName current) (up_displayName p),
     rg_provider = or_else (rm_provider current) (up_provider p),
     rg_deploymentType = or_else (rm_deploymentType current) (up_deploymentType p),
     rg_modelIdentifier = or_else (rm_modelIdentifier current) (up_modelIdentifier p),
     rg_baseUrl = given (first_some (up_baseUrl p) (rm_baseUrl current)), rg_credentialId = None,
     rg_capabilities = no_patch, rg_contextWindow = None, rg_maxOutputTokens = None, rg_pricing = None,
     rg_metadata = []\<rparr>"

text \<open>
  The next revision. A field spread from an absent value keeps the current one: an empty
  \<open>baseUrl\<close> or \<open>credentialId\<close>, a context window of zero, and any \<open>maxOutputTokens\<close> in
  the patch change nothing.
\<close>

definition next_revision ::
    "instant \<Rightarrow> registered_model \<Rightarrow> register_input \<Rightarrow> model_patch \<Rightarrow> registered_model" where
  "next_revision now current merged p = current\<lparr>rm_revision := rm_revision current + 1,
     rm_displayName := rg_displayName merged, rm_provider := rg_provider merged,
     rm_deploymentType := rg_deploymentType merged, rm_modelIdentifier := rg_modelIdentifier merged,
     rm_capabilities := patch_capabilities (rm_capabilities current) (up_capabilities p),
     rm_pricing := or_else (rm_pricing current) (up_pricing p),
     rm_metadata := spread (rm_metadata current) (up_metadata p), rm_createdAt := now,
     rm_baseUrl := first_some (given (rg_baseUrl merged)) (rm_baseUrl current),
     rm_credentialId := first_some (given (first_some (up_credentialId p) (rm_credentialId current)))
       (rm_credentialId current),
     rm_contextWindow := (case up_contextWindow p of
         Some n \<Rightarrow> if n \<noteq> 0 then Some n else rm_contextWindow current
       | None \<Rightarrow> rm_contextWindow current),
     rm_supersededAt := None\<rparr>"

definition model_update ::
    "url_parser \<Rightarrow> instant \<Rightarrow> tenant_ctx \<Rightarrow> string \<Rightarrow> model_patch \<Rightarrow> models
      \<Rightarrow> (string + registered_model) \<times> models" where
  "model_update parse_url now ctx modelId p s =
     (let k = model_key (tc_tenantId ctx) modelId in
      case map_get s k of
        None \<Rightarrow> (Inl (''Model '' @ quoted modelId @ '' is not registered for this tenant.''), s)
      | Some [] \<Rightarrow> (Inl (''Model '' @ quoted modelId @ '' is not registered for this tenant.''), s)
      | Some (r # rs) \<Rightarrow>
          let revisions = r # rs; current = last revisions; merged = merged_input current modelId p in
          case validate parse_url merged of
            Inl e \<Rightarrow> (Inl e, s)
          | Inr _ \<Rightarrow>
              let next = next_revision now current merged p
              in (Inr next, map_set k (butlast revisions @ [current\<lparr>rm_supersededAt := Some now\<rparr>, next]) s))"

record probe_result =
  pr_resolvedModelId :: "string option"
  pr_capabilities :: capabilities_patch
  pr_contextWindow :: "int option"

definition probe_patch :: "instant \<Rightarrow> probe_result \<Rightarrow> model_patch" where
  "probe_patch now probe = \<lparr>up_displayName = None, up_provider = None, up_deploymentType = None,
     up_modelIdentifier = None, up_baseUrl = None, up_credentialId = None,
     up_capabilities = (pr_capabilities probe)\<lparr>cp_source := Some Probed, cp_probedAt := Some (toISOString now)\<rparr>,
     up_contextWindow = pr_contextWindow probe, up_maxOutputTokens = None, up_pricing = None, up_metadata = []\<rparr>"

text \<open>
  \<open>recordProbe\<close> awaits \<open>get\<close>, then \<open>update\<close>, and writes the resolved id last. The first
  half returns the updated revision; the second overwrites whatever is then the last one.
\<close>

definition probe_begin ::
    "url_parser \<Rightarrow> instant \<Rightarrow> tenant_ctx \<Rightarrow> string \<Rightarrow> probe_result \<Rightarrow> models
      \<Rightarrow> (string + registered_model) \<times> models" where
  "probe_begin parse_url now ctx modelId probe s = (case model_get s ctx modelId of
     None \<Rightarrow> (Inl (''Model '' @ quoted modelId @ '' is not registered.''), s)
   | Some _ \<Rightarrow> model_update parse_url now ctx modelId (probe_patch now probe) s)"

definition probe_commit ::
    "tenant_ctx \<Rightarrow> string \<Rightarrow> probe_result \<Rightarrow> registered_model \<Rightarrow> models \<Rightarrow> registered_model \<times> models" where
  "probe_commit ctx modelId probe updated s = (case given (pr_resolvedModelId probe) of
     None \<Rightarrow> (updated, s)
   | Some resolved \<Rightarrow>
       let k = model_key (tc_tenantId ctx) modelId; withResolved = updated\<lparr>rm_resolvedModelId := Some resolved\<rparr>
       in (withResolved, case map_get s k of None \<Rightarrow> s
           | Some rs \<Rightarrow> map_set k (butlast rs @ [withResolved]) s))"

definition model_recordProbe ::
    "url_parser \<Rightarrow> instant \<Rightarrow> tenant_ctx \<Rightarrow> string \<Rightarrow> probe_result \<Rightarrow> models
      \<Rightarrow> (string + registered_model) \<times> models" where
  "model_recordProbe parse_url now ctx modelId probe s =
     (case probe_begin parse_url now ctx modelId probe s of
        (Inl e, s') \<Rightarrow> (Inl e, s')
      | (Inr updated, s') \<Rightarrow> (case probe_commit ctx modelId probe updated s' of (m, s'') \<Rightarrow> (Inr m, s'')))"

section \<open>The invariant\<close>

text \<open>Revisions are numbered from 1, belong to their key, and all but the last are superseded.\<close>

definition model_ok :: "string \<Rightarrow> registered_model list \<Rightarrow> bool" where
  "model_ok k rs = (rs \<noteq> [] \<and> (\<forall>i < length rs. rm_revision (rs ! i) = int i + 1
     \<and> model_key (rm_tenantId (rs ! i)) (rm_modelId (rs ! i)) = k
     \<and> (rm_supersededAt (rs ! i) = None \<longleftrightarrow> i = length rs - 1)))"

definition models_inv :: "models \<Rightarrow> bool" where
  "models_inv s = (\<forall>k rs. map_get s k = Some rs \<longrightarrow> model_ok k rs)"

text \<open>No revision is lost or edited: only the mark of being superseded is added to it.\<close>

definition same_revision :: "registered_model \<Rightarrow> registered_model \<Rightarrow> bool" where
  "same_revision a b = (a\<lparr>rm_supersededAt := None\<rparr> = b\<lparr>rm_supersededAt := None\<rparr>)"

definition extends :: "registered_model list \<Rightarrow> registered_model list \<Rightarrow> bool" where
  "extends rs rs' = (length rs \<le> length rs' \<and> (\<forall>i < length rs. same_revision (rs ! i) (rs' ! i)))"

definition models_extend :: "models \<Rightarrow> models \<Rightarrow> bool" where
  "models_extend s s' = (\<forall>k rs. map_get s k = Some rs \<longrightarrow> (\<exists>rs'. map_get s' k = Some rs' \<and> extends rs rs'))"

lemma same_revision_refl [simp]: "same_revision a a" "same_revision a (a\<lparr>rm_supersededAt := x\<rparr>)"
  by (simp_all add: same_revision_def)

lemma extends_refl [simp]: "extends rs rs"
  by (simp add: extends_def)

lemma extends_trans: "extends a b \<Longrightarrow> extends b c \<Longrightarrow> extends a c"
  by (auto simp: extends_def same_revision_def)

lemma models_extend_refl [simp]: "models_extend s s"
  by (auto simp: models_extend_def)

lemma models_extend_trans: "models_extend a b \<Longrightarrow> models_extend b c \<Longrightarrow> models_extend a c"
  unfolding models_extend_def using extends_trans by meson

lemma models_extend_set:
  "(case map_get s k of None \<Rightarrow> True | Some rs0 \<Rightarrow> extends rs0 rs) \<Longrightarrow> models_extend s (map_set k rs s)"
  by (auto simp: models_extend_def map_get_set split: option.splits)

lemma models_inv_set: "models_inv s \<Longrightarrow> model_ok k rs \<Longrightarrow> models_inv (map_set k rs s)"
  by (simp add: models_inv_def map_get_set)

text \<open>The list an update writes, and the one a probe's second write leaves.\<close>

lemma butlast_extend:
  assumes "rs \<noteq> []"
  shows "extends rs (butlast rs @ [(last rs)\<lparr>rm_supersededAt := t\<rparr>, n])"
proof -
  have "same_revision (rs ! i) ((butlast rs @ [(last rs)\<lparr>rm_supersededAt := t\<rparr>, n]) ! i)" if "i < length rs" for i
    using that assms by (cases "i = length rs - 1") (auto simp: nth_append nth_butlast last_conv_nth)
  then show ?thesis by (simp add: extends_def)
qed

lemma model_ok_next:
  assumes "model_ok k rs" "rm_revision n = rm_revision (last rs) + 1" "rm_supersededAt n = None"
    "rm_tenantId n = rm_tenantId (last rs)" "rm_modelId n = rm_modelId (last rs)"
  shows "model_ok k (butlast rs @ [(last rs)\<lparr>rm_supersededAt := Some t\<rparr>, n])"
proof -
  have ne: "rs \<noteq> []" using assms(1) by (simp add: model_ok_def)
  let ?xs = "butlast rs @ [(last rs)\<lparr>rm_supersededAt := Some t\<rparr>, n]"
  have l: "length ?xs = length rs + 1" using ne by (cases rs rule: rev_cases) auto
  have last_rs: "rm_revision (last rs) = int (length rs)" "model_key (rm_tenantId (last rs)) (rm_modelId (last rs)) = k"
    using assms(1) ne by (auto simp: model_ok_def last_conv_nth of_nat_diff Suc_le_eq)
  have "rm_revision (?xs ! i) = int i + 1 \<and> model_key (rm_tenantId (?xs ! i)) (rm_modelId (?xs ! i)) = k
      \<and> (rm_supersededAt (?xs ! i) = None \<longleftrightarrow> i = length rs)" if "i < length rs + 1" for i
  proof -
    have "i < length rs - 1 \<or> i = length rs - 1 \<or> i = length rs" using that by linarith
    then consider "i < length rs - 1" | "i = length rs - 1" | "i = length rs" by blast
    then show ?thesis
    proof cases
      case 1
      then have "?xs ! i = rs ! i" by (simp add: nth_append nth_butlast)
      with 1 assms(1) show ?thesis by (auto simp: model_ok_def)
    next
      case 2
      then have "?xs ! i = (last rs)\<lparr>rm_supersededAt := Some t\<rparr>" by (simp add: nth_append)
      moreover from 2 have "length rs = Suc i" using ne by (cases rs) auto
      ultimately show ?thesis using last_rs by simp
    next
      case 3
      have "?xs = (butlast rs @ [(last rs)\<lparr>rm_supersededAt := Some t\<rparr>]) @ [n]" by simp
      then have "?xs ! i = n" using 3 ne by (metis One_nat_def Suc_pred length_append_singleton length_butlast length_greater_0_conv nth_append_length)
      with 3 assms(2-5) last_rs show ?thesis by simp
    qed
  qed
  then show ?thesis unfolding model_ok_def l using ne by simp
qed

lemma next_revision_sel [simp]: "rm_revision (next_revision now c m p) = rm_revision c + 1"
  "rm_supersededAt (next_revision now c m p) = None" "rm_tenantId (next_revision now c m p) = rm_tenantId c"
  "rm_modelId (next_revision now c m p) = rm_modelId c"
  "rm_resolvedModelId (next_revision now c m p) = rm_resolvedModelId c"
  "rm_maxOutputTokens (next_revision now c m p) = rm_maxOutputTokens c"
  by (simp_all add: next_revision_def)

lemma model_update_cases:
  obtains (refused) e where "model_update u now ctx mid p s = (Inl e, s)"
  | (revised) rs n where "map_get s (model_key (tc_tenantId ctx) mid) = Some rs" "rs \<noteq> []"
      "n = next_revision now (last rs) (merged_input (last rs) mid p) p"
      "validate u (merged_input (last rs) mid p) = Inr ()"
      "model_update u now ctx mid p s = (Inr n, map_set (model_key (tc_tenantId ctx) mid)
         (butlast rs @ [(last rs)\<lparr>rm_supersededAt := Some now\<rparr>, n]) s)"
proof (cases "map_get s (model_key (tc_tenantId ctx) mid)")
  case None
  then show ?thesis by (intro refused) (simp add: model_update_def Let_def)
next
  case (Some rs)
  show ?thesis
  proof (cases rs)
    case Nil
    with Some show ?thesis by (intro refused) (simp add: model_update_def Let_def)
  next
    case (Cons r rs')
    show ?thesis
    proof (cases "validate u (merged_input (last rs) mid p)")
      case (Inl e)
      with Some Cons show ?thesis by (intro refused [of e]) (simp add: model_update_def Let_def)
    next
      case (Inr x)
      with Some Cons show ?thesis by (intro revised [of rs]) (simp_all add: model_update_def Let_def)
    qed
  qed
qed

lemma model_register_cases:
  obtains (refused) e where "model_register u now ctx i s = (Inl e, s)"
  | (created) m where "map_get s (model_key (tc_tenantId ctx) (rg_modelId i)) = None"
      "rm_revision m = 1" "rm_tenantId m = tc_tenantId ctx" "rm_modelId m = rg_modelId i" "rm_supersededAt m = None"
      "model_register u now ctx i s = (Inr m, map_set (model_key (tc_tenantId ctx) (rg_modelId i)) [m] s)"
proof (cases "validate u i")
  case (Inl e)
  then show ?thesis by (intro refused) (simp add: model_register_def)
next
  case (Inr x)
  show ?thesis
  proof (cases "map_get s (model_key (tc_tenantId ctx) (rg_modelId i))")
    case None
    with Inr show ?thesis by (intro created) (simp_all add: model_register_def Let_def map_has_def)
  next
    case (Some rs)
    with Inr show ?thesis by (intro refused) (simp add: model_register_def Let_def map_has_def)
  qed
qed

section \<open>Every operation keeps it\<close>

lemma model_register_keeps:
  assumes "models_inv s"
  shows "models_inv (snd (model_register u now ctx i s)) \<and> models_extend s (snd (model_register u now ctx i s))"
proof (cases rule: model_register_cases [of u now ctx i s])
  case (created m)
  then have "model_ok (model_key (tc_tenantId ctx) (rg_modelId i)) [m]" by (simp add: model_ok_def)
  then show ?thesis using created assms models_inv_set models_extend_set [where s = s and rs = "[m]"] by simp
qed (simp add: assms)

lemma model_update_keeps:
  assumes "models_inv s"
  shows "models_inv (snd (model_update u now ctx mid p s)) \<and> models_extend s (snd (model_update u now ctx mid p s))"
proof (cases rule: model_update_cases [of u now ctx mid p s])
  case (revised rs n)
  let ?k = "model_key (tc_tenantId ctx) mid" and ?rs = "butlast rs @ [(last rs)\<lparr>rm_supersededAt := Some now\<rparr>, n]"
  have "model_ok ?k rs" using assms revised(1) by (simp add: models_inv_def)
  then have "model_ok ?k ?rs" by (rule model_ok_next) (simp_all add: revised(3))
  moreover have "extends rs ?rs" using revised(2) by (rule butlast_extend)
  ultimately show ?thesis using revised(1,5) assms models_inv_set models_extend_set [where s = s and k = ?k and rs = ?rs] by simp
qed (simp add: assms)

text \<open>A probe whose two writes nothing comes between.\<close>

lemma model_recordProbe_keeps:
  assumes "models_inv s"
  shows "models_inv (snd (model_recordProbe u now ctx mid pr s))
    \<and> models_extend s (snd (model_recordProbe u now ctx mid pr s))"
proof (cases "model_get s ctx mid")
  case None
  then show ?thesis using assms by (simp add: model_recordProbe_def probe_begin_def)
next
  case (Some m0)
  let ?k = "model_key (tc_tenantId ctx) mid"
  show ?thesis
  proof (cases rule: model_update_cases [of u now ctx mid "probe_patch now pr" s])
    case (refused e)
    then show ?thesis using assms Some by (simp add: model_recordProbe_def probe_begin_def)
  next
    case (revised rs n)
    let ?a = "butlast rs @ [(last rs)\<lparr>rm_supersededAt := Some now\<rparr>]"
    have b: "probe_begin u now ctx mid pr s = (Inr n, map_set ?k (?a @ [n]) s)"
      using Some revised(5) by (simp add: probe_begin_def)
    show ?thesis
    proof (cases "given (pr_resolvedModelId pr)")
      case None
      then have "snd (model_recordProbe u now ctx mid pr s) = snd (model_update u now ctx mid (probe_patch now pr) s)"
        using Some by (simp add: model_recordProbe_def probe_begin_def probe_commit_def split: prod.splits sum.splits)
      then show ?thesis using model_update_keeps [OF assms] by simp
    next
      case (Some resolved)
      let ?n = "n\<lparr>rm_resolvedModelId := Some resolved\<rparr>"
      have "model_ok ?k rs" using assms revised(1) by (simp add: models_inv_def)
      then have ok: "model_ok ?k (butlast rs @ [(last rs)\<lparr>rm_supersededAt := Some now\<rparr>, ?n])"
        by (rule model_ok_next) (simp_all add: revised(3))
      have ex: "extends rs (butlast rs @ [(last rs)\<lparr>rm_supersededAt := Some now\<rparr>, ?n])"
        using revised(2) by (rule butlast_extend)
      have bl: "butlast (?a @ [n]) @ [?n] = butlast rs @ [(last rs)\<lparr>rm_supersededAt := Some now\<rparr>, ?n]"
        by (simp only: butlast_snoc) simp
      have twice: "map_get (map_set ?k v (map_set ?k w s)) j = map_get (map_set ?k v s) j" for v w j
        by (simp add: map_get_set)
      have "snd (model_recordProbe u now ctx mid pr s)
          = map_set ?k (butlast (?a @ [n]) @ [?n]) (map_set ?k (?a @ [n]) s)"
        unfolding model_recordProbe_def b by (simp add: probe_commit_def Some Let_def map_get_set)
      then have r: "snd (model_recordProbe u now ctx mid pr s) = map_set ?k
          (butlast rs @ [(last rs)\<lparr>rm_supersededAt := Some now\<rparr>, ?n]) (map_set ?k (?a @ [n]) s)" by (simp only: bl)
      show ?thesis unfolding r models_inv_def models_extend_def twice
        using models_inv_set [OF assms ok] models_extend_set [where s = s and k = ?k, unfolded revised(1), simplified, OF ex]
        by (simp add: models_inv_def models_extend_def)
    qed
  qed
qed

datatype model_op =
    MRegister instant tenant_ctx register_input
  | MUpdate instant tenant_ctx string model_patch
  | MProbe instant tenant_ctx string probe_result

fun model_step :: "url_parser \<Rightarrow> model_op \<Rightarrow> models \<Rightarrow> models" where
  "model_step u (MRegister now ctx i) s = snd (model_register u now ctx i s)"
| "model_step u (MUpdate now ctx mid p) s = snd (model_update u now ctx mid p s)"
| "model_step u (MProbe now ctx mid pr) s = snd (model_recordProbe u now ctx mid pr s)"

definition model_steps :: "url_parser \<Rightarrow> model_op list \<Rightarrow> models \<Rightarrow> models" where
  "model_steps u ops s = fold (model_step u) ops s"

lemma model_steps_keep:
  "models_inv s \<Longrightarrow> models_inv (model_steps u ops s) \<and> models_extend s (model_steps u ops s)"
proof (induction ops arbitrary: s)
  case (Cons op ops)
  have "models_inv (model_step u op s) \<and> models_extend s (model_step u op s)"
    using Cons.prems by (cases op) (simp_all add: model_register_keeps model_update_keeps model_recordProbe_keeps)
  then show ?case using Cons.IH [of "model_step u op s"] models_extend_trans by (auto simp: model_steps_def)
qed (simp add: model_steps_def)

lemma getRevision_nth:
  assumes "models_inv s" "map_get s (model_key (tc_tenantId ctx) mid) = Some rs"
  shows "model_getRevision s ctx mid rv = (if 1 \<le> rv \<and> rv \<le> int (length rs) then Some (rs ! (nat rv - 1)) else None)"
proof -
  have r: "rm_revision (rs ! i) = int i + 1" if "i < length rs" for i
    using assms that by (auto simp: models_inv_def model_ok_def)
  show ?thesis
  proof (cases "1 \<le> rv \<and> rv \<le> int (length rs)")
    case True
    have "find (\<lambda>m. rm_revision m = rv) rs = Some (rs ! (nat rv - 1))"
      unfolding find_Some_iff
    proof (intro exI conjI allI impI)
      show "nat rv - 1 < length rs" using True by linarith
      moreover have "int (nat rv - 1) + 1 = rv" using True by linarith
      ultimately show "rm_revision (rs ! (nat rv - 1)) = rv" using r by metis
      show "rm_revision (rs ! j) \<noteq> rv" if "j < nat rv - 1" for j
        using True that r [of j] by linarith
    qed simp
    then show ?thesis using True assms(2) by (simp add: model_getRevision_def)
  next
    case False
    have "find (\<lambda>m. rm_revision m = rv) rs = None"
      unfolding find_None_iff using False r by (auto simp: in_set_conv_nth)
    then show ?thesis using False assms(2) by (auto simp: model_getRevision_def)
  qed
qed

section \<open>What the fingerprint pins\<close>

lemma newline_not_in_deployment: "newline \<notin> set (deployment_name d)"
  by (cases d) (simp_all add: newline_def)

lemma deployment_name_inj [simp]: "deployment_name a = deployment_name b \<longleftrightarrow> a = b"
  by (cases a; cases b) simp_all

text \<open>The text of the endpoint in the fingerprint.\<close>

definition endpoint_text :: "registered_model \<Rightarrow> string" where
  "endpoint_text m = (if endpointIsIdentity (rm_deploymentType m) then or_else [] (rm_baseUrl m) else [])"

definition plain_model :: "registered_model \<Rightarrow> bool" where
  "plain_model m = (newline \<notin> set (rm_provider m) \<union> set (rm_modelIdentifier m)
     \<union> set (or_else [] (rm_resolvedModelId m)) \<union> set (endpoint_text m))"

lemma fingerprint_text_inj:
  assumes "plain_model m" "plain_model m'"
  shows "fingerprint_text m = fingerprint_text m' \<longleftrightarrow>
    rm_provider m = rm_provider m' \<and> rm_deploymentType m = rm_deploymentType m'
    \<and> rm_modelIdentifier m = rm_modelIdentifier m'
    \<and> or_else [] (rm_resolvedModelId m) = or_else [] (rm_resolvedModelId m') \<and> endpoint_text m = endpoint_text m'"
proof -
  have n: "newline \<notin> set ''model:v1''" by (simp add: newline_def)
  have single: "line_of a = line_of b \<longleftrightarrow> a = b" for a b by (simp add: line_of_def)
  show ?thesis
    using assms
    unfolding fingerprint_text_def endpoint_text_def [symmetric] plain_model_def Un_iff de_Morgan_disj
    by (simp only: line_of_eq [OF n n] line_of_eq [OF newline_not_in_deployment newline_not_in_deployment]
        line_of_eq [of "rm_provider m" "rm_provider m'"] line_of_eq [of "rm_modelIdentifier m" "rm_modelIdentifier m'"]
        line_of_eq [of "or_else [] (rm_resolvedModelId m)" "or_else [] (rm_resolvedModelId m')"]
        single deployment_name_inj simp_thms)
qed

section \<open>Where the code falls short\<close>

definition plain_patch :: model_patch where
  "plain_patch = \<lparr>up_displayName = None, up_provider = None, up_deploymentType = None, up_modelIdentifier = None,
     up_baseUrl = None, up_credentialId = None, up_capabilities = no_patch, up_contextWindow = None,
     up_maxOutputTokens = None, up_pricing = None, up_metadata = []\<rparr>"

text \<open>A patch of the output budget is accepted and has no effect.\<close>

lemma maxOutputTokens_ignored:
  "model_update u now ctx mid (p\<lparr>up_maxOutputTokens := x\<rparr>) s = model_update u now ctx mid p s"
proof -
  have e: "merged_input c mid (p\<lparr>up_maxOutputTokens := x\<rparr>) = merged_input c mid p"
    "next_revision now c m (p\<lparr>up_maxOutputTokens := x\<rparr>) = next_revision now c m p" for c m
    by (simp_all add: merged_input_def next_revision_def)
  show ?thesis unfolding model_update_def Let_def e ..
qed

text \<open>An identifier that is repointed keeps the resolved id of the old one.\<close>

lemma resolved_id_goes_stale:
  assumes "model_update u now ctx mid p s = (Inr n, s')" "model_get s ctx mid = Some c"
    "up_modelIdentifier p = Some i"
  shows "rm_modelIdentifier n = i \<and> rm_resolvedModelId n = rm_resolvedModelId c"
  using assms(1)
proof (cases rule: model_update_cases [of u now ctx mid p s])
  case (revised rs m)
  then have "n = m" "c = last rs" using assms(1,2) by (auto simp: model_get_def current_of_def split: list.splits)
  then show ?thesis using revised(3) assms(3) by (simp add: next_revision_def merged_input_def)
qed simp

text \<open>The key of a tenant with a colon in its name is also one of another tenant.\<close>

lemma lookup_crosses_tenants:
  assumes "map_get s (model_key ''a:b'' m) = Some rs" "rs \<noteq> []" "tc_tenantId ctx = ''a''"
  shows "model_get s ctx (''b:'' @ m) = Some (last rs)" "last rs \<in> set (model_list collate s ctx)"
proof -
  have k: "model_key ''a'' (''b:'' @ m) = model_key ''a:b'' m" by (simp add: model_key_def)
  show "model_get s ctx (''b:'' @ m) = Some (last rs)"
    using assms k by (simp add: model_get_def current_of_def split: list.splits)
  have "(model_key ''a:b'' m, rs) \<in> set s" using assms(1) by (rule map_of_SomeD)
  moreover have "starts_with ''a:'' (model_key ''a:b'' m)" by (simp add: starts_with_def model_key_def)
  ultimately show "last rs \<in> set (model_list collate s ctx)"
    using assms(2,3) by (force simp: model_list_def map_filter_def current_of_def split: list.splits)
qed

text \<open>An update that completes between the two writes of a probe is lost: its revision is gone.\<close>

lemma interleaved_probe_loses_revision:
  assumes "models_inv s1" "current_of (map_get s1 k) = Some n" "k = model_key (tc_tenantId ctx) mid"
    "model_update u now ctx mid p s1 = (Inr m, s2)" "given (pr_resolvedModelId pr) = Some r"
  shows "\<exists>rs. map_get (snd (probe_commit ctx mid pr n s2)) k = Some rs
    \<and> rm_revision m = rm_revision n + 1 \<and> (\<forall>x \<in> set rs. rm_revision x < rm_revision m)"
  using assms(4)
proof (cases rule: model_update_cases [of u now ctx mid p s1])
  case (revised rs m')
  let ?xs = "butlast rs @ [(last rs)\<lparr>rm_supersededAt := Some now\<rparr>]"
  have m: "m = m'" "s2 = map_set k (?xs @ [m]) s1" using revised(5) assms(3,4) by auto
  have n: "n = last rs" using assms(2,3) revised(1,2) by (auto simp: current_of_def split: list.splits)
  have ok: "rm_revision (rs ! i) = int i + 1" if "i < length rs" for i
    using assms(1) revised(1) that by (auto simp: models_inv_def model_ok_def)
  have revs: "rm_revision x \<le> int (length rs)" if "x \<in> set rs" for x
    using that ok by (auto simp: in_set_conv_nth)
  have last: "rm_revision (last rs) = int (length rs)"
    using ok [of "length rs - 1"] revised(2) by (simp add: last_conv_nth of_nat_diff Suc_le_eq)
  have m_rev: "rm_revision m = int (length rs) + 1" using m(1) revised(3) last by simp
  have "map_get (snd (probe_commit ctx mid pr n s2)) k = Some (?xs @ [n\<lparr>rm_resolvedModelId := Some r\<rparr>])"
    using assms(5) m(2) by (simp add: probe_commit_def Let_def map_get_set assms(3) [symmetric] butlast_append)
  moreover have "\<forall>x \<in> set (?xs @ [n\<lparr>rm_resolvedModelId := Some r\<rparr>]). rm_revision x < rm_revision m"
    using m_rev last n revs in_set_butlastD [of _ rs] by fastforce
  ultimately show ?thesis using m_rev n last by simp
qed simp

end
