(* ===== verification/Model_Capabilities.thy ===== *)
theory Model_Capabilities
  imports Model_Registry
begin

text \<open>
  \<open>models/capabilities.ts\<close>: whether a model may run a benchmark, and the partition of a set of
  models into those that may and those that are skipped, with reasons.
\<close>

datatype capability = Streaming | Tools | ParallelToolCalls | Vision | Audio | StructuredOutput
  | JsonMode | Reasoning | MultiTurn | SystemMessages

definition CAPABILITIES :: "capability list" where
  "CAPABILITIES = [Streaming, Tools, ParallelToolCalls, Vision, Audio, StructuredOutput, JsonMode,
     Reasoning, MultiTurn, SystemMessages]"

fun capability_name :: "capability \<Rightarrow> string" where
  "capability_name Streaming = ''streaming''"
| "capability_name Tools = ''tools''"
| "capability_name ParallelToolCalls = ''parallelToolCalls''"
| "capability_name Vision = ''vision''"
| "capability_name Audio = ''audio''"
| "capability_name StructuredOutput = ''structuredOutput''"
| "capability_name JsonMode = ''jsonMode''"
| "capability_name Reasoning = ''reasoning''"
| "capability_name MultiTurn = ''multiTurn''"
| "capability_name SystemMessages = ''systemMessages''"

fun readCapability :: "model_capabilities \<Rightarrow> capability \<Rightarrow> support" where
  "readCapability m Streaming = mc_streaming m"
| "readCapability m Tools = mc_tools m"
| "readCapability m ParallelToolCalls = mc_parallelToolCalls m"
| "readCapability m Vision = mc_vision m"
| "readCapability m Audio = mc_audio m"
| "readCapability m StructuredOutput = mc_structuredOutput m"
| "readCapability m JsonMode = mc_jsonMode m"
| "readCapability m Reasoning = mc_reasoning m"
| "readCapability m MultiTurn = mc_multiTurn m"
| "readCapability m SystemMessages = mc_systemMessages m"

record benchmark_requirements =
  br_required :: "capability list option"
  br_minContextWindow :: "int option"
  br_minOutputTokens :: "int option"

datatype unknown_policy = Exclude | IncludeFlagged | ProbeFirst

record compatibility =
  co_compatible :: bool
  co_missing :: "capability list"
  co_unknown :: "capability list"
  co_limits :: "string list"
  co_reason :: string
  co_flagged :: bool

section \<open>One model\<close>

text \<open>A budget of the model against a minimum: an unknown budget is not adequate.\<close>

definition limit_failures :: "string \<Rightarrow> string \<Rightarrow> int option \<Rightarrow> int option \<Rightarrow> string list" where
  "limit_failures unknown_text low_text minimum have_value = (case minimum of
     None \<Rightarrow> []
   | Some m \<Rightarrow> (case have_value of
       None \<Rightarrow> [unknown_text @ '' is unknown, and the benchmark needs at least '' @ show_int m
         @ (if unknown_text = ''context window'' then '' tokens'' else [])]
     | Some v \<Rightarrow> if v < m then [low_text @ '' '' @ show_int v @ '' is below the required '' @ show_int m] else []))"

definition names :: "capability list \<Rightarrow> string" where
  "names cs = join '', '' (map capability_name cs)"

definition explain ::
    "string \<Rightarrow> capability list \<Rightarrow> capability list \<Rightarrow> string list \<Rightarrow> bool \<Rightarrow> bool \<Rightarrow> unknown_policy \<Rightarrow> string" where
  "explain display missing unknowns limits compatible flagged policy =
     (if compatible \<and> \<not> flagged then display @ '' meets every requirement.''
      else if compatible \<and> flagged
      then display @ '' is running with unverified support for '' @ names unknowns @ ''. ''
        @ ''Results carry lower confidence until a capability probe confirms it.''
      else display @ '' was skipped: it '' @ join ''; ''
        ((if missing \<noteq> [] then [''does not support '' @ names missing] else [])
         @ (if unknowns \<noteq> [] \<and> policy = Exclude then [''has unverified support for '' @ names unknowns
              @ '' (excluded by default: an unverified capability can invalidate a score silently, ''
              @ ''whereas an excluded model is a visible gap)''] else [])
         @ (if unknowns \<noteq> [] \<and> policy = ProbeFirst then [''needs a capability probe for '' @ names unknowns] else [])
         @ limits) @ ''.'')"

definition checkCompatibility ::
    "registered_model \<Rightarrow> benchmark_requirements \<Rightarrow> unknown_policy \<Rightarrow> compatibility" where
  "checkCompatibility model req policy =
     (let required = or_else [] (br_required req);
          missing = filter (\<lambda>c. readCapability (rm_capabilities model) c = Unsupported) required;
          unknowns = filter (\<lambda>c. readCapability (rm_capabilities model) c = SupportUnknown) required;
          limits = limit_failures ''context window'' ''context window''
              (br_minContextWindow req) (rm_contextWindow model)
            @ limit_failures ''max output tokens'' ''max output''
              (br_minOutputTokens req) (rm_maxOutputTokens model);
          unknownBlocks = (unknowns \<noteq> [] \<and> policy \<noteq> IncludeFlagged);
          compatible = (missing = [] \<and> limits = [] \<and> \<not> unknownBlocks);
          flagged = (compatible \<and> unknowns \<noteq> [])
      in \<lparr>co_compatible = compatible, co_missing = missing, co_unknown = unknowns, co_limits = limits,
          co_reason = explain (rm_displayName model) missing unknowns limits compatible flagged policy,
          co_flagged = flagged\<rparr>)"

record requirement_flags =
  rf_vision :: bool
  rf_tools :: bool
  rf_structuredOutput :: bool
  rf_reasoning :: bool
  rf_audio :: bool
  rf_minContextWindow :: "int option"
  rf_minOutputTokens :: "int option"

definition requirementsFrom :: "requirement_flags \<Rightarrow> benchmark_requirements" where
  "requirementsFrom i =
     (let required = (if rf_vision i then [Vision] else []) @ (if rf_tools i then [Tools] else [])
            @ (if rf_structuredOutput i then [StructuredOutput] else [])
            @ (if rf_reasoning i then [Reasoning] else []) @ (if rf_audio i then [Audio] else [])
      in \<lparr>br_required = (if required \<noteq> [] then Some required else None),
          br_minContextWindow = rf_minContextWindow i, br_minOutputTokens = rf_minOutputTokens i\<rparr>)"

section \<open>A set of models\<close>

record matrix_entry =
  me_modelId :: string
  me_displayName :: string
  me_decision :: compatibility

record compatibility_matrix =
  cm_included :: "matrix_entry list"
  cm_excluded :: "matrix_entry list"
  cm_flagged :: "matrix_entry list"

fun matrix_loop ::
    "benchmark_requirements \<Rightarrow> unknown_policy \<Rightarrow> registered_model list \<Rightarrow> compatibility_matrix \<Rightarrow> compatibility_matrix" where
  "matrix_loop req policy [] m = m"
| "matrix_loop req policy (r # rs) m =
     (let d = checkCompatibility r req policy;
          entry = \<lparr>me_modelId = rm_modelId r, me_displayName = rm_displayName r, me_decision = d\<rparr>
      in matrix_loop req policy rs
        (if co_compatible d
         then m\<lparr>cm_included := cm_included m @ [entry],
                cm_flagged := (if co_flagged d then cm_flagged m @ [entry] else cm_flagged m)\<rparr>
         else m\<lparr>cm_excluded := cm_excluded m @ [entry]\<rparr>))"

definition buildCompatibilityMatrix ::
    "registered_model list \<Rightarrow> benchmark_requirements \<Rightarrow> unknown_policy \<Rightarrow> compatibility_matrix" where
  "buildCompatibilityMatrix models req policy =
     matrix_loop req policy models \<lparr>cm_included = [], cm_excluded = [], cm_flagged = []\<rparr>"

section \<open>What a decision means\<close>

text \<open>The relation the decision implements.\<close>

definition adequate :: "int option \<Rightarrow> int option \<Rightarrow> bool" where
  "adequate minimum have_value = (\<forall>m. minimum = Some m \<longrightarrow> (\<exists>v. have_value = Some v \<and> m \<le> v))"

definition may_run :: "registered_model \<Rightarrow> benchmark_requirements \<Rightarrow> unknown_policy \<Rightarrow> bool" where
  "may_run model req policy =
     ((\<forall>c \<in> set (or_else [] (br_required req)).
         readCapability (rm_capabilities model) c = Supported
         \<or> readCapability (rm_capabilities model) c = SupportUnknown \<and> policy = IncludeFlagged)
      \<and> adequate (br_minContextWindow req) (rm_contextWindow model)
      \<and> adequate (br_minOutputTokens req) (rm_maxOutputTokens model))"

lemma limit_failures_Nil: "limit_failures a b m v = [] \<longleftrightarrow> adequate m v"
  by (auto simp: limit_failures_def adequate_def split: option.splits)

lemma compatible_iff: "co_compatible (checkCompatibility model req policy) \<longleftrightarrow> may_run model req policy"
proof -
  have "s = Supported \<or> s = SupportUnknown \<and> policy = IncludeFlagged \<longleftrightarrow>
      s \<noteq> Unsupported \<and> (s = SupportUnknown \<longrightarrow> policy = IncludeFlagged)" for s
    by (cases s) auto
  then show ?thesis
    by (auto simp: checkCompatibility_def may_run_def Let_def filter_empty_conv limit_failures_Nil)
qed

lemma flagged_iff: "co_flagged (checkCompatibility model req policy) \<longleftrightarrow>
    may_run model req policy \<and> (\<exists>c \<in> set (or_else [] (br_required req)).
      readCapability (rm_capabilities model) c = SupportUnknown)"
  using compatible_iff [of model req policy]
  by (auto simp: checkCompatibility_def Let_def filter_empty_conv)

definition entry_for :: "benchmark_requirements \<Rightarrow> unknown_policy \<Rightarrow> registered_model \<Rightarrow> matrix_entry" where
  "entry_for req policy r = \<lparr>me_modelId = rm_modelId r, me_displayName = rm_displayName r,
     me_decision = checkCompatibility r req policy\<rparr>"

lemma matrix_loop_eq: "matrix_loop req policy rs m =
    \<lparr>cm_included = cm_included m @ map (entry_for req policy) (filter (\<lambda>r. may_run r req policy) rs),
     cm_excluded = cm_excluded m @ map (entry_for req policy) (filter (\<lambda>r. \<not> may_run r req policy) rs),
     cm_flagged = cm_flagged m
       @ map (entry_for req policy) (filter (\<lambda>r. co_flagged (checkCompatibility r req policy)) rs)\<rparr>"
  by (induction rs arbitrary: m) (auto simp: Let_def entry_for_def compatible_iff flagged_iff)

lemma matrix_eq: "buildCompatibilityMatrix rs req policy =
    \<lparr>cm_included = map (entry_for req policy) (filter (\<lambda>r. may_run r req policy) rs),
     cm_excluded = map (entry_for req policy) (filter (\<lambda>r. \<not> may_run r req policy) rs),
     cm_flagged = map (entry_for req policy) (filter (\<lambda>r. co_flagged (checkCompatibility r req policy)) rs)\<rparr>"
  by (simp add: buildCompatibilityMatrix_def matrix_loop_eq)

text \<open>More trust in unknowns admits more models, and probing first admits exactly what excluding does.\<close>

lemma may_run_policy: "may_run m req Exclude \<Longrightarrow> may_run m req policy"
  "may_run m req ProbeFirst \<longleftrightarrow> may_run m req Exclude"
  by (auto simp: may_run_def)

end
