(* ===== verification/Model_Cost.thy ===== *)
theory Model_Cost
  imports Model_Capabilities Float64
begin

text \<open>
  \<open>models/cost.ts\<close>: what a generation costs, sums of costs in which an unknown is contagious,
  cost per task and per success, and the text of a cost. Arithmetic is that of doubles
  (\<open>Float64\<close>): every operation is followed by \<open>fl\<close>. Prices and durations are finite.
\<close>

datatype cost_amount = KnownCost rat | CostUnknown string

definition UNKNOWN_COST :: "string \<Rightarrow> cost_amount" where
  "UNKNOWN_COST reason = CostUnknown reason"

record usage =
  us_inputTokens :: "rat option"
  us_outputTokens :: "rat option"
  us_totalTokens :: "rat option"
  us_cachedInputTokens :: "rat option"
  us_reasoningTokens :: "rat option"

text \<open>\<open>Math.round(usd * 1e6) / 1e6\<close>.\<close>

definition round_usd :: "rat \<Rightarrow> rat" where
  "round_usd usd = fdiv (of_int (math_round (fmul usd 1000000))) 1000000"

text \<open>\<open>(tokens / 1_000_000) * rate\<close>.\<close>

definition at_rate :: "rat \<Rightarrow> rat \<Rightarrow> rat" where
  "at_rate tokens rate = fmul (fdiv tokens 1000000) rate"

definition token_cost :: "token_pricing \<Rightarrow> rat \<Rightarrow> rat \<Rightarrow> rat \<Rightarrow> rat \<Rightarrow> rat" where
  "token_cost t inp out cached reasoning =
     (let uncachedInput = max 0 (fsub inp cached);
          usd0 = fadd (at_rate uncachedInput (tp_inputPerMillionUsd t)) (at_rate out (tp_outputPerMillionUsd t));
          usd1 = (if cached > 0
            then fadd usd0 (at_rate cached (or_else (tp_inputPerMillionUsd t) (tp_cachedInputPerMillionUsd t)))
            else usd0)
      in (case tp_reasoningOutputPerMillionUsd t of
            Some r \<Rightarrow> if reasoning > 0 then fadd usd1 (at_rate reasoning r) else usd1
          | None \<Rightarrow> usd1))"

definition costOfGeneration :: "pricing \<Rightarrow> usage \<Rightarrow> rat option \<Rightarrow> cost_amount" where
  "costOfGeneration pr u occupancySeconds = (case pr of
     UnknownPrice \<Rightarrow> UNKNOWN_COST ''No pricing is configured for this model.''
   | HardwarePriced h \<Rightarrow> (case occupancySeconds of
       None \<Rightarrow> UNKNOWN_COST
         ''This model is priced by hardware time, but no occupancy was recorded for the run.''
     | Some secs \<Rightarrow> KnownCost (round_usd (fmul (hp_hourlyUsd h) (fdiv secs 3600))))
   | TokenPriced t \<Rightarrow> (case (us_inputTokens u, us_outputTokens u) of
       (Some inp, Some out) \<Rightarrow> KnownCost (round_usd (token_cost t inp out
         (or_else 0 (us_cachedInputTokens u)) (or_else 0 (us_reasoningTokens u))))
     | _ \<Rightarrow> UNKNOWN_COST
         ''The provider did not report token usage for this call, so its cost cannot be computed.''))"

fun is_unknown :: "cost_amount \<Rightarrow> bool" where
  "is_unknown (KnownCost _) = False"
| "is_unknown (CostUnknown _) = True"

fun usd_of :: "cost_amount \<Rightarrow> rat" where
  "usd_of (KnownCost x) = x"
| "usd_of (CostUnknown _) = 0"

fun reason_of :: "cost_amount \<Rightarrow> string" where
  "reason_of (KnownCost _) = []"
| "reason_of (CostUnknown r) = r"

definition sumCosts :: "cost_amount list \<Rightarrow> cost_amount" where
  "sumCosts costs =
     (if costs = [] then KnownCost 0
      else case filter is_unknown costs of
        first # rest \<Rightarrow> UNKNOWN_COST (if rest = [] then reason_of first
          else show_nat (length rest + 1) @ '' of '' @ show_nat (length costs)
            @ '' costs are unknown. First: '' @ reason_of first)
      | [] \<Rightarrow> KnownCost (round_usd (foldl (\<lambda>acc c. fadd acc (usd_of c)) 0 costs)))"

record efficiency_input =
  ei_totalCost :: cost_amount
  ei_tasksAttempted :: int
  ei_tasksSucceeded :: int

record efficiency_result =
  ef_costPerTask :: cost_amount
  ef_costPerSuccess :: cost_amount

definition efficiency :: "efficiency_input \<Rightarrow> efficiency_result" where
  "efficiency i = (case ei_totalCost i of
     CostUnknown r \<Rightarrow> \<lparr>ef_costPerTask = CostUnknown r, ef_costPerSuccess = CostUnknown r\<rparr>
   | KnownCost usd \<Rightarrow> \<lparr>ef_costPerTask =
         (if ei_tasksAttempted i > 0 then KnownCost (round_usd (fdiv usd (of_int (ei_tasksAttempted i))))
          else UNKNOWN_COST ''No tasks were attempted.''),
       ef_costPerSuccess =
         (if ei_tasksSucceeded i > 0 then KnownCost (round_usd (fdiv usd (of_int (ei_tasksSucceeded i))))
          else UNKNOWN_COST (''No task succeeded, so cost per successful task is undefined. ''
            @ ''$'' @ to_fixed 4 usd @ '' was spent across '' @ show_int (ei_tasksAttempted i) @ '' attempt(s).''))\<rparr>)"

definition formatCost :: "cost_amount \<Rightarrow> string \<Rightarrow> string" where
  "formatCost c currency = (case c of
     CostUnknown _ \<Rightarrow> ''Unknown''
   | KnownCost usd \<Rightarrow>
       if usd = 0 then ''0.0000 '' @ currency
       else to_fixed (if usd < fl (1 / 100) then 6 else 4) usd @ '' '' @ currency)"

record pricing_status =
  ps_priced :: bool
  ps_detail :: string

definition pricingStatus :: "registered_model \<Rightarrow> pricing_status" where
  "pricingStatus m = (case rm_pricing m of
     TokenPriced t \<Rightarrow> \<lparr>ps_priced = True,
       ps_detail = ''$'' @ num_text (tp_inputPerMillionUsd t) @ ''/M in, ''
         @ ''$'' @ num_text (tp_outputPerMillionUsd t) @ ''/M out''
         @ (case given (tp_asOf t) of None \<Rightarrow> [] | Some d \<Rightarrow> '' (as of '' @ d @ '')'')\<rparr>
   | HardwarePriced h \<Rightarrow> \<lparr>ps_priced = True,
       ps_detail = ''$'' @ num_text (hp_hourlyUsd h) @ ''/hour of hardware time''\<rparr>
   | UnknownPrice \<Rightarrow> \<lparr>ps_priced = False,
       ps_detail = ''No pricing configured for '' @ rm_displayName m @ ''. Cost will be reported as unknown ''
         @ ''rather than estimated.''\<rparr>)"

section \<open>Known and unknown\<close>

lemma is_unknown_iff: "is_unknown c \<longleftrightarrow> (\<exists>r. c = CostUnknown r)"
  by (cases c) auto

lemma cost_unknown_iff: "is_unknown (costOfGeneration pr u occ) \<longleftrightarrow> (case pr of
     UnknownPrice \<Rightarrow> True | HardwarePriced _ \<Rightarrow> occ = None
   | TokenPriced _ \<Rightarrow> us_inputTokens u = None \<or> us_outputTokens u = None)"
  by (auto simp: costOfGeneration_def UNKNOWN_COST_def split: pricing.splits option.splits)

lemma sumCosts_unknown_iff: "is_unknown (sumCosts cs) \<longleftrightarrow> (\<exists>c \<in> set cs. is_unknown c)"
proof (cases "filter is_unknown cs")
  case Nil
  then show ?thesis by (auto simp: sumCosts_def filter_empty_conv)
next
  case (Cons a list)
  then have "a \<in> set cs \<and> is_unknown a" by (metis filter_eq_ConsD in_set_conv_decomp)
  moreover from this have "cs \<noteq> []" by auto
  ultimately show ?thesis using Cons by (auto simp: sumCosts_def UNKNOWN_COST_def)
qed

lemma efficiency_unknown: "is_unknown (ei_totalCost i) \<Longrightarrow>
    ef_costPerTask (efficiency i) = ei_totalCost i \<and> ef_costPerSuccess (efficiency i) = ei_totalCost i"
  by (cases "ei_totalCost i") (simp_all add: efficiency_def)

section \<open>Amounts\<close>

lemma math_round_mono: "x \<le> y \<Longrightarrow> math_round x \<le> math_round y"
  by (simp add: math_round_def floor_mono)

lemma math_round_nonneg: "0 \<le> x \<Longrightarrow> 0 \<le> math_round x"
  by (simp add: math_round_def)

lemma fdiv_mono: "x \<le> y \<Longrightarrow> 0 < z \<Longrightarrow> fdiv x z \<le> fdiv y z"
  by (simp add: fdiv_def fl_mono divide_right_mono)

lemma fdiv_nonneg: "0 \<le> x \<Longrightarrow> 0 \<le> z \<Longrightarrow> 0 \<le> fdiv x z"
  by (simp add: fdiv_def fl_nonneg)

lemma fmul_nonneg: "0 \<le> x \<Longrightarrow> 0 \<le> y \<Longrightarrow> 0 \<le> fmul x y"
  by (simp add: fmul_def fl_nonneg)

lemmas money_nonneg = fadd_nonneg fdiv_nonneg fmul_nonneg fl_nonneg

lemma round_usd_mono: "x \<le> y \<Longrightarrow> round_usd x \<le> round_usd y"
  unfolding round_usd_def fmul_def
  by (intro fdiv_mono) (simp_all add: math_round_mono fl_mono)

lemma round_usd_nonneg: "0 \<le> x \<Longrightarrow> 0 \<le> round_usd x"
  unfolding round_usd_def by (intro fdiv_nonneg) (simp_all add: math_round_nonneg fmul_nonneg)

lemma at_rate_nonneg: "0 \<le> n \<Longrightarrow> 0 \<le> r \<Longrightarrow> 0 \<le> at_rate n r"
  unfolding at_rate_def by (intro fmul_nonneg fdiv_nonneg) simp_all

lemma at_rate_mono: "n \<le> n' \<Longrightarrow> 0 \<le> n \<Longrightarrow> 0 \<le> r \<Longrightarrow> at_rate n r \<le> at_rate n' r"
  unfolding at_rate_def by (intro fmul_mono fdiv_mono fdiv_nonneg) simp_all

definition fair_pricing :: "token_pricing \<Rightarrow> bool" where
  "fair_pricing t = (0 \<le> tp_inputPerMillionUsd t \<and> 0 \<le> tp_outputPerMillionUsd t
     \<and> (\<forall>r. tp_cachedInputPerMillionUsd t = Some r \<longrightarrow> 0 \<le> r)
     \<and> (\<forall>r. tp_reasoningOutputPerMillionUsd t = Some r \<longrightarrow> 0 \<le> r))"

lemma cached_rate_nonneg:
  "fair_pricing t \<Longrightarrow> 0 \<le> or_else (tp_inputPerMillionUsd t) (tp_cachedInputPerMillionUsd t)"
  by (auto simp: fair_pricing_def or_else_def split: option.splits)

lemma token_cost_nonneg:
  assumes "fair_pricing t" "0 \<le> out" "0 \<le> cached" "0 \<le> reasoning"
  shows "0 \<le> token_cost t inp out cached reasoning"
proof -
  have r: "0 \<le> tp_inputPerMillionUsd t" "0 \<le> tp_outputPerMillionUsd t" using assms(1) by (simp_all add: fair_pricing_def)
  have "0 \<le> fadd (at_rate (max 0 (fsub inp cached)) (tp_inputPerMillionUsd t)) (at_rate out (tp_outputPerMillionUsd t))"
    using r assms(2) by (intro fadd_nonneg at_rate_nonneg) simp_all
  then show ?thesis
    using assms cached_rate_nonneg [OF assms(1)]
    by (auto simp: token_cost_def Let_def fair_pricing_def intro!: fadd_nonneg at_rate_nonneg split: option.splits)
qed

text \<open>More output, or more input with the same cache, never costs less.\<close>

lemma token_cost_mono:
  assumes "fair_pricing t" "inp \<le> inp'" "out \<le> out'" "0 \<le> out" "0 \<le> cached" "0 \<le> reasoning"
  shows "token_cost t inp out cached reasoning \<le> token_cost t inp' out' cached reasoning"
proof -
  have "max 0 (fsub inp cached) \<le> max 0 (fsub inp' cached)"
    using assms(2) by (simp add: fsub_def fl_mono max.coboundedI2)
  then have "fadd (at_rate (max 0 (fsub inp cached)) (tp_inputPerMillionUsd t)) (at_rate out (tp_outputPerMillionUsd t))
      \<le> fadd (at_rate (max 0 (fsub inp' cached)) (tp_inputPerMillionUsd t)) (at_rate out' (tp_outputPerMillionUsd t))"
    using assms(1,3,4) by (intro fadd_mono at_rate_mono) (simp_all add: fair_pricing_def)
  then show ?thesis
    by (auto simp: token_cost_def Let_def intro!: fadd_mono split: option.splits)
qed

definition fair :: "pricing \<Rightarrow> bool" where
  "fair pr = (case pr of UnknownPrice \<Rightarrow> True | HardwarePriced h \<Rightarrow> 0 \<le> hp_hourlyUsd h | TokenPriced t \<Rightarrow> fair_pricing t)"

definition sane_usage :: "usage \<Rightarrow> bool" where
  "sane_usage u = (\<forall>x \<in> {us_inputTokens u, us_outputTokens u, us_cachedInputTokens u, us_reasoningTokens u}.
     \<forall>n. x = Some n \<longrightarrow> 0 \<le> n)"

lemma sane_usage_or0: "sane_usage u \<Longrightarrow> 0 \<le> or_else 0 (us_cachedInputTokens u)"
    "sane_usage u \<Longrightarrow> 0 \<le> or_else 0 (us_reasoningTokens u)"
  by (auto simp: sane_usage_def or_else_def split: option.splits)

lemma cost_nonneg:
  assumes "fair pr" "sane_usage u" "\<forall>s. occ = Some s \<longrightarrow> 0 \<le> s"
  shows "0 \<le> usd_of (costOfGeneration pr u occ)"
proof (cases pr)
  case (TokenPriced t)
  have "0 \<le> out" if "us_outputTokens u = Some out" for out using assms(2) that by (simp add: sane_usage_def)
  with TokenPriced assms(1) show ?thesis
    by (auto simp: costOfGeneration_def UNKNOWN_COST_def fair_def
        intro!: round_usd_nonneg token_cost_nonneg sane_usage_or0 assms(2) split: option.splits)
next
  case (HardwarePriced h)
  with assms(1,3) show ?thesis
    by (auto simp: costOfGeneration_def UNKNOWN_COST_def fair_def
        intro!: round_usd_nonneg fmul_nonneg fdiv_nonneg split: option.splits)
qed (simp add: costOfGeneration_def UNKNOWN_COST_def)

lemma fold_usd_nonneg: "0 \<le> acc \<Longrightarrow> \<forall>c \<in> set cs. 0 \<le> usd_of c \<Longrightarrow>
    0 \<le> foldl (\<lambda>acc c. fadd acc (usd_of c)) acc cs"
  by (induction cs arbitrary: acc) (simp_all add: fadd_nonneg)

lemma sumCosts_nonneg: "\<forall>c \<in> set cs. 0 \<le> usd_of c \<Longrightarrow> 0 \<le> usd_of (sumCosts cs)"
  using fold_usd_nonneg [of 0 cs]
  by (auto simp: sumCosts_def UNKNOWN_COST_def round_usd_nonneg split: list.splits)

end
