(* ===== verification/Model_Properties.thy ===== *)
theory Model_Properties
  imports Model_Cost
begin

text \<open>
  The properties of the model registry, capability negotiation and cost accounting, with their
  witnesses.
\<close>







text \<open>C40 The compatibility matrix partitions the models in their order: those included are exactly
  the ones that support every required capability (or have it unknown under the flagging policy)
  with budgets known to be large enough; all others are listed as excluded; and the flagged
  are the included ones with an unverified capability.\<close>

theorem matrix_partitions:
  "map me_modelId (cm_included (buildCompatibilityMatrix ms req policy))
      = map rm_modelId (filter (\<lambda>m. may_run m req policy) ms)
   \<and> map me_modelId (cm_excluded (buildCompatibilityMatrix ms req policy))
      = map rm_modelId (filter (\<lambda>m. \<not> may_run m req policy) ms)
   \<and> map me_modelId (cm_flagged (buildCompatibilityMatrix ms req policy))
      = map rm_modelId (filter (\<lambda>m. may_run m req policy \<and>
          (\<exists>c \<in> set (or_else [] (br_required req)). readCapability (rm_capabilities m) c = SupportUnknown)) ms)"
  unfolding matrix_eq by (simp add: o_def entry_for_def flagged_iff)

text \<open>A cost is never invented: the cost of a set of generations is unknown exactly when one of
  them has no price, no recorded occupancy or no reported token counts, and a known one is not
  negative for sane prices and usages.\<close>

theorem total_cost_honest:
  "(is_unknown (sumCosts (map (\<lambda>(pr, u, occ). costOfGeneration pr u occ) gs)) \<longleftrightarrow>
     (\<exists>(pr, u, occ) \<in> set gs. case pr of UnknownPrice \<Rightarrow> True | HardwarePriced _ \<Rightarrow> occ = None
        | TokenPriced _ \<Rightarrow> us_inputTokens u = None \<or> us_outputTokens u = None))
   \<and> ((\<forall>(pr, u, occ) \<in> set gs. fair pr \<and> sane_usage u \<and> (\<forall>s. occ = Some s \<longrightarrow> 0 \<le> s)) \<longrightarrow>
      0 \<le> usd_of (sumCosts (map (\<lambda>(pr, u, occ). costOfGeneration pr u occ) gs)))"
proof (intro conjI impI)
  show "is_unknown (sumCosts (map (\<lambda>(pr, u, occ). costOfGeneration pr u occ) gs)) \<longleftrightarrow>
     (\<exists>(pr, u, occ) \<in> set gs. case pr of UnknownPrice \<Rightarrow> True | HardwarePriced _ \<Rightarrow> occ = None
        | TokenPriced _ \<Rightarrow> us_inputTokens u = None \<or> us_outputTokens u = None)"
    by (simp add: sumCosts_unknown_iff split_beta cost_unknown_iff)
next
  assume fair: "\<forall>(pr, u, occ) \<in> set gs. fair pr \<and> sane_usage u \<and> (\<forall>s. occ = Some s \<longrightarrow> 0 \<le> s)"
  show "0 \<le> usd_of (sumCosts (map (\<lambda>(pr, u, occ). costOfGeneration pr u occ) gs))"
  proof (rule sumCosts_nonneg)
    show "\<forall>c \<in> set (map (\<lambda>(pr, u, occ). costOfGeneration pr u occ) gs). 0 \<le> usd_of c"
      using fair by (auto intro: cost_nonneg)
  qed
qed

definition metered :: token_pricing where
  "metered = \<lparr>tp_inputPerMillionUsd = 3, tp_outputPerMillionUsd = 15, tp_cachedInputPerMillionUsd = None,
     tp_reasoningOutputPerMillionUsd = None, tp_source = None, tp_asOf = None\<rparr>"

definition some_usage :: usage where
  "some_usage = \<lparr>us_inputTokens = Some 1000, us_outputTokens = None, us_totalTokens = None,
     us_cachedInputTokens = None, us_reasoningTokens = None\<rparr>"

theorem total_cost_honest_witness:
  "is_unknown (sumCosts (map (\<lambda>(pr, u, occ). costOfGeneration pr u occ)
      [(TokenPriced metered, some_usage, None)]))
   \<and> 0 \<le> usd_of (sumCosts (map (\<lambda>(pr, u, occ). costOfGeneration pr u occ)
      [(TokenPriced metered, some_usage\<lparr>us_outputTokens := Some 10\<rparr>, None)]))"
  using total_cost_honest [of "[(TokenPriced metered, some_usage, None)]"]
    total_cost_honest [of "[(TokenPriced metered, some_usage\<lparr>us_outputTokens := Some 10\<rparr>, None)]"]
  by (simp add: fair_def fair_pricing_def metered_def some_usage_def sane_usage_def)

text \<open>The fingerprint pins what is measured: two configurations of one-line fields with equal
  fingerprints agree in provider, deployment, identifier, resolved id and, where it matters,
  endpoint, barring a collision of the digest on their texts; name, metadata and pricing do not
  enter it.\<close>

theorem fingerprint_pins:
  assumes "plain_model m" "plain_model m'" "inj_on H (utf8 ` {fingerprint_text m, fingerprint_text m'})"
  shows "modelFingerprint H m = modelFingerprint H m' \<longleftrightarrow>
    rm_provider m = rm_provider m' \<and> rm_deploymentType m = rm_deploymentType m'
    \<and> rm_modelIdentifier m = rm_modelIdentifier m'
    \<and> or_else [] (rm_resolvedModelId m) = or_else [] (rm_resolvedModelId m') \<and> endpoint_text m = endpoint_text m'"
proof -
  have "modelFingerprint H m = modelFingerprint H m' \<longleftrightarrow> fingerprint_text m = fingerprint_text m'"
    using assms(3) by (auto simp: modelFingerprint_def dest: inj_onD)
  then show ?thesis by (simp only: fingerprint_text_inj [OF assms(1,2)])
qed

definition gpt :: registered_model where
  "gpt = \<lparr>rm_modelId = ''m1'', rm_revision = 1, rm_tenantId = ''acme'', rm_displayName = ''M'', rm_provider = ''openai'',
     rm_deploymentType = CLOUD_API, rm_modelIdentifier = ''gpt'', rm_resolvedModelId = None, rm_baseUrl = None,
     rm_credentialId = None, rm_capabilities = unknownCapabilities, rm_contextWindow = None,
     rm_maxOutputTokens = None, rm_pricing = UnknownPrice, rm_metadata = [], rm_createdAt = 5, rm_supersededAt = None\<rparr>"

theorem fingerprint_pins_witness:
  "modelFingerprint (\<lambda>b. b) gpt \<noteq> modelFingerprint (\<lambda>b. b) (gpt\<lparr>rm_resolvedModelId := Some ''gpt-2026''\<rparr>)
    \<and> modelFingerprint (\<lambda>b. b) gpt = modelFingerprint (\<lambda>b. b) (gpt\<lparr>rm_displayName := ''N''\<rparr>)"
  using fingerprint_pins [of gpt "gpt\<lparr>rm_resolvedModelId := Some ''gpt-2026''\<rparr>" "\<lambda>b. b"]
    fingerprint_pins [of gpt "gpt\<lparr>rm_displayName := ''N''\<rparr>" "\<lambda>b. b"]
  by (simp add: plain_model_def gpt_def newline_def endpoint_text_def inj_on_def)

end
