(* ===== verification/Doubles.thy ===== *)
theory Doubles
  imports Float64
begin

text \<open>
  JavaScript numbers with their special values: a double is a rational that is a rounding of
  itself, an infinity or NaN. The sign of zero is not kept. Arithmetic is the rational one,
  rounded, with IEEE 754's rules for the special values; no comparison holds of NaN.
\<close>

section \<open>Doubles\<close>

datatype double = DNaN | DInf bool | DFin rat

definition double_limit :: rat where
  "double_limit = 2 ^ 1024"

definition to_double :: "rat \<Rightarrow> double" where
  "to_double x = (let y = fl x in if double_limit \<le> \<bar>y\<bar> then DInf (y < 0) else DFin y)"

abbreviation dint :: "int \<Rightarrow> double" where
  "dint i \<equiv> to_double (of_int i)"

fun dneg :: "double \<Rightarrow> double" where
  "dneg DNaN = DNaN"
| "dneg (DInf s) = DInf (\<not> s)"
| "dneg (DFin x) = DFin (- x)"

fun dadd :: "double \<Rightarrow> double \<Rightarrow> double" where
  "dadd DNaN y = DNaN"
| "dadd x DNaN = DNaN"
| "dadd (DInf s) (DInf t) = (if s = t then DInf s else DNaN)"
| "dadd (DInf s) (DFin y) = DInf s"
| "dadd (DFin x) (DInf t) = DInf t"
| "dadd (DFin x) (DFin y) = to_double (x + y)"

definition dsub :: "double \<Rightarrow> double \<Rightarrow> double" where
  "dsub x y = dadd x (dneg y)"

fun dmul :: "double \<Rightarrow> double \<Rightarrow> double" where
  "dmul DNaN y = DNaN"
| "dmul x DNaN = DNaN"
| "dmul (DInf s) (DInf t) = DInf (s \<noteq> t)"
| "dmul (DInf s) (DFin y) = (if y = 0 then DNaN else DInf (s \<noteq> (y < 0)))"
| "dmul (DFin x) (DInf t) = (if x = 0 then DNaN else DInf (t \<noteq> (x < 0)))"
| "dmul (DFin x) (DFin y) = to_double (x * y)"

fun ddiv :: "double \<Rightarrow> double \<Rightarrow> double" where
  "ddiv DNaN y = DNaN"
| "ddiv x DNaN = DNaN"
| "ddiv (DInf s) (DInf t) = DNaN"
| "ddiv (DInf s) (DFin y) = DInf (s \<noteq> (y < 0))"
| "ddiv (DFin x) (DInf t) = DFin 0"
| "ddiv (DFin x) (DFin y) = (if y = 0 then (if x = 0 then DNaN else DInf (x < 0)) else to_double (x / y))"

fun dless :: "double \<Rightarrow> double \<Rightarrow> bool" where
  "dless DNaN y = False"
| "dless x DNaN = False"
| "dless (DInf s) (DInf t) = (s \<and> \<not> t)"
| "dless (DInf s) (DFin y) = s"
| "dless (DFin x) (DInf t) = (\<not> t)"
| "dless (DFin x) (DFin y) = (x < y)"

fun dle :: "double \<Rightarrow> double \<Rightarrow> bool" where
  "dle DNaN y = False"
| "dle x DNaN = False"
| "dle (DInf s) (DInf t) = (s \<or> \<not> t)"
| "dle (DInf s) (DFin y) = s"
| "dle (DFin x) (DInf t) = (\<not> t)"
| "dle (DFin x) (DFin y) = (x \<le> y)"

text \<open>\<open>Math.max\<close>, \<open>Math.min\<close>, \<open>Math.round\<close>, \<open>Number.isFinite\<close>.\<close>

definition dmax :: "double \<Rightarrow> double \<Rightarrow> double" where
  "dmax x y = (if x = DNaN \<or> y = DNaN then DNaN else if dless x y then y else x)"

definition dmin :: "double \<Rightarrow> double \<Rightarrow> double" where
  "dmin x y = (if x = DNaN \<or> y = DNaN then DNaN else if dless y x then y else x)"

fun dround :: "double \<Rightarrow> double" where
  "dround (DFin x) = DFin (of_int (math_round x))"
| "dround x = x"

fun is_finite :: "double \<Rightarrow> bool" where
  "is_finite (DFin x) = True"
| "is_finite _ = False"

definition is_integer :: "double \<Rightarrow> bool" where
  "is_integer x = (case x of DFin q \<Rightarrow> of_int \<lfloor>q\<rfloor> = q | _ \<Rightarrow> False)"

fun double_text :: "double \<Rightarrow> string" where
  "double_text DNaN = ''NaN''"
| "double_text (DInf s) = (if s then ''-Infinity'' else ''Infinity'')"
| "double_text (DFin x) = num_text x"

section \<open>Order\<close>

lemma to_double_small: "\<bar>fl x\<bar> < double_limit \<Longrightarrow> to_double x = DFin (fl x)"
  by (simp add: to_double_def Let_def not_le)

lemma to_double_int [simp]:
  assumes "\<bar>n\<bar> \<le> 2 ^ 53"
  shows "to_double (of_int n) = DFin (of_int n)"
proof -
  have "\<bar>of_int n :: rat\<bar> \<le> of_int (2 ^ 53)" using assms by (metis of_int_abs of_int_le_iff)
  also have "\<dots> < double_limit" unfolding double_limit_def by (simp add: power_strict_increasing)
  finally show ?thesis using assms by (simp add: to_double_def Let_def)
qed

lemma dless_DFin [simp]: "dless (DFin x) (DFin y) \<longleftrightarrow> x < y" "dle (DFin x) (DFin y) \<longleftrightarrow> x \<le> y"
  by simp_all

lemma dle_refl [simp]: "x \<noteq> DNaN \<Longrightarrow> dle x x"
  by (cases x) auto

lemma dle_trans: "dle x y \<Longrightarrow> dle y z \<Longrightarrow> dle x z"
  by (cases x; cases y; cases z) auto

lemma to_double_mono: "x \<le> y \<Longrightarrow> dle (to_double x) (to_double y)"
  using fl_mono [of x y] by (auto simp: to_double_def Let_def abs_le_iff not_le abs_if split: if_splits)

lemma to_double_not_NaN [simp]: "to_double x \<noteq> DNaN"
  by (simp add: to_double_def Let_def)

lemma dmax_ge: "x \<noteq> DNaN \<Longrightarrow> y \<noteq> DNaN \<Longrightarrow> dle x (dmax x y)" "x \<noteq> DNaN \<Longrightarrow> y \<noteq> DNaN \<Longrightarrow> dle y (dmax x y)"
  by (cases x; cases y; auto simp: dmax_def)+

end
