(* ===== verification/Schemas.thy ===== *)
theory Schemas
  imports Executor Reproducibility Doubles Api_Keys
begin

text \<open>
  \<open>schemas/index.ts\<close>: what the API accepts at its edge, and the RFC 9457 problem documents
  it answers with. A schema is a function from the JSON value of a body (or the text values
  of a query) to the first issue or the parsed input, its checks in the order the source
  chains them. Zod is a library: the text of the issues the source gives no message for is
  an argument, and so are the URL and date parsers. Only the first issue is kept, because
  \<open>problemFromZod\<close> reads no other.
\<close>

section \<open>Issues and problems\<close>

datatype zod_issue =
    ZRequired | ZType string | ZMin nat | ZMax nat | ZLeast int | ZMost int | ZMoreThan int
  | ZInteger | ZEnum "string list" | ZUrl | ZDate | ZText string

type_synonym zod_error = "string list \<times> zod_issue"

record problem_doc =
  pd_type :: string
  pd_title :: string
  pd_status :: int
  pd_detail :: "string option"
  pd_field :: "string option"

definition PROBLEM_BASE :: string where
  "PROBLEM_BASE = ''https://agent-eval.dev/errors''"

definition problem :: "string \<Rightarrow> string \<Rightarrow> int \<Rightarrow> string option \<Rightarrow> string option \<Rightarrow> problem_doc" where
  "problem slug title status detail fld = \<lparr>pd_type = PROBLEM_BASE @ ''/'' @ slug, pd_title = title,
     pd_status = status, pd_detail = given detail, pd_field = given fld\<rparr>"

definition issue_text :: "(zod_issue \<Rightarrow> string) \<Rightarrow> zod_issue \<Rightarrow> string" where
  "issue_text zt i = (case i of ZText s \<Rightarrow> s | _ \<Rightarrow> zt i)"

definition problemFromZod :: "(zod_issue \<Rightarrow> string) \<Rightarrow> zod_error \<Rightarrow> problem_doc" where
  "problemFromZod zt e = (case e of (path, i) \<Rightarrow>
     problem ''validation-failed'' ''Request is not valid'' 422 (Some (issue_text zt i))
       (if path = [] then None else Some (join ''.'' path)))"

section \<open>Values\<close>

text \<open>A check on a string that has passed the type check.\<close>

type_synonym check = "string \<Rightarrow> zod_issue option"

definition z_min :: "nat \<Rightarrow> check" where "z_min n s = (if length s < n then Some (ZMin n) else None)"
definition z_max :: "nat \<Rightarrow> check" where "z_max n s = (if n < length s then Some (ZMax n) else None)"
definition z_min_text :: "nat \<Rightarrow> string \<Rightarrow> check" where
  "z_min_text n m s = (if length s < n then Some (ZText m) else None)"
definition z_test :: "(string \<Rightarrow> bool) \<Rightarrow> zod_issue \<Rightarrow> check" where
  "z_test P i s = (if P s then None else Some i)"

fun run_checks :: "check list \<Rightarrow> string \<Rightarrow> zod_issue option" where
  "run_checks [] s = None"
| "run_checks (c # cs) s = (case c s of Some i \<Rightarrow> Some i | None \<Rightarrow> run_checks cs s)"

definition z_fail :: "zod_issue \<Rightarrow> zod_error + 'a" where
  "z_fail i = Inl ([], i)"

definition wrong_type :: "string \<Rightarrow> jsval \<Rightarrow> zod_error + 'a" where
  "wrong_type expected v = z_fail (if v = JUndef then ZRequired else ZType expected)"

definition z_string :: "check list \<Rightarrow> jsval \<Rightarrow> zod_error + string" where
  "z_string cs v = (case v of
     JStr s \<Rightarrow> (case run_checks cs s of Some i \<Rightarrow> z_fail i | None \<Rightarrow> Inr s)
   | _ \<Rightarrow> wrong_type ''string'' v)"

text \<open>\<open>.trim()\<close> before the checks: they see the trimmed text, and it is the result.\<close>

definition z_trimmed :: "check list \<Rightarrow> jsval \<Rightarrow> zod_error + string" where
  "z_trimmed cs v = (case v of JStr s \<Rightarrow> z_string cs (JStr (trim s)) | _ \<Rightarrow> z_string cs v)"

definition z_optional :: "(jsval \<Rightarrow> zod_error + 'a) \<Rightarrow> jsval \<Rightarrow> zod_error + 'a option" where
  "z_optional p v = (if v = JUndef then Inr None else bindE (p v) (\<lambda>x. Inr (Some x)))"

definition z_nullable :: "(jsval \<Rightarrow> zod_error + 'a) \<Rightarrow> jsval \<Rightarrow> zod_error + 'a option" where
  "z_nullable p v = (if v = JNull then Inr None else bindE (p v) (\<lambda>x. Inr (Some x)))"

definition z_enum :: "string list \<Rightarrow> jsval \<Rightarrow> zod_error + string" where
  "z_enum xs v = z_string [z_test (\<lambda>s. s \<in> set xs) (ZEnum xs)] v"

text \<open>An issue of a member is reported under the member's key or index.\<close>

definition under :: "string \<Rightarrow> zod_error + 'a \<Rightarrow> zod_error + 'a" where
  "under k r = (case r of Inl (path, i) \<Rightarrow> Inl (k # path, i) | Inr x \<Rightarrow> Inr x)"

definition fieldZ :: "(string \<times> jsval) list \<Rightarrow> string \<Rightarrow> (jsval \<Rightarrow> zod_error + 'a) \<Rightarrow> zod_error + 'a" where
  "fieldZ kvs k p = under k (p (get_prop (JObj kvs) k))"

definition z_object :: "jsval \<Rightarrow> zod_error + (string \<times> jsval) list" where
  "z_object v = (case v of JObj kvs \<Rightarrow> Inr kvs | _ \<Rightarrow> wrong_type ''object'' v)"

fun z_items :: "(jsval \<Rightarrow> zod_error + 'a) \<Rightarrow> nat \<Rightarrow> jsval list \<Rightarrow> zod_error + 'a list" where
  "z_items p i [] = Inr []"
| "z_items p i (x # xs) = bindE (under (show_nat i) (p x)) (\<lambda>y. bindE (z_items p (Suc i) xs) (\<lambda>ys. Inr (y # ys)))"

definition z_array :: "(jsval \<Rightarrow> zod_error + 'a) \<Rightarrow> zod_issue \<Rightarrow> jsval \<Rightarrow> zod_error + 'a list" where
  "z_array p empty_issue v = (case v of
     JArr xs \<Rightarrow> if xs = [] then z_fail empty_issue else z_items p 0 xs
   | _ \<Rightarrow> wrong_type ''array'' v)"

fun z_entries :: "(jsval \<Rightarrow> zod_error + 'a) \<Rightarrow> (string \<times> jsval) list \<Rightarrow> zod_error + (string \<times> 'a) list" where
  "z_entries p [] = Inr []"
| "z_entries p ((k, v) # kvs) = bindE (under k (p v)) (\<lambda>x. bindE (z_entries p kvs) (\<lambda>rest. Inr ((k, x) # rest)))"

text \<open>\<open>z.record(p).refine(r => Object.keys(r).length > 0, { message })\<close>.\<close>

definition z_record :: "(jsval \<Rightarrow> zod_error + 'a) \<Rightarrow> string \<Rightarrow> jsval \<Rightarrow> zod_error + (string \<times> 'a) list" where
  "z_record p empty_message v = bindE (z_object v) (\<lambda>kvs. bindE (z_entries p kvs) (\<lambda>r.
     if r = [] then z_fail (ZText empty_message) else Inr r))"

section \<open>Numbers\<close>

fun num_value :: "jsnum \<Rightarrow> double" where
  "num_value NaN = DNaN"
| "num_value (Infinity neg) = DInf neg"
| "num_value Zero = DFin 0"
| "num_value NegZero = DFin 0"
| "num_value (Dec neg s n) = to_double ((if neg then - 1 else 1) * of_nat s * 10 powi (n - int (length (show_nat s))))"

text \<open>\<open>Number(text)\<close>: decimal literals with a fraction and an exponent, and radix literals.\<close>

definition radix_value :: "nat \<Rightarrow> string \<Rightarrow> double" where
  "radix_value b ds = (if ds \<noteq> [] \<and> list_all (\<lambda>c. case hex_val c of None \<Rightarrow> False | Some d \<Rightarrow> d < b) ds
     then to_double (of_nat (foldl (\<lambda>acc c. case hex_val c of None \<Rightarrow> acc | Some d \<Rightarrow> b * acc + d) 0 ds))
     else DNaN)"

definition exponent_of :: "string \<Rightarrow> int option" where
  "exponent_of u = (case u of
     [] \<Rightarrow> Some 0
   | e # r \<Rightarrow>
       let neg = starts_with ''-'' r; ds = (if starts_with ''-'' r \<or> starts_with ''+'' r then tl r else r) in
       if (e = CHR ''e'' \<or> e = CHR ''E'') \<and> ds \<noteq> [] \<and> list_all is_digit ds
       then Some ((if neg then - 1 else 1) * int (read_nat 0 ds)) else None)"

definition decimal_value :: "string \<Rightarrow> double" where
  "decimal_value t =
     (let neg = starts_with ''-'' t; u = (if starts_with ''-'' t \<or> starts_with ''+'' t then tl t else t);
          ip = takeWhile is_digit u; u1 = dropWhile is_digit u; dot = starts_with ''.'' u1;
          fp = (if dot then takeWhile is_digit (tl u1) else []);
          u2 = (if dot then dropWhile is_digit (tl u1) else u1)
      in if u = ''Infinity'' then DInf neg
         else if ip = [] \<and> fp = [] then DNaN
         else case exponent_of u2 of
           None \<Rightarrow> DNaN
         | Some e \<Rightarrow> to_double ((if neg then - 1 else 1) * of_nat (read_nat 0 (ip @ fp))
             * 10 powi (e - int (length fp))))"

definition number_of_text :: "string \<Rightarrow> double" where
  "number_of_text s = (case trim s of
     [] \<Rightarrow> DFin 0
   | [c] \<Rightarrow> decimal_value [c]
   | c # x # ds \<Rightarrow>
       if c = CHR ''0'' \<and> (x = CHR ''x'' \<or> x = CHR ''X'') then radix_value 16 ds
       else if c = CHR ''0'' \<and> (x = CHR ''o'' \<or> x = CHR ''O'') then radix_value 8 ds
       else if c = CHR ''0'' \<and> (x = CHR ''b'' \<or> x = CHR ''B'') then radix_value 2 ds
       else decimal_value (c # x # ds))"

text \<open>A check on an integer, after \<open>.int()\<close>.\<close>

type_synonym int_check = "int \<Rightarrow> zod_issue option"

definition z_least :: "int \<Rightarrow> int_check" where "z_least m i = (if i < m then Some (ZLeast m) else None)"
definition z_most :: "int \<Rightarrow> int_check" where "z_most m i = (if m < i then Some (ZMost m) else None)"
definition z_positive :: int_check where "z_positive i = (if i \<le> 0 then Some (ZMoreThan 0) else None)"

fun run_int_checks :: "int_check list \<Rightarrow> int \<Rightarrow> zod_issue option" where
  "run_int_checks [] i = None"
| "run_int_checks (c # cs) i = (case c i of Some e \<Rightarrow> Some e | None \<Rightarrow> run_int_checks cs i)"

definition z_integer :: "int_check list \<Rightarrow> double \<Rightarrow> zod_error + int" where
  "z_integer cs x = (case x of
     DNaN \<Rightarrow> z_fail (ZType ''number'')
   | DInf _ \<Rightarrow> z_fail ZInteger
   | DFin q \<Rightarrow> if of_int \<lfloor>q\<rfloor> \<noteq> q then z_fail ZInteger
       else (case run_int_checks cs \<lfloor>q\<rfloor> of Some i \<Rightarrow> z_fail i | None \<Rightarrow> Inr \<lfloor>q\<rfloor>))"

definition z_int :: "int_check list \<Rightarrow> jsval \<Rightarrow> zod_error + int" where
  "z_int cs v = (case v of JNum n \<Rightarrow> z_integer cs (num_value n) | _ \<Rightarrow> wrong_type ''number'' v)"

text \<open>\<open>z.number().int()\<close> where the number itself is kept.\<close>

definition z_int_num :: "jsval \<Rightarrow> zod_error + jsnum" where
  "z_int_num v = (case v of JNum n \<Rightarrow> bindE (z_integer [] (num_value n)) (\<lambda>_. Inr n) | _ \<Rightarrow> wrong_type ''number'' v)"

definition z_positive_number :: "jsval \<Rightarrow> zod_error + jsnum" where
  "z_positive_number v = (case v of
     JNum n \<Rightarrow> (case num_value n of
         DNaN \<Rightarrow> z_fail (ZType ''number'')
       | DInf neg \<Rightarrow> (if neg then z_fail (ZMoreThan 0) else Inr n)
       | DFin q \<Rightarrow> if q \<le> 0 then z_fail (ZMoreThan 0) else Inr n)
   | _ \<Rightarrow> wrong_type ''number'' v)"

section \<open>Schemas\<close>

text \<open>What the library parsers decide: absolute URLs, and the dates \<open>new Date\<close> reads.\<close>

record edge =
  ed_text :: "zod_issue \<Rightarrow> string"
  ed_url :: "string \<Rightarrow> bool"
  ed_date :: "string \<Rightarrow> instant option"

definition pin_message :: string where
  "pin_message = ''must be pinned as '' @ quoted ''sha256:<64 hex>'' @ '' '' @ em_dash
     @ '' a tag can point at different software later''"

definition digestSchema :: "jsval \<Rightarrow> zod_error + string" where
  "digestSchema v = z_string [z_test sha256_digest_re (ZText pin_message)] v"

definition hexHashSchema :: "jsval \<Rightarrow> zod_error + string" where
  "hexHashSchema v = z_string [z_test hex64 (ZText ''must be a 64-character hex sha256'')] v"

text \<open>A query: its parameters as text, each given at most once.\<close>

type_synonym query = "(string \<times> string) list"

record cursor_input =
  cu_cursor :: "string option"
  cu_limit :: int

definition cursorSchema :: "query \<Rightarrow> zod_error + cursor_input" where
  "cursorSchema q = bindE (case map_of q ''limit'' of
       None \<Rightarrow> Inr 50
     | Some t \<Rightarrow> under ''limit'' (z_integer [z_least 1, z_most 200] (number_of_text t)))
     (\<lambda>n. Inr \<lparr>cu_cursor = map_of q ''cursor'', cu_limit = n\<rparr>)"

definition date_param :: "edge \<Rightarrow> query \<Rightarrow> string \<Rightarrow> zod_error + instant option" where
  "date_param ed q k = (case map_of q k of
     None \<Rightarrow> Inr None
   | Some t \<Rightarrow> (case ed_date ed t of None \<Rightarrow> under k (z_fail ZDate) | Some d \<Rightarrow> Inr (Some d)))"

definition auditQuerySchema :: "edge \<Rightarrow> query \<Rightarrow> zod_error + audit_query" where
  "auditQuerySchema ed q =
     bindE (cursorSchema q) (\<lambda>c. bindE (date_param ed q ''from'') (\<lambda>from. bindE (date_param ed q ''to'') (\<lambda>to.
       Inr \<lparr>aq_actor = map_of q ''actor'', aq_action = map_of q ''action'', aq_subject = map_of q ''subject'',
            aq_from = from, aq_to = to, aq_cursor = cu_cursor c, aq_limit = cu_limit c\<rparr>)))"

definition consistencyQuerySchema :: "query \<Rightarrow> zod_error + int" where
  "consistencyQuerySchema q = under ''from'' (z_integer [z_least 0]
     (case map_of q ''from'' of None \<Rightarrow> DNaN | Some t \<Rightarrow> number_of_text t))"

record import_environment_input =
  im_source :: string
  im_pin :: string
  im_displayName :: "string option"
  im_openEnvSpecVersion :: "int option"

definition importEnvironmentSchema :: "jsval \<Rightarrow> zod_error + import_environment_input" where
  "importEnvironmentSchema v = bindE (z_object v) (\<lambda>kvs.
     bindE (fieldZ kvs ''source'' (z_string [z_min 1])) (\<lambda>src.
     bindE (fieldZ kvs ''pin'' digestSchema) (\<lambda>pin.
     bindE (fieldZ kvs ''displayName'' (z_optional (z_string [z_min 1, z_max 200]))) (\<lambda>d.
     bindE (fieldZ kvs ''openEnvSpecVersion'' (z_optional (z_int [z_positive]))) (\<lambda>n.
       Inr \<lparr>im_source = src, im_pin = pin, im_displayName = d, im_openEnvSpecVersion = n\<rparr>)))))"

definition sampling_message :: string where
  "sampling_message = ''sampling parameters must be recorded; two runs at different temperatures are not comparable''"

definition samplingSchema :: "jsval \<Rightarrow> zod_error + (string \<times> jsval) list" where
  "samplingSchema v = z_record Inr sampling_message v"

definition modelSchema :: "jsval \<Rightarrow> zod_error + model_pin" where
  "modelSchema v = bindE (z_object v) (\<lambda>kvs.
     bindE (fieldZ kvs ''identifier'' (z_string [z_min 1])) (\<lambda>i.
     bindE (fieldZ kvs ''sampling'' samplingSchema) (\<lambda>sp.
     bindE (fieldZ kvs ''providerVersion'' (z_optional (z_string []))) (\<lambda>pv.
       Inr \<lparr>mp_identifier = i, mp_sampling = sp, mp_providerVersion = pv\<rparr>))))"

record budget_input =
  bg_maxTokens :: "int option"
  bg_maxCostUsd :: "jsnum option"
  bg_maxWallClockSeconds :: "int option"

definition budgetSchema :: "jsval \<Rightarrow> zod_error + budget_input" where
  "budgetSchema v = bindE (z_object v) (\<lambda>kvs.
     bindE (fieldZ kvs ''maxTokens'' (z_optional (z_int [z_positive]))) (\<lambda>t.
     bindE (fieldZ kvs ''maxCostUsd'' (z_optional z_positive_number)) (\<lambda>c.
     bindE (fieldZ kvs ''maxWallClockSeconds'' (z_optional (z_int [z_positive]))) (\<lambda>w.
       Inr \<lparr>bg_maxTokens = t, bg_maxCostUsd = c, bg_maxWallClockSeconds = w\<rparr>))))"

definition ISOLATION_BACKENDS :: "string list" where
  "ISOLATION_BACKENDS = [''firecracker'', ''cloud-hypervisor'', ''gvisor'', ''kata'', ''trusted-dev'',
     ''local-process'', ''model'']"

record start_run_input =
  sr_environmentId :: string
  sr_environmentDigest :: string
  sr_taskSetId :: string
  sr_taskSetVersion :: string
  sr_split :: string
  sr_verifierId :: string
  sr_verifierVersion :: string
  sr_model :: model_pin
  sr_credentialId :: "string option"
  sr_seed :: "jsnum option"
  sr_isolationBackend :: string
  sr_toolchain :: "(string \<times> string) list"
  sr_retentionRules :: "string list"
  sr_budget :: "budget_input option"

abbreviation z_nonempty :: "jsval \<Rightarrow> zod_error + string" where
  "z_nonempty \<equiv> z_string [z_min 1]"

definition toolchain_message :: string where
  "toolchain_message = ''toolchain must record at least the platform version''"

definition startRunSchema :: "jsval \<Rightarrow> zod_error + start_run_input" where
  "startRunSchema v = bindE (z_object v) (\<lambda>kvs.
     bindE (fieldZ kvs ''environmentId'' z_nonempty) (\<lambda>env.
     bindE (fieldZ kvs ''environmentDigest'' digestSchema) (\<lambda>dig.
     bindE (fieldZ kvs ''taskSetId'' z_nonempty) (\<lambda>tid.
     bindE (fieldZ kvs ''taskSetVersion'' z_nonempty) (\<lambda>tver.
     bindE (fieldZ kvs ''split'' z_nonempty) (\<lambda>spl.
     bindE (fieldZ kvs ''verifierId'' z_nonempty) (\<lambda>vid.
     bindE (fieldZ kvs ''verifierVersion'' z_nonempty) (\<lambda>vver.
     bindE (fieldZ kvs ''model'' modelSchema) (\<lambda>mdl.
     bindE (fieldZ kvs ''credentialId'' (z_optional z_nonempty)) (\<lambda>cred.
     bindE (fieldZ kvs ''seed'' (z_nullable z_int_num)) (\<lambda>seed.
     bindE (fieldZ kvs ''isolationBackend'' (z_enum ISOLATION_BACKENDS)) (\<lambda>backend.
     bindE (fieldZ kvs ''toolchain'' (z_record (z_string []) toolchain_message)) (\<lambda>tools.
     bindE (fieldZ kvs ''retentionRules'' (z_array z_nonempty (ZText ''at least one retention basis is required''))) (\<lambda>rules.
     bindE (fieldZ kvs ''budget'' (z_optional budgetSchema)) (\<lambda>budget.
       Inr \<lparr>sr_environmentId = env, sr_environmentDigest = dig, sr_taskSetId = tid, sr_taskSetVersion = tver,
            sr_split = spl, sr_verifierId = vid, sr_verifierVersion = vver, sr_model = mdl,
            sr_credentialId = cred, sr_seed = seed, sr_isolationBackend = backend, sr_toolchain = tools,
            sr_retentionRules = rules, sr_budget = budget\<rparr>)))))))))))))))"

definition compareRunsSchema :: "jsval \<Rightarrow> zod_error + string \<times> string" where
  "compareRunsSchema v = bindE (z_object v) (\<lambda>kvs.
     bindE (fieldZ kvs ''runA'' z_nonempty) (\<lambda>a. bindE (fieldZ kvs ''runB'' z_nonempty) (\<lambda>b. Inr (a, b))))"

datatype decision = Approve | Reject | Escalate

definition decision_of :: "string \<Rightarrow> decision" where
  "decision_of s = (if s = ''approve'' then Approve else if s = ''reject'' then Reject else Escalate)"

record decision_input =
  dc_decision :: decision
  dc_rationale :: string
  dc_escalateTo :: "string option"

definition rationale_required :: string where
  "rationale_required = ''a rationale is required on every decision, including approve '' @ em_dash
     @ '' an approval with no recorded reason evidences that a click happened, not that oversight occurred''"

definition rationaleSchema :: "jsval \<Rightarrow> zod_error + string" where
  "rationaleSchema v = (case v of
     JStr s \<Rightarrow> z_trimmed [z_min_text 10 ''a rationale of at least 10 characters is required on every decision''] v
   | _ \<Rightarrow> z_fail (ZText (if v = JUndef then rationale_required else ''rationale must be text'')))"

definition approvalDecisionSchema :: "jsval \<Rightarrow> zod_error + decision_input" where
  "approvalDecisionSchema v = bindE (z_object v) (\<lambda>kvs.
     bindE (fieldZ kvs ''decision'' (z_enum [''approve'', ''reject'', ''escalate''])) (\<lambda>d.
     bindE (fieldZ kvs ''rationale'' rationaleSchema) (\<lambda>r.
     bindE (fieldZ kvs ''escalateTo'' (z_optional (z_string []))) (\<lambda>e.
       Inr \<lparr>dc_decision = decision_of d, dc_rationale = r, dc_escalateTo = e\<rparr>))))"

record bundle_request =
  bq_runId :: string
  bq_retentionRules :: "string list"
  bq_includeConsistencyProofFrom :: "int option"

definition generateBundleSchema :: "jsval \<Rightarrow> zod_error + bundle_request" where
  "generateBundleSchema v = bindE (z_object v) (\<lambda>kvs.
     bindE (fieldZ kvs ''runId'' z_nonempty) (\<lambda>r.
     bindE (fieldZ kvs ''retentionRules'' (z_array z_nonempty (ZMin 1))) (\<lambda>rules.
     bindE (fieldZ kvs ''includeConsistencyProofFrom'' (z_optional (z_int [z_least 0]))) (\<lambda>i.
       Inr \<lparr>bq_runId = r, bq_retentionRules = rules, bq_includeConsistencyProofFrom = i\<rparr>))))"

definition createApiKeySchema :: "jsval \<Rightarrow> zod_error + create_key_input" where
  "createApiKeySchema v = bindE (z_object v) (\<lambda>kvs.
     bindE (fieldZ kvs ''name'' (z_trimmed [z_min_text 1 ''a key needs a name'', z_max 80])) (\<lambda>n.
     bindE (fieldZ kvs ''description'' (z_optional (z_trimmed [z_max 300]))) (\<lambda>d.
     bindE (fieldZ kvs ''scopes'' (z_array z_nonempty
        (ZText ''a key with no scopes can do nothing; select at least one''))) (\<lambda>sc.
     bindE (fieldZ kvs ''expiresInDays'' (z_optional (z_int [z_positive, z_most 3650]))) (\<lambda>e.
       Inr \<lparr>cki_name = n, cki_description = d, cki_scopes = sc, cki_expiresInDays = e\<rparr>)))))"

definition createCredentialSchema :: "edge \<Rightarrow> jsval \<Rightarrow> zod_error + create_credential_input" where
  "createCredentialSchema ed v = bindE (z_object v) (\<lambda>kvs.
     bindE (fieldZ kvs ''providerId'' z_nonempty) (\<lambda>p.
     bindE (fieldZ kvs ''name'' (z_trimmed [z_min 1, z_max 80])) (\<lambda>n.
     bindE (fieldZ kvs ''apiKey'' (z_optional z_nonempty)) (\<lambda>k.
     bindE (fieldZ kvs ''baseUrl'' (z_optional (z_string [z_test (ed_url ed) ZUrl]))) (\<lambda>u.
       Inr \<lparr>cci_providerId = p, cci_name = n, cci_apiKey = k, cci_baseUrl = u\<rparr>)))))"

definition testProviderSchema :: "jsval \<Rightarrow> zod_error + string \<times> string option" where
  "testProviderSchema v = bindE (z_object v) (\<lambda>kvs.
     bindE (fieldZ kvs ''providerId'' z_nonempty) (\<lambda>p.
     bindE (fieldZ kvs ''credentialId'' (z_optional z_nonempty)) (\<lambda>c. Inr (p, c))))"

section \<open>What an accepted input satisfies\<close>

lemma under_Inr_iff [simp]: "under k r = Inr x \<longleftrightarrow> r = Inr x"
  by (auto simp: under_def split: sum.splits)

lemma wrong_type_not_Inr [simp]: "wrong_type t v \<noteq> Inr x" "z_fail i \<noteq> Inr x"
  by (simp_all add: wrong_type_def z_fail_def)

lemma z_string_Inr_iff: "z_string cs v = Inr s \<longleftrightarrow> v = JStr s \<and> run_checks cs s = None"
  by (cases v) (auto simp: z_string_def z_fail_def wrong_type_def split: option.splits)

lemma z_nonempty_Inr: "z_nonempty v = Inr s \<Longrightarrow> s \<noteq> []"
  by (auto simp: z_string_Inr_iff z_min_def split: if_splits)

lemma fieldZ_Inr_iff [simp]: "fieldZ kvs k p = Inr x \<longleftrightarrow> p (get_prop (JObj kvs) k) = Inr x"
  by (simp add: fieldZ_def)

end
