(* ===== verification/System_Memory.thy ===== *)
theory System_Memory
  imports Doubles Js
begin

text \<open>
  \<open>system/memory.ts\<close>: the memory a model is estimated to need and whether it fits, in double
  arithmetic in the order the source computes it; and the runtime descriptors of
  \<open>providers/local-runtimes.ts\<close>. A precision is text: the route passes any string on.
\<close>

section \<open>The estimate\<close>

definition BYTES_PER_PARAM :: "(string \<times> double) list" where
  "BYTES_PER_PARAM = [(''fp32'', dint 4), (''fp16'', dint 2), (''bf16'', dint 2), (''fp8'', dint 1),
     (''int8'', dint 1), (''nvfp4'', to_double (6 / 10)), (''mxfp4'', to_double (6 / 10)),
     (''int4'', to_double (6 / 10))]"

record memory_input =
  me_parametersB :: double
  me_precision :: string
  me_contextLength :: double
  me_concurrency :: "double option"
  me_layers :: "double option"
  me_hiddenSize :: "double option"
  me_kvHeads :: "double option"
  me_attentionHeads :: "double option"

record memory_estimate =
  mt_weightsBytes :: double
  mt_kvCacheBytes :: double
  mt_overheadBytes :: double
  mt_totalBytes :: double
  mt_assumptions :: "string list"

record geometry =
  geo_layers :: int
  geo_hiddenSize :: int
  geo_kvHeads :: int

definition geometry_of :: "int \<Rightarrow> int \<Rightarrow> int \<Rightarrow> geometry" where
  "geometry_of l h k = \<lparr>geo_layers = l, geo_hiddenSize = h, geo_kvHeads = k\<rparr>"

definition inferGeometry :: "double \<Rightarrow> geometry" where
  "inferGeometry p =
     (if dle p (dint 2) then geometry_of 24 2048 4
      else if dle p (dint 5) then geometry_of 32 3072 8
      else if dle p (dint 10) then geometry_of 32 4096 8
      else if dle p (dint 20) then geometry_of 48 6144 8
      else if dle p (dint 40) then geometry_of 60 8192 8
      else if dle p (dint 80) then geometry_of 80 8192 8
      else if dle p (dint 150) then geometry_of 96 12288 8
      else geometry_of 126 16384 8)"

definition or_default :: "'a option \<Rightarrow> 'a \<Rightarrow> 'a" where
  "or_default x d = (case x of None \<Rightarrow> d | Some v \<Rightarrow> v)"

definition GIB :: double where
  "GIB = dint 1073741824"

definition weights_bytes :: "memory_input \<Rightarrow> double" where
  "weights_bytes i = dmul (dmul (me_parametersB i) (dint 1000000000))
     (or_default (map_of BYTES_PER_PARAM (me_precision i)) DNaN)"

definition kv_bytes :: "double \<Rightarrow> double \<Rightarrow> double \<Rightarrow> double \<Rightarrow> double \<Rightarrow> double" where
  "kv_bytes layers kvHeads headDim contextLength concurrency =
     dmul (dmul (dmul (dmul (dmul (dmul (dint 2) layers) kvHeads) headDim) contextLength) concurrency) (dint 2)"

definition overhead_bytes :: "double \<Rightarrow> double \<Rightarrow> double" where
  "overhead_bytes w kv = dmax (dmul (to_double (3 / 2)) GIB) (dmul (to_double (12 / 100)) (dadd w kv))"

definition assumptions_of :: "memory_input \<Rightarrow> double \<Rightarrow> double \<Rightarrow> double \<Rightarrow> string list" where
  "assumptions_of i layers hiddenSize kvHeads =
     (if me_layers i = None then [''layers assumed '' @ double_text layers @ '' from parameter count''] else [])
     @ (if me_hiddenSize i = None
        then [''hidden size assumed '' @ double_text hiddenSize @ '' from parameter count''] else [])
     @ (if me_kvHeads i = None
        then [''KV heads assumed '' @ double_text kvHeads @ '' (grouped-query attention)''] else [])
     @ (if me_concurrency i = None then [''concurrency assumed 1 sequence''] else [])
     @ [''KV cache assumed 16-bit and unquantised'',
        ''runtime overhead assumed max(1.5 GiB, 12% of weights + KV cache)'']"

definition estimateModelMemory :: "memory_input \<Rightarrow> memory_estimate" where
  "estimateModelMemory i =
     (let g = inferGeometry (me_parametersB i);
          layers = or_default (me_layers i) (dint (geo_layers g));
          hiddenSize = or_default (me_hiddenSize i) (dint (geo_hiddenSize g));
          kvHeads = or_default (me_kvHeads i) (dint (geo_kvHeads g));
          attentionHeads = or_default (me_attentionHeads i) (dmax kvHeads (ddiv hiddenSize (dint 128)));
          concurrency = or_default (me_concurrency i) (dint 1);
          w = weights_bytes i;
          headDim = ddiv hiddenSize (dmax attentionHeads (dint 1));
          kv = kv_bytes layers kvHeads headDim (me_contextLength i) concurrency;
          overhead = overhead_bytes w kv
      in \<lparr>mt_weightsBytes = dround w, mt_kvCacheBytes = dround kv, mt_overheadBytes = dround overhead,
          mt_totalBytes = dround (dadd (dadd w kv) overhead),
          mt_assumptions = assumptions_of i layers hiddenSize kvHeads\<rparr>)"

section \<open>Whether it fits\<close>

definition fixed_text :: "nat \<Rightarrow> double \<Rightarrow> string" where
  "fixed_text k x = (case x of DFin q \<Rightarrow> if \<bar>q\<bar> < 10 ^ 21 then to_fixed k q else num_text q | _ \<Rightarrow> double_text x)"

definition formatBytes :: "double \<Rightarrow> string" where
  "formatBytes bytes = (if dle GIB bytes then fixed_text 1 (ddiv bytes GIB) @ '' GiB''
     else fixed_text 0 (ddiv bytes (dint 1048576)) @ '' MiB'')"

record resource_refusal =
  rz_code :: string
  rz_detail :: string
  rz_requiredBytes :: double
  rz_availableBytes :: double

record resource_decision =
  rd_allowed :: bool
  rd_refusal :: "resource_refusal option"
  rd_headroomFraction :: "double option"

definition checkModelFits :: "memory_estimate \<Rightarrow> double \<Rightarrow> double \<Rightarrow> resource_decision" where
  "checkModelFits estimate availableBytes reserveFraction =
     (let usable = dmul availableBytes (dsub (dint 1) reserveFraction); total = mt_totalBytes estimate in
      if dless usable total then
        \<lparr>rd_allowed = False, rd_refusal = Some
          \<lparr>rz_code = ''MODEL_MEMORY_REQUIREMENT_EXCEEDED'',
           rz_detail = ''Estimated '' @ formatBytes total @ '' required, '' @ formatBytes usable
             @ '' usable after a '' @ double_text (dround (dmul reserveFraction (dint 100))) @ ''% reserve. ''
             @ ''This is a conservative estimate, not a measurement '' @ em_dash @ '' see assumptions.'',
           rz_requiredBytes = total, rz_availableBytes = dround usable\<rparr>,
         rd_headroomFraction = None\<rparr>
      else \<lparr>rd_allowed = True, rd_refusal = None,
         rd_headroomFraction = Some (ddiv (dsub usable total) availableBytes)\<rparr>)"

section \<open>Runtimes\<close>

datatype platform_support = Documented | NotSupported | NotEstablished

record runtime_descriptor =
  rd_id :: string
  rd_displayName :: string
  rd_locality :: string
  rd_support :: platform_support
  rd_note :: string
  rd_requiresBaseUrl :: bool
  rd_defaultPort :: "int option"

definition local_runtime :: "string \<Rightarrow> string \<Rightarrow> platform_support \<Rightarrow> string \<Rightarrow> bool \<Rightarrow> int \<Rightarrow> runtime_descriptor" where
  "local_runtime i n s note b p = \<lparr>rd_id = i, rd_displayName = n, rd_locality = ''local'', rd_support = s,
     rd_note = note, rd_requiresBaseUrl = b, rd_defaultPort = Some p\<rparr>"

definition RUNTIME_DESCRIPTORS :: "runtime_descriptor list" where
  "RUNTIME_DESCRIPTORS =
     [local_runtime ''vllm'' ''vLLM'' Documented
        (''NVIDIA publishes a vLLM playbook for DGX Spark and lists vLLM among the backends it ''
         @ ''collaborated on for local deployment.'') False 8000,
      local_runtime ''tensorrt-llm'' ''TensorRT-LLM'' Documented
        (''NVIDIA publishes a TensorRT-LLM playbook for DGX Spark, and TensorRT-LLM is listed in the ''
         @ ''DGX Spark software stack.'') False 8000,
      local_runtime ''nim'' ''NVIDIA NIM'' NotEstablished
        (''NIM containers are validated per GPU. Whether a specific NIM supports DGX Spark must be ''
         @ ''checked for that container; this platform will not assert it.'') True 8000,
      local_runtime ''ollama'' ''Ollama'' Documented
        (''NVIDIA lists Ollama among the local deployment paths it collaborated on for DGX Spark.'') False 11434]"

definition describeRuntime :: "string \<Rightarrow> runtime_descriptor option" where
  "describeRuntime i = find (\<lambda>r. rd_id r = i) RUNTIME_DESCRIPTORS"

end
