(* ===== verification/Api_State.thy ===== *)
theory Api_State
  imports Schemas Worker System_Memory Evidence_Bundle Retention Task_Registry
begin

text \<open>
  \<open>api/app.ts\<close>: what the control plane holds and how a request meets it. The state of the
  server, the services and the readings a request is given, the answers, the authentication
  hook, the scope check and the error handler. With the in-memory stores every \<open>await\<close> of a
  handler is resolved before the next request's first line runs, so a request is one step;
  the routes that call a provider or a probe wait for it between their reads and their writes
  and read nothing again afterwards.
\<close>

section \<open>State\<close>

type_synonym evidence_bundle = "bundle_contents signed_envelope"

record api_state =
  as_runs :: runs
  as_log :: audit_log
  as_approvals :: approvals
  as_bundles :: "evidence_bundle bundles"
  as_keys :: key_store
  as_creds :: cred_store
  as_counter :: nat
  as_stats :: worker_stats
  as_cached :: "(instant \<times> system_capabilities) option"

text \<open>A provider adapter as the routes see it: what it declares, its connection test, its listing.\<close>

record provider_capabilities =
  pcap_streaming :: support
  pcap_tools :: support
  pcap_vision :: support
  pcap_structuredOutput :: support
  pcap_modelListing :: support
  pcap_requiresApiKey :: bool

record connection_status =
  cn_status :: string
  cn_detail :: "string option"
  cn_modelCount :: "int option"

record model_info =
  mn_id :: string
  mn_displayName :: "string option"
  mn_provider :: string
  mn_contextLength :: "int option"

record adapter =
  pv_id :: string
  pv_displayName :: string
  pv_capabilities :: provider_capabilities
  pv_testConnection :: "provider_config \<Rightarrow> thrown + connection_status"
  pv_listModels :: "(provider_config \<Rightarrow> thrown + model_info list) option"

text \<open>What the server is built with, the same for all its requests.\<close>

record 'k service =
  srv_digest :: "bytes \<Rightarrow> bytes"
  srv_signer :: key_source
  srv_verifier :: "'k verifier_api"
  srv_cipher :: aead
  srv_box :: "bytes option"
  srv_edge :: edge
  srv_authenticate :: "(string option \<Rightarrow> tenant_ctx option) option"
  srv_worker :: "worker_options option"
  srv_executionUnavailable :: "string option"
  srv_env :: "string \<Rightarrow> string option"

text \<open>What one request reads from outside: the clock, random bytes, the providers, the host.\<close>

record moment =
  mo_now :: instant
  mo_random :: bytes
  mo_iv :: bytes
  mo_suffix :: bytes
  mo_stopped :: bool
  mo_adapters :: "adapter jsmap"
  mo_detect :: "string + system_capabilities"
  mo_telemetry :: "gpu_telemetry list probe"

section \<open>Manifests as stored\<close>

text \<open>
  The run store keeps a manifest as a plain object, and the routes that compare runs or build
  a bundle read it back under its type. Reading back is partial: an object of another shape
  is not a manifest.
\<close>

definition manifest_fields :: "manifest \<Rightarrow> (string \<times> jsval) list" where
  "manifest_fields m = (case manifest_json m of JObj kvs \<Rightarrow> kvs | _ \<Rightarrow> [])"

fun str_of :: "jsval \<Rightarrow> string option" where
  "str_of (JStr s) = Some s"
| "str_of _ = None"

fun obj_of :: "jsval \<Rightarrow> (string \<times> jsval) list option" where
  "obj_of (JObj kvs) = Some kvs"
| "obj_of _ = None"

fun bool_of :: "jsval \<Rightarrow> bool option" where
  "bool_of (JBool b) = Some b"
| "bool_of _ = None"

fun int_of_num :: "jsnum \<Rightarrow> int option" where
  "int_of_num Zero = Some 0"
| "int_of_num (Dec neg s n) = (let k = int (length (show_nat s)) in
     if k \<le> n then Some ((if neg then - 1 else 1) * (int s * 10 ^ nat (n - k))) else None)"
| "int_of_num _ = None"

fun int_of :: "jsval \<Rightarrow> int option" where
  "int_of (JNum n) = int_of_num n"
| "int_of _ = None"

definition maybe :: "(jsval \<Rightarrow> 'a option) \<Rightarrow> jsval \<Rightarrow> 'a option option" where
  "maybe f v = (if v = JUndef then Some None else map_option Some (f v))"

abbreviation getp :: "(string \<times> jsval) list \<Rightarrow> string \<Rightarrow> jsval" where
  "getp kvs k \<equiv> get_prop (JObj kvs) k"

fun strings_of :: "(string \<times> jsval) list \<Rightarrow> (string \<times> string) list option" where
  "strings_of [] = Some []"
| "strings_of ((k, v) # kvs) = Option.bind (str_of v) (\<lambda>s. map_option (\<lambda>r. (k, s) # r) (strings_of kvs))"

definition environment_of :: "jsval \<Rightarrow> environment_pin option" where
  "environment_of v = Option.bind (obj_of v) (\<lambda>e.
     Option.bind (str_of (getp e ''reference'')) (\<lambda>r. Option.bind (str_of (getp e ''digest'')) (\<lambda>d.
     Option.bind (maybe bool_of (getp e ''signatureVerified'')) (\<lambda>sv.
     Option.bind (maybe int_of (getp e ''openEnvSpecVersion'')) (\<lambda>n.
       Some \<lparr>env_reference = r, env_digest = d, env_signatureVerified = sv, env_openEnvSpecVersion = n\<rparr>)))))"

definition model_of :: "jsval \<Rightarrow> model_pin option" where
  "model_of v = Option.bind (obj_of v) (\<lambda>m.
     Option.bind (str_of (getp m ''identifier'')) (\<lambda>i. Option.bind (obj_of (getp m ''sampling'')) (\<lambda>sp.
     Option.bind (maybe str_of (getp m ''providerVersion'')) (\<lambda>pv.
       Some \<lparr>mp_identifier = i, mp_sampling = sp, mp_providerVersion = pv\<rparr>))))"

definition task_set_of :: "jsval \<Rightarrow> task_set_pin option" where
  "task_set_of v = Option.bind (obj_of v) (\<lambda>t.
     Option.bind (str_of (getp t ''id'')) (\<lambda>i. Option.bind (str_of (getp t ''version'')) (\<lambda>ve.
     Option.bind (str_of (getp t ''split'')) (\<lambda>sp. Option.bind (str_of (getp t ''splitHash'')) (\<lambda>h.
     Option.bind (int_of (getp t ''taskCount'')) (\<lambda>n.
       Some \<lparr>tsp_id = i, tsp_version = ve, tsp_split = sp, tsp_splitHash = h, tsp_taskCount = n\<rparr>))))))"

definition assurance_of :: "jsval \<Rightarrow> assurance_pin option" where
  "assurance_of v = Option.bind (obj_of v) (\<lambda>a.
     Option.bind (bool_of (getp a ''isomorphicPerturbationTested'')) (\<lambda>i.
     Option.bind (bool_of (getp a ''fuzzed'')) (\<lambda>f. Option.bind (bool_of (getp a ''canaryTasksIncluded'')) (\<lambda>c.
       Some \<lparr>as_isomorphicPerturbationTested = i, as_fuzzed = f, as_canaryTasksIncluded = c\<rparr>))))"

definition verifier_of :: "jsval \<Rightarrow> verifier_pin option" where
  "verifier_of v = Option.bind (obj_of v) (\<lambda>w.
     Option.bind (str_of (getp w ''id'')) (\<lambda>i. Option.bind (str_of (getp w ''version'')) (\<lambda>ve.
     Option.bind (maybe assurance_of (getp w ''assurance'')) (\<lambda>a.
       Some \<lparr>vp_id = i, vp_version = ve, vp_assurance = a\<rparr>))))"

definition seed_of :: "jsval \<Rightarrow> jsnum option option" where
  "seed_of v = (case v of JNull \<Rightarrow> Some None | JNum n \<Rightarrow> Some (Some n) | _ \<Rightarrow> None)"

definition manifest_of :: "(string \<times> jsval) list \<Rightarrow> manifest option" where
  "manifest_of kvs =
     Option.bind (str_of (getp kvs ''runId'')) (\<lambda>rid.
     Option.bind (environment_of (getp kvs ''environment'')) (\<lambda>env.
     Option.bind (model_of (getp kvs ''model'')) (\<lambda>mdl.
     Option.bind (task_set_of (getp kvs ''taskSet'')) (\<lambda>ts.
     Option.bind (verifier_of (getp kvs ''verifier'')) (\<lambda>vp.
     Option.bind (seed_of (getp kvs ''seed'')) (\<lambda>seed.
     Option.bind (Option.bind (obj_of (getp kvs ''toolchain'')) strings_of) (\<lambda>tools.
     Option.bind (str_of (getp kvs ''isolationBackend'')) (\<lambda>backend.
     Option.bind (str_of (getp kvs ''createdAt'')) (\<lambda>created.
       if getp kvs ''manifestVersion'' = JStr ''1''
       then Some \<lparr>mi_runId = rid, mi_environment = env, mi_model = mdl, mi_taskSet = ts, mi_verifier = vp,
              mi_seed = seed, mi_toolchain = tools, mi_isolationBackend = backend, mf_createdAt = created\<rparr>
       else None)))))))))"

end
