(* ===== verification/Api_Core.thy ===== *)
theory Api_Core
  imports Api_State
begin

text \<open>
  The frame of every route of \<open>api/app.ts\<close>: the replies, the errors a handler may throw and
  what the error handler makes of them, the token formats, the hook that runs before each
  request, and the scope check.
\<close>

section \<open>Replies\<close>

record scope_info =
  sci_scope :: string
  sci_description :: string
  sci_consequential :: bool
  sci_held :: bool

record ready_checks =
  rdy_ready :: bool
  rdy_worker :: "worker_status option"
  rdy_unavailable :: "string option"
  rdy_note :: "string option"

record provider_entry =
  pe_id :: string
  pe_displayName :: string
  pe_requiresApiKey :: bool
  pe_supportsModelListing :: bool
  pe_modelListing :: support
  pe_capabilities :: provider_capabilities
  pe_credentialConfigured :: bool

record system_health =
  sh_summary :: string
  sh_deploymentTarget :: deployment_target
  sh_dgxSpark :: bool
  sh_components :: "(string \<times> string \<times> string) list"
  sh_checkedAt :: string

record runtime_status =
  rt_descriptor :: runtime_descriptor
  rt_configured :: bool
  rt_baseUrl :: "string option"
  rt_connection :: connection_status
  rt_platformNote :: string

text \<open>The credentials listed with a provider: id, name, masked key, last use.\<close>

type_synonym credential_line = "string \<times> string \<times> string \<times> instant option"

datatype body =
    BProblem problem_doc
  | BSplitDenied string "string option"
  | BHealth
  | BReady ready_checks
  | BJson jsval
  | BStarted string run_status
  | BRuns "run_record page"
  | BEntries "(audit_entry \<times> nat) list"
  | BRun run_record
  | BEnvironment env_record
  | BManifest "(string \<times> jsval) list"
  | BCompared string string comparability
  | BApprovals "approval_record list"
  | BApproval "approval_record option"
  | BBundleCreated string evidence_bundle
  | BBundle evidence_bundle
  | BVerification bundle_verification
  | BOffline evidence_bundle string string
  | BMe tenant_ctx "scope_info list"
  | BApiKeys "api_key_public list"
  | BApiKeyCreated api_key_public string
  | BApiKey "api_key_public option"
  | BProviders bool "(provider_entry \<times> credential_line list) list"
  | BConnection connection_status
  | BNoListing
  | BModels "model_info list" string
  | BCredentials "credential_public list"
  | BCredential credential_public
  | BAudit "audit_entry page"
  | BRoot string nat
  | BEntry audit_entry
  | BInclusion inclusion_proof string string
  | BConsistency consistency_proof string nat
  | BVerdict audit_verdict
  | BCapabilities system_capabilities
  | BGpu "gpu_info list probe" "gpu_telemetry list probe" string
  | BSystemHealth system_health
  | BRuntimes "runtime_status list" deployment_target bool
  | BRuntime runtime_descriptor bool
  | BMemory int int "bool probe"
  | BMemoryEstimate memory_estimate int int

record reply =
  re_status :: int
  re_challenge :: bool
  re_body :: body

definition reply :: "int \<Rightarrow> body \<Rightarrow> reply" where
  "reply code b = \<lparr>re_status = code, re_challenge = False, re_body = b\<rparr>"

definition refusal :: "string \<Rightarrow> string \<Rightarrow> int \<Rightarrow> string option \<Rightarrow> string option \<Rightarrow> reply" where
  "refusal slug title code detail fld = reply code (BProblem (problem slug title code detail fld))"

definition not_found :: "string \<Rightarrow> reply" where
  "not_found title = refusal ''not-found'' title 404 None None"

section \<open>Errors\<close>

text \<open>
  What a handler throws: a failed schema, an error with a \<open>statusCode\<close>, or any other error.
  \<open>CredentialError\<close> and \<open>ApiKeyError\<close> carry \<open>status\<close>, not \<open>statusCode\<close>: outside the handlers
  that catch them they are other errors.
\<close>

datatype api_error = ZodThrown zod_error | HttpThrown int string | OtherThrown string

type_synonym 'a api = "(api_state, api_error, 'a) act"

definition error_reply :: "(zod_issue \<Rightarrow> string) \<Rightarrow> api_error \<Rightarrow> reply" where
  "error_reply zt e = (case e of
     ZodThrown z \<Rightarrow> (let p = problemFromZod zt z in reply (pd_status p) (BProblem p))
   | HttpThrown code msg \<Rightarrow>
       if code = 500 then refusal ''internal'' ''Internal error'' 500 None None
       else refusal ''request-failed'' msg code (Some msg) None
   | OtherThrown msg \<Rightarrow> refusal ''internal'' ''Internal error'' 500 None None)"

definition zod :: "zod_error + 'a \<Rightarrow> 'a api" where
  "zod r = (case r of Inl e \<Rightarrow> throw (ZodThrown e) | Inr x \<Rightarrow> ret x)"

definition plain :: "string + 'a \<Rightarrow> 'a api" where
  "plain r = (case r of Inl m \<Rightarrow> throw (OtherThrown m) | Inr x \<Rightarrow> ret x)"

definition requireScope :: "tenant_ctx \<Rightarrow> string \<Rightarrow> unit api" where
  "requireScope ctx scope = (if scope \<in> set (tc_scopes ctx) then ret ()
     else throw (HttpThrown 403 (''missing required scope: '' @ scope)))"

section \<open>The state, piece by piece\<close>

definition get_state :: "api_state api" where
  "get_state s = (Inr s, s)"

definition on_runs :: "(runs \<Rightarrow> 'a \<times> runs) \<Rightarrow> 'a api" where
  "on_runs f s = (case f (as_runs s) of (x, r) \<Rightarrow> (Inr x, s\<lparr>as_runs := r\<rparr>))"

definition on_approvals :: "(approvals \<Rightarrow> 'a \<times> approvals) \<Rightarrow> 'a api" where
  "on_approvals f s = (case f (as_approvals s) of (x, r) \<Rightarrow> (Inr x, s\<lparr>as_approvals := r\<rparr>))"

definition on_bundles :: "(evidence_bundle bundles \<Rightarrow> 'a \<times> evidence_bundle bundles) \<Rightarrow> 'a api" where
  "on_bundles f s = (case f (as_bundles s) of (x, r) \<Rightarrow> (Inr x, s\<lparr>as_bundles := r\<rparr>))"

definition on_keys :: "(key_store \<Rightarrow> 'a \<times> key_store) \<Rightarrow> 'a api" where
  "on_keys f s = (case f (as_keys s) of (x, r) \<Rightarrow> (Inr x, s\<lparr>as_keys := r\<rparr>))"

definition on_creds :: "(cred_store \<Rightarrow> 'a \<times> cred_store) \<Rightarrow> 'a api" where
  "on_creds f s = (case f (as_creds s) of (x, r) \<Rightarrow> (Inr x, s\<lparr>as_creds := r\<rparr>))"

text \<open>\<open>newId\<close>: the prefix, the clock and a counter in base 36.\<close>

definition newId :: "moment \<Rightarrow> string \<Rightarrow> string api" where
  "newId mo pre s = (Inr (pre @ ''_'' @ show36 (nat (mo_now mo)) @ show36 (as_counter s)),
     s\<lparr>as_counter := as_counter s + 1\<rparr>)"

text \<open>\<open>stores.audit.append(req.ctx, { action, subject, payload })\<close>.\<close>

definition record_event ::
    "'k service \<Rightarrow> moment \<Rightarrow> tenant_ctx \<Rightarrow> string \<Rightarrow> string \<Rightarrow> (string \<times> jsval) list option \<Rightarrow> unit api" where
  "record_event srv mo ctx action subject payload s =
     (case audit_append (srv_digest srv) (mo_now mo) ctx
         \<lparr>sx_action = action, sx_subject = Some subject, sx_payload = payload, sx_recordedAt = None\<rparr> (as_log s) of
       (Inl msg, l) \<Rightarrow> (Inl (OtherThrown msg), s\<lparr>as_log := l\<rparr>)
     | (Inr e, l) \<Rightarrow> (Inr (), s\<lparr>as_log := l\<rparr>))"

section \<open>Authentication\<close>

text \<open>\<open>header?.replace(/^Bearer\s+/i, '')\<close>.\<close>

definition strip_bearer :: "string \<Rightarrow> string" where
  "strip_bearer h = (let r = drop 6 h in
     if map to_lower (take 6 h) = ''bearer'' \<and> r \<noteq> [] \<and> is_space (hd r) then dropWhile is_space r else h)"

text \<open>\<open>devAuthenticate\<close>: the token is cut at its first two colons only.\<close>

abbreviation colon :: char where "colon \<equiv> CHR '':''"

definition devAuthenticate :: "string option \<Rightarrow> tenant_ctx option" where
  "devAuthenticate token = (case given token of
     None \<Rightarrow> None
   | Some t \<Rightarrow>
       let tenantId = takeWhile (\<lambda>c. c \<noteq> colon) t; r = dropWhile (\<lambda>c. c \<noteq> colon) t;
           actor = takeWhile (\<lambda>c. c \<noteq> colon) (tl r); q = dropWhile (\<lambda>c. c \<noteq> colon) (tl r)
       in if tenantId = [] \<or> r = [] \<or> q = [] then None
          else if actor = [] then None
          else Some \<lparr>tc_tenantId = tenantId, tc_actor = actor,
            tc_scopes = filter (\<lambda>s. s \<noteq> []) (map trim (split_on (CHR '','') (tl q)))\<rparr>)"

definition authenticator :: "'k service \<Rightarrow> string option \<Rightarrow> tenant_ctx option" where
  "authenticator srv = (case srv_authenticate srv of None \<Rightarrow> devAuthenticate | Some f \<Rightarrow> f)"

definition PUBLIC_ROUTES :: "string list" where
  "PUBLIC_ROUTES = [''/v1'', ''/v1/evidence/keys'', ''/v1/health'', ''/v1/ready'']"

definition PUBLIC_PREFIXES :: "string list" where
  "PUBLIC_PREFIXES = [''/docs'', ''/documentation'']"

definition public_path :: "string \<Rightarrow> bool" where
  "public_path path = (path \<in> set PUBLIC_ROUTES
     \<or> list_ex (\<lambda>p. path = p \<or> starts_with (p @ ''/'') path) PUBLIC_PREFIXES)"

definition path_of_url :: "string \<Rightarrow> string" where
  "path_of_url url = takeWhile (\<lambda>c. c \<noteq> CHR ''?'') url"

definition challenge :: "string \<Rightarrow> string \<Rightarrow> reply" where
  "challenge title detail = (refusal ''unauthenticated'' title 401 (Some detail) None)\<lparr>re_challenge := True\<rparr>"

fun auth_detail :: "auth_failure \<Rightarrow> string" where
  "auth_detail RevokedKey = ''This API key has been revoked.''"
| "auth_detail ExpiredKey = ''This API key has expired.''"
| "auth_detail UnknownKey = ''This API key is not recognised.''"

definition key_ctx :: "api_key \<Rightarrow> tenant_ctx" where
  "key_ctx k = \<lparr>tc_tenantId = ak_tenantId k, tc_actor = ''apikey:'' @ ak_id k, tc_scopes = ak_scopes k\<rparr>"

text \<open>
  The \<open>onRequest\<close> hook: a public path passes without a caller, an API key is looked up, any
  other token goes to the authenticator.
\<close>

datatype admission = Public | Caller tenant_ctx | Refused reply

definition on_request :: "'k service \<Rightarrow> moment \<Rightarrow> string \<Rightarrow> string option \<Rightarrow> api_state \<Rightarrow> admission \<times> api_state" where
  "on_request srv mo url header s =
     (if public_path (path_of_url url) then (Public, s)
      else let presented = map_option strip_bearer header in
        if (case presented of None \<Rightarrow> False | Some p \<Rightarrow> starts_with KEY_PREFIX p) then
          (case key_authenticate (srv_digest srv) (mo_now mo) (the presented) (as_keys s) of
            (Inl e, ks) \<Rightarrow> (Refused (challenge ''Authentication failed'' (auth_detail e)), s\<lparr>as_keys := ks\<rparr>)
          | (Inr k, ks) \<Rightarrow> (Caller (key_ctx k), s\<lparr>as_keys := ks\<rparr>))
        else (case authenticator srv presented of
            None \<Rightarrow> (Refused (challenge ''Authentication required''
              (if given header \<noteq> None
               then ''The Authorization header could not be parsed. Expected: Bearer <token>.''
               else ''No Authorization header was sent. Open /docs in a browser to explore the API and ''
                 @ ''paste a token, or see GET /v1 for the token format.'')), s)
          | Some ctx \<Rightarrow> (Caller ctx, s)))"

end
