(* ===== verification/Api_Runs.thy ===== *)
theory Api_Runs
  imports Api_Core
begin

text \<open>
  The routes of \<open>api/app.ts\<close> over runs and approvals: starting a run, with everything that is
  checked before it exists, reading it back, cancelling and comparing runs, and deciding a
  pending approval.
\<close>

section \<open>Starting a run\<close>

text \<open>The manifest of the request; \<open>hashSplit\<close> is inside the \<open>try\<close>.\<close>

definition run_manifest :: "'k service \<Rightarrow> moment \<Rightarrow> string \<Rightarrow> start_run_input \<Rightarrow> string + manifest" where
  "run_manifest srv mo runId input =
     bindE (hashSplit (srv_digest srv) [sr_taskSetId input, sr_taskSetVersion input, sr_split input]) (\<lambda>h.
       createManifest
         \<lparr>mi_runId = runId,
          mi_environment = \<lparr>env_reference = sr_environmentId input, env_digest = sr_environmentDigest input,
            env_signatureVerified = None, env_openEnvSpecVersion = None\<rparr>,
          mi_model = sr_model input,
          mi_taskSet = \<lparr>tsp_id = sr_taskSetId input, tsp_version = sr_taskSetVersion input,
            tsp_split = sr_split input, tsp_splitHash = h, tsp_taskCount = 1\<rparr>,
          mi_verifier = \<lparr>vp_id = sr_verifierId input, vp_version = sr_verifierVersion input, vp_assurance = None\<rparr>,
          mi_seed = sr_seed input, mi_toolchain = sr_toolchain input,
          mi_isolationBackend = sr_isolationBackend input\<rparr> None (mo_now mo))"

text \<open>A split whose label is recognised and that the caller may not schedule against.\<close>

definition split_refusal :: "tenant_ctx \<Rightarrow> string \<Rightarrow> (split_kind \<times> split_access) option" where
  "split_refusal ctx raw = (case normalizeSplit raw of
     None \<Rightarrow> None
   | Some split \<Rightarrow> (let access = checkSplitAccess ctx split in
       if sa_outcome access = Denied then Some (split, access) else None))"

definition deny_split ::
    "'k service \<Rightarrow> moment \<Rightarrow> tenant_ctx \<Rightarrow> start_run_input \<Rightarrow> split_kind \<Rightarrow> split_access \<Rightarrow> reply api" where
  "deny_split srv mo ctx input split access =
     andthen (plain (hashSplit (srv_digest srv) [sr_taskSetId input, sr_taskSetVersion input, sr_split input])) (\<lambda>h.
     andthen (record_event srv mo ctx ''run.split_access_denied'' (sr_taskSetId input)
       (Some (splitDenialAudit ctx (sr_taskSetId input) (sr_taskSetVersion input) split h))) (\<lambda>_.
     ret (reply 403 (BSplitDenied (sa_reason access) (sa_requiredScope access)))))"

definition new_run :: "moment \<Rightarrow> string \<Rightarrow> start_run_input \<Rightarrow> manifest \<Rightarrow> run_record" where
  "new_run mo runId input manifest =
     \<lparr>rr_id = runId, rr_tenantId = [], rr_status = RQueued, rr_manifest = manifest_fields manifest,
      rr_retentionRules = sr_retentionRules input, rr_createdAt = mo_now mo, rr_startedAt = None,
      rr_completedAt = None, rr_claimedBy = None, rr_claimedAt = None, rr_failureReason = None,
      rr_credentialId = given (sr_credentialId input), rr_executionEnvironment = None\<rparr>"

definition start_run ::
    "'k service \<Rightarrow> moment \<Rightarrow> tenant_ctx \<Rightarrow> string \<Rightarrow> start_run_input \<Rightarrow> manifest \<Rightarrow> reply api" where
  "start_run srv mo ctx runId input manifest =
     andthen (on_runs (run_create ctx (new_run mo runId input manifest))) (\<lambda>run.
     andthen (record_event srv mo ctx ''run.started'' runId
       (Some [(''environmentDigest'', JStr (sr_environmentDigest input)),
              (''model'', JStr (mp_identifier (sr_model input))),
              (''isolationBackend'', JStr (sr_isolationBackend input))])) (\<lambda>_.
     ret (reply 202 (BStarted (rr_id run) (rr_status run)))))"

definition post_run :: "'k service \<Rightarrow> moment \<Rightarrow> tenant_ctx \<Rightarrow> jsval \<Rightarrow> reply api" where
  "post_run srv mo ctx content =
     andthen (requireScope ctx ''runs:write'') (\<lambda>_.
     andthen (zod (startRunSchema content)) (\<lambda>input.
     andthen (newId mo ''run'') (\<lambda>runId.
       case run_manifest srv mo runId input of
         Inl msg \<Rightarrow> ret (refusal ''manifest-incomplete'' ''Run manifest is not reproducible'' 422 (Some msg) None)
       | Inr manifest \<Rightarrow> (case resolveRetention (sr_retentionRules input) (mo_now mo) of
           Inl msg \<Rightarrow> ret (refusal ''retention-unresolvable'' ''Retention rules cannot be resolved'' 422
             (Some msg) (Some ''retentionRules''))
         | Inr _ \<Rightarrow> (case split_refusal ctx (sr_split input) of
             Some (split, access) \<Rightarrow> deny_split srv mo ctx input split access
           | None \<Rightarrow> start_run srv mo ctx runId input manifest)))))"

section \<open>Reading and cancelling\<close>

definition get_runs :: "tenant_ctx \<Rightarrow> query \<Rightarrow> reply api" where
  "get_runs ctx q =
     andthen (requireScope ctx ''runs:read'') (\<lambda>_.
     andthen (zod (cursorSchema q)) (\<lambda>c.
     andthen get_state (\<lambda>s. ret (reply 200 (BRuns (run_list (as_runs s) ctx (cu_cursor c) (cu_limit c)))))))"

definition with_run :: "tenant_ctx \<Rightarrow> string \<Rightarrow> (run_record \<Rightarrow> reply api) \<Rightarrow> reply api" where
  "with_run ctx rid k = andthen get_state (\<lambda>s. case run_get (as_runs s) ctx rid of
     None \<Rightarrow> ret (not_found ''Run not found'')
   | Some r \<Rightarrow> k r)"

definition get_entries :: "tenant_ctx \<Rightarrow> string \<Rightarrow> reply api" where
  "get_entries ctx rid =
     andthen (requireScope ctx ''audit:read'') (\<lambda>_. with_run ctx rid (\<lambda>_.
     andthen get_state (\<lambda>s. let es = entriesForSubject (as_log s) ctx rid in
       ret (reply 200 (BEntries (zip es [1..<Suc (length es)]))))))"

definition get_run :: "tenant_ctx \<Rightarrow> string \<Rightarrow> reply api" where
  "get_run ctx rid = andthen (requireScope ctx ''runs:read'') (\<lambda>_. with_run ctx rid (\<lambda>r. ret (reply 200 (BRun r))))"

definition get_environment :: "tenant_ctx \<Rightarrow> string \<Rightarrow> reply api" where
  "get_environment ctx rid = andthen (requireScope ctx ''runs:read'') (\<lambda>_. with_run ctx rid (\<lambda>r.
     case rr_executionEnvironment r of
       None \<Rightarrow> ret (refusal ''not-recorded'' ''No execution environment recorded'' 404
         (Some ''This run executed without host capture, so the machine that produced it is not known.'') None)
     | Some e \<Rightarrow> ret (reply 200 (BEnvironment e))))"

definition get_manifest :: "tenant_ctx \<Rightarrow> string \<Rightarrow> reply api" where
  "get_manifest ctx rid = andthen (requireScope ctx ''runs:read'') (\<lambda>_.
     with_run ctx rid (\<lambda>r. ret (reply 200 (BManifest (rr_manifest r)))))"

definition cancel_run :: "'k service \<Rightarrow> moment \<Rightarrow> tenant_ctx \<Rightarrow> string \<Rightarrow> reply api" where
  "cancel_run srv mo ctx rid =
     andthen (requireScope ctx ''runs:write'') (\<lambda>_.
     andthen (on_runs (run_setStatus (mo_now mo) ctx rid RCancelled)) (\<lambda>updated. case updated of
       None \<Rightarrow> ret (not_found ''Run not found'')
     | Some r \<Rightarrow> andthen (record_event srv mo ctx ''run.cancelled'' (rr_id r) None)
         (\<lambda>_. ret (reply 200 (BRun r)))))"

section \<open>Comparing\<close>

text \<open>A stored object that is no manifest has no \<open>environment.digest\<close> to read: a type error.\<close>

definition stored_manifest :: "run_record \<Rightarrow> manifest api" where
  "stored_manifest r = (case manifest_of (rr_manifest r) of
     None \<Rightarrow> throw (OtherThrown ''stored object is not a manifest'')
   | Some m \<Rightarrow> ret m)"

definition compare_runs :: "tenant_ctx \<Rightarrow> jsval \<Rightarrow> reply api" where
  "compare_runs ctx content =
     andthen (requireScope ctx ''runs:read'') (\<lambda>_.
     andthen (zod (compareRunsSchema content)) (\<lambda>(runA, runB).
     andthen get_state (\<lambda>s. case (run_get (as_runs s) ctx runA, run_get (as_runs s) ctx runB) of
       (Some a, Some b) \<Rightarrow>
         andthen (stored_manifest a) (\<lambda>ma. andthen (stored_manifest b) (\<lambda>mb.
         andthen (plain (comparable ma mb)) (\<lambda>result. ret (reply 200 (BCompared runA runB result)))))
     | _ \<Rightarrow> ret (not_found ''One or both runs not found''))))"

section \<open>Approvals\<close>

fun approval_name :: "approval_status \<Rightarrow> string" where
  "approval_name APending = ''pending''"
| "approval_name AApproved = ''approved''"
| "approval_name ARejected = ''rejected''"
| "approval_name AEscalated = ''escalated''"
| "approval_name ATimedOut = ''timed-out''"

definition approval_statuses :: "approval_status list" where
  "approval_statuses = [APending, AApproved, ARejected, AEscalated, ATimedOut]"

definition get_approvals :: "tenant_ctx \<Rightarrow> string option \<Rightarrow> reply api" where
  "get_approvals ctx wanted =
     andthen (requireScope ctx ''runs:read'') (\<lambda>_.
     andthen get_state (\<lambda>s. ret (reply 200 (BApprovals (case given wanted of
         None \<Rightarrow> approval_list (as_approvals s) ctx None
       | Some n \<Rightarrow> (case find (\<lambda>st. approval_name st = n) approval_statuses of
           None \<Rightarrow> []
         | Some st \<Rightarrow> approval_list (as_approvals s) ctx (Some st)))))))"

fun decision_status :: "decision \<Rightarrow> approval_status" where
  "decision_status Approve = AApproved"
| "decision_status Reject = ARejected"
| "decision_status Escalate = AEscalated"

definition decide_approval :: "'k service \<Rightarrow> moment \<Rightarrow> tenant_ctx \<Rightarrow> string \<Rightarrow> jsval \<Rightarrow> reply api" where
  "decide_approval srv mo ctx aid content =
     andthen (requireScope ctx ''approvals:decide'') (\<lambda>_.
     andthen (zod (approvalDecisionSchema content)) (\<lambda>input.
     andthen get_state (\<lambda>s. case approval_get (as_approvals s) ctx aid of
       None \<Rightarrow> ret (not_found ''Approval not found'')
     | Some existing \<Rightarrow>
         if ap_status existing \<noteq> APending then
           ret (refusal ''already-decided'' ''This approval has already been decided'' 409
             (Some (''current status: '' @ approval_name (ap_status existing))) None)
         else
           let verdict = decision_status (dc_decision input) in
           andthen (on_approvals (approval_decide (mo_now mo) ctx aid verdict (dc_rationale input) (tc_actor ctx)))
             (\<lambda>updated.
           andthen (record_event srv mo ctx (''approval.'' @ approval_name verdict) (ap_runId existing)
             (Some [(''approvalId'', JStr (ap_id existing)), (''gatedAction'', JStr (ap_action existing)),
                    (''rationale'', JStr (dc_rationale input))])) (\<lambda>_.
           ret (reply 200 (BApproval updated)))))))"

end
