(* ===== verification/Api_Evidence.thy ===== *)
theory Api_Evidence
  imports Api_Runs
begin

text \<open>
  The routes of \<open>api/app.ts\<close> that issue and serve evidence, and those that read the audit log:
  bundles, their verification and offline kit, the published key, queries, roots and proofs.
\<close>

section \<open>Bundles\<close>

definition bundle_input_for ::
    "'k service \<Rightarrow> moment \<Rightarrow> tenant_ctx \<Rightarrow> string \<Rightarrow> string \<Rightarrow> manifest \<Rightarrow> audit_log \<Rightarrow> audit_entry list
      \<Rightarrow> proof_map \<Rightarrow> instant \<Rightarrow> string \<Rightarrow> bundle_input" where
  "bundle_input_for srv mo ctx bundleId runId manifest l entries proofs retainUntil policy =
     \<lparr>bc_bundleId = bundleId, bc_tenantId = tc_tenantId ctx, bc_runId = runId, bc_manifest = manifest,
      bc_entries = entries, bc_logRoot = fst (audit_root (srv_digest srv) l),
      bc_logSize = int (snd (audit_root (srv_digest srv) l)), bc_inclusionProofs = proofs,
      bc_consistency = None, bi_mappings = None,
      bi_retention = \<lparr>ri_retainUntil = retainUntil, ri_policy = policy, ri_wormAnchored = False\<rparr>,
      bi_generatedAt = Some (mo_now mo)\<rparr>"

text \<open>
  \<open>createBundle\<close> inside its \<open>try\<close>. A retention period no rule gives is an invalid date, whose
  \<open>toISOString\<close> throws.
\<close>

definition issue_bundle ::
    "'k service \<Rightarrow> moment \<Rightarrow> tenant_ctx \<Rightarrow> string \<Rightarrow> run_record \<Rightarrow> audit_log \<Rightarrow> audit_entry list
      \<Rightarrow> proof_map \<Rightarrow> resolved_retention \<Rightarrow> string + evidence_bundle \<times> instant" where
  "issue_bundle srv mo ctx bundleId run l entries proofs retention =
     (case manifest_of (rr_manifest run) of
        None \<Rightarrow> Inl ''stored object is not a manifest''
      | Some manifest \<Rightarrow> (case rt_retainUntil retention of
          None \<Rightarrow> Inl ''Invalid time value''
        | Some until \<Rightarrow> bindE (createBundle (srv_digest srv) (srv_signer srv) (mo_now mo)
            (bundle_input_for srv mo ctx bundleId (rr_id run) manifest l entries proofs until
              (case rt_governingRule retention of None \<Rightarrow> [] | Some r \<Rightarrow> r))) (\<lambda>b. Inr (b, until))))"

definition store_bundle ::
    "'k service \<Rightarrow> moment \<Rightarrow> tenant_ctx \<Rightarrow> string \<Rightarrow> string \<Rightarrow> nat \<Rightarrow> resolved_retention
      \<Rightarrow> evidence_bundle \<Rightarrow> instant \<Rightarrow> reply api" where
  "store_bundle srv mo ctx bundleId runId n retention bundle until =
     andthen (on_bundles (bundle_create ctx \<lparr>br_id = bundleId, br_tenantId = [], br_runId = runId,
       br_bundle = bundle, br_retainUntil = until, br_deleteBy = rt_deleteBy retention,
       br_createdAt = mo_now mo\<rparr>)) (\<lambda>_.
     andthen (record_event srv mo ctx ''evidence.bundled'' runId
       (Some [(''bundleId'', JStr bundleId), (''entryCount'', JInt (int n)),
              (''retainUntil'', JStr (toISOString until))])) (\<lambda>_.
     ret (reply 201 (BBundleCreated bundleId bundle))))"

definition post_bundle :: "'k service \<Rightarrow> moment \<Rightarrow> tenant_ctx \<Rightarrow> jsval \<Rightarrow> reply api" where
  "post_bundle srv mo ctx content =
     andthen (requireScope ctx ''evidence:generate'') (\<lambda>_.
     andthen (zod (generateBundleSchema content)) (\<lambda>input.
     with_run ctx (bq_runId input) (\<lambda>run.
     andthen get_state (\<lambda>s. let entries = entriesForSubject (as_log s) ctx (bq_runId input) in
       if entries = [] then ret (refusal ''no-audit-entries'' ''This run has no audit entries'' 422
         (Some ''A bundle over an empty log would attest to nothing.'') None)
       else
         andthen (plain (resolveRetention (bq_retentionRules input) (mo_now mo))) (\<lambda>retention.
         andthen (plain (collect_proofs (srv_digest srv) (as_log s) entries)) (\<lambda>proofs.
         andthen (newId mo ''bundle'') (\<lambda>bundleId.
           case issue_bundle srv mo ctx bundleId run (as_log s) entries proofs retention of
             Inl msg \<Rightarrow> ret (refusal ''unsignable'' ''Bundle cannot be signed'' 409 (Some msg) None)
           | Inr (bundle, until) \<Rightarrow>
               store_bundle srv mo ctx bundleId (bq_runId input) (length entries) retention bundle until)))))))"

definition with_bundle :: "tenant_ctx \<Rightarrow> string \<Rightarrow> (evidence_bundle \<Rightarrow> reply api) \<Rightarrow> reply api" where
  "with_bundle ctx bid k = andthen get_state (\<lambda>s. case bundle_get (as_bundles s) ctx bid of
     None \<Rightarrow> ret (not_found ''Bundle not found'')
   | Some b \<Rightarrow> k (br_bundle b))"

definition get_bundle :: "tenant_ctx \<Rightarrow> string \<Rightarrow> reply api" where
  "get_bundle ctx bid = andthen (requireScope ctx ''evidence:read'') (\<lambda>_.
     with_bundle ctx bid (\<lambda>b. ret (reply 200 (BBundle b))))"

definition verify_bundle :: "'k service \<Rightarrow> tenant_ctx \<Rightarrow> string \<Rightarrow> reply api" where
  "verify_bundle srv ctx bid = andthen (requireScope ctx ''evidence:read'') (\<lambda>_.
     with_bundle ctx bid (\<lambda>b.
       andthen (plain (verifyBundle (srv_digest srv) (srv_verifier srv) b (ks_publicKeyPem (srv_signer srv))))
         (\<lambda>v. ret (reply 200 (BVerification v)))))"

text \<open>The bundle, the key and its id; the instructions that go with them are constant text.\<close>

definition offline_bundle :: "'k service \<Rightarrow> tenant_ctx \<Rightarrow> string \<Rightarrow> reply api" where
  "offline_bundle srv ctx bid = andthen (requireScope ctx ''evidence:read'') (\<lambda>_.
     with_bundle ctx bid (\<lambda>b.
       ret (reply 200 (BOffline b (ks_publicKeyPem (srv_signer srv)) (ks_keyId (srv_signer srv))))))"

definition evidence_keys :: "'k service \<Rightarrow> reply" where
  "evidence_keys srv = reply 200 (BJson (JObj [(''keys'', JArr [JObj
     [(''keyId'', JStr (ks_keyId (srv_signer srv))), (''algorithm'', JStr ''ed25519''),
      (''publicKeyPem'', JStr (ks_publicKeyPem (srv_signer srv))), (''validFrom'', JNull), (''validUntil'', JNull)]])]))"

section \<open>The audit log\<close>

definition get_audit :: "'k service \<Rightarrow> tenant_ctx \<Rightarrow> query \<Rightarrow> reply api" where
  "get_audit srv ctx q =
     andthen (requireScope ctx ''audit:read'') (\<lambda>_.
     andthen (zod (auditQuerySchema (srv_edge srv) q)) (\<lambda>aq.
     andthen get_state (\<lambda>s. ret (reply 200 (BAudit (audit_query_page (as_log s) ctx aq))))))"

definition get_audit_root :: "'k service \<Rightarrow> tenant_ctx \<Rightarrow> reply api" where
  "get_audit_root srv ctx =
     andthen (requireScope ctx ''audit:read'') (\<lambda>_.
     andthen get_state (\<lambda>s. case audit_root (srv_digest srv) (as_log s) of (r, n) \<Rightarrow> ret (reply 200 (BRoot r n))))"

text \<open>\<open>Number.parseInt(req.params.seq, 10)\<close>, an integer that is not negative.\<close>

definition seq_param :: "string \<Rightarrow> int option" where
  "seq_param t = (case parse_int t of
     None \<Rightarrow> None
   | Some i \<Rightarrow> if i < 0 \<or> \<not> is_finite (to_double (of_int i)) then None else Some i)"

definition with_entry :: "tenant_ctx \<Rightarrow> string \<Rightarrow> (int \<Rightarrow> audit_entry \<Rightarrow> reply api) \<Rightarrow> reply api" where
  "with_entry ctx t k =
     andthen (requireScope ctx ''audit:read'') (\<lambda>_. case seq_param t of
       None \<Rightarrow> ret (refusal ''invalid-sequence'' ''Sequence number is not valid'' 400
         (Some (quoted t @ '' is not a non-negative integer.'')) (Some ''seq''))
     | Some i \<Rightarrow>
         andthen get_state (\<lambda>s.
         andthen (plain (audit_at (as_log s) ctx i)) (\<lambda>e. case e of
           None \<Rightarrow> ret (not_found ''Audit entry not found'')
         | Some entry \<Rightarrow> k i entry)))"

definition get_audit_entry :: "tenant_ctx \<Rightarrow> string \<Rightarrow> reply api" where
  "get_audit_entry ctx t = with_entry ctx t (\<lambda>i e. ret (reply 200 (BEntry e)))"

definition get_inclusion :: "'k service \<Rightarrow> tenant_ctx \<Rightarrow> string \<Rightarrow> reply api" where
  "get_inclusion srv ctx t = with_entry ctx t (\<lambda>i e.
     andthen get_state (\<lambda>s.
     andthen (plain (audit_inclusionProof (srv_digest srv) (as_log s) i)) (\<lambda>pf.
       ret (reply 200 (BInclusion pf (ae_entryHash e) (fst (audit_root (srv_digest srv) (as_log s))))))))"

definition get_consistency :: "'k service \<Rightarrow> tenant_ctx \<Rightarrow> query \<Rightarrow> reply api" where
  "get_consistency srv ctx q =
     andthen (requireScope ctx ''audit:read'') (\<lambda>_.
     andthen (zod (consistencyQuerySchema q)) (\<lambda>from_size.
     andthen get_state (\<lambda>s. case audit_root (srv_digest srv) (as_log s) of (r, n) \<Rightarrow>
       if int n < from_size then
         ret (refusal ''invalid-range'' ''Requested size exceeds the current log'' 422
           (Some (''log has '' @ show_nat n @ '' entries, asked for a proof from '' @ show_int from_size)) (Some ''from''))
       else andthen (plain (audit_consistencyProof (srv_digest srv) (as_log s) from_size))
         (\<lambda>pf. ret (reply 200 (BConsistency pf r n))))))"

definition post_audit_verify :: "'k service \<Rightarrow> tenant_ctx \<Rightarrow> reply api" where
  "post_audit_verify srv ctx =
     andthen (requireScope ctx ''audit:read'') (\<lambda>_.
     andthen get_state (\<lambda>s. ret (reply 200 (BVerdict (audit_verify (srv_digest srv) (as_log s))))))"

end
