(* ===== verification/Api_Access.thy ===== *)
theory Api_Access
  imports Api_Evidence
begin

text \<open>
  The routes that answer without a caller, the caller's own profile, and the routes over
  credentials: API keys (\<open>api/app.ts\<close>), providers and provider credentials
  (\<open>api/routes/providers.ts\<close>, with \<open>list\<close> and \<open>describe\<close> of \<open>providers/registry.ts\<close>).
\<close>

section \<open>Public routes\<close>

definition get_health :: reply where
  "get_health = reply 200 BHealth"

definition worker_stands :: "'k service \<Rightarrow> moment \<Rightarrow> api_state \<Rightarrow> worker_status option" where
  "worker_stands srv mo s = map_option (\<lambda>w. Worker.status w (mo_stopped mo)
     \<lparr>wk_runs = as_runs s, wk_log = as_log s, wk_stats = as_stats s\<rparr>) (srv_worker srv)"

definition get_ready :: "'k service \<Rightarrow> moment \<Rightarrow> api_state \<Rightarrow> reply" where
  "get_ready srv mo s =
     (let worker = worker_stands srv mo s; unavailable = given (srv_executionUnavailable srv);
          ready = ((case worker of None \<Rightarrow> False | Some w \<Rightarrow> wt_running w) \<and> unavailable = None)
      in reply (if ready then 200 else 503) (BReady \<lparr>rdy_ready = ready, rdy_worker = worker,
        rdy_unavailable = unavailable,
        rdy_note = (if ready then None
          else case worker of
            None \<Rightarrow> Some ''No worker is attached: queued runs will never be claimed.''
          | Some _ \<Rightarrow> (case srv_executionUnavailable srv of
              Some why \<Rightarrow> Some why
            | None \<Rightarrow> Some ''The worker is attached but not running.''))\<rparr>))"

definition jstrs :: "string list \<Rightarrow> jsval" where
  "jstrs xs = JArr (map JStr xs)"

definition discovery :: jsval where
  "discovery = JObj
     [(''service'', JStr ''agent-eval control plane''), (''version'', JStr ''1.0.0''),
      (''authentication'', JObj
        [(''scheme'', JStr ''Bearer''), (''production'', JStr ''OIDC access token''),
         (''development'', JStr (''Bearer <tenantId>:<actor>:<comma-separated scopes>. ''
           @ ''Example: Bearer acme:you@example.test:runs:read,runs:write,evidence:read,''
           @ ''evidence:generate,approvals:decide,audit:read'')),
         (''scopes'', jstrs [''runs:read'', ''runs:write'', ''evidence:read'', ''evidence:generate'',
           ''approvals:decide'', ''audit:read'', ''splits:held-out''])]),
      (''publicEndpoints'', jstrs [''GET /v1'', ''GET /v1/health'', ''GET /v1/evidence/keys'']),
      (''endpoints'', JObj
        [(''runs'', jstrs [''POST /v1/runs'', ''GET /v1/runs'', ''GET /v1/runs/:id'',
           ''GET /v1/runs/:id/manifest'', ''POST /v1/runs/:id/cancel'', ''POST /v1/runs/compare'']),
         (''approvals'', jstrs [''GET /v1/approvals'', ''POST /v1/approvals/:id/decide'']),
         (''evidence'', jstrs [''POST /v1/evidence/bundles'', ''GET /v1/evidence/bundles/:id'',
           ''POST /v1/evidence/bundles/:id/verify'', ''GET /v1/evidence/bundles/:id/offline'',
           ''GET /v1/evidence/keys'']),
         (''audit'', jstrs [''GET /v1/audit'', ''GET /v1/audit/root'', ''GET /v1/audit/:seq'',
           ''GET /v1/audit/:seq/inclusion-proof'', ''GET /v1/audit/consistency-proof'',
           ''POST /v1/audit/verify''])]),
      (''docs'', JStr ''docs/api.md'')]"

section \<open>The caller\<close>

definition SCOPE_DESCRIPTIONS :: "(string \<times> string) list" where
  "SCOPE_DESCRIPTIONS =
     [(''runs:read'', ''View evaluation runs, their manifests and comparisons.''),
      (''runs:write'', ''Start and cancel evaluation runs.''),
      (''evidence:read'', ''Read evidence bundles and verify them.''),
      (''evidence:generate'', ''Generate and sign new evidence bundles.''),
      (''approvals:decide'', ''Approve, reject or escalate gated actions.''),
      (''audit:read'', ''Query the audit log and request inclusion proofs.''),
      (''splits:held-out'', ''Read held-out task splits.'')]"

definition get_me :: "tenant_ctx \<Rightarrow> reply api" where
  "get_me ctx = ret (reply 200 (BMe ctx (map (\<lambda>sc.
     \<lparr>sci_scope = sc, sci_description = (case map_of SCOPE_DESCRIPTIONS sc of None \<Rightarrow> [] | Some d \<Rightarrow> d),
      sci_consequential = (sc \<in> set CONSEQUENTIAL_SCOPES), sci_held = (sc \<in> set (tc_scopes ctx))\<rparr>) ALL_SCOPES)))"

section \<open>API keys\<close>

definition get_api_keys :: "tenant_ctx \<Rightarrow> reply api" where
  "get_api_keys ctx = andthen (requireScope ctx ''runs:read'') (\<lambda>_.
     andthen get_state (\<lambda>s. ret (reply 200 (BApiKeys (key_list (as_keys s) (tc_tenantId ctx))))))"

definition post_api_key :: "'k service \<Rightarrow> moment \<Rightarrow> tenant_ctx \<Rightarrow> jsval \<Rightarrow> reply api" where
  "post_api_key srv mo ctx content =
     andthen (requireScope ctx ''runs:write'') (\<lambda>_.
     andthen (zod (createApiKeySchema content)) (\<lambda>input.
       let unrecognised = filter (\<lambda>sc. sc \<notin> set ALL_SCOPES) (cki_scopes input) in
       if unrecognised \<noteq> [] then
         ret (refusal ''unknown-scope'' ''Unknown scope'' 422
           (Some (''not a scope this control plane recognises: '' @ join '', '' unrecognised)) (Some ''scopes''))
       else
         andthen (on_keys (key_create (srv_digest srv) (mo_now mo) (mo_random mo) (tc_tenantId ctx) (tc_actor ctx)
           input (tc_scopes ctx))) (\<lambda>r. case r of
             Inl e \<Rightarrow> ret (refusal ''api-key-rejected'' ''API key not created'' (ke_status e) (Some (ke_message e)) None)
           | Inr (key, secret) \<Rightarrow>
               andthen (record_event srv mo ctx ''api-key.created'' (ak_id key)
                 (Some [(''name'', JStr (ak_name key)), (''scopes'', jstrs (ak_scopes key)),
                        (''masked'', JStr (ak_masked key))])) (\<lambda>_.
               ret (reply 201 (BApiKeyCreated key secret))))))"

definition with_api_key :: "tenant_ctx \<Rightarrow> string \<Rightarrow> (api_key_public \<Rightarrow> reply api) \<Rightarrow> reply api" where
  "with_api_key ctx kid k = andthen get_state (\<lambda>s. case key_get (as_keys s) (tc_tenantId ctx) kid of
     None \<Rightarrow> ret (not_found ''API key not found'')
   | Some key \<Rightarrow> k key)"

definition get_api_key :: "tenant_ctx \<Rightarrow> string \<Rightarrow> reply api" where
  "get_api_key ctx kid = andthen (requireScope ctx ''runs:read'') (\<lambda>_.
     with_api_key ctx kid (\<lambda>key. ret (reply 200 (BApiKey (Some key)))))"

definition revoke_api_key :: "'k service \<Rightarrow> moment \<Rightarrow> tenant_ctx \<Rightarrow> string \<Rightarrow> reply api" where
  "revoke_api_key srv mo ctx kid =
     andthen (requireScope ctx ''runs:write'') (\<lambda>_.
     with_api_key ctx kid (\<lambda>existing.
       if ak_revokedAt existing \<noteq> None
       then ret (refusal ''already-revoked'' ''This key is already revoked'' 409 None None)
       else
         andthen (on_keys (key_revoke (mo_now mo) (tc_tenantId ctx) kid (tc_actor ctx))) (\<lambda>key.
         andthen (record_event srv mo ctx ''api-key.revoked'' kid (Some [(''name'', JStr (ak_name existing))])) (\<lambda>_.
         ret (reply 200 (BApiKey key))))))"

section \<open>Providers\<close>

text \<open>\<open>describe\<close>: what is known of each adapter, in order of registration.\<close>

definition describe_provider :: "'k service \<Rightarrow> adapter \<Rightarrow> provider_entry" where
  "describe_provider srv p = (let caps = pv_capabilities p in
     \<lparr>pe_id = pv_id p, pe_displayName = pv_displayName p, pe_requiresApiKey = pcap_requiresApiKey caps,
      pe_supportsModelListing = (pcap_modelListing caps \<noteq> Unsupported \<and> pv_listModels p \<noteq> None),
      pe_modelListing = pcap_modelListing caps, pe_capabilities = caps,
      pe_credentialConfigured = (\<not> pcap_requiresApiKey caps
        \<or> given (cf_apiKey (resolveConfig (srv_env srv) (pv_id p) no_overrides)) \<noteq> None)\<rparr>)"

definition describe :: "'k service \<Rightarrow> adapter jsmap \<Rightarrow> provider_entry list" where
  "describe srv ps = map (describe_provider srv) (map_values ps)"

definition credential_lines :: "credential_public list \<Rightarrow> string \<Rightarrow> credential_line list" where
  "credential_lines cs pid = map (\<lambda>c. (pc_id c, pc_name c, pc_masked c, pc_lastUsedAt c))
     (filter (\<lambda>c. pc_providerId c = pid \<and> pc_revokedAt c = None) cs)"

definition get_providers :: "'k service \<Rightarrow> moment \<Rightarrow> tenant_ctx \<Rightarrow> reply api" where
  "get_providers srv mo ctx = andthen (requireScope ctx ''runs:read'') (\<lambda>_.
     andthen get_state (\<lambda>s. let stored = cred_list (as_creds s) (tc_tenantId ctx) None in
       ret (reply 200 (BProviders (srv_box srv \<noteq> None)
         (map (\<lambda>p. (p, credential_lines stored (pe_id p))) (describe srv (mo_adapters mo)))))))"

text \<open>A \<open>CredentialError\<close> has no \<open>statusCode\<close>: it leaves these two routes as any other error.\<close>

definition revealed_config ::
    "'k service \<Rightarrow> moment \<Rightarrow> tenant_ctx \<Rightarrow> provider_config \<Rightarrow> string option \<Rightarrow> provider_config option api" where
  "revealed_config srv mo ctx config credentialId = (case given credentialId of
     None \<Rightarrow> ret (Some config)
   | Some cid \<Rightarrow>
       andthen (on_creds (cred_reveal (srv_cipher srv) (srv_box srv) (mo_now mo) (tc_tenantId ctx) cid)) (\<lambda>r. case r of
         Inl e \<Rightarrow> throw (OtherThrown (ce_message e))
       | Inr None \<Rightarrow> ret None
       | Inr (Some v) \<Rightarrow> ret (Some \<lparr>cf_apiKey = override (cf_apiKey config) (rv_apiKey v),
           cf_baseUrl = override (cf_baseUrl config) (rv_baseUrl v)\<rparr>)))"

definition test_provider :: "'k service \<Rightarrow> moment \<Rightarrow> tenant_ctx \<Rightarrow> jsval \<Rightarrow> reply api" where
  "test_provider srv mo ctx content =
     andthen (requireScope ctx ''runs:read'') (\<lambda>_.
     andthen (zod (testProviderSchema content)) (\<lambda>(providerId, credentialId).
     case map_get (mo_adapters mo) providerId of
       None \<Rightarrow> ret (refusal ''not-found'' ''Unknown provider'' 404 (Some providerId) None)
     | Some p \<Rightarrow>
         andthen (revealed_config srv mo ctx (resolveConfig (srv_env srv) providerId no_overrides) credentialId) (\<lambda>cfg.
         case cfg of
           None \<Rightarrow> ret (not_found ''Credential not found'')
         | Some config \<Rightarrow> (case pv_testConnection p config of
             Inl e \<Rightarrow> throw (OtherThrown (thrown_message e))
           | Inr st \<Rightarrow>
               andthen (record_event srv mo ctx ''provider.tested'' providerId
                 (Some ([(''providerId'', JStr providerId), (''status'', JStr (cn_status st))]
                   @ (case given credentialId of None \<Rightarrow> [] | Some cid \<Rightarrow> [(''credentialId'', JStr cid)])))) (\<lambda>_.
               ret (reply 200 (BConnection st)))))))"

definition get_models :: "'k service \<Rightarrow> moment \<Rightarrow> tenant_ctx \<Rightarrow> string \<Rightarrow> string option \<Rightarrow> reply api" where
  "get_models srv mo ctx pid credentialId =
     andthen (requireScope ctx ''runs:read'') (\<lambda>_. case map_get (mo_adapters mo) pid of
       None \<Rightarrow> ret (not_found ''Unknown provider'')
     | Some p \<Rightarrow> (case pv_listModels p of
         None \<Rightarrow> ret (reply 200 BNoListing)
       | Some listModels \<Rightarrow>
           let config = resolveConfig (srv_env srv) pid no_overrides in
           andthen (revealed_config srv mo ctx config credentialId) (\<lambda>cfg.
           case listModels (case cfg of None \<Rightarrow> config | Some c \<Rightarrow> c) of
             Inl e \<Rightarrow> ret (refusal ''provider-error'' ''Unable to list models'' 502
               (Some (case e of
                  ProviderError category msg _ \<Rightarrow> category @ '': '' @ msg @ ''. You can still enter a model id manually.''
                | OtherError msg \<Rightarrow> msg)) None)
           | Inr ms \<Rightarrow> ret (reply 200 (BModels ms (toISOString (mo_now mo)))))))"

section \<open>Provider credentials\<close>

definition get_credentials :: "tenant_ctx \<Rightarrow> reply api" where
  "get_credentials ctx = andthen (requireScope ctx ''runs:read'') (\<lambda>_.
     andthen get_state (\<lambda>s. ret (reply 200 (BCredentials (cred_list (as_creds s) (tc_tenantId ctx) None)))))"

definition post_credential :: "'k service \<Rightarrow> moment \<Rightarrow> tenant_ctx \<Rightarrow> jsval \<Rightarrow> reply api" where
  "post_credential srv mo ctx content =
     andthen (requireScope ctx ''runs:write'') (\<lambda>_.
     andthen (zod (createCredentialSchema (srv_edge srv) content)) (\<lambda>input.
       if \<not> map_has (mo_adapters mo) (cci_providerId input) then
         ret (refusal ''unknown-provider'' ''Unknown provider'' 422 (Some (cci_providerId input)) (Some ''providerId''))
       else
         andthen (on_creds (cred_create (srv_cipher srv) (srv_box srv) (mo_now mo) (mo_suffix mo) (mo_iv mo)
           (tc_tenantId ctx) (tc_actor ctx) input)) (\<lambda>r. case r of
             Inl e \<Rightarrow> ret (refusal ''credential-rejected'' ''Credential not stored'' (ce_status e)
               (Some (ce_message e)) None)
           | Inr c \<Rightarrow>
               andthen (record_event srv mo ctx ''provider-credential.created'' (pc_id c)
                 (Some [(''providerId'', JStr (pc_providerId c)), (''name'', JStr (pc_name c)),
                        (''masked'', JStr (pc_masked c))])) (\<lambda>_.
               ret (reply 201 (BCredential c))))))"

definition revoke_credential :: "'k service \<Rightarrow> moment \<Rightarrow> tenant_ctx \<Rightarrow> string \<Rightarrow> reply api" where
  "revoke_credential srv mo ctx cid =
     andthen (requireScope ctx ''runs:write'') (\<lambda>_.
     andthen (on_creds (cred_revoke (mo_now mo) (tc_tenantId ctx) cid)) (\<lambda>r. case r of
       None \<Rightarrow> ret (not_found ''Credential not found'')
     | Some c \<Rightarrow>
         andthen (record_event srv mo ctx ''provider-credential.revoked'' cid
           (Some [(''providerId'', JStr (pc_providerId c)), (''name'', JStr (pc_name c))])) (\<lambda>_.
         ret (reply 200 (BCredential c)))))"

end
