(* ===== verification/Api_System.thy ===== *)
theory Api_System
  imports Api_Access
begin

text \<open>
  \<open>api/routes/system.ts\<close>: what the machine is and what it can run. The capabilities are cached
  for thirty seconds; a probe that cannot answer is reported as it is.
\<close>

section \<open>The cache\<close>

definition CACHE_MS :: int where
  "CACHE_MS = 30000"

definition capabilities :: "moment \<Rightarrow> system_capabilities api" where
  "capabilities mo s = (case as_cached s of
     Some (cached_at, v) \<Rightarrow> if mo_now mo - cached_at < CACHE_MS then (Inr v, s) else
       (case mo_detect mo of Inl e \<Rightarrow> (Inl (OtherThrown e), s)
        | Inr w \<Rightarrow> (Inr w, s\<lparr>as_cached := Some (mo_now mo, w)\<rparr>))
   | None \<Rightarrow> (case mo_detect mo of Inl e \<Rightarrow> (Inl (OtherThrown e), s)
        | Inr w \<Rightarrow> (Inr w, s\<lparr>as_cached := Some (mo_now mo, w)\<rparr>)))"

section \<open>Routes\<close>

definition get_capabilities :: "moment \<Rightarrow> tenant_ctx \<Rightarrow> reply api" where
  "get_capabilities mo ctx = andthen (requireScope ctx ''runs:read'') (\<lambda>_.
     andthen (capabilities mo) (\<lambda>caps. ret (reply 200 (BCapabilities caps))))"

definition get_gpu :: "moment \<Rightarrow> tenant_ctx \<Rightarrow> reply api" where
  "get_gpu mo ctx = andthen (requireScope ctx ''runs:read'') (\<lambda>_.
     andthen (capabilities mo) (\<lambda>caps.
       ret (reply 200 (BGpu (sc_gpu caps) (mo_telemetry mo) (toISOString (mo_now mo))))))"

definition describeProbe :: "('a \<Rightarrow> string) \<Rightarrow> 'a probe \<Rightarrow> string \<times> string" where
  "describeProbe shown p = (case p of
     POk v \<Rightarrow> (''ok'', shown v)
   | PUnavailable r \<Rightarrow> (''unavailable'', r)
   | PUnknown r \<Rightarrow> (''unknown'', r))"

definition health_components :: "system_capabilities \<Rightarrow> (string \<times> string \<times> string) list" where
  "health_components caps =
     [(''api'', ''ok'', ''this request was served''),
      (''gpu'', describeProbe (\<lambda>gs. show_nat (length gs) @ '' device(s): '' @ join '', '' (map gi_name gs)) (sc_gpu caps)),
      (''cuda'', describeProbe (\<lambda>v. v) (sc_cuda caps)),
      (''driver'', describeProbe (\<lambda>v. v) (sc_driver caps)),
      (''docker'', describeProbe (\<lambda>v. ''server '' @ v) (sc_docker caps)),
      (''nvidiaContainerRuntime'', describeProbe (\<lambda>_. ''runtime '' @ quoted ''nvidia'' @ '' is registered with Docker'')
         (sc_nvidiaContainerRuntime caps)),
      (''os'', describeProbe (\<lambda>v. v) (sc_os caps))]"

definition system_health :: "moment \<Rightarrow> system_capabilities \<Rightarrow> system_health" where
  "system_health mo caps =
     (let comps = health_components caps;
          degraded = length (filter (\<lambda>(n, st, d). st \<noteq> ''ok'') comps)
      in \<lparr>sh_summary = (if degraded = 0 then ''all components responded''
            else show_nat degraded @ '' component(s) unavailable or unknown''),
          sh_deploymentTarget = si_target (sc_dgxSpark caps), sh_dgxSpark = si_detected (sc_dgxSpark caps),
          sh_components = comps, sh_checkedAt = toISOString (mo_now mo)\<rparr>)"

definition get_system_health :: "moment \<Rightarrow> tenant_ctx \<Rightarrow> reply api" where
  "get_system_health mo ctx = andthen (requireScope ctx ''runs:read'') (\<lambda>_.
     andthen (capabilities mo) (\<lambda>caps. ret (reply 200 (BSystemHealth (system_health mo caps)))))"

definition runtime_status ::
    "'k service \<Rightarrow> moment \<Rightarrow> system_capabilities \<Rightarrow> runtime_descriptor \<Rightarrow> string + runtime_status" where
  "runtime_status srv mo caps d =
     (let config = resolveConfig (srv_env srv) (rd_id d) no_overrides in
      bindE (case map_get (mo_adapters mo) (rd_id d) of
          None \<Rightarrow> Inr \<lparr>cn_status = ''unavailable'', cn_detail = Some ''No adapter registered for this runtime.'',
            cn_modelCount = None\<rparr>
        | Some p \<Rightarrow> (case pv_testConnection p config of Inl e \<Rightarrow> Inl (thrown_message e) | Inr st \<Rightarrow> Inr st))
        (\<lambda>connection. Inr \<lparr>rt_descriptor = d, rt_configured = (given (cf_baseUrl config) \<noteq> None),
           rt_baseUrl = given (cf_baseUrl config), rt_connection = connection,
           rt_platformNote = (if si_detected (sc_dgxSpark caps) then rd_note d
             else ''This host is not a recognised DGX Spark; the DGX Spark note is informational only.'')\<rparr>))"

definition get_runtimes :: "'k service \<Rightarrow> moment \<Rightarrow> tenant_ctx \<Rightarrow> reply api" where
  "get_runtimes srv mo ctx = andthen (requireScope ctx ''runs:read'') (\<lambda>_.
     andthen (capabilities mo) (\<lambda>caps.
     andthen (plain (mapE (runtime_status srv mo caps) RUNTIME_DESCRIPTORS)) (\<lambda>rs.
       ret (reply 200 (BRuntimes rs (si_target (sc_dgxSpark caps)) (sc_isArm64 caps))))))"

definition get_runtime :: "'k service \<Rightarrow> tenant_ctx \<Rightarrow> string \<Rightarrow> reply api" where
  "get_runtime srv ctx rid = andthen (requireScope ctx ''runs:read'') (\<lambda>_. case describeRuntime rid of
     None \<Rightarrow> ret (refusal ''not-found'' ''Unknown runtime'' 404 (Some rid) None)
   | Some d \<Rightarrow> ret (reply 200 (BRuntime d
       (given (cf_baseUrl (resolveConfig (srv_env srv) (rd_id d) no_overrides)) \<noteq> None))))"

definition memory_request :: "query \<Rightarrow> double \<Rightarrow> memory_input" where
  "memory_request q parametersB =
     (let contextLength = (case map_of q ''contextLength'' of None \<Rightarrow> dint 8192 | Some t \<Rightarrow> number_of_text t)
      in \<lparr>me_parametersB = parametersB,
          me_precision = (case map_of q ''precision'' of None \<Rightarrow> ''bf16'' | Some p \<Rightarrow> p),
          me_contextLength = (if is_finite contextLength then contextLength else dint 8192),
          me_concurrency = map_option number_of_text (given (map_of q ''concurrency'')),
          me_layers = None, me_hiddenSize = None, me_kvHeads = None, me_attentionHeads = None\<rparr>)"

definition get_memory :: "moment \<Rightarrow> tenant_ctx \<Rightarrow> query \<Rightarrow> reply api" where
  "get_memory mo ctx q = andthen (requireScope ctx ''runs:read'') (\<lambda>_.
     andthen (capabilities mo) (\<lambda>caps. case given (map_of q ''parametersB'') of
       None \<Rightarrow> ret (reply 200 (BMemory (sc_totalBytes caps) (sc_freeBytes caps) (sc_unified caps)))
     | Some t \<Rightarrow> (let parametersB = number_of_text t in
         if \<not> is_finite parametersB \<or> dle parametersB (DFin 0) then
           ret (refusal ''invalid-parameter'' ''parametersB must be a positive number'' 400 (Some t) (Some ''parametersB''))
         else ret (reply 200 (BMemoryEstimate (estimateModelMemory (memory_request q parametersB))
           (sc_totalBytes caps) (sc_freeBytes caps))))))"

end
