(* ===== verification/Api_Server.thy ===== *)
theory Api_Server
  imports Api_System
begin

text \<open>
  The whole server of \<open>api/app.ts\<close>: its routes, the dispatch of a request through the hook, the
  handler and the error handler, and the states the server and its worker can reach together.
  A request that matches no route is answered by the framework and is left out.
\<close>

section \<open>Routes\<close>

datatype public_route = Health | Ready | Discovery | PublishedKeys

datatype route =
    Unprotected public_route
  | PostRun jsval | GetRuns query | GetEntries string | GetRun string | GetEnvironment string
  | GetManifest string | CancelRun string | CompareRuns jsval
  | GetApprovals "string option" | DecideApproval string jsval
  | PostBundle jsval | GetBundle string | VerifyBundle string | OfflineBundle string
  | GetMe | GetApiKeys | PostApiKey jsval | GetApiKey string | RevokeApiKey string
  | GetProviders | TestProvider jsval | GetModels string "string option"
  | GetCredentials | PostCredential jsval | RevokeCredential string
  | GetCapabilities | GetGpu | GetSystemHealth | GetRuntimes | GetMemory query | GetRuntime string
  | GetAudit query | GetAuditRoot | GetAuditEntry string | GetInclusion string
  | GetConsistency query | PostAuditVerify

fun route_path :: "route \<Rightarrow> string" where
  "route_path (Unprotected Health) = ''/v1/health''"
| "route_path (Unprotected Ready) = ''/v1/ready''"
| "route_path (Unprotected Discovery) = ''/v1''"
| "route_path (Unprotected PublishedKeys) = ''/v1/evidence/keys''"
| "route_path (PostRun b) = ''/v1/runs''"
| "route_path (GetRuns q) = ''/v1/runs''"
| "route_path (GetEntries i) = ''/v1/runs/'' @ i @ ''/entries''"
| "route_path (GetRun i) = ''/v1/runs/'' @ i"
| "route_path (GetEnvironment i) = ''/v1/runs/'' @ i @ ''/environment''"
| "route_path (GetManifest i) = ''/v1/runs/'' @ i @ ''/manifest''"
| "route_path (CancelRun i) = ''/v1/runs/'' @ i @ ''/cancel''"
| "route_path (CompareRuns b) = ''/v1/runs/compare''"
| "route_path (GetApprovals st) = ''/v1/approvals''"
| "route_path (DecideApproval i b) = ''/v1/approvals/'' @ i @ ''/decide''"
| "route_path (PostBundle b) = ''/v1/evidence/bundles''"
| "route_path (GetBundle i) = ''/v1/evidence/bundles/'' @ i"
| "route_path (VerifyBundle i) = ''/v1/evidence/bundles/'' @ i @ ''/verify''"
| "route_path (OfflineBundle i) = ''/v1/evidence/bundles/'' @ i @ ''/offline''"
| "route_path GetMe = ''/v1/me''"
| "route_path GetApiKeys = ''/v1/api-keys''"
| "route_path (PostApiKey b) = ''/v1/api-keys''"
| "route_path (GetApiKey i) = ''/v1/api-keys/'' @ i"
| "route_path (RevokeApiKey i) = ''/v1/api-keys/'' @ i @ ''/revoke''"
| "route_path GetProviders = ''/v1/providers''"
| "route_path (TestProvider b) = ''/v1/providers/test''"
| "route_path (GetModels i c) = ''/v1/providers/'' @ i @ ''/models''"
| "route_path GetCredentials = ''/v1/provider-credentials''"
| "route_path (PostCredential b) = ''/v1/provider-credentials''"
| "route_path (RevokeCredential i) = ''/v1/provider-credentials/'' @ i @ ''/revoke''"
| "route_path GetCapabilities = ''/v1/system/capabilities''"
| "route_path GetGpu = ''/v1/system/gpu''"
| "route_path GetSystemHealth = ''/v1/system/health''"
| "route_path GetRuntimes = ''/v1/system/runtimes''"
| "route_path (GetMemory q) = ''/v1/system/memory''"
| "route_path (GetRuntime i) = ''/v1/system/runtimes/'' @ i"
| "route_path (GetAudit q) = ''/v1/audit''"
| "route_path GetAuditRoot = ''/v1/audit/root''"
| "route_path (GetAuditEntry t) = ''/v1/audit/'' @ t"
| "route_path (GetInclusion t) = ''/v1/audit/'' @ t @ ''/inclusion-proof''"
| "route_path (GetConsistency q) = ''/v1/audit/consistency-proof''"
| "route_path PostAuditVerify = ''/v1/audit/verify''"

section \<open>Dispatch\<close>

definition public_reply :: "'k service \<Rightarrow> moment \<Rightarrow> public_route \<Rightarrow> api_state \<Rightarrow> reply" where
  "public_reply srv mo p s = (case p of
     Health \<Rightarrow> get_health
   | Ready \<Rightarrow> get_ready srv mo s
   | Discovery \<Rightarrow> reply 200 (BJson discovery)
   | PublishedKeys \<Rightarrow> evidence_keys srv)"

fun handle :: "'k service \<Rightarrow> moment \<Rightarrow> tenant_ctx \<Rightarrow> route \<Rightarrow> reply api" where
  "handle srv mo ctx (Unprotected p) = (\<lambda>s. (Inr (public_reply srv mo p s), s))"
| "handle srv mo ctx (PostRun b) = post_run srv mo ctx b"
| "handle srv mo ctx (GetRuns q) = get_runs ctx q"
| "handle srv mo ctx (GetEntries i) = get_entries ctx i"
| "handle srv mo ctx (GetRun i) = get_run ctx i"
| "handle srv mo ctx (GetEnvironment i) = get_environment ctx i"
| "handle srv mo ctx (GetManifest i) = get_manifest ctx i"
| "handle srv mo ctx (CancelRun i) = cancel_run srv mo ctx i"
| "handle srv mo ctx (CompareRuns b) = compare_runs ctx b"
| "handle srv mo ctx (GetApprovals st) = get_approvals ctx st"
| "handle srv mo ctx (DecideApproval i b) = decide_approval srv mo ctx i b"
| "handle srv mo ctx (PostBundle b) = post_bundle srv mo ctx b"
| "handle srv mo ctx (GetBundle i) = get_bundle ctx i"
| "handle srv mo ctx (VerifyBundle i) = verify_bundle srv ctx i"
| "handle srv mo ctx (OfflineBundle i) = offline_bundle srv ctx i"
| "handle srv mo ctx GetMe = get_me ctx"
| "handle srv mo ctx GetApiKeys = get_api_keys ctx"
| "handle srv mo ctx (PostApiKey b) = post_api_key srv mo ctx b"
| "handle srv mo ctx (GetApiKey i) = get_api_key ctx i"
| "handle srv mo ctx (RevokeApiKey i) = revoke_api_key srv mo ctx i"
| "handle srv mo ctx GetProviders = get_providers srv mo ctx"
| "handle srv mo ctx (TestProvider b) = test_provider srv mo ctx b"
| "handle srv mo ctx (GetModels i c) = get_models srv mo ctx i c"
| "handle srv mo ctx GetCredentials = get_credentials ctx"
| "handle srv mo ctx (PostCredential b) = post_credential srv mo ctx b"
| "handle srv mo ctx (RevokeCredential i) = revoke_credential srv mo ctx i"
| "handle srv mo ctx GetCapabilities = get_capabilities mo ctx"
| "handle srv mo ctx GetGpu = get_gpu mo ctx"
| "handle srv mo ctx GetSystemHealth = get_system_health mo ctx"
| "handle srv mo ctx GetRuntimes = get_runtimes srv mo ctx"
| "handle srv mo ctx (GetMemory q) = get_memory mo ctx q"
| "handle srv mo ctx (GetRuntime i) = get_runtime srv ctx i"
| "handle srv mo ctx (GetAudit q) = get_audit srv ctx q"
| "handle srv mo ctx GetAuditRoot = get_audit_root srv ctx"
| "handle srv mo ctx (GetAuditEntry t) = get_audit_entry ctx t"
| "handle srv mo ctx (GetInclusion t) = get_inclusion srv ctx t"
| "handle srv mo ctx (GetConsistency q) = get_consistency srv ctx q"
| "handle srv mo ctx PostAuditVerify = post_audit_verify srv ctx"

record request =
  rq_route :: route
  rq_authorization :: "string option"

definition answer_with :: "'k service \<Rightarrow> reply api \<Rightarrow> api_state \<Rightarrow> reply \<times> api_state" where
  "answer_with srv m s = (case m s of
     (Inr r, t) \<Rightarrow> (r, t)
   | (Inl e, t) \<Rightarrow> (error_reply (ed_text (srv_edge srv)) e, t))"

text \<open>
  The hook, then the handler. A handler that reads \<open>req.ctx\<close> on a path the hook let pass without
  a caller would throw a type error; no protected route has such a path.
\<close>

definition serve :: "'k service \<Rightarrow> moment \<Rightarrow> request \<Rightarrow> api_state \<Rightarrow> reply \<times> api_state" where
  "serve srv mo req s =
     (case on_request srv mo (route_path (rq_route req)) (rq_authorization req) s of
        (Refused r, t) \<Rightarrow> (r, t)
      | (Caller ctx, t) \<Rightarrow> answer_with srv (handle srv mo ctx (rq_route req)) t
      | (Public, t) \<Rightarrow> (case rq_route req of
          Unprotected p \<Rightarrow> (public_reply srv mo p t, t)
        | _ \<Rightarrow> answer_with srv (throw (OtherThrown ''req.ctx is undefined'')) t))"

section \<open>The server and its worker\<close>

definition worker_view :: "api_state \<Rightarrow> worker_state" where
  "worker_view s = \<lparr>wk_runs = as_runs s, wk_log = as_log s, wk_stats = as_stats s\<rparr>"

definition with_worker :: "worker_state \<Rightarrow> api_state \<Rightarrow> api_state" where
  "with_worker w s = s\<lparr>as_runs := wk_runs w, as_log := wk_log w, as_stats := wk_stats w\<rparr>"

definition worker_step :: "worker_options \<Rightarrow> instant \<Rightarrow> api_state \<Rightarrow> api_state" where
  "worker_step w now s = with_worker (snd (tick w now (worker_view s))) s"

text \<open>A server as \<open>main.ts\<close> builds it: the worker writes to the log the routes write to.\<close>

definition wired :: "'k service \<Rightarrow> bool" where
  "wired srv = (case srv_worker srv of None \<Rightarrow> True | Some w \<Rightarrow> wo_digest w = srv_digest srv)"

datatype event = Request moment request | Poll instant

fun step :: "'k service \<Rightarrow> event \<Rightarrow> api_state \<Rightarrow> api_state" where
  "step srv (Request mo req) s = snd (serve srv mo req s)"
| "step srv (Poll now) s = (case srv_worker srv of None \<Rightarrow> s | Some w \<Rightarrow> worker_step w now s)"

text \<open>The caller a request is admitted as, if it is.\<close>

definition caller :: "'k service \<Rightarrow> moment \<Rightarrow> request \<Rightarrow> api_state \<Rightarrow> tenant_ctx option" where
  "caller srv mo req s = (case fst (on_request srv mo (route_path (rq_route req)) (rq_authorization req) s) of
     Caller ctx \<Rightarrow> Some ctx | _ \<Rightarrow> None)"

text \<open>What the server reaches by events that satisfy a condition where they happen.\<close>

inductive reaches :: "'k service \<Rightarrow> (event \<Rightarrow> api_state \<Rightarrow> bool) \<Rightarrow> api_state \<Rightarrow> api_state \<Rightarrow> bool" for srv P s where
  here: "reaches srv P s s"
| there: "reaches srv P s t \<Longrightarrow> P ev t \<Longrightarrow> reaches srv P s (step srv ev t)"

lemma reaches_trans: "reaches srv P s t \<Longrightarrow> reaches srv P r s \<Longrightarrow> reaches srv P r t"
  by (induction rule: reaches.induct) (auto intro: reaches.intros)

lemma reaches_mono: "reaches srv P s t \<Longrightarrow> (\<And>ev a. P ev a \<Longrightarrow> Q ev a) \<Longrightarrow> reaches srv Q s t"
  by (induction rule: reaches.induct) (auto intro: reaches.intros)

lemma reaches_keeps:
  assumes "reaches srv P s t" "\<And>a. R a a" "\<And>a b c. R a b \<Longrightarrow> R b c \<Longrightarrow> R a c"
    "\<And>ev a. P ev a \<Longrightarrow> R a (step srv ev a)"
  shows "R s t"
  using assms(1)
proof (induction rule: reaches.induct)
  case here
  show ?case by (rule assms(2))
next
  case (there t ev)
  show ?case by (rule assms(3) [OF there.IH assms(4)]) (rule there.hyps(2))
qed

text \<open>A list of events, replayed in order.\<close>

fun replay :: "'k service \<Rightarrow> event list \<Rightarrow> api_state \<Rightarrow> api_state" where
  "replay srv [] s = s"
| "replay srv (e # es) s = replay srv es (step srv e s)"

fun allowed :: "'k service \<Rightarrow> (event \<Rightarrow> api_state \<Rightarrow> bool) \<Rightarrow> event list \<Rightarrow> api_state \<Rightarrow> bool" where
  "allowed srv P [] s = True"
| "allowed srv P (e # es) s = (P e s \<and> allowed srv P es (step srv e s))"

lemma replay_reaches: "allowed srv P es s \<Longrightarrow> reaches srv P s (replay srv es s)"
proof (induction es arbitrary: s)
  case (Cons e es)
  have "reaches srv P s (step srv e s)" by (rule reaches.there [OF reaches.here]) (use Cons.prems in simp)
  moreover have "reaches srv P (step srv e s) (replay srv es (step srv e s))" using Cons by simp
  ultimately show ?case using reaches_trans by fastforce
qed (simp add: reaches.here)

end
