(* ===== verification/Api_Laws.thy ===== *)
theory Api_Laws
  imports Api_Server Store_Laws Run_Lifecycle
begin

text \<open>
  What every request keeps. A relation between the state before and after a request holds of
  every request once it holds of each effect a handler may have on the state; the locale
  states those effects with what the handler has checked before each of them, and its theorem
  covers all routes, all outcomes and the authentication hook. Instances follow in the
  theories that need them.
\<close>

section \<open>Pieces of handlers\<close>

definition fresh_id :: "moment \<Rightarrow> string \<Rightarrow> nat \<Rightarrow> string" where
  "fresh_id mo pre c = pre @ ''_'' @ show36 (nat (mo_now mo)) @ show36 c"

lemma andthen_get_state [simp]: "andthen get_state f s = f s s"
  by (simp add: andthen_def get_state_def)

lemma andthen_plain: "andthen (plain r) f s = (case r of Inl m \<Rightarrow> (Inl (OtherThrown m), s) | Inr x \<Rightarrow> f x s)"
  by (simp add: plain_def throw_def split: sum.split)

lemma andthen_zod: "andthen (zod r) f s = (case r of Inl e \<Rightarrow> (Inl (ZodThrown e), s) | Inr x \<Rightarrow> f x s)"
  by (simp add: zod_def throw_def split: sum.split)

lemma andthen_newId [simp]: "andthen (newId mo pre) f s = f (fresh_id mo pre (as_counter s)) (s\<lparr>as_counter := Suc (as_counter s)\<rparr>)"
  by (simp add: andthen_def newId_def fresh_id_def)

lemma andthen_scope: "andthen (requireScope ctx sc) f s =
    (if sc \<in> set (tc_scopes ctx) then f () s else (Inl (HttpThrown 403 (''missing required scope: '' @ sc)), s))"
  by (simp add: requireScope_def throw_def)

lemmas handler_steps = andthen_plain andthen_zod andthen_scope

lemma on_simps:
  "andthen (on_runs g) f s = f (fst (g (as_runs s))) (s\<lparr>as_runs := snd (g (as_runs s))\<rparr>)"
  "andthen (on_approvals ga) f s = f (fst (ga (as_approvals s))) (s\<lparr>as_approvals := snd (ga (as_approvals s))\<rparr>)"
  "andthen (on_bundles gb) f s = f (fst (gb (as_bundles s))) (s\<lparr>as_bundles := snd (gb (as_bundles s))\<rparr>)"
  "andthen (on_keys gk) fk s = fk (fst (gk (as_keys s))) (s\<lparr>as_keys := snd (gk (as_keys s))\<rparr>)"
  "andthen (on_creds gc) fc s = fc (fst (gc (as_creds s))) (s\<lparr>as_creds := snd (gc (as_creds s))\<rparr>)"
  by (simp_all add: andthen_def on_runs_def on_approvals_def on_bundles_def on_keys_def on_creds_def split: prod.split)

lemma record_event_state: "snd (record_event srv mo ctx action subject payload s) = s\<lparr>as_log :=
    snd (audit_append (srv_digest srv) (mo_now mo) ctx
      \<lparr>sx_action = action, sx_subject = Some subject, sx_payload = payload, sx_recordedAt = None\<rparr> (as_log s))\<rparr>"
  by (simp add: record_event_def split: prod.split sum.split)

section \<open>The contract\<close>

locale route_effects =
  fixes srv :: "'k service"
    and ok :: "moment \<Rightarrow> bool"
    and who :: "tenant_ctx \<Rightarrow> bool"
    and R :: "api_state \<Rightarrow> api_state \<Rightarrow> bool"
  assumes R_refl: "R s s"
    and R_trans: "R s t \<Longrightarrow> R t u \<Longrightarrow> R s u"
    and log: "who ctx \<Longrightarrow> R s (s\<lparr>as_log := snd (audit_append (srv_digest srv) now ctx ev (as_log s))\<rparr>)"
    and counter: "R s (s\<lparr>as_counter := Suc (as_counter s)\<rparr>)"
    and create: "who ctx \<Longrightarrow> ok mo \<Longrightarrow> rid = fresh_id mo ''run'' (as_counter s) \<Longrightarrow>
      run_manifest srv mo rid input = Inr m \<Longrightarrow> split_refusal ctx (sr_split input) = None \<Longrightarrow>
      R s (s\<lparr>as_counter := Suc (as_counter s), as_runs := snd (run_create ctx (new_run mo rid input m) (as_runs s))\<rparr>)"
    and cancel: "who ctx \<Longrightarrow> R s (s\<lparr>as_runs := snd (run_setStatus now ctx rid RCancelled (as_runs s))\<rparr>)"
    and decide: "who ctx \<Longrightarrow> approval_get (as_approvals s) ctx aid = Some a \<Longrightarrow> ap_status a = APending \<Longrightarrow>
      R s (s\<lparr>as_approvals := snd (approval_decide now ctx aid (decision_status d) why (tc_actor ctx) (as_approvals s))\<rparr>)"
    and issue: "who ctx \<Longrightarrow> ok mo \<Longrightarrow> br_id b = fresh_id mo ''bundle'' (as_counter s) \<Longrightarrow>
      run_get (as_runs s) ctx rid = Some run \<Longrightarrow>
      resolveRetention rules (mo_now mo) = Inr retention \<Longrightarrow>
      collect_proofs (srv_digest srv) (as_log s) (entriesForSubject (as_log s) ctx rid) = Inr proofs \<Longrightarrow>
      issue_bundle srv mo ctx (br_id b) run (as_log s) (entriesForSubject (as_log s) ctx rid) proofs retention
        = Inr (br_bundle b, br_retainUntil b) \<Longrightarrow>
      R s (s\<lparr>as_counter := Suc (as_counter s), as_bundles := snd (bundle_create ctx b (as_bundles s))\<rparr>)"
    and key_create: "who ctx \<Longrightarrow> ok mo \<Longrightarrow> R s (s\<lparr>as_keys := snd (key_create (srv_digest srv) (mo_now mo) (mo_random mo)
      (tc_tenantId ctx) (tc_actor ctx) key_input (tc_scopes ctx) (as_keys s))\<rparr>)"
    and key_revoke: "who ctx \<Longrightarrow>
      R s (s\<lparr>as_keys := snd (key_revoke now (tc_tenantId ctx) kid (tc_actor ctx) (as_keys s))\<rparr>)"
    and key_auth: "ok mo \<Longrightarrow>
      (\<And>k. fst (key_authenticate (srv_digest srv) (mo_now mo) secret (as_keys s)) = Inr k \<Longrightarrow> who (key_ctx k)) \<Longrightarrow>
      R s (s\<lparr>as_keys := snd (key_authenticate (srv_digest srv) (mo_now mo) secret (as_keys s))\<rparr>)"
    and cred_create: "who ctx \<Longrightarrow> ok mo \<Longrightarrow> R s (s\<lparr>as_creds := snd (cred_create (srv_cipher srv) (srv_box srv) (mo_now mo)
      (mo_suffix mo) (mo_iv mo) (tc_tenantId ctx) (tc_actor ctx) cred_input (as_creds s))\<rparr>)"
    and cred_reveal: "who ctx \<Longrightarrow> R s (s\<lparr>as_creds := snd (cred_reveal (srv_cipher srv) (srv_box srv) now
      (tc_tenantId ctx) cid (as_creds s))\<rparr>)"
    and cred_revoke: "who ctx \<Longrightarrow> R s (s\<lparr>as_creds := snd (cred_revoke now (tc_tenantId ctx) cid (as_creds s))\<rparr>)"
    and cache: "R s (s\<lparr>as_cached := c\<rparr>)"
begin

lemma keeps_seq: "keeps R m \<Longrightarrow> (\<And>x. keeps R (f x)) \<Longrightarrow> keeps R (andthen m f)"
  by (rule keeps_andthen) (auto intro: R_trans)

lemma keeps_pure [intro!]: "keeps R (ret x)" "keeps R (throw e)" "keeps R get_state" "keeps R (zod r)"
  "keeps R (plain q)" "keeps R (requireScope ctx sc)" "keeps R (\<lambda>s. (h s, s))"
  by (auto simp: keeps_def ret_def throw_def get_state_def zod_def plain_def requireScope_def R_refl split: sum.split)

lemma keeps_record: "who ctx \<Longrightarrow> keeps R (record_event srv mo ctx action subject payload)"
  by (auto simp: keeps_def record_event_state intro: log)

lemma after: "R s t \<Longrightarrow> keeps R m \<Longrightarrow> R s (snd (m t))"
  by (rule R_trans) (auto simp: keeps_def)

lemma keeps_capabilities: "keeps R (capabilities mo)"
  by (auto simp: keeps_def capabilities_def R_refl cache split: option.split sum.split)

lemmas keeps_rules = keeps_seq keeps_pure keeps_record keeps_capabilities

lemma keeps_with:
  "(\<And>r. keeps R (k r)) \<Longrightarrow> keeps R (with_run ctx rid k)"
  "(\<And>b. keeps R (kb b)) \<Longrightarrow> keeps R (with_bundle ctx rid kb)"
  "(\<And>i e. keeps R (ke i e)) \<Longrightarrow> keeps R (with_entry ctx t ke)"
  "(\<And>p. keeps R (kp p)) \<Longrightarrow> keeps R (with_api_key ctx rid kp)"
  unfolding with_run_def with_bundle_def with_entry_def with_api_key_def
  by (auto intro!: keeps_seq keeps_pure split: option.split)

text \<open>Routes that only read.\<close>

lemma keeps_reads:
  "keeps R (get_runs ctx q)" "keeps R (get_entries ctx rid)" "keeps R (get_run ctx rid)"
  "keeps R (get_environment ctx rid)" "keeps R (get_manifest ctx rid)" "keeps R (get_approvals ctx wanted)"
  "keeps R (get_bundle ctx rid)" "keeps R (verify_bundle srv ctx rid)" "keeps R (offline_bundle srv ctx rid)"
  "keeps R (get_me ctx)" "keeps R (get_api_keys ctx)" "keeps R (get_api_key ctx rid)"
  "keeps R (get_providers srv mo ctx)" "keeps R (get_credentials ctx)"
  unfolding get_runs_def get_entries_def get_run_def get_environment_def get_manifest_def get_approvals_def
    get_bundle_def verify_bundle_def offline_bundle_def get_me_def get_api_keys_def get_api_key_def
    get_providers_def get_credentials_def Let_def
  by (auto intro!: keeps_seq keeps_pure keeps_with split: option.split)

lemma keeps_audit_reads:
  "keeps R (get_audit srv ctx q)" "keeps R (get_audit_root srv ctx)" "keeps R (get_audit_entry ctx t)"
  "keeps R (get_inclusion srv ctx t)" "keeps R (get_consistency srv ctx q)" "keeps R (post_audit_verify srv ctx)"
  unfolding get_audit_def get_audit_root_def get_audit_entry_def get_inclusion_def get_consistency_def
    post_audit_verify_def
  by (auto intro!: keeps_seq keeps_pure keeps_with split: option.split prod.split)

lemma keeps_system_reads:
  "keeps R (get_capabilities mo ctx)" "keeps R (get_gpu mo ctx)" "keeps R (get_system_health mo ctx)"
  "keeps R (get_runtimes srv mo ctx)" "keeps R (get_memory mo ctx q)" "keeps R (get_runtime srv ctx rid)"
  unfolding get_capabilities_def get_gpu_def get_system_health_def get_runtimes_def get_memory_def
    get_runtime_def Let_def
  by (auto intro!: keeps_seq keeps_pure keeps_capabilities split: option.split)

lemma keeps_compare: "keeps R (compare_runs ctx b)"
  unfolding compare_runs_def stored_manifest_def
  by (auto intro!: keeps_seq keeps_pure split: option.split prod.split)

text \<open>Routes that write, each piece by its effect.\<close>

lemma keeps_on:
  "(\<And>s. R s (s\<lparr>as_runs := snd (g (as_runs s))\<rparr>)) \<Longrightarrow> keeps R (on_runs g)"
  "(\<And>s. R s (s\<lparr>as_keys := snd (gk (as_keys s))\<rparr>)) \<Longrightarrow> keeps R (on_keys gk)"
  "(\<And>s. R s (s\<lparr>as_creds := snd (gc (as_creds s))\<rparr>)) \<Longrightarrow> keeps R (on_creds gc)"
  by (simp_all add: keeps_def on_runs_def on_keys_def on_creds_def case_prod_beta)

lemma keeps_cancel: "who ctx \<Longrightarrow> keeps R (cancel_run srv mo ctx rid)"
  unfolding cancel_run_def
  by (auto intro!: keeps_seq keeps_pure keeps_record keeps_on cancel split: option.split)

lemma keeps_keys:
  "who ctx \<Longrightarrow> ok mo \<Longrightarrow> keeps R (post_api_key srv mo ctx b)"
  "who ctx \<Longrightarrow> keeps R (revoke_api_key srv mo ctx rid)"
  unfolding post_api_key_def revoke_api_key_def Let_def
  by (auto intro!: keeps_seq keeps_pure keeps_record keeps_on keeps_with key_create key_revoke
      split: sum.split prod.split)

lemma keeps_revealed: "who ctx \<Longrightarrow> keeps R (revealed_config srv mo ctx config cid)"
  unfolding revealed_config_def
  by (auto intro!: keeps_seq keeps_pure keeps_on cred_reveal split: option.split sum.split)

lemma keeps_creds:
  "who ctx \<Longrightarrow> ok mo \<Longrightarrow> keeps R (post_credential srv mo ctx b)"
  "who ctx \<Longrightarrow> keeps R (revoke_credential srv mo ctx rid)"
  "who ctx \<Longrightarrow> keeps R (test_provider srv mo ctx b)"
  "who ctx \<Longrightarrow> keeps R (get_models srv mo ctx rid c)"
  unfolding post_credential_def revoke_credential_def test_provider_def get_models_def Let_def
  by (auto intro!: keeps_seq keeps_pure keeps_record keeps_on keeps_revealed cred_create cred_revoke
      split: sum.split prod.split option.split thrown.split)

lemma keeps_decide: "who ctx \<Longrightarrow> keeps R (decide_approval srv mo ctx aid b)"
  unfolding decide_approval_def
proof (rule keeps_seq [OF keeps_pure(6)], rule keeps_seq [OF keeps_pure(4)], unfold keeps_def, intro allI)
  fix input s
  assume w: "who ctx"
  show "R s (snd (andthen get_state (\<lambda>s. case approval_get (as_approvals s) ctx aid of
       None \<Rightarrow> ret (not_found ''Approval not found'')
     | Some existing \<Rightarrow>
         if ap_status existing \<noteq> APending then
           ret (refusal ''already-decided'' ''This approval has already been decided'' 409
             (Some (''current status: '' @ approval_name (ap_status existing))) None)
         else
           let verdict = decision_status (dc_decision input) in
           andthen (on_approvals (approval_decide (mo_now mo) ctx aid verdict (dc_rationale input) (tc_actor ctx)))
             (\<lambda>updated.
           andthen (record_event srv mo ctx (''approval.'' @ approval_name verdict) (ap_runId existing)
             (Some [(''approvalId'', JStr (ap_id existing)), (''gatedAction'', JStr (ap_action existing)),
                    (''rationale'', JStr (dc_rationale input))])) (\<lambda>_.
           ret (reply 200 (BApproval updated))))) s))"
    using w by (auto simp: ret_def R_refl Let_def on_simps split: option.split
        intro!: after decide keeps_seq keeps_pure keeps_record)
qed

lemma keeps_post_run: "who ctx \<Longrightarrow> ok mo \<Longrightarrow> keeps R (post_run srv mo ctx b)"
  unfolding post_run_def
  by (rule keeps_seq [OF keeps_pure(6)], rule keeps_seq [OF keeps_pure(4)], unfold keeps_def, intro allI)
    (auto simp: ret_def counter deny_split_def start_run_def on_simps split: sum.split option.split prod.split
        intro!: after counter create keeps_seq keeps_pure keeps_record)

lemma keeps_post_bundle: "who ctx \<Longrightarrow> ok mo \<Longrightarrow> keeps R (post_bundle srv mo ctx b)"
  unfolding post_bundle_def with_run_def
  by (rule keeps_seq [OF keeps_pure(6)], rule keeps_seq [OF keeps_pure(4)], unfold keeps_def, intro allI)
    (auto simp: ret_def R_refl Let_def handler_steps store_bundle_def on_simps
        split: sum.split option.split prod.split
        intro!: after counter issue keeps_seq keeps_pure keeps_record)

text \<open>All of them.\<close>

lemma keeps_handle:
  assumes "who ctx" "ok mo"
  shows "keeps R (handle srv mo ctx route)"
  using assms by (cases route) (auto intro: keeps_reads keeps_audit_reads keeps_system_reads keeps_compare
    keeps_cancel keeps_keys keeps_creds keeps_decide keeps_post_run keeps_post_bundle)

lemma on_request_keeps:
  assumes "ok mo" "\<And>ctx. fst (on_request srv mo url header s) = Caller ctx \<Longrightarrow> who ctx"
  shows "R s (snd (on_request srv mo url header s))"
  using key_auth [of mo "strip_bearer (the header)" s] assms
  by (auto simp: on_request_def Let_def R_refl split: option.split prod.split sum.split if_splits)

lemma answer_state: "snd (answer_with srv m s) = snd (m s)"
  by (simp add: answer_with_def split: prod.split sum.split)

theorem serve_keeps:
  assumes "ok mo" "\<And>ctx. caller srv mo req s = Some ctx \<Longrightarrow> who ctx"
  shows "R s (snd (serve srv mo req s))"
proof -
  obtain adm t where a: "on_request srv mo (route_path (rq_route req)) (rq_authorization req) s = (adm, t)"
    by (cases "on_request srv mo (route_path (rq_route req)) (rq_authorization req) s")
  have "R s (snd (on_request srv mo (route_path (rq_route req)) (rq_authorization req) s))"
    by (rule on_request_keeps [OF assms(1)]) (use assms(2) in \<open>simp add: caller_def\<close>)
  with a have t: "R s t" by simp
  show ?thesis
  proof (cases adm)
    case (Caller ctx)
    then have "who ctx" using assms(2) a by (simp add: caller_def)
    then have "R t (snd (handle srv mo ctx (rq_route req) t))"
      using keeps_handle [OF _ assms(1)] by (simp add: keeps_def)
    with t show ?thesis using a Caller by (simp add: serve_def answer_state) (rule R_trans)
  next
    case Public
    with t a show ?thesis by (simp add: serve_def answer_state throw_def split: route.split)
  next
    case (Refused r)
    with t a show ?thesis by (simp add: serve_def)
  qed
qed

end

section \<open>The worker\<close>

text \<open>The same for a poll of the worker, over what the worker sees of the state.\<close>

locale worker_effects =
  fixes w :: worker_options
    and R :: "worker_state \<Rightarrow> worker_state \<Rightarrow> bool"
  assumes R_refl: "R s s"
    and R_trans: "R s t \<Longrightarrow> R t u \<Longrightarrow> R s u"
    and log: "R s (s\<lparr>wk_log := snd (audit_append (wo_digest w) now (run_ctx w r) ev (wk_log s))\<rparr>)"
    and environment: "R s (s\<lparr>wk_runs := run_setEnvironment k e (wk_runs s)\<rparr>)"
    and finished: "R s (s\<lparr>wk_runs := snd (run_finish now k out reason (wk_runs s))\<rparr>)"
    and claim: "R s (s\<lparr>wk_runs := snd (run_claimNext now (wo_workerId w) (wk_runs s))\<rparr>)"
    and stats: "R s (s\<lparr>wk_stats := f (wk_stats s)\<rparr>)"
begin

lemma keeps_seq: "keeps R m \<Longrightarrow> (\<And>x. keeps R (f x)) \<Longrightarrow> keeps R (andthen m f)"
  by (rule keeps_andthen) (auto intro: R_trans)

lemma keeps_pieces: "keeps R (ret x)" "keeps R (audit w now r action payload)"
  "keeps R (update_runs (run_setEnvironment k e))" "keeps R (Worker.finish now r out reason)"
  "keeps R (update_stats f)" "keeps R (\<lambda>s. (Inl msg, s))"
proof -
  show "keeps R (audit w now r action payload)"
    unfolding keeps_def
  proof
    fix s
    have "snd (audit w now r action payload s) = s\<lparr>wk_log := snd (audit_append (wo_digest w) now (run_ctx w r)
        \<lparr>sx_action = action, sx_subject = Some (rr_id r), sx_payload = Some payload, sx_recordedAt = None\<rparr> (wk_log s))\<rparr>"
      by (simp add: audit_def split: prod.split sum.split)
    with log show "R s (snd (audit w now r action payload s))" by metis
  qed
qed (simp_all add: keeps_def ret_def update_runs_def update_stats_def Worker.finish_def R_refl environment finished stats)

lemma keeps_events: "keeps R (audit_events w now r es)"
  by (induction es) (simp_all add: keeps_pieces keeps_seq)

lemma keeps_claimed: "keeps R (run_claimed w now r)"
  unfolding run_claimed_def capture_def end_blocked_def end_threw_def end_result_def count_failed_def
    count_completed_def Let_def
  by (auto simp: keeps_pieces keeps_events intro!: keeps_seq split: option.split sum.split)

theorem tick_keeps: "R s (snd (tick w now s))"
proof -
  obtain res t where c: "run_claimNext now (wo_workerId w) (wk_runs s) = (res, t)"
    by (cases "run_claimNext now (wo_workerId w) (wk_runs s)")
  have 1: "R s (s\<lparr>wk_runs := t\<rparr>)" using claim [of s now] c by simp
  show ?thesis
  proof (cases res)
    case (Some r)
    let ?m = "andthen (update_stats (\<lambda>st. st\<lparr>ws_claimed := ws_claimed st + 1, ws_lastActivityAt := Some now\<rparr>))
      (\<lambda>_. andthen (run_claimed w now r) (\<lambda>_. ret True))"
    have "keeps R ?m" by (intro keeps_seq keeps_pieces keeps_claimed)
    then have "R (s\<lparr>wk_runs := t\<rparr>) (snd (?m (s\<lparr>wk_runs := t\<rparr>)))" by (simp add: keeps_def)
    with 1 have "R s (snd (?m (s\<lparr>wk_runs := t\<rparr>)))" by (rule R_trans)
    with c Some show ?thesis by (simp add: tick_def)
  qed (use 1 c in \<open>simp add: tick_def\<close>)
qed

end

section \<open>Requests and polls\<close>

definition sound_event :: "'k service \<Rightarrow> (moment \<Rightarrow> bool) \<Rightarrow> (tenant_ctx \<Rightarrow> bool) \<Rightarrow> event \<Rightarrow> api_state \<Rightarrow> bool" where
  "sound_event srv ok who ev s = (case ev of
     Request mo req \<Rightarrow> ok mo \<and> (case caller srv mo req s of None \<Rightarrow> True | Some c \<Rightarrow> who c)
   | Poll now \<Rightarrow> True)"

lemma worker_parts [simp]:
  "worker_view (with_worker v s) = v" "with_worker (worker_view s) s = s"
  "with_worker (v\<lparr>wk_runs := r\<rparr>) s = (with_worker v s)\<lparr>as_runs := r\<rparr>"
  "with_worker (v\<lparr>wk_log := l\<rparr>) s = (with_worker v s)\<lparr>as_log := l\<rparr>"
  "with_worker (v\<lparr>wk_stats := st\<rparr>) s = (with_worker v s)\<lparr>as_stats := st\<rparr>"
  by (simp_all add: worker_view_def with_worker_def)

lemma with_worker_sel [simp]: "as_runs (with_worker v s) = wk_runs v" "as_log (with_worker v s) = wk_log v"
  "as_stats (with_worker v s) = wk_stats v"
  by (simp_all add: with_worker_def)

locale system_effects = route_effects +
  assumes worker_log: "srv_worker srv = Some w \<Longrightarrow>
      R s (s\<lparr>as_log := snd (audit_append (wo_digest w) now (run_ctx w r) ev (as_log s))\<rparr>)"
    and worker_environment: "srv_worker srv = Some w \<Longrightarrow> R s (s\<lparr>as_runs := run_setEnvironment k e (as_runs s)\<rparr>)"
    and worker_finish: "srv_worker srv = Some w \<Longrightarrow>
      R s (s\<lparr>as_runs := snd (run_finish now k out reason (as_runs s))\<rparr>)"
    and worker_claim: "srv_worker srv = Some w \<Longrightarrow>
      R s (s\<lparr>as_runs := snd (run_claimNext now (wo_workerId w) (as_runs s))\<rparr>)"
    and worker_stats: "R s (s\<lparr>as_stats := st\<rparr>)"
begin

lemma poll:
  assumes "srv_worker srv = Some w"
  shows "R s (worker_step w now s)"
proof -
  have "worker_effects w (\<lambda>a b. \<forall>s. R (with_worker a s) (with_worker b s))"
  proof (unfold_locales, goal_cases)
    case (2 a b c)
    then show ?case by (blast intro: R_trans)
  next
    case (3 a now r ev)
    then show ?case using worker_log [OF assms, of "with_worker a _"] by simp
  next
    case (4 a k e)
    then show ?case using worker_environment [OF assms, of "with_worker a _"] by simp
  next
    case (5 a now k out reason)
    then show ?case using worker_finish [OF assms, of "with_worker a _"] by simp
  next
    case (6 a now)
    then show ?case using worker_claim [OF assms, of "with_worker a _"] by simp
  qed (simp_all add: R_refl worker_stats)
  then have "R (with_worker (worker_view s) s) (with_worker (snd (tick w now (worker_view s))) s)"
    using worker_effects.tick_keeps by blast
  then show ?thesis by (simp add: worker_step_def)
qed

theorem reaches_R:
  assumes "reaches srv (sound_event srv ok who) s t"
  shows "R s t"
  using assms
proof (rule reaches_keeps)
  fix ev a
  assume "sound_event srv ok who ev a"
  then show "R a (step srv ev a)"
    by (cases ev) (auto simp: sound_event_def poll R_refl intro: serve_keeps split: option.splits)
qed (auto simp: R_refl intro: R_trans)

end

end
