(* ===== verification/Api_Invariants.thy ===== *)
theory Api_Invariants
  imports Api_Laws
begin

text \<open>
  Invariants of the server, each an instance of the contract of \<open>Api_Laws\<close>: the log grows and
  stays chained, decided approvals are final, what the stores hold is well-formed, and the
  part of a run that its request fixed never changes.
\<close>

section \<open>The log\<close>

definition log_grows :: "'k service \<Rightarrow> api_state \<Rightarrow> api_state \<Rightarrow> bool" where
  "log_grows srv s t = (wired srv \<longrightarrow>
     (log_inv (srv_digest srv) (as_log s) \<longrightarrow> log_inv (srv_digest srv) (as_log t))
     \<and> prefix (al_entries (as_log s)) (al_entries (as_log t)))"

lemma audit_append_grows:
  "log_inv H l \<Longrightarrow> log_inv H (snd (audit_append H now ctx ev l))"
  "prefix (al_entries l) (al_entries (snd (audit_append H now ctx ev l)))"
  by (simp_all add: audit_append_def log_append_inv log_append_prefix)

interpretation growth: system_effects srv "\<lambda>_. True" "\<lambda>_. True" "log_grows srv" for srv :: "'k service"
  by unfold_locales (auto simp: log_grows_def wired_def audit_append_grows)

interpretation worker_growth: worker_effects w "\<lambda>s t. (log_inv (wo_digest w) (wk_log s) \<longrightarrow> log_inv (wo_digest w) (wk_log t))
    \<and> prefix (al_entries (wk_log s)) (al_entries (wk_log t))" for w :: worker_options
  by unfold_locales (auto simp: audit_append_grows)

section \<open>Decisions\<close>

definition decided_stay :: "api_state \<Rightarrow> api_state \<Rightarrow> bool" where
  "decided_stay s t = (\<forall>k a. map_get (as_approvals s) k = Some a \<and> ap_status a \<noteq> APending \<longrightarrow>
     map_get (as_approvals t) k = Some a)"

lemma decide_other: "approval_get m ctx aid = Some a \<Longrightarrow> map_get (snd (approval_decide now ctx aid st why who m)) k
    = (if k = aid then Some (a\<lparr>ap_status := st, ap_rationale := Some why, ap_decidedBy := Some who, ap_decidedAt := Some now\<rparr>)
       else map_get m k)"
  by (simp add: approval_decide_def Let_def map_get_set)

lemma approval_get_Some: "approval_get m ctx aid = Some a \<Longrightarrow> map_get m aid = Some a \<and> ap_tenantId a = tc_tenantId ctx"
  by (auto simp: approval_get_def split: option.splits if_splits)

interpretation decisions: system_effects srv "\<lambda>_. True" "\<lambda>_. True" decided_stay for srv :: "'k service"
  by unfold_locales (auto simp: decided_stay_def decide_other dest: approval_get_Some)

section \<open>Manifests read back\<close>

lemma int_of_num_of_int [simp]: "int_of_num (num_of_int i) = Some i"
proof (cases "i = 0")
  case False
  then obtain j where j: "nat \<bar>i\<bar> = strip_zeros (nat \<bar>i\<bar>) * 10 ^ j"
    "length (show_nat (nat \<bar>i\<bar>)) = length (show_nat (strip_zeros (nat \<bar>i\<bar>))) + j"
    using strip_zeros_pow [of "nat \<bar>i\<bar>"] by auto
  then have "int (strip_zeros (nat \<bar>i\<bar>)) * 10 ^ j = \<bar>i\<bar>" by (metis abs_ge_zero nat_0_le of_nat_mult of_nat_numeral of_nat_power)
  with False j(2) show ?thesis by (auto simp: num_of_int_def Let_def)
qed (simp add: num_of_int_def)

lemma strings_of_map [simp]: "strings_of (map (\<lambda>(k, v). (k, JStr v)) ts) = Some ts"
  by (induction ts) auto

lemma getp_simps [simp]: "getp ((k, v) # kvs) j = (if j = k then v else getp kvs j)" "getp [] j = JUndef"
  by simp_all

lemma maybe_opt [simp]: "(\<And>x. f (g x) = Some x) \<Longrightarrow> (\<And>x. g x \<noteq> JUndef) \<Longrightarrow> maybe f (opt_json g v) = Some v"
  by (cases v) (simp_all add: maybe_def opt_json_def)

lemma seed_of_json [simp]: "seed_of (seed_json sd) = Some sd"
  by (cases sd) (simp_all add: seed_of_def seed_json_def)

lemma parts_of_json [simp]:
  "environment_of (environment_json e) = Some e" "model_of (model_json m) = Some m"
  "task_set_of (task_set_json t) = Some t" "assurance_of (assurance_json a) = Some a"
  "verifier_of (verifier_json v) = Some v"
proof -
  show a: "assurance_of (assurance_json a) = Some a" for a by (simp add: assurance_of_def assurance_json_def)
  show "verifier_of (verifier_json v) = Some v"
    by (cases "vp_assurance v")
      (simp_all add: verifier_of_def verifier_json_def maybe_def opt_json_def a, simp_all add: assurance_json_def)
qed (simp_all add: environment_of_def environment_json_def model_of_def model_json_def task_set_of_def task_set_json_def)

theorem manifest_of_fields [simp]: "manifest_of (manifest_fields m) = Some m"
  by (simp add: manifest_of_def manifest_fields_def manifest_json_def)

section \<open>Identifiers\<close>

text \<open>
  \<open>newId\<close> concatenates the clock and the counter without a separator; between 1972 and 2059
  the clock has eight digits, and then different counters give different ids.
\<close>

definition clock_ok :: "moment \<Rightarrow> bool" where
  "clock_ok mo = (36 ^ 7 \<le> mo_now mo \<and> mo_now mo < 36 ^ 8 \<and> length (mo_suffix mo) = 2)"

lemma show36_length: "36 ^ k \<le> n \<Longrightarrow> n < 36 ^ Suc k \<Longrightarrow> length (show36 n) = Suc k"
proof (induction k arbitrary: n)
  case 0
  then show ?case by (subst show36.simps) simp
next
  case (Suc k)
  then have b: "36 ^ k \<le> n div 36" "n div 36 < 36 ^ Suc k"
    by (simp_all add: less_eq_div_iff_mult_less_eq div_less_iff_less_mult mult.commute)
  have "36 \<le> (36::nat) ^ Suc k" using power_increasing [of 1 "Suc k" "36::nat"] by simp
  then have "\<not> n < 36" using Suc.prems(1) by (meson le_trans not_le)
  then show ?case using Suc.IH [OF b] by (subst show36.simps) simp
qed

lemma digit36_inj: "a < 36 \<Longrightarrow> b < 36 \<Longrightarrow> digit36 a = digit36 b \<Longrightarrow> a = b"
  by (auto simp: digit36_def of_char_eq_iff [symmetric] simp del: of_char_eq_iff split: if_splits)

lemma show36_Nil [simp]: "show36 n \<noteq> []" "[] \<noteq> show36 n"
  by (subst show36.simps, simp)+

lemma show36_inj: "show36 n = show36 m \<Longrightarrow> n = m"
proof (induction n arbitrary: m rule: less_induct)
  case (less n)
  have n: "show36 n = (if n < 36 then [digit36 n] else show36 (n div 36) @ [digit36 (n mod 36)])"
    and m: "show36 m = (if m < 36 then [digit36 m] else show36 (m div 36) @ [digit36 (m mod 36)])"
    by (rule show36.simps)+
  show ?case
  proof (cases "n < 36 \<or> m < 36")
    case True
    then show ?thesis using less.prems n m digit36_inj by (auto split: if_splits)
  next
    case False
    then have "show36 (n div 36) = show36 (m div 36)" "digit36 (n mod 36) = digit36 (m mod 36)"
      using less.prems n m by auto
    then have "n div 36 = m div 36" "n mod 36 = m mod 36" using less.IH [of "n div 36"] False digit36_inj by auto
    then show ?thesis by (metis div_mult_mod_eq)
  qed
qed

lemma fresh_id_inj:
  assumes "clock_ok mo" "clock_ok mo'" "fresh_id mo pre c = fresh_id mo' pre c'"
  shows "c = c'"
proof -
  have l: "length (show36 (nat (mo_now m))) = 8" if "clock_ok m" for m
    by (subst show36_length [of 7]) (use that in \<open>simp_all add: clock_ok_def le_nat_iff nat_less_iff\<close>)
  then have "show36 c = show36 c'"
    using assms(3) l [OF assms(1)] l [OF assms(2)] by (simp add: fresh_id_def append_eq_append_conv)
  then show ?thesis by (rule show36_inj)
qed

definition made_id :: "string \<Rightarrow> nat \<Rightarrow> string \<Rightarrow> bool" where
  "made_id pre c k = (\<exists>mo i. clock_ok mo \<and> i < c \<and> k = fresh_id mo pre i)"

lemma made_id_new: "clock_ok mo \<Longrightarrow> made_id pre (Suc c) (fresh_id mo pre c)"
  by (auto simp: made_id_def)

lemma made_id_mono: "made_id pre c k \<Longrightarrow> c \<le> d \<Longrightarrow> made_id pre d k"
  by (auto simp: made_id_def dest: less_le_trans)

lemma made_id_Suc: "made_id pre c k \<Longrightarrow> made_id pre (Suc c) k"
  by (erule made_id_mono) (rule le_SucI, rule order_refl)

lemma fresh_not_made: "clock_ok mo \<Longrightarrow> \<not> made_id pre c (fresh_id mo pre c)"
  by (auto simp: made_id_def dest: fresh_id_inj)

section \<open>What a run's request fixed\<close>

definition request_part :: "run_record \<Rightarrow> string \<times> string \<times> (string \<times> jsval) list \<times> string list \<times> instant \<times> string option" where
  "request_part r = (rr_id r, rr_tenantId r, rr_manifest r, rr_retentionRules r, rr_createdAt r, rr_credentialId r)"

lemma run_ops_request_part:
  "map_option request_part (map_get (snd (run_setStatus now ctx j st m)) k) = map_option request_part (map_get m k)"
  "map_option request_part (map_get (run_setEnvironment j e m) k) = map_option request_part (map_get m k)"
  "map_option request_part (map_get (snd (run_finish now j out reason m)) k) = map_option request_part (map_get m k)"
  "keyed rr_id m \<Longrightarrow> map_option request_part (map_get (snd (run_claimNext now w m)) k) = map_option request_part (map_get m k)"
proof -
  assume kd: "keyed rr_id m"
  show "map_option request_part (map_get (snd (run_claimNext now w m)) k) = map_option request_part (map_get m k)"
  proof (cases rule: claimNext_cases [of m now w])
    case (claimed r)
    then have "map_get m (rr_id r) = Some r" using set_queued [OF kd] by simp
    with claimed show ?thesis by (auto simp: map_get_set claim_record_def request_part_def)
  qed simp
next
  show "map_option request_part (map_get (snd (run_setStatus now ctx j st m)) k) = map_option request_part (map_get m k)"
    by (cases "run_get m ctx j")
      (auto simp: run_setStatus_def run_get_def Let_def map_get_set request_part_def split: option.splits if_splits)
  show "map_option request_part (map_get (run_setEnvironment j e m) k) = map_option request_part (map_get m k)"
    by (cases "map_get m j") (simp_all add: run_setEnvironment_def map_get_set request_part_def)
  show "map_option request_part (map_get (snd (run_finish now j out reason m)) k) = map_option request_part (map_get m k)"
    by (cases "map_get m j") (simp_all add: run_finish_def Let_def map_get_set request_part_def)
qed

lemma run_ops_keyed:
  assumes "keyed rr_id m"
  shows "keyed rr_id (snd (run_create ctx r m))" "keyed rr_id (snd (run_setStatus now ctx j st m))"
    "keyed rr_id (run_setEnvironment j e m)" "keyed rr_id (snd (run_finish now j out reason m))"
    "keyed rr_id (snd (run_claimNext now w m))"
  by (rule rs.wf_create setStatus_keyed setEnvironment_keyed run_finish_keyed claimNext_keyed, rule assms)+

text \<open>Runs and bundles are never lost, and a bundle and the request of a run never change.\<close>

definition ids_ok :: "api_state \<Rightarrow> bool" where
  "ids_ok s = (keyed rr_id (as_runs s)
     \<and> (\<forall>k. map_has (as_runs s) k \<longrightarrow> made_id ''run'' (as_counter s) k)
     \<and> (\<forall>k. map_has (as_bundles s) k \<longrightarrow> made_id ''bundle'' (as_counter s) k))"

definition records_stay :: "api_state \<Rightarrow> api_state \<Rightarrow> bool" where
  "records_stay s t = (ids_ok s \<longrightarrow> ids_ok t
     \<and> (\<forall>k r. map_get (as_runs s) k = Some r \<longrightarrow> map_option request_part (map_get (as_runs t) k) = Some (request_part r))
     \<and> (\<forall>k b. map_get (as_bundles s) k = Some b \<longrightarrow> map_get (as_bundles t) k = Some b))"

lemma records_stay_runs:
  assumes "ids_ok s \<Longrightarrow> keyed rr_id m"
    "\<And>k. ids_ok s \<Longrightarrow> map_option request_part (map_get m k) = map_option request_part (map_get (as_runs s) k)"
  shows "records_stay s (s\<lparr>as_runs := m\<rparr>)"
proof -
  have "ids_ok s \<Longrightarrow> map_has m k = map_has (as_runs s) k" for k
    using assms(2) [of k] by (cases "map_get m k"; cases "map_get (as_runs s) k") (auto simp: map_has_def)
  then show ?thesis using assms by (auto simp: records_stay_def ids_ok_def)
qed

interpretation records: system_effects srv clock_ok "\<lambda>_. True" records_stay for srv :: "'k service"
proof (unfold_locales, goal_cases)
  case (2 s t u)
  then show ?case by (fastforce simp: records_stay_def)
next
  case (4 s)
  then show ?case by (auto simp: records_stay_def ids_ok_def intro!: made_id_Suc)
next
  case (5 ctx mo rid s input m)
  let ?t = "s\<lparr>as_counter := Suc (as_counter s), as_runs := snd (run_create ctx (new_run mo rid input m) (as_runs s))\<rparr>"
  have c: "as_runs ?t = map_set rid (new_run mo rid input m\<lparr>rr_tenantId := tc_tenantId ctx\<rparr>) (as_runs s)"
    by (simp add: run_create_def Let_def new_run_def)
  have f: "ids_ok s \<Longrightarrow> map_get (as_runs s) rid = None"
    using 5(2,3) fresh_not_made by (fastforce simp: ids_ok_def map_has_def)
  have "ids_ok s \<Longrightarrow> ids_ok ?t"
    using c 5(2,3) run_ops_keyed(1) [of "as_runs s" ctx "new_run mo rid input m"]
    by (auto simp: ids_ok_def map_has_def map_get_set made_id_new intro!: made_id_Suc)
  with f c show ?case by (auto simp: records_stay_def map_get_set)
next
  case (8 ctx mo b s rid run rules retention proofs)
  let ?t = "s\<lparr>as_counter := Suc (as_counter s), as_bundles := snd (bundle_create ctx b (as_bundles s))\<rparr>"
  have c: "as_bundles ?t = map_set (br_id b) (b\<lparr>br_tenantId := tc_tenantId ctx\<rparr>) (as_bundles s)"
    by (simp add: bundle_create_def Let_def)
  have f: "ids_ok s \<Longrightarrow> map_get (as_bundles s) (br_id b) = None"
    using 8(2,3) fresh_not_made by (fastforce simp: ids_ok_def map_has_def)
  have "ids_ok s \<Longrightarrow> ids_ok ?t"
    using c 8(2,3) by (auto simp: ids_ok_def map_has_def map_get_set made_id_new intro!: made_id_Suc)
  with f c show ?case by (auto simp: records_stay_def map_get_set)
qed (auto simp: records_stay_def [of _ "_\<lparr>as_log := _\<rparr>"] records_stay_def [of s s for s] ids_ok_def
    records_stay_def [of _ "_\<lparr>as_approvals := _\<rparr>"] records_stay_def [of _ "_\<lparr>as_keys := _\<rparr>"]
    records_stay_def [of _ "_\<lparr>as_creds := _\<rparr>"] records_stay_def [of _ "_\<lparr>as_cached := _\<rparr>"]
    records_stay_def [of _ "_\<lparr>as_stats := _\<rparr>"]
    intro!: records_stay_runs run_ops_request_part run_ops_keyed)

section \<open>Well-formed stores\<close>

text \<open>
  Every run belongs to a tenant and carries a complete manifest under its own id, every store
  is keyed by the ids of its records, every API key has a tenant, and a revoked provider
  credential holds no ciphertext.
\<close>

definition run_ok :: "run_record \<Rightarrow> bool" where
  "run_ok r = (rr_tenantId r \<noteq> [] \<and> (case manifest_of (rr_manifest r) of
     None \<Rightarrow> False | Some m \<Rightarrow> mi_runId m = rr_id r \<and> Reproducibility.pinned m))"

definition runs_ok :: "runs \<Rightarrow> bool" where
  "runs_ok m = (keyed rr_id m \<and> (\<forall>k r. map_get m k = Some r \<longrightarrow> run_ok r))"

definition keys_ok :: "key_store \<Rightarrow> bool" where
  "keys_ok ks = (keyed ak_id (ks_keys ks) \<and> (\<forall>k key. map_get (ks_keys ks) k = Some key \<longrightarrow> ak_tenantId key \<noteq> []))"

definition stores_ok :: "api_state \<Rightarrow> bool" where
  "stores_ok s = (runs_ok (as_runs s) \<and> keyed ap_id (as_approvals s) \<and> keyed br_id (as_bundles s)
     \<and> keys_ok (as_keys s) \<and> cred_inv (as_creds s))"

definition named :: "tenant_ctx \<Rightarrow> bool" where
  "named ctx = (tc_tenantId ctx \<noteq> [] \<and> tc_actor ctx \<noteq> [])"

lemma run_manifest_ok:
  assumes "run_manifest srv mo rid input = Inr m"
  shows "Reproducibility.pinned m" "mi_runId m = rid"
proof -
  obtain h where "createManifest
         \<lparr>mi_runId = rid,
          mi_environment = \<lparr>env_reference = sr_environmentId input, env_digest = sr_environmentDigest input,
            env_signatureVerified = None, env_openEnvSpecVersion = None\<rparr>,
          mi_model = sr_model input,
          mi_taskSet = \<lparr>tsp_id = sr_taskSetId input, tsp_version = sr_taskSetVersion input,
            tsp_split = sr_split input, tsp_splitHash = h, tsp_taskCount = 1\<rparr>,
          mi_verifier = \<lparr>vp_id = sr_verifierId input, vp_version = sr_verifierVersion input, vp_assurance = None\<rparr>,
          mi_seed = sr_seed input, mi_toolchain = sr_toolchain input,
          mi_isolationBackend = sr_isolationBackend input\<rparr> None (mo_now mo) = Inr m" (is "createManifest ?i _ _ = _")
    using assms by (auto simp: run_manifest_def bindE_Inr_iff)
  then have "Reproducibility.pinned ?i" "m = manifest_input.extend ?i (manifest.fields (toISOString (mo_now mo)))"
    by (auto simp: createManifest_def bindE_Inr_iff manifest_checks_ok)
  then show "Reproducibility.pinned m" "mi_runId m = rid" by (auto simp: Reproducibility.pinned_def manifest_input.defs manifest.defs)
qed

lemma run_ok_request_part: "request_part r = request_part r' \<Longrightarrow> run_ok r \<longleftrightarrow> run_ok r'"
  by (auto simp: run_ok_def request_part_def split: option.splits)

lemma runs_ok_same:
  assumes "runs_ok m" "keyed rr_id m'" "\<And>k. map_option request_part (map_get m' k) = map_option request_part (map_get m k)"
  shows "runs_ok m'"
proof -
  have "run_ok r'" if t: "map_get m' k = Some r'" for k r'
  proof -
    obtain r where "map_get m k = Some r" "request_part r = request_part r'"
      using assms(3) [of k] t by (cases "map_get m k") auto
    with assms(1) show ?thesis using run_ok_request_part by (metis runs_ok_def)
  qed
  with assms(2) show ?thesis by (simp add: runs_ok_def)
qed

lemma runs_ok_ops:
  assumes "runs_ok m"
  shows "runs_ok (snd (run_setStatus now ctx j st m))" "runs_ok (run_setEnvironment j e m)"
    "runs_ok (snd (run_finish now j out reason m))" "runs_ok (snd (run_claimNext now w m))"
  using assms by (auto simp: runs_ok_def intro!: runs_ok_same [OF assms, unfolded runs_ok_def] run_ops_keyed run_ops_request_part)

lemma runs_ok_create:
  assumes "runs_ok m" "named ctx" "run_manifest srv mo rid input = Inr mf"
  shows "runs_ok (snd (run_create ctx (new_run mo rid input mf) m))"
proof -
  have "run_ok (new_run mo rid input mf\<lparr>rr_tenantId := tc_tenantId ctx\<rparr>)"
    using assms(2) run_manifest_ok [OF assms(3)] by (simp add: run_ok_def new_run_def named_def)
  with assms(1) run_ops_keyed(1) [of m ctx "new_run mo rid input mf"] show ?thesis
    by (auto simp: runs_ok_def run_create_def Let_def map_get_set new_run_def)
qed

lemma keys_ok_ops:
  assumes "keys_ok ks"
  shows "tc_tenantId ctx \<noteq> [] \<Longrightarrow> keys_ok (snd (key_create H now rnd (tc_tenantId ctx) author i g ks))"
    "keys_ok (snd (key_revoke now t k author ks))" "keys_ok (snd (key_authenticate H now secret ks))"
proof -
  show "keys_ok (snd (key_authenticate H now secret ks))"
  proof (cases "auth_loop H now secret (map_values (ks_keys ks))")
    case (Inr t)
    then obtain k where "map_get (ks_keys ks) (ak_id t) = Some k" "t = k\<lparr>ak_lastUsedAt := Some now\<rparr>"
      using auth_touched assms by (metis keys_ok_def)
    with assms Inr show ?thesis using key_auth_keyed [of ks H now secret]
      by (auto simp: keys_ok_def key_authenticate_def map_get_set)
  qed (use assms in \<open>simp add: key_authenticate_def\<close>)
qed (use assms key_create_keyed key_revoke_keyed in
    \<open>auto simp: keys_ok_def key_create_def key_revoke_def Let_def map_get_set split: option.splits\<close>)

interpretation stores: system_effects srv "\<lambda>_. True" named "\<lambda>s t. stores_ok s \<longrightarrow> stores_ok t" for srv :: "'k service"
proof (unfold_locales, goal_cases)
  case (7 ctx s aid a now d why)
  have "stores_ok s \<Longrightarrow> ap_id a = aid"
    using approval_get_Some [OF 7(2)] keyed_get [of ap_id "as_approvals s" aid a] by (simp add: stores_ok_def)
  with 7(2) show ?case by (auto simp: stores_ok_def approval_decide_def Let_def)
next
  case (8 ctx mo b s rid run rules retention proofs)
  then show ?case using bs.wf_create [of "as_bundles s" ctx b] by (auto simp: stores_ok_def)
qed (auto simp: stores_ok_def named_def runs_ok_ops runs_ok_create keys_ok_ops cred_create_inv cred_reveal_inv cred_revoke_inv
    intro: runs_ok_create)

section \<open>Callers have names\<close>

definition sane :: "'k service \<Rightarrow> bool" where
  "sane srv = (case srv_authenticate srv of None \<Rightarrow> True | Some f \<Rightarrow> \<forall>tok ctx. f tok = Some ctx \<longrightarrow> named ctx)"

lemma devAuthenticate_named: "devAuthenticate tok = Some ctx \<Longrightarrow> named ctx"
  by (auto simp: devAuthenticate_def named_def Let_def split: option.splits if_splits)

lemma authenticator_named: "sane srv \<Longrightarrow> authenticator srv tok = Some ctx \<Longrightarrow> named ctx"
  by (auto simp: sane_def authenticator_def dest: devAuthenticate_named split: option.splits)

lemma key_authenticate_named:
  assumes "keys_ok ks" "key_authenticate H now secret ks = (Inr k, ks')"
  shows "named (key_ctx k)"
proof -
  obtain t where t: "auth_loop H now secret (map_values (ks_keys ks)) = Inr t" "k = t"
    using assms(2) by (auto simp: key_authenticate_def split: if_splits sum.splits)
  then obtain r where "map_get (ks_keys ks) (ak_id t) = Some r" "t = r\<lparr>ak_lastUsedAt := Some now\<rparr>"
    using auth_touched assms(1) by (metis keys_ok_def)
  with assms(1) t(2) show ?thesis by (auto simp: named_def key_ctx_def keys_ok_def)
qed

lemma caller_named:
  assumes "sane srv" "stores_ok s" "caller srv mo req s = Some ctx"
  shows "named ctx"
  using assms key_authenticate_named [of "as_keys s" "srv_digest srv" "mo_now mo"]
  by (auto simp: caller_def on_request_def Let_def stores_ok_def dest: authenticator_named
      split: if_splits option.splits prod.splits sum.splits)

lemma stores_reached:
  assumes "reaches srv P s t" "sane srv" "stores_ok s"
  shows "stores_ok t"
  using assms(1)
proof (induction rule: reaches.induct)
  case (there t ev)
  show ?case
  proof (cases ev)
    case (Request mo req)
    with there.IH show ?thesis using stores.serve_keeps [where srv = srv and mo = mo and req = req and s = t] caller_named [OF assms(2)] by simp
  next
    case (Poll now)
    with there.IH show ?thesis using stores.poll [where srv = srv and s = t and now = now] by (cases "srv_worker srv") simp_all
  qed
qed (rule assms(3))

end
