(* ===== verification/Api_Isolation.thy ===== *)
theory Api_Isolation
  imports Api_Invariants
begin

text \<open>
  Tenants apart: requests of other tenants change nothing a tenant can read. What a tenant
  reads is a function of its part of the state, and no effect of another tenant's request
  reaches that part, because every id is new and every lookup checks the owner.
\<close>

section \<open>A tenant's part of the state\<close>

definition owned :: "('r \<Rightarrow> string) \<Rightarrow> string \<Rightarrow> 'r jsmap \<Rightarrow> 'r list" where
  "owned owner tn m = filter (\<lambda>r. owner r = tn) (map_values m)"

lemma owned_set_other:
  "(\<And>v. map_get m k = Some v \<Longrightarrow> owner v \<noteq> tn) \<Longrightarrow> owner v' \<noteq> tn \<Longrightarrow> owned owner tn (map_set k v' m) = owned owner tn m"
  by (induction m) (auto simp: owned_def split: if_splits)

lemma owned_find:
  assumes "keyed f m"
  shows "(case map_get m k of None \<Rightarrow> None | Some r \<Rightarrow> if owner r = tn then Some r else None)
    = find (\<lambda>r. f r = k) (owned owner tn m)"
  using assms
proof (induction m)
  case (Cons kv m)
  obtain k' v where kv: "kv = (k', v)" by (cases kv)
  with Cons.prems have m: "keyed f m" "f v = k'" "k' \<notin> fst ` set m" by (auto simp: keyed_def wf_map_def)
  have "\<forall>r \<in> set (map_values m). f r \<noteq> k'" using m(1,3) by (force simp: keyed_def)
  then have "find (\<lambda>r. f r = k') (owned owner tn m) = None" by (auto simp: find_None_iff owned_def)
  with Cons.IH [OF m(1)] kv m(2) show ?case by (auto simp: owned_def)
qed (simp add: owned_def)

record tenant_view =
  vw_runs :: "run_record list"
  vw_approvals :: "approval_record list"
  vw_bundles :: "evidence_bundle bundle_record list"
  vw_keys :: "api_key list"
  vw_creds :: "credential list"

definition view :: "string \<Rightarrow> api_state \<Rightarrow> tenant_view" where
  "view tn s = \<lparr>vw_runs = owned rr_tenantId tn (as_runs s), vw_approvals = owned ap_tenantId tn (as_approvals s),
     vw_bundles = owned br_tenantId tn (as_bundles s), vw_keys = owned ak_tenantId tn (ks_keys (as_keys s)),
     vw_creds = owned pc_tenantId tn (cs_credentials (as_creds s))\<rparr>"

text \<open>Ids of keys and credentials are made as those of runs.\<close>

definition made_cred :: "nat \<Rightarrow> string \<Rightarrow> bool" where
  "made_cred c k = (\<exists>mo i. clock_ok mo \<and> i < c \<and> k = newCredId (mo_now mo) i (mo_suffix mo))"

lemma newKeyId_fresh: "newKeyId (mo_now mo) c = fresh_id mo ''key'' c"
  by (simp add: newKeyId_def fresh_id_def)

lemma newCredId_fresh: "newCredId (mo_now mo) c r = fresh_id mo ''cred'' c @ to_hex r"
  by (simp add: newCredId_def fresh_id_def)

lemma newCredId_inj:
  assumes "clock_ok mo" "clock_ok mo'" "newCredId (mo_now mo) c (mo_suffix mo) = newCredId (mo_now mo') c' (mo_suffix mo')"
  shows "c = c'"
proof -
  have "length (to_hex (mo_suffix mo)) = length (to_hex (mo_suffix mo'))"
    using assms(1,2) by (simp add: length_to_hex clock_ok_def)
  with assms(3) have "fresh_id mo ''cred'' c = fresh_id mo' ''cred'' c'"
    by (simp add: newCredId_fresh append_eq_append_conv)
  then show ?thesis by (rule fresh_id_inj [OF assms(1,2)])
qed

definition all_ids_ok :: "api_state \<Rightarrow> bool" where
  "all_ids_ok s = (ids_ok s
     \<and> keyed ak_id (ks_keys (as_keys s))
     \<and> (\<forall>k. map_has (ks_keys (as_keys s)) k \<longrightarrow> made_id ''key'' (ks_counter (as_keys s)) k)
     \<and> (\<forall>k. map_has (cs_credentials (as_creds s)) k \<longrightarrow> made_cred (cs_counter (as_creds s)) k))"

text \<open>What other tenants' requests keep: the tenant's part, and the log up to entries of others.\<close>

definition apart :: "string \<Rightarrow> api_state \<Rightarrow> api_state \<Rightarrow> bool" where
  "apart tn s t = (all_ids_ok s \<longrightarrow> all_ids_ok t \<and> view tn t = view tn s
     \<and> (\<exists>es. al_entries (as_log t) = al_entries (as_log s) @ es \<and> (\<forall>e \<in> set es. ae_tenantId e \<noteq> tn)))"

lemma apart_log:
  assumes "tc_tenantId ctx \<noteq> tn"
  shows "apart tn s (s\<lparr>as_log := snd (audit_append H now ctx ev (as_log s))\<rparr>)"
proof -
  let ?ev = "\<lparr>ev_action = sx_action ev, ev_actor = tc_actor ctx, ev_tenantId = tc_tenantId ctx,
      ev_subject = sx_subject ev, ev_payload = sx_payload ev, ev_recordedAt = sx_recordedAt ev\<rparr>"
  show ?thesis
  proof (cases rule: log_append_cases [of H now "as_log s" ?ev])
    case (sealed e)
    with assms show ?thesis by (auto simp: apart_def audit_append_def all_ids_ok_def ids_ok_def view_def)
  qed (auto simp: apart_def audit_append_def all_ids_ok_def ids_ok_def view_def)
qed

lemma ids_ok_counter: "ids_ok s \<Longrightarrow> ids_ok (s\<lparr>as_counter := Suc (as_counter s)\<rparr>)"
  using records.counter [of s] by (simp add: records_stay_def)

lemma apart_counter: "apart tn s (s\<lparr>as_counter := Suc (as_counter s)\<rparr>)"
  using ids_ok_counter by (auto simp: apart_def all_ids_ok_def view_def)

lemma run_get_Some: "run_get m ctx k = Some r \<Longrightarrow> map_get m k = Some r \<and> rr_tenantId r = tc_tenantId ctx"
  by (auto simp: run_get_def split: option.splits if_splits)

lemma apart_cancel:
  assumes "tc_tenantId ctx \<noteq> tn"
  shows "apart tn s (s\<lparr>as_runs := snd (run_setStatus now ctx rid st (as_runs s))\<rparr>)"
proof -
  have "owned rr_tenantId tn (snd (run_setStatus now ctx rid st (as_runs s))) = owned rr_tenantId tn (as_runs s)"
    using assms by (auto simp: run_setStatus_def Let_def dest!: run_get_Some intro!: owned_set_other split: option.split)
  moreover have "ids_ok s \<Longrightarrow> ids_ok (s\<lparr>as_runs := snd (run_setStatus now ctx rid st (as_runs s))\<rparr>)"
    using records_stay_runs [of s "snd (run_setStatus now ctx rid st (as_runs s))"] run_ops_keyed(2) run_ops_request_part(1)
    by (auto simp: records_stay_def ids_ok_def)
  ultimately show ?thesis by (auto simp: apart_def all_ids_ok_def view_def)
qed

lemma ids_step: "records_stay s t \<Longrightarrow> ids_ok s \<Longrightarrow> ids_ok t"
  by (simp add: records_stay_def)

lemma apart_create:
  assumes "tc_tenantId ctx \<noteq> tn" "clock_ok mo" "rid = fresh_id mo ''run'' (as_counter s)"
    "run_manifest srv mo rid input = Inr m" "split_refusal ctx (sr_split input) = None"
  shows "apart tn s (s\<lparr>as_counter := Suc (as_counter s),
    as_runs := snd (run_create ctx (new_run mo rid input m) (as_runs s))\<rparr>)"
proof -
  have "ids_ok s \<Longrightarrow> map_get (as_runs s) rid = None"
    using fresh_not_made [OF assms(2)] assms(3) by (fastforce simp: ids_ok_def map_has_def)
  then have "ids_ok s \<Longrightarrow> owned rr_tenantId tn (snd (run_create ctx (new_run mo rid input m) (as_runs s)))
      = owned rr_tenantId tn (as_runs s)"
    using assms(1) by (auto simp: run_create_def Let_def new_run_def intro!: owned_set_other)
  moreover have "ids_ok s \<Longrightarrow> ids_ok (s\<lparr>as_counter := Suc (as_counter s),
      as_runs := snd (run_create ctx (new_run mo rid input m) (as_runs s))\<rparr>)"
    by (rule ids_step [OF records.create [OF TrueI assms(2-5)]])
  ultimately show ?thesis by (auto simp: apart_def all_ids_ok_def view_def)
qed

lemma apart_decide:
  assumes "tc_tenantId ctx \<noteq> tn" "approval_get (as_approvals s) ctx aid = Some a"
  shows "apart tn s (s\<lparr>as_approvals := snd (approval_decide now ctx aid st why who (as_approvals s))\<rparr>)"
proof -
  have "owned ap_tenantId tn (snd (approval_decide now ctx aid st why who (as_approvals s)))
      = owned ap_tenantId tn (as_approvals s)"
    using assms approval_get_Some [OF assms(2)]
    by (auto simp: approval_decide_def Let_def intro!: owned_set_other)
  then show ?thesis by (auto simp: apart_def all_ids_ok_def ids_ok_def view_def)
qed

lemma apart_issue:
  assumes "tc_tenantId ctx \<noteq> tn" "clock_ok mo" "br_id b = fresh_id mo ''bundle'' (as_counter s)"
    "ids_ok s \<Longrightarrow> ids_ok (s\<lparr>as_counter := Suc (as_counter s), as_bundles := snd (bundle_create ctx b (as_bundles s))\<rparr>)"
  shows "apart tn s (s\<lparr>as_counter := Suc (as_counter s), as_bundles := snd (bundle_create ctx b (as_bundles s))\<rparr>)"
proof -
  have "ids_ok s \<Longrightarrow> map_get (as_bundles s) (br_id b) = None"
    using fresh_not_made [OF assms(2)] assms(3) by (fastforce simp: ids_ok_def map_has_def)
  then have "ids_ok s \<Longrightarrow> owned br_tenantId tn (snd (bundle_create ctx b (as_bundles s))) = owned br_tenantId tn (as_bundles s)"
    using assms(1) by (auto simp: bundle_create_def Let_def intro!: owned_set_other)
  with assms(4) show ?thesis by (auto simp: apart_def all_ids_ok_def view_def)
qed

text \<open>The key and credential stores alone.\<close>

definition keys_apart :: "string \<Rightarrow> key_store \<Rightarrow> key_store \<Rightarrow> bool" where
  "keys_apart tn ks ks' = (keyed ak_id (ks_keys ks) \<and> (\<forall>k. map_has (ks_keys ks) k \<longrightarrow> made_id ''key'' (ks_counter ks) k) \<longrightarrow>
     keyed ak_id (ks_keys ks') \<and> (\<forall>k. map_has (ks_keys ks') k \<longrightarrow> made_id ''key'' (ks_counter ks') k)
     \<and> owned ak_tenantId tn (ks_keys ks') = owned ak_tenantId tn (ks_keys ks))"

definition creds_apart :: "string \<Rightarrow> cred_store \<Rightarrow> cred_store \<Rightarrow> bool" where
  "creds_apart tn cs cs' = ((\<forall>k. map_has (cs_credentials cs) k \<longrightarrow> made_cred (cs_counter cs) k) \<longrightarrow>
     (\<forall>k. map_has (cs_credentials cs') k \<longrightarrow> made_cred (cs_counter cs') k)
     \<and> owned pc_tenantId tn (cs_credentials cs') = owned pc_tenantId tn (cs_credentials cs))"

lemma apart_keys: "keys_apart tn (as_keys s) ks \<Longrightarrow> apart tn s (s\<lparr>as_keys := ks\<rparr>)"
  by (auto simp: apart_def all_ids_ok_def ids_ok_def view_def keys_apart_def)

lemma apart_creds: "creds_apart tn (as_creds s) cs \<Longrightarrow> apart tn s (s\<lparr>as_creds := cs\<rparr>)"
  by (auto simp: apart_def all_ids_ok_def ids_ok_def view_def creds_apart_def)

lemma key_create_apart:
  assumes "t \<noteq> tn" "clock_ok mo"
  shows "keys_apart tn ks (snd (key_create H (mo_now mo) rnd t author i g ks))"
proof -
  have "keyed ak_id (ks_keys ks) \<Longrightarrow> keyed ak_id (ks_keys (snd (key_create H (mo_now mo) rnd t author i g ks)))"
    by (rule key_create_keyed)
  moreover have "(\<And>k. map_has (ks_keys ks) k \<Longrightarrow> made_id ''key'' (ks_counter ks) k) \<Longrightarrow>
      map_get (ks_keys ks) (newKeyId (mo_now mo) (ks_counter ks)) = None"
    using fresh_not_made [OF assms(2), of "''key''" "ks_counter ks"] by (fastforce simp: newKeyId_fresh map_has_def)
  ultimately show ?thesis using assms
    by (auto simp: keys_apart_def key_create_def Let_def map_has_def map_get_set newKeyId_fresh made_id_new
        intro!: made_id_Suc owned_set_other)
qed

lemma key_revoke_apart: "t \<noteq> tn \<Longrightarrow> keys_apart tn ks (snd (key_revoke now t k author ks))"
  using key_revoke_keyed [of ks now t k author]
  by (auto simp: keys_apart_def key_revoke_def Let_def map_has_def map_get_set intro!: owned_set_other split: option.splits)

lemma key_auth_apart:
  assumes "\<And>k. fst (key_authenticate H now secret ks) = Inr k \<Longrightarrow> ak_tenantId k \<noteq> tn"
  shows "keys_apart tn ks (snd (key_authenticate H now secret ks))"
proof (cases "keyed ak_id (ks_keys ks)")
  case True
  show ?thesis
  proof (cases "auth_loop H now secret (map_values (ks_keys ks))")
    case (Inr t)
    then obtain k where k: "map_get (ks_keys ks) (ak_id t) = Some k" "t = k\<lparr>ak_lastUsedAt := Some now\<rparr>"
      using auth_touched True by metis
    with assms Inr True key_auth_keyed [OF True, of H now secret] show ?thesis
      by (auto simp: keys_apart_def key_authenticate_def map_has_def map_get_set intro!: owned_set_other split: if_splits)
  qed (simp add: keys_apart_def key_authenticate_def)
qed (simp add: keys_apart_def)

lemma cred_create_apart:
  assumes "t \<noteq> tn" "clock_ok mo"
  shows "creds_apart tn cs (snd (cred_create C box (mo_now mo) (mo_suffix mo) iv t author i cs))"
proof -
  have fresh: "(\<And>k. map_has (cs_credentials cs) k \<Longrightarrow> made_cred (cs_counter cs) k) \<Longrightarrow>
      map_get (cs_credentials cs) (newCredId (mo_now mo) (cs_counter cs) (mo_suffix mo)) = None"
    using newCredId_inj [OF assms(2)] by (fastforce simp: map_has_def made_cred_def)
  have "made_cred c k \<Longrightarrow> made_cred (Suc c) k" for c k by (auto simp: made_cred_def intro: less_SucI)
  moreover have "made_cred (Suc c) (newCredId (mo_now mo) c (mo_suffix mo))" for c
    using assms(2) by (auto simp: made_cred_def)
  ultimately show ?thesis using assms(1) fresh
    by (auto simp: creds_apart_def cred_create_def Let_def map_has_def map_get_set intro!: owned_set_other
        split: option.split)
qed

lemma cred_use_apart:
  "t \<noteq> tn \<Longrightarrow> creds_apart tn cs (snd (cred_reveal C box now t cid cs))"
  "t \<noteq> tn \<Longrightarrow> creds_apart tn cs (snd (cred_revoke now t cid cs))"
  by (auto simp: creds_apart_def cred_reveal_def cred_revoke_def Let_def map_has_def map_get_set
      intro!: owned_set_other split: option.split sum.split)

interpretation isolation: route_effects srv clock_ok "\<lambda>ctx. tc_tenantId ctx \<noteq> tn" "apart tn"
  for srv :: "'k service" and tn :: string
proof (unfold_locales, goal_cases)
  case (2 s t u)
  then show ?case by (auto simp: apart_def)
next
  case (8 ctx mo b s rid run rules retention proofs)
  then show ?case using records.issue [OF TrueI 8(2-7)] by (intro apart_issue) (auto intro: ids_step)
next
  case (11 mo secret s)
  then show ?case by (intro apart_keys key_auth_apart) (auto simp: key_ctx_def)
qed (auto simp: apart_def [of _ s s for s] apart_def [of _ _ "_\<lparr>as_cached := _\<rparr>"] all_ids_ok_def ids_ok_def view_def
    intro: apart_log apart_counter apart_create apart_cancel apart_decide
    intro!: apart_keys apart_creds key_create_apart key_revoke_apart cred_create_apart cred_use_apart)

section \<open>What a tenant reads\<close>

fun tenant_route :: "route \<Rightarrow> bool" where
  "tenant_route (GetRuns q) = True" | "tenant_route (GetRun i) = True" | "tenant_route (GetEntries i) = True"
| "tenant_route (GetEnvironment i) = True" | "tenant_route (GetManifest i) = True"
| "tenant_route (CompareRuns b) = True" | "tenant_route (GetApprovals w) = True"
| "tenant_route (GetBundle i) = True" | "tenant_route (VerifyBundle i) = True"
| "tenant_route (OfflineBundle i) = True" | "tenant_route GetMe = True" | "tenant_route GetApiKeys = True"
| "tenant_route (GetApiKey i) = True" | "tenant_route GetProviders = True" | "tenant_route GetCredentials = True"
| "tenant_route (GetAudit q) = True" | "tenant_route (GetAuditEntry i) = True"
| "tenant_route _ = False"

definition same_reads :: "string \<Rightarrow> api_state \<Rightarrow> api_state \<Rightarrow> bool" where
  "same_reads tn s t = (stores_ok s \<and> stores_ok t \<and> view tn t = view tn s
     \<and> (\<exists>es. al_entries (as_log t) = al_entries (as_log s) @ es \<and> (\<forall>e \<in> set es. ae_tenantId e \<noteq> tn)))"

lemma same_gets:
  assumes "same_reads (tc_tenantId ctx) s t"
  shows "run_get (as_runs t) ctx k = run_get (as_runs s) ctx k"
    "bundle_get (as_bundles t) ctx k = bundle_get (as_bundles s) ctx k"
    "key_get (as_keys t) (tc_tenantId ctx) k = key_get (as_keys s) (tc_tenantId ctx) k"
proof -
  have k: "keyed rr_id (as_runs s)" "keyed rr_id (as_runs t)" "keyed br_id (as_bundles s)" "keyed br_id (as_bundles t)"
    "keyed ak_id (ks_keys (as_keys s))" "keyed ak_id (ks_keys (as_keys t))"
    using assms by (simp_all add: same_reads_def stores_ok_def runs_ok_def keys_ok_def)
  have v: "owned rr_tenantId (tc_tenantId ctx) (as_runs t) = owned rr_tenantId (tc_tenantId ctx) (as_runs s)"
    "owned br_tenantId (tc_tenantId ctx) (as_bundles t) = owned br_tenantId (tc_tenantId ctx) (as_bundles s)"
    "owned ak_tenantId (tc_tenantId ctx) (ks_keys (as_keys t)) = owned ak_tenantId (tc_tenantId ctx) (ks_keys (as_keys s))"
    using assms by (simp_all add: same_reads_def view_def)
  show "run_get (as_runs t) ctx k = run_get (as_runs s) ctx k"
    using owned_find [OF k(1), where k = k and owner = rr_tenantId and tn = "tc_tenantId ctx"] owned_find [OF k(2), where k = k and owner = rr_tenantId and tn = "tc_tenantId ctx"] v(1)
    by (simp add: run_get_def)
  show "bundle_get (as_bundles t) ctx k = bundle_get (as_bundles s) ctx k"
    using owned_find [OF k(3), where k = k and owner = br_tenantId and tn = "tc_tenantId ctx"] owned_find [OF k(4), where k = k and owner = br_tenantId and tn = "tc_tenantId ctx"] v(2)
    by (simp add: bundle_get_def)
  have "key_get ks tn k = map_option key_toPublic
      (case map_get (ks_keys ks) k of None \<Rightarrow> None | Some r \<Rightarrow> if ak_tenantId r = tn then Some r else None)" for ks tn
    by (simp add: key_get_def split: option.split)
  then show "key_get (as_keys t) (tc_tenantId ctx) k = key_get (as_keys s) (tc_tenantId ctx) k"
    using owned_find [OF k(5), where k = k and owner = ak_tenantId and tn = "tc_tenantId ctx"] owned_find [OF k(6), where k = k and owner = ak_tenantId and tn = "tc_tenantId ctx"] v(3)
    by simp
qed

lemma same_lists:
  assumes "same_reads (tc_tenantId ctx) s t"
  shows "run_list (as_runs t) ctx c n = run_list (as_runs s) ctx c n"
    "approval_list (as_approvals t) ctx st = approval_list (as_approvals s) ctx st"
    "key_list (as_keys t) (tc_tenantId ctx) = key_list (as_keys s) (tc_tenantId ctx)"
    "cred_list (as_creds t) (tc_tenantId ctx) p = cred_list (as_creds s) (tc_tenantId ctx) p"
    "forTenant (as_log t) (tc_tenantId ctx) = forTenant (as_log s) (tc_tenantId ctx)"
  using assms
  by (auto simp: same_reads_def view_def owned_def run_list_def approval_list_def key_list_def cred_list_def
      forTenant_def filter_empty_conv cong: filter_cong)

lemma same_at:
  assumes "same_reads (tc_tenantId ctx) s t"
  shows "audit_at (as_log t) ctx i = audit_at (as_log s) ctx i"
proof -
  obtain es where es: "al_entries (as_log t) = al_entries (as_log s) @ es" "\<forall>e \<in> set es. ae_tenantId e \<noteq> tc_tenantId ctx"
    using assms by (auto simp: same_reads_def)
  show ?thesis
  proof (cases "0 \<le> i \<and> nat i < length (al_entries (as_log s))")
    case True
    then show ?thesis using es(1) by (auto simp: audit_at_def log_size_def log_at_def nth_append bindE_def)
  next
    case False
    then show ?thesis using es
      by (auto simp: audit_at_def log_size_def log_at_def nth_append bindE_def nat_less_iff not_less)
  qed
qed

theorem reads_agree:
  assumes "same_reads (tc_tenantId ctx) s t" "tenant_route route"
  shows "fst (handle srv mo ctx route t) = fst (handle srv mo ctx route s)"
  using assms(2) same_gets [OF assms(1)] same_lists [OF assms(1)] same_at [OF assms(1)]
  by (cases route)
    (simp_all add: get_runs_def get_entries_def get_run_def get_environment_def get_manifest_def get_approvals_def
      get_bundle_def verify_bundle_def offline_bundle_def get_me_def get_api_keys_def get_api_key_def
      get_providers_def get_credentials_def get_audit_def get_audit_entry_def compare_runs_def
      with_run_def with_bundle_def with_api_key_def with_entry_def handler_steps stored_manifest_def
      entriesForSubject_def audit_query_page_def audit_query_items_def ret_def throw_def
      Let_def del: upt_Suc split: option.split prod.split sum.split)

end
