(* ===== verification/Api_Properties.thy ===== *)
theory Api_Properties
  imports Api_Isolation Evidence_Properties Service_Properties
begin

text \<open>
  The properties of the server as a whole: what holds of every state its requests and its
  worker reach, and of every answer it gives, with their witnesses.
\<close>

section \<open>A server to instantiate them\<close>

definition demo_srv :: "unit service" where
  "demo_srv = \<lparr>srv_digest = sha256, srv_signer = echo_keys, srv_verifier = echo_api, srv_cipher = null_cipher,
     srv_box = None, srv_edge = \<lparr>ed_text = (\<lambda>_. []), ed_url = (\<lambda>_. True), ed_date = (\<lambda>_. None)\<rparr>,
     srv_authenticate = None, srv_worker = None, srv_executionUnavailable = None, srv_env = (\<lambda>_. None)\<rparr>"

definition demo_moment :: moment where
  "demo_moment = \<lparr>mo_now = 1700000000000, mo_random = [], mo_iv = [], mo_suffix = [1, 2], mo_stopped = False,
     mo_adapters = [], mo_detect = Inl ''no probe'', mo_telemetry = PUnavailable ''no probe''\<rparr>"

lemma demo_clock: "clock_ok demo_moment"
  by (simp add: clock_ok_def demo_moment_def)

lemma demo_wired: "wired demo_srv" "sane demo_srv"
  by (simp_all add: wired_def sane_def demo_srv_def)

definition demo_request :: "route \<Rightarrow> event" where
  "demo_request route = Request demo_moment \<lparr>rq_route = route, rq_authorization = Some ''Bearer acme:ann:runs:write,runs:read''\<rparr>"

text \<open>A caller with a development token.\<close>

lemma dev_caller:
  assumes "strip_bearer h = tok" "\<not> starts_with KEY_PREFIX tok" "devAuthenticate (Some tok) = Some ctx"
    "\<not> public_path (path_of_url (route_path route))"
  shows "caller demo_srv mo \<lparr>rq_route = route, rq_authorization = Some h\<rparr> s = Some ctx"
    "snd (on_request demo_srv mo (route_path route) (Some h) s) = s"
  using assms by (simp_all add: caller_def on_request_def Let_def authenticator_def demo_srv_def)

lemmas path_defs = path_of_url_def public_path_def PUBLIC_ROUTES_def PUBLIC_PREFIXES_def starts_with_def

definition demo_id :: string where
  "demo_id = fresh_id demo_moment ''run'' 0"

definition acme_run :: run_record where
  "acme_run = demo_run\<lparr>rr_id := demo_id, rr_manifest := manifest_fields (pin_manifest\<lparr>mi_runId := demo_id\<rparr>)\<rparr>"

definition acme_approval :: approval_record where
  "acme_approval = \<lparr>ap_id = ''a1'', ap_tenantId = ''acme'', ap_runId = demo_id, ap_action = ''deploy'',
     ap_status = ARejected, ap_deadline = 9, ap_onTimeout = ODeny, ap_trialId = ''t1'', ap_throughStep = 1,
     ap_decidedBy = Some ''bob'', ap_decidedAt = Some 7, ap_rationale = Some ''no'', ap_createdAt = 6\<rparr>"

definition demo_start :: api_state where
  "demo_start = \<lparr>as_runs = [(demo_id, acme_run)], as_log = empty_log, as_approvals = [(''a1'', acme_approval)],
     as_bundles = [], as_keys = no_keys, as_creds = \<lparr>cs_credentials = [], cs_counter = 0\<rparr>, as_counter = 1,
     as_stats = \<lparr>ws_claimed = 0, ws_completed = 0, ws_failed = 0, ws_lastActivityAt = None\<rparr>, as_cached = None\<rparr>"

lemma acme_run_ok: "run_ok acme_run"
  using pin_input_pinned
  by (simp add: run_ok_def acme_run_def demo_run_def pin_manifest_def Reproducibility.pinned_def
      manifest_input.defs manifest.defs pin_input_def demo_id_def fresh_id_def trim_Nil_iff is_space_def)

lemma demo_start_ok: "stores_ok demo_start"
  using acme_run_ok
  by (simp add: stores_ok_def runs_ok_def keys_ok_def cred_inv_def demo_start_def no_keys_def keyed_def wf_map_def
      acme_run_def acme_approval_def)

lemma demo_ids_ok: "all_ids_ok demo_start"
  using made_id_new [OF demo_clock, of "''run''" 0]
  by (simp add: all_ids_ok_def ids_ok_def demo_start_def no_keys_def keyed_def wf_map_def map_has_def acme_run_def
      demo_id_def)

lemma demo_log_ok: "log_inv sha256 (as_log demo_start)"
  by (simp add: demo_start_def)

lemma answer_fst: "fst (answer_with srv m s) =
    (case fst (m s) of Inl e \<Rightarrow> error_reply (ed_text (srv_edge srv)) e | Inr r \<Rightarrow> r)"
  by (cases "m s"; cases "fst (m s)") (simp_all add: answer_with_def)

section \<open>What every state keeps\<close>

text \<open>C9 Whatever requests and polls the server serves, its stores stay well-formed: every run has
  a tenant and a complete manifest under its own id, every store is keyed by the ids of its
  records, every API key belongs to a tenant, and a revoked credential holds no ciphertext.\<close>

theorem server_stores_well_formed:
  assumes "reaches srv P s t" "sane srv" "stores_ok s"
  shows "stores_ok t"
  using assms by (rule stores_reached)

theorem server_stores_well_formed_witness:
  "stores_ok (replay demo_srv [demo_request (CancelRun demo_id), demo_request GetApiKeys] demo_start)"
proof -
  have "allowed demo_srv (\<lambda>_ _. True) [demo_request (CancelRun demo_id), demo_request GetApiKeys] demo_start" by simp
  from server_stores_well_formed [OF replay_reaches [OF this] demo_wired(2) demo_start_ok] show ?thesis .
qed

text \<open>C5 The audit log is append-only under everything the server does: its entries are a prefix of
  every later log, and the chain of hashes and numbers stays intact.\<close>

theorem log_only_grows:
  assumes "reaches srv P s t" "wired srv" "log_inv (srv_digest srv) (as_log s)"
  shows "log_inv (srv_digest srv) (as_log t) \<and> prefix (al_entries (as_log s)) (al_entries (as_log t))"
proof -
  have "reaches srv (sound_event srv (\<lambda>_. True) (\<lambda>_. True)) s t"
    by (rule reaches_mono [OF assms(1)]) (auto simp: sound_event_def split: event.split option.split)
  from growth.reaches_R [OF this] assms(2,3) show ?thesis by (simp add: log_grows_def)
qed

theorem log_only_grows_witness:
  "log_inv sha256 (as_log (replay demo_srv [demo_request (CancelRun demo_id)] demo_start))"
proof -
  have "allowed demo_srv (\<lambda>_ _. True) [demo_request (CancelRun demo_id)] demo_start" by simp
  from log_only_grows [OF replay_reaches [OF this] demo_wired(1)] demo_log_ok show ?thesis by (simp add: demo_srv_def)
qed

text \<open>C6 A decision is final: no request of anyone, and no poll, changes an approval that was
  approved, rejected, escalated or timed out.\<close>

theorem decisions_are_final:
  assumes "reaches srv P s t" "map_get (as_approvals s) k = Some a" "ap_status a \<noteq> APending"
  shows "map_get (as_approvals t) k = Some a"
proof -
  have "reaches srv (sound_event srv (\<lambda>_. True) (\<lambda>_. True)) s t"
    by (rule reaches_mono [OF assms(1)]) (auto simp: sound_event_def split: event.split option.split)
  from decisions.reaches_R [OF this] assms(2,3) show ?thesis by (simp add: decided_stay_def)
qed

definition approve_again :: event where
  "approve_again = Request demo_moment \<lparr>rq_route = DecideApproval ''a1'' (JObj [(''decision'', JStr ''approve''),
     (''rationale'', JStr ''second thoughts'')]), rq_authorization = Some ''Bearer acme:ann:approvals:decide''\<rparr>"

theorem decisions_are_final_witness:
  "map_get (as_approvals (replay demo_srv [approve_again] demo_start)) ''a1'' = Some acme_approval"
proof -
  have "allowed demo_srv (\<lambda>_ _. True) [approve_again] demo_start" by simp
  from decisions_are_final [OF replay_reaches [OF this], of "''a1''" acme_approval] show ?thesis
    by (simp add: demo_start_def acme_approval_def)
qed

text \<open>C10 Nothing a client relied on disappears: a run, with its id, tenant, manifest, retention rules
  and credential, and an issued bundle are there in every later state, as long as the clock
  reads between 1972 and 2059 (\<open>newId\<close> writes clock and counter without a separator).\<close>

definition on_clock :: "event \<Rightarrow> api_state \<Rightarrow> bool" where
  "on_clock ev s = (case ev of Request mo req \<Rightarrow> clock_ok mo | Poll now \<Rightarrow> True)"

theorem records_never_lost:
  assumes "reaches srv on_clock s t" "ids_ok s"
  shows "(\<forall>k r. map_get (as_runs s) k = Some r \<longrightarrow>
      (\<exists>r'. map_get (as_runs t) k = Some r' \<and> request_part r' = request_part r))
    \<and> (\<forall>k b. map_get (as_bundles s) k = Some b \<longrightarrow> map_get (as_bundles t) k = Some b)"
proof -
  have "reaches srv (sound_event srv clock_ok (\<lambda>_. True)) s t"
    by (rule reaches_mono [OF assms(1)]) (auto simp: sound_event_def on_clock_def split: event.splits option.split)
  from records.reaches_R [OF this] assms(2) show ?thesis by (auto simp: records_stay_def)
qed

theorem records_never_lost_witness:
  "\<exists>r. map_get (as_runs (replay demo_srv [demo_request (CancelRun demo_id)] demo_start)) demo_id = Some r
    \<and> request_part r = request_part acme_run"
proof -
  have "allowed demo_srv on_clock [demo_request (CancelRun demo_id)] demo_start"
    using demo_clock by (simp add: on_clock_def demo_request_def)
  from records_never_lost [OF replay_reaches [OF this]] demo_ids_ok show ?thesis
    by (simp add: all_ids_ok_def demo_start_def)
qed

text \<open>C2 Tenants do not see each other: whatever requests other tenants and unknown callers make,
  every read of a tenant's runs, manifests, comparisons, approvals, bundles, API keys, provider
  credentials and audit entries answers exactly as before. (The roots and proofs of the shared
  log, and what depends on the clock or the host, are not among these reads.)\<close>

definition by_others :: "'k service \<Rightarrow> string \<Rightarrow> event \<Rightarrow> api_state \<Rightarrow> bool" where
  "by_others srv tn ev s = (case ev of
     Request mo req \<Rightarrow> clock_ok mo \<and> (case caller srv mo req s of None \<Rightarrow> True | Some c \<Rightarrow> tc_tenantId c \<noteq> tn)
   | Poll now \<Rightarrow> False)"

theorem tenants_do_not_interfere:
  assumes "reaches srv (by_others srv (tc_tenantId ctx)) s t" "sane srv" "stores_ok s" "all_ids_ok s"
    "tenant_route route"
  shows "fst (answer_with srv (handle srv mo ctx route) t) = fst (answer_with srv (handle srv mo ctx route) s)"
proof -
  let ?tn = "tc_tenantId ctx"
  have "apart ?tn s t"
  proof (rule reaches_keeps [OF assms(1)])
    fix ev a
    assume "by_others srv ?tn ev a"
    then show "apart ?tn a (step srv ev a)"
      by (cases ev) (auto simp: by_others_def intro!: isolation.serve_keeps [where srv = srv and tn = ?tn] split: option.splits)
  qed (auto intro: isolation.R_trans isolation.R_refl)
  moreover have "stores_ok t" by (rule stores_reached [OF assms(1-3)])
  ultimately have "same_reads ?tn s t" using assms(3,4) by (simp add: same_reads_def apart_def)
  from reads_agree [OF this assms(5), of srv mo] show ?thesis
    by (simp add: answer_fst)
qed

definition evil_request :: event where
  "evil_request = Request demo_moment \<lparr>rq_route = CancelRun demo_id, rq_authorization = Some ''Bearer evil:eve:runs:write''\<rparr>"

lemma evil_caller: "by_others demo_srv ''acme'' evil_request s"
proof -
  have "caller demo_srv demo_moment \<lparr>rq_route = CancelRun demo_id, rq_authorization = Some ''Bearer evil:eve:runs:write''\<rparr> s
      = Some \<lparr>tc_tenantId = ''evil'', tc_actor = ''eve'', tc_scopes = [''runs:write'']\<rparr>"
    by (rule dev_caller [where tok = "''evil:eve:runs:write''"], code_simp, code_simp, code_simp)
      (simp add: path_defs)
  then show ?thesis using demo_clock by (simp add: by_others_def evil_request_def)
qed

theorem tenants_do_not_interfere_witness:
  "fst (answer_with demo_srv (handle demo_srv demo_moment demo_ctx (GetRuns [])) (replay demo_srv [evil_request] demo_start))
    = fst (answer_with demo_srv (handle demo_srv demo_moment demo_ctx (GetRuns [])) demo_start)"
proof -
  have t: "tc_tenantId demo_ctx = ''acme''" by (simp add: demo_ctx_def)
  have "allowed demo_srv (by_others demo_srv (tc_tenantId demo_ctx)) [evil_request] demo_start"
    unfolding t using evil_caller by simp
  from tenants_do_not_interfere [OF replay_reaches [OF this] demo_wired(2) demo_start_ok demo_ids_ok,
      of "GetRuns []" demo_moment] show ?thesis by simp
qed


section \<open>Evidence stays verifiable\<close>

text \<open>Retention is resolved from the standard rules: at most 3653 days.\<close>

lemma governing_loop_in: "governing_loop g rs \<in> set (g # rs)"
  by (induction rs arbitrary: g) auto

lemma rule_lookup_bounds: "rule_lookup i = Some r \<Longrightarrow> ru_minimumDays r = Some d \<Longrightarrow> 0 \<le> d \<and> d \<le> 3653"
  by (auto simp: rule_lookup_def STANDARD_RULES_def std_rule_def inherited_rule_def ART_19_MINIMUM_DAYS_def
      split: if_splits)

lemma lookup_rules_bounds: "lookup_rules is = Inr rs \<Longrightarrow> r \<in> set rs \<Longrightarrow> ru_minimumDays r = Some d \<Longrightarrow> 0 \<le> d \<and> d \<le> 3653"
  by (induction "is" arbitrary: rs) (auto simp: bindE_Inr_iff rule_lookup_bounds split: option.splits)

lemma resolveRetention_until:
  assumes "resolveRetention is now = Inr rt" "rt_retainUntil rt = Some u"
  shows "now \<le> u \<and> u \<le> now + 3653 * DAY_MS"
proof -
  obtain rs where rs: "lookup_rules is = Inr rs" "resolve_rules rs now = Inr rt" "is \<noteq> []"
    using assms(1) by (auto simp: resolveRetention_def bindE_Inr_iff split: if_splits)
  then have "rs \<noteq> []" by (cases "is") (auto simp: bindE_Inr_iff split: option.splits)
  then have "governing_loop (hd rs) rs \<in> set rs" using governing_loop_in [of "hd rs" rs] by auto
  moreover obtain d where "ru_minimumDays (governing_loop (hd rs) rs) = Some d" "u = now + d * DAY_MS"
    using rs(2) assms(2) by (auto simp: resolve_rules_def Let_def add_days_def split: if_splits option.splits)
  ultimately show ?thesis using lookup_rules_bounds [OF rs(1)] by (fastforce simp: DAY_MS_def)
qed

definition verifies :: "'k service \<Rightarrow> evidence_bundle \<Rightarrow> bool" where
  "verifies srv b = (\<exists>r. verifyBundle (srv_digest srv) (srv_verifier srv) b (ks_publicKeyPem (srv_signer srv)) = Inr r
     \<and> bv_valid r \<and> bv_failures r = [])"

definition evidence_ok :: "'k service \<Rightarrow> api_state \<Rightarrow> bool" where
  "evidence_ok srv s = (log_inv (srv_digest srv) (as_log s)
     \<and> (\<forall>k b. map_get (as_bundles s) k = Some b \<longrightarrow> verifies srv (br_bundle b)))"

definition evidence_stays :: "'k service \<Rightarrow> api_state \<Rightarrow> api_state \<Rightarrow> bool" where
  "evidence_stays srv s t = (srv_digest srv = sha256 \<and> key_pair (srv_verifier srv) (srv_signer srv) \<and> wired srv \<longrightarrow>
     prefix (al_entries (as_log s)) (al_entries (as_log t))
     \<and> (evidence_ok srv s \<and> length (al_entries (as_log t)) \<le> 2 ^ 31 \<longrightarrow> evidence_ok srv t))"

lemma issued_verifies:
  assumes "log_inv sha256 l" "length (al_entries l) \<le> 2 ^ 31" "clock_ok mo" "srv_digest srv = sha256"
    "key_pair (srv_verifier srv) (srv_signer srv)" "resolveRetention rules (mo_now mo) = Inr retention"
    "collect_proofs sha256 l (entriesForSubject l ctx rid) = Inr proofs"
    "issue_bundle srv mo ctx bid run l (entriesForSubject l ctx rid) proofs retention = Inr (b, until)"
  shows "verifies srv b"
proof -
  obtain m where m: "rt_retainUntil retention = Some until"
    "createBundle sha256 (srv_signer srv) (mo_now mo) (bundle_input_for srv mo ctx bid (rr_id run) m l
      (entriesForSubject l ctx rid) proofs until (case rt_governingRule retention of None \<Rightarrow> [] | Some r \<Rightarrow> r)) = Inr b"
    using assms(4,8) by (auto simp: issue_bundle_def bindE_Inr_iff split: option.splits)
  have "valid_instant (mo_now mo)" using assms(3) by (simp add: clock_ok_def valid_instant_def)
  moreover have "valid_instant until"
    using resolveRetention_until [OF assms(6) m(1)] assms(3)
    by (simp add: clock_ok_def valid_instant_def DAY_MS_def)
  ultimately show ?thesis unfolding verifies_def assms(4)
    using assms(4,7)
    by (intro sha.bundle_of_log_verifies [OF assms(1,2) _ _ _ m(2) assms(5),
          where P = "\<lambda>e. ae_tenantId e = tc_tenantId ctx \<and> ae_subject e = Some rid"])
      (auto simp: bundle_input_for_def entriesForSubject_def forTenant_def audit_root_def conj_commute)
qed

interpretation evidence: system_effects srv clock_ok "\<lambda>_. True" "evidence_stays srv" for srv :: "'k service"
proof (unfold_locales, goal_cases)
  case (2 s t u)
  then show ?case by (auto simp: evidence_stays_def dest: prefix_length_le)
next
  case (8 ctx mo b s rid run rules retention proofs)
  then have "evidence_ok srv s \<Longrightarrow> length (al_entries (as_log s)) \<le> 2 ^ 31 \<Longrightarrow> srv_digest srv = sha256 \<Longrightarrow>
      key_pair (srv_verifier srv) (srv_signer srv) \<Longrightarrow> verifies srv (br_bundle b)"
    by (intro issued_verifies [OF _ _ 8(2)]) (auto simp: evidence_ok_def)
  then show ?case by (auto simp: evidence_stays_def evidence_ok_def bundle_create_def Let_def map_get_set)
qed (auto simp: evidence_stays_def evidence_ok_def audit_append_grows wired_def)

text \<open>C3 Issued evidence keeps verifying: when the log is intact and the stored bundles verify, as
  they do at the start, then in every state the server reaches each stored bundle, old or new,
  verifies under the published key with no failure, as long as the log has at most 2^31
  entries, the digest is SHA-256 and the server holds the key pair it publishes.\<close>

theorem issued_bundles_verify:
  assumes "reaches srv on_clock s t" "srv_digest srv = sha256" "key_pair (srv_verifier srv) (srv_signer srv)" "wired srv"
    "evidence_ok srv s" "length (al_entries (as_log t)) \<le> 2 ^ 31"
    "map_get (as_bundles t) k = Some b"
  shows "\<exists>r. verifyBundle sha256 (srv_verifier srv) (br_bundle b) (ks_publicKeyPem (srv_signer srv)) = Inr r
    \<and> bv_valid r \<and> bv_failures r = []"
proof -
  have "reaches srv (sound_event srv clock_ok (\<lambda>_. True)) s t"
    by (rule reaches_mono [OF assms(1)]) (auto simp: sound_event_def on_clock_def split: event.splits option.split)
  from evidence.reaches_R [OF this] assms show ?thesis
    by (auto simp: evidence_stays_def evidence_ok_def verifies_def)
qed


definition acme_bundles :: "evidence_bundle \<Rightarrow> api_state" where
  "acme_bundles b = demo_start\<lparr>as_bundles := [(''b1'', \<lparr>br_id = ''b1'', br_tenantId = ''acme'', br_runId = demo_id,
     br_bundle = b, br_retainUntil = 183 * DAY_MS, br_deleteBy = None, br_createdAt = 0\<rparr>)]\<rparr>"

lemma read_state: "tenant_route route \<Longrightarrow> snd (handle srv mo ctx route s) = s"
  by (cases route)
    (simp_all add: get_runs_def get_entries_def get_run_def get_environment_def get_manifest_def get_approvals_def
      get_bundle_def verify_bundle_def offline_bundle_def get_me_def get_api_keys_def get_api_key_def
      get_providers_def get_credentials_def get_audit_def get_audit_entry_def compare_runs_def
      with_run_def with_bundle_def with_api_key_def with_entry_def handler_steps stored_manifest_def
      ret_def throw_def Let_def del: upt_Suc split: option.split prod.split sum.split)

lemma serve_caller_state:
  assumes "caller srv mo req s = Some ctx"
  shows "snd (serve srv mo req s) = snd (handle srv mo ctx (rq_route req)
    (snd (on_request srv mo (route_path (rq_route req)) (rq_authorization req) s)))"
  using assms by (auto simp: serve_def caller_def answer_with_def split: prod.split sum.split admission.splits)

definition demo_caller :: tenant_ctx where
  "demo_caller = \<lparr>tc_tenantId = ''acme'', tc_actor = ''ann'', tc_scopes = [''runs:write'', ''runs:read'']\<rparr>"

lemma demo_request_caller:
  assumes "\<not> public_path (path_of_url (route_path route))"
  shows "caller demo_srv demo_moment \<lparr>rq_route = route, rq_authorization = Some ''Bearer acme:ann:runs:write,runs:read''\<rparr> s
      = Some demo_caller"
    "snd (on_request demo_srv demo_moment (route_path route) (Some ''Bearer acme:ann:runs:write,runs:read'') s) = s"
  by (rule dev_caller [where tok = "''acme:ann:runs:write,runs:read''" and ctx = demo_caller],
      code_simp, code_simp, code_simp, rule assms)+

lemma demo_read:
  assumes "\<not> public_path (path_of_url (route_path route))" "tenant_route route"
  shows "replay demo_srv [demo_request route] s = s"
  using serve_caller_state [OF demo_request_caller(1) [OF assms(1), of s]] demo_request_caller(2) [OF assms(1), of s]
    read_state [OF assms(2)] by (simp add: demo_request_def)

theorem issued_bundles_verify_witness:
  "\<exists>b r. createBundle sha256 echo_keys 0 bundle_in = Inr b
    \<and> verifyBundle sha256 echo_api b ''pem'' = Inr r \<and> bv_valid r
    \<and> as_bundles (replay demo_srv [demo_request (VerifyBundle ''b1'')] (acme_bundles b)) \<noteq> []"
proof -
  obtain b where b: "createBundle sha256 echo_keys 0 bundle_in = Inr b" using bundle_in_created by blast
  have v: "verifies demo_srv b"
  proof -
    have "\<exists>r. verifyBundle sha256 echo_api b (ks_publicKeyPem echo_keys) = Inr r \<and> bv_valid r \<and> bv_failures r = []"
      by (rule sha.bundle_of_log_verifies [OF log_1_inv log_1_size, where P = "\<lambda>_. True"])
        (use b proofs_1 echo_pair in \<open>auto simp: bundle_in_def valid_instant_def DAY_def\<close>)
    then show ?thesis by (simp add: verifies_def demo_srv_def)
  qed
  let ?s = "acme_bundles b" and ?t = "replay demo_srv [demo_request (VerifyBundle ''b1'')] (acme_bundles b)"
  have t: "?t = ?s" by (rule demo_read) (simp_all add: path_defs)
  have "allowed demo_srv on_clock [demo_request (VerifyBundle ''b1'')] ?s"
    using demo_clock by (simp add: on_clock_def demo_request_def)
  note r = replay_reaches [OF this]
  have [simp]: "al_entries empty_log = []" by (simp add: empty_log_def)
  have "\<exists>r. verifyBundle sha256 (srv_verifier demo_srv) (br_bundle (snd (hd (as_bundles ?s)))) (ks_publicKeyPem (srv_signer demo_srv))
      = Inr r \<and> bv_valid r \<and> bv_failures r = []"
    by (rule issued_bundles_verify [OF r, where k = "''b1''"], unfold t)
      (use v echo_pair demo_wired(1) in \<open>simp_all add: demo_srv_def evidence_ok_def acme_bundles_def demo_start_def\<close>)
  then have "\<exists>r. verifyBundle sha256 echo_api b ''pem'' = Inr r \<and> bv_valid r"
    by (auto simp: demo_srv_def acme_bundles_def echo_keys_def)
  moreover have "as_bundles ?t \<noteq> []" unfolding t by (simp add: acme_bundles_def)
  ultimately show ?thesis using b by blast
qed

section \<open>Held-out splits\<close>

text \<open>A run against a split whose recorded label means the held-out split.\<close>

definition held_out_run :: "run_record \<Rightarrow> bool" where
  "held_out_run r = (case manifest_of (rr_manifest r) of
     None \<Rightarrow> False | Some m \<Rightarrow> normalizeSplit (tsp_split (mi_taskSet m)) = Some HELD_OUT)"

definition no_new_held_out :: "api_state \<Rightarrow> api_state \<Rightarrow> bool" where
  "no_new_held_out s t = (keyed rr_id (as_runs s) \<longrightarrow> keyed rr_id (as_runs t)
     \<and> (\<forall>k r. map_get (as_runs t) k = Some r \<and> held_out_run r \<longrightarrow>
          (\<exists>r'. map_get (as_runs s) k = Some r' \<and> request_part r' = request_part r)))"

lemma held_out_request_part: "request_part r = request_part r' \<Longrightarrow> held_out_run r \<longleftrightarrow> held_out_run r'"
  by (simp add: held_out_run_def request_part_def)

lemma no_new_runs:
  assumes "keyed rr_id (as_runs s) \<Longrightarrow> keyed rr_id m"
    "\<And>k. keyed rr_id (as_runs s) \<Longrightarrow> map_option request_part (map_get m k) = map_option request_part (map_get (as_runs s) k)"
  shows "no_new_held_out s (s\<lparr>as_runs := m\<rparr>)"
proof -
  have "\<exists>r'. map_get (as_runs s) k = Some r' \<and> request_part r' = request_part r"
    if "keyed rr_id (as_runs s)" "map_get m k = Some r" for k r
    using assms(2) [of k] that by (cases "map_get (as_runs s) k") auto
  with assms(1) show ?thesis by (auto simp: no_new_held_out_def)
qed

lemma run_manifest_split:
  assumes "run_manifest srv mo rid input = Inr m"
  shows "tsp_split (mi_taskSet m) = sr_split input"
  using assms by (auto simp: run_manifest_def createManifest_def bindE_Inr_iff manifest_input.defs manifest.defs)

lemma no_new_create:
  assumes "HELD_OUT_SCOPE \<notin> set (tc_scopes ctx)" "run_manifest srv mo rid input = Inr m"
    "split_refusal ctx (sr_split input) = None"
  shows "no_new_held_out s (s\<lparr>as_counter := c, as_runs := snd (run_create ctx (new_run mo rid input m) (as_runs s))\<rparr>)"
proof -
  have "tsp_split (mi_taskSet m) = sr_split input"
    by (rule run_manifest_split [OF assms(2)])
  moreover have "normalizeSplit (sr_split input) \<noteq> Some HELD_OUT"
    using assms(1,3) by (auto simp: split_refusal_def Let_def checkSplitAccess_denied split: if_splits option.splits)
  ultimately have "\<not> held_out_run (new_run mo rid input m\<lparr>rr_tenantId := tc_tenantId ctx\<rparr>)"
    by (simp add: held_out_run_def new_run_def)
  then show ?thesis
    using run_ops_keyed(1) [of "as_runs s" ctx "new_run mo rid input m"]
    by (auto simp: no_new_held_out_def run_create_def Let_def map_get_set)
qed

interpretation held_out: system_effects srv "\<lambda>_. True" "\<lambda>ctx. HELD_OUT_SCOPE \<notin> set (tc_scopes ctx)" no_new_held_out
  for srv :: "'k service"
proof (unfold_locales, goal_cases)
  case (2 s t u)
  then show ?case unfolding no_new_held_out_def by (metis held_out_request_part)
qed (auto simp: no_new_held_out_def [of s s for s] no_new_held_out_def [of _ "_\<lparr>as_log := _\<rparr>"]
    no_new_held_out_def [of _ "_\<lparr>as_counter := _\<rparr>"] no_new_held_out_def [of _ "_\<lparr>as_approvals := _\<rparr>"]
    no_new_held_out_def [of _ "_\<lparr>as_counter := _, as_bundles := _\<rparr>"]
    no_new_held_out_def [of _ "_\<lparr>as_keys := _\<rparr>"] no_new_held_out_def [of _ "_\<lparr>as_creds := _\<rparr>"]
    no_new_held_out_def [of _ "_\<lparr>as_cached := _\<rparr>"] no_new_held_out_def [of _ "_\<lparr>as_stats := _\<rparr>"]
    intro: no_new_create intro!: no_new_runs run_ops_request_part run_ops_keyed)

text \<open>C4 The held-out split stays out of reach: as long as no caller holds the
  \<open>splits:held-out\<close> scope, no sequence of requests and polls creates a run whose manifest names
  that split under any recognised spelling.\<close>

theorem held_out_needs_scope:
  assumes "reaches srv (sound_event srv (\<lambda>_. True) (\<lambda>ctx. HELD_OUT_SCOPE \<notin> set (tc_scopes ctx))) s t"
    "keyed rr_id (as_runs s)" "map_get (as_runs t) k = Some r" "manifest_of (rr_manifest r) = Some m"
    "normalizeSplit (tsp_split (mi_taskSet m)) = Some HELD_OUT"
  shows "\<exists>r'. map_get (as_runs s) k = Some r' \<and> request_part r' = request_part r"
  using held_out.reaches_R [OF assms(1)] assms(2-) by (simp add: no_new_held_out_def held_out_run_def)


definition held_manifest :: manifest where
  "held_manifest = pin_manifest\<lparr>mi_taskSet := mi_taskSet pin_manifest\<lparr>tsp_split := '' Held-Out ''\<rparr>\<rparr>"

definition held_state :: api_state where
  "held_state = demo_start\<lparr>as_runs := [(''r1'', demo_run\<lparr>rr_manifest := manifest_fields held_manifest\<rparr>)]\<rparr>"

theorem held_out_needs_scope_witness:
  "\<exists>r. map_get (as_runs (replay demo_srv [demo_request (GetRuns [])] held_state)) ''r1'' = Some r
    \<and> (\<exists>r'. map_get (as_runs held_state) ''r1'' = Some r' \<and> request_part r' = request_part r)"
proof -
  have np: "\<not> public_path (path_of_url (route_path (GetRuns [])))" by (simp add: path_defs)
  have "allowed demo_srv (sound_event demo_srv (\<lambda>_. True) (\<lambda>ctx. HELD_OUT_SCOPE \<notin> set (tc_scopes ctx)))
      [demo_request (GetRuns [])] held_state"
    using demo_request_caller(1) [OF np, of held_state]
    by (simp add: sound_event_def demo_request_def demo_caller_def HELD_OUT_SCOPE_def)
  note r = replay_reaches [OF this]
  let ?r = "demo_run\<lparr>rr_manifest := manifest_fields held_manifest\<rparr>"
  have t: "replay demo_srv [demo_request (GetRuns [])] held_state = held_state" by (rule demo_read [OF np]) simp
  have "normalizeSplit '' Held-Out '' = Some HELD_OUT" by code_simp
  then have "\<exists>r'. map_get (as_runs held_state) ''r1'' = Some r' \<and> request_part r' = request_part ?r"
    by (intro held_out_needs_scope [OF r, unfolded t, where m = held_manifest])
      (simp_all add: held_state_def demo_run_def keyed_def wf_map_def held_manifest_def)
  with t show ?thesis by (auto simp: held_state_def)
qed

section \<open>Who may do what\<close>

text \<open>The scope each protected route asks for.\<close>

fun route_scope :: "route \<Rightarrow> string option" where
  "route_scope (Unprotected p) = None"
| "route_scope GetMe = None"
| "route_scope (PostRun b) = Some ''runs:write''"
| "route_scope (CancelRun i) = Some ''runs:write''"
| "route_scope (PostApiKey b) = Some ''runs:write''"
| "route_scope (RevokeApiKey i) = Some ''runs:write''"
| "route_scope (PostCredential b) = Some ''runs:write''"
| "route_scope (RevokeCredential i) = Some ''runs:write''"
| "route_scope (DecideApproval i b) = Some ''approvals:decide''"
| "route_scope (PostBundle b) = Some ''evidence:generate''"
| "route_scope (GetBundle i) = Some ''evidence:read''"
| "route_scope (VerifyBundle i) = Some ''evidence:read''"
| "route_scope (OfflineBundle i) = Some ''evidence:read''"
| "route_scope (GetEntries i) = Some ''audit:read''"
| "route_scope (GetAudit q) = Some ''audit:read''"
| "route_scope GetAuditRoot = Some ''audit:read''"
| "route_scope (GetAuditEntry t) = Some ''audit:read''"
| "route_scope (GetInclusion t) = Some ''audit:read''"
| "route_scope (GetConsistency q) = Some ''audit:read''"
| "route_scope PostAuditVerify = Some ''audit:read''"
| "route_scope _ = Some ''runs:read''"

lemma handle_without_scope:
  assumes "route_scope route = Some sc" "sc \<notin> set (tc_scopes ctx)"
  shows "handle srv mo ctx route s = (Inl (HttpThrown 403 (''missing required scope: '' @ sc)), s)"
  using assms
  by (cases route)
    (auto simp: post_run_def get_runs_def get_entries_def get_run_def get_environment_def get_manifest_def
      cancel_run_def compare_runs_def get_approvals_def decide_approval_def post_bundle_def get_bundle_def
      verify_bundle_def offline_bundle_def get_audit_def get_audit_root_def get_audit_entry_def get_inclusion_def
      with_entry_def get_consistency_def post_audit_verify_def get_api_keys_def post_api_key_def get_api_key_def
      revoke_api_key_def get_providers_def test_provider_def get_models_def get_credentials_def post_credential_def
      revoke_credential_def get_capabilities_def get_gpu_def get_system_health_def get_runtimes_def get_memory_def
      get_runtime_def andthen_scope)

lemma on_request_keys:
  "snd (on_request srv mo url header s) \<in> {s, s\<lparr>as_keys := snd (key_authenticate (srv_digest srv) (mo_now mo)
     (strip_bearer (the header)) (as_keys s))\<rparr>}"
  by (simp add: on_request_def Let_def split: option.split prod.split sum.split)

text \<open>C8 No scope, no effect: a caller without the scope of a route gets a 403, and the request
  changes nothing but the last use of the API key it came with.\<close>

theorem missing_scope_refused:
  assumes "caller srv mo req s = Some ctx" "route_scope (rq_route req) = Some sc" "sc \<notin> set (tc_scopes ctx)"
  shows "re_status (fst (serve srv mo req s)) = 403
    \<and> (\<exists>ks. snd (serve srv mo req s) = s\<lparr>as_keys := ks\<rparr>
        \<and> (ks = as_keys s \<or> ks = snd (key_authenticate (srv_digest srv) (mo_now mo)
              (strip_bearer (the (rq_authorization req))) (as_keys s))))"
proof -
  let ?o = "on_request srv mo (route_path (rq_route req)) (rq_authorization req) s"
  have f: "fst ?o = Caller ctx" using assms(1) by (auto simp: caller_def split: admission.splits)
  then have "serve srv mo req s = answer_with srv (handle srv mo ctx (rq_route req)) (snd ?o)"
    by (cases ?o) (simp add: serve_def)
  then have "re_status (fst (serve srv mo req s)) = 403" "snd (serve srv mo req s) = snd ?o"
    using handle_without_scope [OF assms(2,3), of srv mo "snd ?o"]
    by (simp_all add: answer_with_def error_reply_def refusal_def reply_def)
  moreover have "\<exists>ks. snd ?o = s\<lparr>as_keys := ks\<rparr> \<and> (ks = as_keys s \<or> ks = snd (key_authenticate (srv_digest srv) (mo_now mo)
      (strip_bearer (the (rq_authorization req))) (as_keys s)))"
    using on_request_keys [of srv mo "route_path (rq_route req)" "rq_authorization req" s]
    by (auto intro: exI [of _ "as_keys s"])
  ultimately show ?thesis by simp
qed

definition demo_evidence_req :: request where
  "demo_evidence_req = \<lparr>rq_route = GetBundle ''b1'', rq_authorization = Some ''Bearer acme:ann:runs:write,runs:read''\<rparr>"

theorem missing_scope_refused_witness: "re_status (fst (serve demo_srv demo_moment demo_evidence_req demo_start)) = 403"
  using missing_scope_refused [OF demo_request_caller(1) [of "GetBundle ''b1''" demo_start], of "''evidence:read''"]
  by (simp add: path_defs demo_caller_def demo_evidence_req_def)

text \<open>C7 Every protected route needs a caller: no path of one is public, and a request whose token
  names none gets a 401 with a challenge and changes nothing.\<close>

theorem unauthenticated_refused:
  assumes "\<forall>p. rq_route req \<noteq> Unprotected p" "caller srv mo req s = None"
  shows "\<not> public_path (path_of_url (route_path (rq_route req)))
    \<and> re_status (fst (serve srv mo req s)) = 401 \<and> re_challenge (fst (serve srv mo req s))
    \<and> snd (serve srv mo req s) = s"
proof -
  have np: "\<not> public_path (path_of_url (route_path (rq_route req)))"
    using assms(1) by (cases "rq_route req") (simp_all add: path_defs)
  have kk: "key_authenticate H now secret ks = (Inl e, ks') \<Longrightarrow> ks' = ks" for H now secret ks e ks'
    by (auto simp: key_authenticate_def split: if_splits sum.splits)
  show ?thesis using np assms(2)
    by (auto simp: serve_def caller_def on_request_def Let_def challenge_def refusal_def reply_def dest: kk
        split: if_splits option.splits prod.splits sum.splits)
qed

theorem unauthenticated_refused_witness:
  "serve demo_srv demo_moment \<lparr>rq_route = CancelRun demo_id, rq_authorization = None\<rparr> demo_start
    = (fst (serve demo_srv demo_moment \<lparr>rq_route = CancelRun demo_id, rq_authorization = None\<rparr> demo_start), demo_start)"
proof -
  have "caller demo_srv demo_moment \<lparr>rq_route = CancelRun demo_id, rq_authorization = None\<rparr> demo_start = None"
    by (simp add: caller_def on_request_def path_defs Let_def authenticator_def demo_srv_def devAuthenticate_def given_def)
  from unauthenticated_refused [OF _ this] show ?thesis by (simp add: prod_eq_iff)
qed

end
