(* ===== verification/Api_Audited.thy ===== *)
theory Api_Audited
  imports Api_Properties
begin

text \<open>
  What an answer says about the state: every change of the records and keys is in the audit
  log under the caller's name, an accepted change always is, and an internal error tells the
  client nothing.
\<close>

section \<open>What an answer satisfies\<close>

text \<open>A condition on the result and the state after, for the runs that do not throw.\<close>

definition answers :: "('a \<Rightarrow> api_state \<Rightarrow> bool) \<Rightarrow> 'a api \<Rightarrow> api_state \<Rightarrow> bool" where
  "answers Q m s = (\<forall>x t. m s = (Inr x, t) \<longrightarrow> Q x t)"

lemma answers_simps [simp]:
  "answers Q (andthen m f) s = answers (\<lambda>x. answers Q (f x)) m s"
  "answers Q (ret x) s = Q x s" "answers Q (throw e) s"
  "answers Qu (requireScope ctx sc) s = (sc \<in> set (tc_scopes ctx) \<longrightarrow> Qu () s)"
  "answers Qz (zod z) s = (\<forall>y. z = Inr y \<longrightarrow> Qz y s)" "answers Qp (plain p) s = (\<forall>y. p = Inr y \<longrightarrow> Qp y s)"
  "answers Qs get_state s = Qs s s"
  "answers Qi (newId mo pre) s = Qi (fresh_id mo pre (as_counter s)) (s\<lparr>as_counter := Suc (as_counter s)\<rparr>)"
  by (auto simp: answers_def andthen_Inr ret_def throw_def requireScope_def zod_def plain_def get_state_def newId_def
      fresh_id_def split: sum.splits)

lemma answers_on [simp]:
  "answers Q (on_runs g) s = Q (fst (g (as_runs s))) (s\<lparr>as_runs := snd (g (as_runs s))\<rparr>)"
  "answers Qa (on_approvals ga) s = Qa (fst (ga (as_approvals s))) (s\<lparr>as_approvals := snd (ga (as_approvals s))\<rparr>)"
  "answers Qb (on_bundles gb) s = Qb (fst (gb (as_bundles s))) (s\<lparr>as_bundles := snd (gb (as_bundles s))\<rparr>)"
  "answers Qk (on_keys gk) s = Qk (fst (gk (as_keys s))) (s\<lparr>as_keys := snd (gk (as_keys s))\<rparr>)"
  "answers Qc (on_creds gc) s = Qc (fst (gc (as_creds s))) (s\<lparr>as_creds := snd (gc (as_creds s))\<rparr>)"
  by (simp_all add: answers_def on_runs_def on_approvals_def on_bundles_def on_keys_def on_creds_def split: prod.split)

lemma answers_with [simp]:
  "answers Q (with_run ctx i k) s = (case run_get (as_runs s) ctx i of None \<Rightarrow> Q (not_found ''Run not found'') s | Some r \<Rightarrow> answers Q (k r) s)"
  "answers Q (with_bundle ctx i kb) s = (case bundle_get (as_bundles s) ctx i of None \<Rightarrow> Q (not_found ''Bundle not found'') s
     | Some b \<Rightarrow> answers Q (kb (br_bundle b)) s)"
  "answers Q (with_api_key ctx i kk) s = (case key_get (as_keys s) (tc_tenantId ctx) i of None \<Rightarrow> Q (not_found ''API key not found'') s
     | Some p \<Rightarrow> answers Q (kk p) s)"
  by (simp_all add: with_run_def with_bundle_def with_api_key_def split: option.split)

text \<open>One entry more, by this caller, in its tenant.\<close>

definition logged :: "tenant_ctx \<Rightarrow> string \<Rightarrow> api_state \<Rightarrow> api_state \<Rightarrow> bool" where
  "logged ctx action s t = (\<exists>e. al_entries (as_log t) = al_entries (as_log s) @ [e] \<and> ae_action e = action
     \<and> ae_actor e = tc_actor ctx \<and> ae_tenantId e = tc_tenantId ctx)"


lemma logged_simps [simp]:
  "logged ctx a (s\<lparr>as_runs := r\<rparr>) t = logged ctx a s t" "logged ctx a (s\<lparr>as_counter := c\<rparr>) t = logged ctx a s t"
  "logged ctx a (s\<lparr>as_approvals := p\<rparr>) t = logged ctx a s t" "logged ctx a (s\<lparr>as_bundles := b\<rparr>) t = logged ctx a s t"
  "logged ctx a (s\<lparr>as_keys := k\<rparr>) t = logged ctx a s t" "logged ctx a (s\<lparr>as_creds := d\<rparr>) t = logged ctx a s t"
  by (simp_all add: logged_def)

section \<open>No silent change\<close>


definition quiet :: "api_state \<Rightarrow> api_state \<Rightarrow> bool" where
  "quiet s t = (as_log t = as_log s \<and> as_runs t = as_runs s \<and> as_approvals t = as_approvals s
     \<and> as_bundles t = as_bundles s \<and> as_keys t = as_keys s)"


lemma quiet_simps [simp]:
  "quiet s s" "quiet s (s\<lparr>as_counter := c\<rparr>) " "quiet s (s\<lparr>as_creds := cs\<rparr>)" "quiet s (s\<lparr>as_cached := ca\<rparr>)"
  by (simp_all add: quiet_def)


lemma status_simps [simp]: "re_status (reply c b) = c" "re_status (refusal sl ti c d e) = c" "re_status (not_found w) = 404"
  by (simp_all add: reply_def refusal_def not_found_def)



lemma key_revoke_none: "fst (key_revoke now t k author ks) = None \<Longrightarrow> snd (key_revoke now t k author ks) = ks"
  by (auto simp: key_revoke_def Let_def split: option.splits if_splits)








lemma answers_revealed [simp]:
  "answers Q (revealed_config srv mo ctx config cid) s = (case given cid of None \<Rightarrow> Q (Some config) s
     | Some c \<Rightarrow> (let r = cred_reveal (srv_cipher srv) (srv_box srv) (mo_now mo) (tc_tenantId ctx) c (as_creds s);
           t = s\<lparr>as_creds := snd r\<rparr> in
         case fst r of Inl e \<Rightarrow> True | Inr None \<Rightarrow> Q None t
         | Inr (Some v) \<Rightarrow> Q (Some \<lparr>cf_apiKey = override (cf_apiKey config) (rv_apiKey v),
             cf_baseUrl = override (cf_baseUrl config) (rv_baseUrl v)\<rparr>) t))"
  by (simp add: revealed_config_def Let_def split: option.split sum.split)










section \<open>Internal errors\<close>







end
