(* ===== verification/Provenance.thy ===== *)
theory Provenance
  imports Schemas System_Memory Reproducibility
begin

text \<open>
  \<open>provenance/identity.ts\<close>: which weights ran, and how they were served. A model and a deployment
  each have a digest of a line-by-line text; an execution digests both.
\<close>

section \<open>Identities\<close>

datatype model_origin = Hub | ProprietaryApi | LocalArtifact | UnknownOrigin

fun origin_name :: "model_origin \<Rightarrow> string" where
  "origin_name Hub = ''hub''"
| "origin_name ProprietaryApi = ''proprietary_api''"
| "origin_name LocalArtifact = ''local_artifact''"
| "origin_name UnknownOrigin = ''unknown''"

record model_identity =
  mid_repository :: string
  mid_origin :: model_origin
  mid_revision :: "string option"
  mid_commitSha :: "string option"
  mid_weightsDigest :: "string option"
  mid_architecture :: "string option"
  mid_parameterCount :: "jsnum option"
  mid_modalities :: "string list option"
  mid_tokenizerRepository :: "string option"
  mid_tokenizerRevision :: "string option"
  mid_publisherVersion :: "string option"

datatype inference_engine = Vllm | Sglang | Tgi | Ollama | Llamacpp | Lmstudio | Nim | TensorrtLlm
  | Transformers | VendorManaged | UnknownEngine

fun engine_name :: "inference_engine \<Rightarrow> string" where
  "engine_name Vllm = ''vllm''"
| "engine_name Sglang = ''sglang''"
| "engine_name Tgi = ''tgi''"
| "engine_name Ollama = ''ollama''"
| "engine_name Llamacpp = ''llamacpp''"
| "engine_name Lmstudio = ''lmstudio''"
| "engine_name Nim = ''nim''"
| "engine_name TensorrtLlm = ''tensorrt-llm''"
| "engine_name Transformers = ''transformers''"
| "engine_name VendorManaged = ''vendor_managed''"
| "engine_name UnknownEngine = ''unknown''"

datatype numeric_precision = Fp32 | Fp16 | Bf16 | Fp8 | Int8 | Int4 | Mixed | UnknownPrecision

fun precision_name :: "numeric_precision \<Rightarrow> string" where
  "precision_name Fp32 = ''fp32''"
| "precision_name Fp16 = ''fp16''"
| "precision_name Bf16 = ''bf16''"
| "precision_name Fp8 = ''fp8''"
| "precision_name Int8 = ''int8''"
| "precision_name Int4 = ''int4''"
| "precision_name Mixed = ''mixed''"
| "precision_name UnknownPrecision = ''unknown''"

record runtime_provenance =
  rtp_engine :: inference_engine
  rtp_engineVersion :: "string option"
  rtp_containerDigest :: "string option"
  rtp_precision :: "numeric_precision option"
  rtp_quantization :: "string option"
  rtp_maxContextLength :: "jsnum option"
  rtp_tensorParallelism :: "jsnum option"

record accelerator =
  acc_vendor :: string
  acc_model :: "string option"
  acc_count :: "jsnum option"
  acc_memoryGb :: "jsnum option"
  acc_toolkitVersions :: "(string \<times> string) list option"
  acc_hostLabel :: "string option"

record deployment_identity =
  dep_provider :: string
  dep_servedModelId :: string
  dep_runtime :: runtime_provenance
  dep_accelerator :: "accelerator option"
  dep_endpoint :: "string option"

record evaluated_model =
  em_model :: model_identity
  em_deployment :: deployment_identity

section \<open>Digests\<close>

text \<open>\<open>x ?? ''\<close> in a template, for strings and for numbers.\<close>

definition or_empty :: "string option \<Rightarrow> string" where
  "or_empty x = (case x of None \<Rightarrow> [] | Some s \<Rightarrow> s)"

definition js_text :: "jsnum \<Rightarrow> string" where
  "js_text n = (case n of NegZero \<Rightarrow> ''0'' | _ \<Rightarrow> num_show n)"

definition sha_text :: "(bytes \<Rightarrow> bytes) \<Rightarrow> string list \<Rightarrow> string" where
  "sha_text H ls = ''sha256:'' @ to_hex (H (utf8 (concat (map line_of ls))))"

definition model_lines :: "model_identity \<Rightarrow> string list" where
  "model_lines m = [''model-identity:v1'', origin_name (mid_origin m), mid_repository m,
     ''rev:'' @ or_empty (mid_revision m), ''sha:'' @ or_empty (mid_commitSha m),
     ''weights:'' @ or_empty (mid_weightsDigest m),
     ''tok:'' @ or_empty (mid_tokenizerRepository m) @ ''@'' @ or_empty (mid_tokenizerRevision m)]"

definition modelDigest :: "(bytes \<Rightarrow> bytes) \<Rightarrow> model_identity \<Rightarrow> string" where
  "modelDigest H m = sha_text H (model_lines m)"

definition canonicalKeyValues :: "(string \<times> string) list \<Rightarrow> string" where
  "canonicalKeyValues kvs = join '','' (map (\<lambda>(k, v). k @ ''='' @ v) (sort_keys kvs))"

definition deployment_lines :: "deployment_identity \<Rightarrow> string list" where
  "deployment_lines d = (let r = dep_runtime d; a = dep_accelerator d;
       part = (\<lambda>f. or_empty (Option.bind a f)) in
     [''deployment-identity:v1'', dep_provider d, dep_servedModelId d,
      ''engine:'' @ engine_name (rtp_engine r) @ ''@'' @ or_empty (rtp_engineVersion r),
      ''container:'' @ or_empty (rtp_containerDigest r),
      ''precision:'' @ or_empty (map_option precision_name (rtp_precision r)),
      ''quant:'' @ or_empty (rtp_quantization r),
      ''tp:'' @ or_empty (map_option js_text (rtp_tensorParallelism r)),
      ''hw:'' @ part (\<lambda>x. Some (acc_vendor x)) @ ''/'' @ part acc_model @ ''x''
        @ part (\<lambda>x. map_option js_text (acc_count x)),
      ''toolkits:'' @ part (\<lambda>x. map_option canonicalKeyValues (acc_toolkitVersions x)),
      ''endpoint:'' @ or_empty (dep_endpoint d)])"

definition deploymentDigest :: "(bytes \<Rightarrow> bytes) \<Rightarrow> deployment_identity \<Rightarrow> string" where
  "deploymentDigest H d = sha_text H (deployment_lines d)"

definition executionDigest :: "(bytes \<Rightarrow> bytes) \<Rightarrow> evaluated_model \<Rightarrow> string" where
  "executionDigest H e = sha_text H [''execution:v1'', modelDigest H (em_model e), deploymentDigest H (em_deployment e)]"

definition isSameModel :: "(bytes \<Rightarrow> bytes) \<Rightarrow> evaluated_model \<Rightarrow> evaluated_model \<Rightarrow> bool" where
  "isSameModel H a b = (modelDigest H (em_model a) = modelDigest H (em_model b))"

definition isSameExecution :: "(bytes \<Rightarrow> bytes) \<Rightarrow> evaluated_model \<Rightarrow> evaluated_model \<Rightarrow> bool" where
  "isSameExecution H a b = (executionDigest H a = executionDigest H b)"

section \<open>How firmly a model is pinned\<close>

datatype pinning_strength = Exact | Revision | Alias | Unpinned

fun strength_name :: "pinning_strength \<Rightarrow> string" where
  "strength_name Exact = ''exact''"
| "strength_name Revision = ''revision''"
| "strength_name Alias = ''alias''"
| "strength_name Unpinned = ''unpinned''"

definition pinningStrength :: "model_identity \<Rightarrow> pinning_strength \<times> string" where
  "pinningStrength m =
     (if given (mid_weightsDigest m) \<noteq> None then
        (Exact, ''Pinned to a weights digest. The exact bytes evaluated can be re-fetched.'')
      else if given (mid_commitSha m) \<noteq> None then
        (Revision, ''Pinned to a commit. The repository could be deleted, but not silently changed.'')
      else if given (mid_revision m) \<noteq> None then
        (Alias, ''Pinned to a provider-reported revision. Reproducible only while the provider keeps ''
           @ ''serving that snapshot.'')
      else (Unpinned, ''No revision was recorded. A later run may evaluate different weights under the same ''
           @ ''name, and the two results cannot be distinguished.''))"

section \<open>What differs\<close>

definition describeModel :: "model_identity \<Rightarrow> string" where
  "describeModel m = (case given (case mid_commitSha m of None \<Rightarrow> mid_revision m | Some c \<Rightarrow> Some c) of
     None \<Rightarrow> mid_repository m
   | Some r \<Rightarrow> mid_repository m @ ''@'' @ take 12 r)"

definition describeAccelerator :: "accelerator option \<Rightarrow> string" where
  "describeAccelerator a = (case a of
     None \<Rightarrow> ''unspecified hardware''
   | Some x \<Rightarrow>
       (case acc_count x of
          None \<Rightarrow> []
        | Some n \<Rightarrow> if dless (dint 1) (num_value n) then js_text n @ ''x '' else [])
       @ acc_vendor x @ (case given (acc_model x) of None \<Rightarrow> [] | Some m \<Rightarrow> '' '' @ m))"

definition describeDeployment :: "deployment_identity \<Rightarrow> string" where
  "describeDeployment d = engine_name (rtp_engine (dep_runtime d)) @ '' on '' @ describeAccelerator (dep_accelerator d)"

datatype dimension = DModel | DRuntime | DHardware | DEndpoint | DPrecision | DQuantization

definition versus :: "string \<Rightarrow> string \<Rightarrow> string" where
  "versus x y = x @ '' vs '' @ y"

text \<open>The hardware is compared by a text that spells out what is missing.\<close>

definition hardware_text :: "accelerator option \<Rightarrow> string" where
  "hardware_text a = or_default (map_option acc_vendor a) ''undefined'' @ ''/''
     @ or_default (Option.bind a acc_model) ''undefined''"

definition diffExecutions :: "(bytes \<Rightarrow> bytes) \<Rightarrow> evaluated_model \<Rightarrow> evaluated_model \<Rightarrow> (dimension \<times> string) list" where
  "diffExecutions H a b =
     (let da = em_deployment a; db = em_deployment b; ra = dep_runtime da; rb = dep_runtime db in
      (if modelDigest H (em_model a) \<noteq> modelDigest H (em_model b)
       then [(DModel, ''different weights: '' @ versus (describeModel (em_model a)) (describeModel (em_model b)))] else [])
      @ (if rtp_engine ra \<noteq> rtp_engine rb
         then [(DRuntime, versus (engine_name (rtp_engine ra)) (engine_name (rtp_engine rb)))] else [])
      @ (if rtp_precision ra \<noteq> rtp_precision rb
         then [(DPrecision, versus (or_default (map_option precision_name (rtp_precision ra)) ''unknown'')
           (or_default (map_option precision_name (rtp_precision rb)) ''unknown''))] else [])
      @ (if rtp_quantization ra \<noteq> rtp_quantization rb
         then [(DQuantization, versus (or_default (rtp_quantization ra) ''none'') (or_default (rtp_quantization rb) ''none''))] else [])
      @ (if hardware_text (dep_accelerator da) \<noteq> hardware_text (dep_accelerator db)
         then [(DHardware, versus (describeAccelerator (dep_accelerator da)) (describeAccelerator (dep_accelerator db)))] else [])
      @ (if dep_endpoint da \<noteq> dep_endpoint db then [(DEndpoint, ''served from different endpoints'')] else []))"

section \<open>Lemmas\<close>

definition line_list :: "string list \<Rightarrow> bool" where
  "line_list ls = (\<forall>l \<in> set ls. newline \<notin> set l)"

lemma sha_text_eq:
  assumes "line_list xs" "line_list ys" "inj_on H {utf8 (concat (map line_of xs)), utf8 (concat (map line_of ys))}"
  shows "sha_text H xs = sha_text H ys \<longleftrightarrow> xs = ys"
proof
  assume "sha_text H xs = sha_text H ys"
  then have "H (utf8 (concat (map line_of xs))) = H (utf8 (concat (map line_of ys)))" by (simp add: sha_text_def)
  then have "utf8 (concat (map line_of xs)) = utf8 (concat (map line_of ys))" using assms(3) by (auto dest: inj_onD)
  then show "xs = ys" using concat_lines_eq [of xs ys] assms(1,2) by (auto simp: line_list_def)
qed simp

lemma origin_name_inj [simp]: "origin_name a = origin_name b \<longleftrightarrow> a = b"
  by (cases a; cases b) simp_all

lemma to_hex_no_newline: "newline \<notin> set (to_hex bs)"
  using list_all_to_hex [of bs] by (auto simp: list_all_iff is_lower_hex_def newline_def)

lemma sha_text_line: "newline \<notin> set (sha_text H ls)"
  using to_hex_no_newline by (simp add: sha_text_def newline_def)

end
