(* ===== verification/Passport.thy ===== *)
theory Passport
  imports Provenance Signer
begin

text \<open>
  \<open>provenance/passport.ts\<close>: the passport of an evaluation. Its class is derived from the evidence
  that is there, its caveats from the measurement, and both are signed; whoever verifies it
  recomputes the digests, the class and the arithmetic. Numbers are kept as written and read
  as doubles where the code computes with them.
\<close>

section \<open>Data\<close>

datatype provenance_class = SelfReported | CommunityReported | AgentEvalVerified

fun class_name :: "provenance_class \<Rightarrow> string" where
  "class_name SelfReported = ''SELF_REPORTED''"
| "class_name CommunityReported = ''COMMUNITY_REPORTED''"
| "class_name AgentEvalVerified = ''AGENT_EVAL_VERIFIED''"

text \<open>Ordered weakest to strongest.\<close>

fun class_rank :: "provenance_class \<Rightarrow> nat" where
  "class_rank SelfReported = 0"
| "class_rank CommunityReported = 1"
| "class_rank AgentEvalVerified = 2"

lemma class_rank_inj [simp]: "class_rank a = class_rank b \<longleftrightarrow> a = b"
  by (cases a; cases b) simp_all

instantiation provenance_class :: linorder
begin

definition less_eq_provenance_class :: "provenance_class \<Rightarrow> provenance_class \<Rightarrow> bool" where
  "less_eq_provenance_class a b = (class_rank a \<le> class_rank b)"

definition less_provenance_class :: "provenance_class \<Rightarrow> provenance_class \<Rightarrow> bool" where
  "less_provenance_class a b = (class_rank a < class_rank b)"

instance
  by standard (auto simp: less_eq_provenance_class_def less_provenance_class_def dest: antisym)

end

record artifact_digests =
  pdg_model :: string
  pdg_deployment :: string
  pdg_benchmark :: string
  pdg_environment :: "string option"
  pdg_verifier :: "string option"
  pdg_scorer :: "string option"
  pdg_judge :: "string option"
  pdg_trajectories :: "string option"

record passport_metrics =
  pm_successRate :: jsnum
  pm_tasksAttempted :: jsnum
  pm_tasksSucceeded :: jsnum
  pm_trials :: jsnum
  pm_meanScore :: "jsnum option"
  pm_medianScore :: "jsnum option"
  pm_passAtK :: "(string \<times> jsnum) list option"

record passport_statistics =
  pst_low :: jsnum
  pst_high :: jsnum
  pst_confidenceLevel :: jsnum
  pst_method :: string
  pst_standardDeviation :: "jsnum option"
  pst_minimumReportableDifference :: "jsnum option"

record passport_economics =
  pec_inputTokens :: "jsnum option"
  pec_outputTokens :: "jsnum option"
  pec_totalCostUsd :: "jsnum option"
  pec_costPerSuccessUsd :: "jsnum option"
  pec_acceleratorSeconds :: "jsnum option"
  pec_energyJoules :: "jsnum option"
  pec_meanLatencyMs :: "jsnum option"

record passport_evidence =
  pev_merkleRoot :: string
  pev_treeSize :: jsnum
  pev_bundleId :: string
  pev_logSigningKeyId :: "string option"

record passport_payload =
  pp_passportVersion :: string
  pp_passportId :: string
  pp_issuedAt :: string
  pp_issuerName :: string
  pp_issuerVersion :: string
  pp_model :: model_identity
  pp_deployment :: deployment_identity
  pp_benchmarkId :: string
  pp_benchmarkVersion :: string
  pp_digests :: artifact_digests
  pp_metrics :: passport_metrics
  pp_statistics :: passport_statistics
  pp_economics :: "passport_economics option"
  pp_evidence :: "passport_evidence option"
  pp_provenanceClass :: provenance_class
  pp_pinning :: pinning_strength
  pp_pinningDetail :: string
  pp_caveats :: "string list"

record passport_input =
  ipi_passportId :: string
  ipi_issuerVersion :: string
  ipi_model :: model_identity
  ipi_deployment :: deployment_identity
  ipi_benchmarkId :: string
  ipi_benchmarkVersion :: string
  ipi_benchmarkDigest :: string
  ipi_environmentDigest :: "string option"
  ipi_verifierDigest :: "string option"
  ipi_scorerDigest :: "string option"
  ipi_judgeDigest :: "string option"
  ipi_trajectoriesDigest :: "string option"
  ipi_metrics :: passport_metrics
  ipi_statistics :: passport_statistics
  ipi_economics :: "passport_economics option"
  ipi_evidence :: "passport_evidence option"
  ipi_selfReported :: bool

section \<open>The signed value\<close>

abbreviation opt_s :: "string option \<Rightarrow> jsval" where "opt_s \<equiv> opt_json JStr"
abbreviation opt_n :: "jsnum option \<Rightarrow> jsval" where "opt_n \<equiv> opt_json JNum"

definition model_value :: "model_identity \<Rightarrow> jsval" where
  "model_value m = JObj
     [(''repository'', JStr (mid_repository m)), (''origin'', JStr (origin_name (mid_origin m))),
      (''revision'', opt_s (mid_revision m)), (''commitSha'', opt_s (mid_commitSha m)),
      (''weightsDigest'', opt_s (mid_weightsDigest m)), (''architecture'', opt_s (mid_architecture m)),
      (''parameterCount'', opt_n (mid_parameterCount m)),
      (''modalities'', opt_json (\<lambda>ms. JArr (map JStr ms)) (mid_modalities m)),
      (''tokenizerRepository'', opt_s (mid_tokenizerRepository m)),
      (''tokenizerRevision'', opt_s (mid_tokenizerRevision m)), (''publisherVersion'', opt_s (mid_publisherVersion m))]"

definition runtime_value :: "runtime_provenance \<Rightarrow> jsval" where
  "runtime_value r = JObj
     [(''engine'', JStr (engine_name (rtp_engine r))), (''engineVersion'', opt_s (rtp_engineVersion r)),
      (''containerDigest'', opt_s (rtp_containerDigest r)),
      (''precision'', opt_s (map_option precision_name (rtp_precision r))),
      (''quantization'', opt_s (rtp_quantization r)), (''maxContextLength'', opt_n (rtp_maxContextLength r)),
      (''tensorParallelism'', opt_n (rtp_tensorParallelism r))]"

definition accelerator_value :: "accelerator \<Rightarrow> jsval" where
  "accelerator_value a = JObj
     [(''vendor'', JStr (acc_vendor a)), (''model'', opt_s (acc_model a)), (''count'', opt_n (acc_count a)),
      (''memoryGb'', opt_n (acc_memoryGb a)),
      (''toolkitVersions'', opt_json (\<lambda>kvs. JObj (map (\<lambda>(k, v). (k, JStr v)) kvs)) (acc_toolkitVersions a)),
      (''hostLabel'', opt_s (acc_hostLabel a))]"

definition deployment_value :: "deployment_identity \<Rightarrow> jsval" where
  "deployment_value d = JObj
     [(''provider'', JStr (dep_provider d)), (''servedModelId'', JStr (dep_servedModelId d)),
      (''runtime'', runtime_value (dep_runtime d)), (''accelerator'', opt_json accelerator_value (dep_accelerator d)),
      (''endpoint'', opt_s (dep_endpoint d))]"

definition digests_value :: "artifact_digests \<Rightarrow> jsval" where
  "digests_value d = JObj
     [(''model'', JStr (pdg_model d)), (''deployment'', JStr (pdg_deployment d)), (''benchmark'', JStr (pdg_benchmark d)),
      (''environment'', opt_s (pdg_environment d)), (''verifier'', opt_s (pdg_verifier d)),
      (''scorer'', opt_s (pdg_scorer d)), (''judge'', opt_s (pdg_judge d)), (''trajectories'', opt_s (pdg_trajectories d))]"

definition metrics_value :: "passport_metrics \<Rightarrow> jsval" where
  "metrics_value m = JObj
     [(''successRate'', JNum (pm_successRate m)), (''tasksAttempted'', JNum (pm_tasksAttempted m)),
      (''tasksSucceeded'', JNum (pm_tasksSucceeded m)), (''trials'', JNum (pm_trials m)),
      (''meanScore'', opt_n (pm_meanScore m)), (''medianScore'', opt_n (pm_medianScore m)),
      (''passAtK'', opt_json (\<lambda>kvs. JObj (map (\<lambda>(k, v). (k, JNum v)) kvs)) (pm_passAtK m))]"

definition statistics_value :: "passport_statistics \<Rightarrow> jsval" where
  "statistics_value s = JObj
     [(''confidenceIntervalLow'', JNum (pst_low s)), (''confidenceIntervalHigh'', JNum (pst_high s)),
      (''confidenceLevel'', JNum (pst_confidenceLevel s)), (''method'', JStr (pst_method s)),
      (''standardDeviation'', opt_n (pst_standardDeviation s)),
      (''minimumReportableDifference'', opt_n (pst_minimumReportableDifference s))]"

definition economics_value :: "passport_economics \<Rightarrow> jsval" where
  "economics_value e = JObj
     [(''inputTokens'', opt_n (pec_inputTokens e)), (''outputTokens'', opt_n (pec_outputTokens e)),
      (''totalCostUsd'', opt_n (pec_totalCostUsd e)), (''costPerSuccessUsd'', opt_n (pec_costPerSuccessUsd e)),
      (''acceleratorSeconds'', opt_n (pec_acceleratorSeconds e)), (''energyJoules'', opt_n (pec_energyJoules e)),
      (''meanLatencyMs'', opt_n (pec_meanLatencyMs e))]"

definition evidence_value :: "passport_evidence \<Rightarrow> jsval" where
  "evidence_value e = JObj
     [(''merkleRoot'', JStr (pev_merkleRoot e)), (''treeSize'', JNum (pev_treeSize e)),
      (''bundleId'', JStr (pev_bundleId e)), (''logSigningKeyId'', opt_s (pev_logSigningKeyId e))]"

definition payload_value :: "passport_payload \<Rightarrow> jsval" where
  "payload_value p = JObj
     [(''passportVersion'', JStr (pp_passportVersion p)), (''passportId'', JStr (pp_passportId p)),
      (''issuedAt'', JStr (pp_issuedAt p)),
      (''issuer'', JObj [(''name'', JStr (pp_issuerName p)), (''version'', JStr (pp_issuerVersion p))]),
      (''model'', model_value (pp_model p)), (''deployment'', deployment_value (pp_deployment p)),
      (''benchmarkId'', JStr (pp_benchmarkId p)), (''benchmarkVersion'', JStr (pp_benchmarkVersion p)),
      (''digests'', digests_value (pp_digests p)), (''metrics'', metrics_value (pp_metrics p)),
      (''statistics'', statistics_value (pp_statistics p)), (''economics'', opt_json economics_value (pp_economics p)),
      (''evidence'', opt_json evidence_value (pp_evidence p)),
      (''provenanceClass'', JStr (class_name (pp_provenanceClass p))),
      (''reproducibility'', JObj [(''pinning'', JStr (strength_name (pp_pinning p))), (''detail'', JStr (pp_pinningDetail p))]),
      (''caveats'', JArr (map JStr (pp_caveats p)))]"

section \<open>Issuing\<close>

definition hasEvidence :: "passport_evidence option \<Rightarrow> bool" where
  "hasEvidence e = (case e of None \<Rightarrow> False
     | Some x \<Rightarrow> pev_merkleRoot x \<noteq> [] \<and> dless (DFin 0) (num_value (pev_treeSize x)))"

definition deriveProvenanceClass :: "passport_input \<Rightarrow> provenance_class \<times> string list" where
  "deriveProvenanceClass i =
     (if ipi_selfReported i then (SelfReported,
        [''Reported by the party being measured. No independent execution took place, so the ''
         @ ''numbers cannot be checked against a trajectory.''])
      else if \<not> hasEvidence (ipi_evidence i) then (CommunityReported,
        [''No evidence bundle is attached, so this result cannot be verified offline. It records ''
         @ ''what was claimed, not what was proven.''])
      else (AgentEvalVerified, []))"

definition measurementCaveats :: "passport_input \<Rightarrow> string list" where
  "measurementCaveats i =
     (let m = ipi_metrics i; st = ipi_statistics i;
          width = dsub (num_value (pst_high st)) (num_value (pst_low st));
          pin = pinningStrength (ipi_model i) in
      (if num_value (pm_trials m) = dint 1 then
         [''A single trial per task. Stochastic sampling means a repeat run may differ, and the ''
          @ ''interval below reflects task sampling only, not sampling variance.''] else [])
      @ (if dless (num_value (pm_tasksAttempted m)) (dint 30) then
         [''Only '' @ js_text (pm_tasksAttempted m) @ '' task(s) were attempted. The confidence interval is wide ''
          @ ''and small differences between models are not resolvable at this sample size.''] else [])
      @ (if dless (to_double (1 / 5)) width then
         [''The '' @ fixed_text 0 (dmul (num_value (pst_confidenceLevel st)) (dint 100)) @ ''% interval spans ''
          @ fixed_text 1 (dmul width (dint 100)) @ '' ''
          @ ''percentage points. Treat the point estimate as indicative only.''] else [])
      @ (if fst pin = Unpinned \<or> fst pin = Alias then [snd pin] else [])
      @ (if Option.bind (ipi_economics i) pec_totalCostUsd = None then
         [''Cost was not recorded or no pricing was configured, so it is reported as unknown.''] else []))"

definition passport_payload_of :: "(bytes \<Rightarrow> bytes) \<Rightarrow> instant \<Rightarrow> passport_input \<Rightarrow> passport_payload" where
  "passport_payload_of H now i = \<lparr>pp_passportVersion = ''1.0'', pp_passportId = ipi_passportId i,
     pp_issuedAt = toISOString now, pp_issuerName = ''agent-eval'', pp_issuerVersion = ipi_issuerVersion i,
     pp_model = ipi_model i, pp_deployment = ipi_deployment i, pp_benchmarkId = ipi_benchmarkId i,
     pp_benchmarkVersion = ipi_benchmarkVersion i,
     pp_digests = \<lparr>pdg_model = modelDigest H (ipi_model i), pdg_deployment = deploymentDigest H (ipi_deployment i),
       pdg_benchmark = ipi_benchmarkDigest i, pdg_environment = given (ipi_environmentDigest i),
       pdg_verifier = given (ipi_verifierDigest i), pdg_scorer = given (ipi_scorerDigest i),
       pdg_judge = given (ipi_judgeDigest i), pdg_trajectories = given (ipi_trajectoriesDigest i)\<rparr>,
     pp_metrics = ipi_metrics i, pp_statistics = ipi_statistics i, pp_economics = ipi_economics i,
     pp_evidence = ipi_evidence i, pp_provenanceClass = fst (deriveProvenanceClass i),
     pp_pinning = fst (pinningStrength (ipi_model i)), pp_pinningDetail = snd (pinningStrength (ipi_model i)),
     pp_caveats = snd (deriveProvenanceClass i) @ measurementCaveats i\<rparr>"

definition issuePassport ::
    "(bytes \<Rightarrow> bytes) \<Rightarrow> key_source \<Rightarrow> instant \<Rightarrow> instant \<Rightarrow> passport_input \<Rightarrow> string + passport_payload signed_envelope" where
  "issuePassport H ks now signed_at i = sign_value payload_value ks signed_at (passport_payload_of H now i)"

section \<open>Verifying\<close>

record passport_check =
  pvc_name :: string
  pvc_passed :: bool
  pvc_detail :: string

record passport_verification =
  pvn_valid :: bool
  pvn_checks :: "passport_check list"
  pvn_supportedClass :: provenance_class
  pvn_reason :: "string option"

definition check_of :: "string \<Rightarrow> bool \<Rightarrow> string \<Rightarrow> string \<Rightarrow> passport_check" where
  "check_of name ok good bad = \<lparr>pvc_name = name, pvc_passed = ok, pvc_detail = (if ok then good else bad)\<rparr>"

definition dabs :: "double \<Rightarrow> double" where
  "dabs x = (if dless x (DFin 0) then dneg x else x)"

definition rateConsistent :: "passport_metrics \<Rightarrow> bool" where
  "rateConsistent m = (num_value (pm_tasksAttempted m) = DFin 0
     \<or> dless (dabs (dsub (num_value (pm_successRate m)) (ddiv (num_value (pm_tasksSucceeded m)) (num_value (pm_tasksAttempted m)))))
         (to_double (1 / 10 ^ 9)))"

definition intervalSane :: "passport_statistics \<Rightarrow> bool" where
  "intervalSane s = (dle (num_value (pst_low s)) (num_value (pst_high s))
     \<and> dle (DFin 0) (num_value (pst_low s)) \<and> dle (num_value (pst_high s)) (dint 1))"

definition verifyPassport ::
    "(bytes \<Rightarrow> bytes) \<Rightarrow> 'k verifier_api \<Rightarrow> passport_payload signed_envelope \<Rightarrow> string \<Rightarrow> passport_verification" where
  "verifyPassport H va passport publicKeyPem =
     (let payload = se_payload passport; sig = verifySignature payload_value va passport publicKeyPem;
          signed = check_of ''signature'' (sv_valid sig)
            (''Ed25519 signature valid for key '' @ sg_keyId (se_signature passport) @ ''.'')
            (''Signature invalid: '' @ or_default (sv_reason sig) ''unknown reason'' @ ''.'') in
      if pp_passportVersion payload \<noteq> ''1.0'' then
        \<lparr>pvn_valid = False,
         pvn_checks = [signed, check_of ''version'' False []
           (''Unsupported passport version '' @ quoted (pp_passportVersion payload) @ ''.'')],
         pvn_supportedClass = CommunityReported, pvn_reason = Some ''Unsupported passport version.''\<rparr>
      else
        let model = modelDigest H (pp_model payload); deployment = deploymentDigest H (pp_deployment payload);
            has = hasEvidence (pp_evidence payload); m = pp_metrics payload;
            checks = [signed,
              check_of ''model_digest'' (model = pdg_model (pp_digests payload))
                ''Model digest matches the recorded model identity.''
                (''Model digest mismatch: payload says '' @ pdg_model (pp_digests payload) @ '', identity hashes to ''
                  @ model @ ''.''),
              check_of ''deployment_digest'' (deployment = pdg_deployment (pp_digests payload))
                ''Deployment digest matches the recorded deployment identity.''
                (''Deployment digest mismatch: payload says '' @ pdg_deployment (pp_digests payload)
                  @ '', identity hashes to '' @ deployment @ ''.''),
              check_of ''provenance_class'' (pp_provenanceClass payload \<noteq> AgentEvalVerified \<or> has)
                (''Class '' @ class_name (pp_provenanceClass payload) @ '' is supported by the attached evidence.'')
                (''Passport claims AGENT_EVAL_VERIFIED but carries no evidence bundle. ''
                  @ ''A valid signature over a false claim is still a false claim.''),
              check_of ''metrics_consistency'' (rateConsistent m)
                ''Success rate matches the recorded task counts.''
                (''Success rate '' @ js_text (pm_successRate m) @ '' does not match '' @ js_text (pm_tasksSucceeded m)
                  @ ''/'' @ js_text (pm_tasksAttempted m) @ ''.''),
              check_of ''interval_sanity'' (intervalSane (pp_statistics payload))
                ''Confidence interval is well-formed.''
                ''Confidence interval is inverted or outside [0,1].''];
            failed = filter (\<lambda>c. \<not> pvc_passed c) checks
        in \<lparr>pvn_valid = (failed = []), pvn_checks = checks,
            pvn_supportedClass = (if has then AgentEvalVerified else CommunityReported),
            pvn_reason = (if failed = [] then None else Some (join '', '' (map pvc_name failed)))\<rparr>)"

definition passportId :: "(bytes \<Rightarrow> bytes) \<Rightarrow> string \<Rightarrow> string \<Rightarrow> string \<Rightarrow> string" where
  "passportId H execution benchmark issuedAt = ''psp_'' @ take 32 (to_hex (H (utf8 (concat (map line_of
     [''passport-id:v1'', execution, benchmark, issuedAt])))))"

section \<open>What a verdict means\<close>

lemma check_of_passed [simp]: "pvc_passed (check_of n ok g b) = ok"
  by (simp add: check_of_def)

lemma verifyPassport_valid:
  "pvn_valid (verifyPassport H va p pem) \<longleftrightarrow>
     sv_valid (verifySignature payload_value va p pem) \<and> pp_passportVersion (se_payload p) = ''1.0''
     \<and> pdg_model (pp_digests (se_payload p)) = modelDigest H (pp_model (se_payload p))
     \<and> pdg_deployment (pp_digests (se_payload p)) = deploymentDigest H (pp_deployment (se_payload p))
     \<and> (pp_provenanceClass (se_payload p) = AgentEvalVerified \<longrightarrow> hasEvidence (pp_evidence (se_payload p)))
     \<and> rateConsistent (pp_metrics (se_payload p)) \<and> intervalSane (pp_statistics (se_payload p))"
  by (auto simp: verifyPassport_def Let_def)

text \<open>Reporting one's own numbers only ever weakens the class, and no class is above what the
  evidence supports.\<close>

lemma self_reporting_weakens: "fst (deriveProvenanceClass (i\<lparr>ipi_selfReported := True\<rparr>)) \<le> fst (deriveProvenanceClass i)"
  by (simp add: deriveProvenanceClass_def less_eq_provenance_class_def)

lemma derived_class_supported:
  "fst (deriveProvenanceClass i) \<le> (if hasEvidence (ipi_evidence i) then AgentEvalVerified else CommunityReported)"
  by (simp add: deriveProvenanceClass_def less_eq_provenance_class_def)

lemma supported_class:
  "pp_passportVersion (se_payload p) = ''1.0'' \<Longrightarrow> pvn_supportedClass (verifyPassport H va p pem)
     = (if hasEvidence (pp_evidence (se_payload p)) then AgentEvalVerified else CommunityReported)"
  by (simp add: verifyPassport_def Let_def)

lemma derived_class: "fst (deriveProvenanceClass i) = AgentEvalVerified \<longleftrightarrow> \<not> ipi_selfReported i \<and> hasEvidence (ipi_evidence i)"
  by (simp add: deriveProvenanceClass_def)

lemma issued_payload: "issuePassport H ks now at' i = Inr p \<Longrightarrow> se_payload p = passport_payload_of H now i"
  by (auto simp: issuePassport_def dest: sign_value_payload)

lemma issued_valid:
  assumes "issuePassport H ks now signed_at i = Inr p" "key_pair va ks"
  shows "pvn_valid (verifyPassport H va p (ks_publicKeyPem ks))
    \<longleftrightarrow> rateConsistent (ipi_metrics i) \<and> intervalSane (ipi_statistics i)"
  using verify_signed [of payload_value ks signed_at _ p va] assms issued_payload [OF assms(1)]
  by (auto simp: verifyPassport_valid issuePassport_def passport_payload_of_def derived_class)

end
