(* ===== verification/Provenance_Properties.thy ===== *)
theory Provenance_Properties
  imports Passport Evidence_Properties
begin

text \<open>
  The properties of passports and of the identities they carry, with their witnesses.
\<close>

section \<open>Identity\<close>

text \<open>Names as registries write them: no line breaks, and no at sign in a tokenizer's.\<close>

definition plain_identity :: "model_identity \<Rightarrow> bool" where
  "plain_identity m = (line_list [mid_repository m, or_empty (mid_revision m), or_empty (mid_commitSha m),
       or_empty (mid_weightsDigest m), or_empty (mid_tokenizerRepository m), or_empty (mid_tokenizerRevision m)]
     \<and> CHR ''@'' \<notin> set (or_empty (mid_tokenizerRepository m)) \<union> set (or_empty (mid_tokenizerRevision m)))"

lemma at_split:
  assumes "CHR ''@'' \<notin> set a" "CHR ''@'' \<notin> set a'"
  shows "a @ CHR ''@'' # b = a' @ CHR ''@'' # b' \<longleftrightarrow> a = a' \<and> b = b'"
  using assms by (induction a arbitrary: a') (case_tac a'; auto)+

lemma model_lines_ok: "plain_identity m \<Longrightarrow> line_list (model_lines m)"
  by (cases "mid_origin m") (auto simp: plain_identity_def line_list_def model_lines_def newline_def)

text \<open>The digest of a model pins it: for names without line breaks, and an at sign only between
  the tokenizer's name and revision, two models have the same digest exactly when origin,
  repository, revision, commit, weights and tokenizer agree, a missing one counting as empty,
  barring a collision of the digest on their two texts.\<close>

theorem model_digest_pins:
  assumes "plain_identity m" "plain_identity m'"
    "inj_on H {utf8 (concat (map line_of (model_lines m))), utf8 (concat (map line_of (model_lines m')))}"
  shows "modelDigest H m = modelDigest H m' \<longleftrightarrow>
    mid_origin m = mid_origin m' \<and> mid_repository m = mid_repository m'
    \<and> or_empty (mid_revision m) = or_empty (mid_revision m') \<and> or_empty (mid_commitSha m) = or_empty (mid_commitSha m')
    \<and> or_empty (mid_weightsDigest m) = or_empty (mid_weightsDigest m')
    \<and> or_empty (mid_tokenizerRepository m) = or_empty (mid_tokenizerRepository m')
    \<and> or_empty (mid_tokenizerRevision m) = or_empty (mid_tokenizerRevision m')"
  using assms(1,2) unfolding modelDigest_def sha_text_eq [OF model_lines_ok [OF assms(1)] model_lines_ok [OF assms(2)] assms(3)]
  by (auto simp: model_lines_def plain_identity_def at_split)

definition qwen :: model_identity where
  "qwen = \<lparr>mid_repository = ''Qwen/Qwen3-8B'', mid_origin = Hub, mid_revision = Some ''main'', mid_commitSha = None,
     mid_weightsDigest = None, mid_architecture = None, mid_parameterCount = None, mid_modalities = None,
     mid_tokenizerRepository = None, mid_tokenizerRevision = None, mid_publisherVersion = None\<rparr>"

theorem model_digest_pins_witness:
  "modelDigest (\<lambda>b. b) qwen \<noteq> modelDigest (\<lambda>b. b) (qwen\<lparr>mid_commitSha := Some ''9c92''\<rparr>)"
  by (subst model_digest_pins) (simp_all add: qwen_def plain_identity_def line_list_def newline_def or_empty_def inj_on_def)

section \<open>Passports\<close>


text \<open>C16 An issued passport verifies exactly when its numbers are consistent, and its class is
  derived: it says verified exactly when evidence was supplied for a result that was not
  self-reported, it is never above the class its verifier finds supported, and a passport of
  any other class carries a caveat.\<close>

theorem issued_passport_verifies:
  assumes "issuePassport H ks now signed_at i = Inr p" "key_pair va ks"
  shows "(pvn_valid (verifyPassport H va p (ks_publicKeyPem ks)) \<longleftrightarrow> rateConsistent (ipi_metrics i) \<and> intervalSane (ipi_statistics i))
    \<and> (pp_provenanceClass (se_payload p) = AgentEvalVerified \<longleftrightarrow> \<not> ipi_selfReported i \<and> hasEvidence (ipi_evidence i))
    \<and> pp_provenanceClass (se_payload p) \<le> pvn_supportedClass (verifyPassport H va p (ks_publicKeyPem ks))
    \<and> (pp_provenanceClass (se_payload p) \<noteq> AgentEvalVerified \<longrightarrow> pp_caveats (se_payload p) \<noteq> [])"
  using issued_valid [OF assms] issued_payload [OF assms(1)]
    supported_class [of p H va "ks_publicKeyPem ks"] derived_class_supported [of i]
  by (auto simp: passport_payload_of_def derived_class deriveProvenanceClass_def)

definition demo_deployment :: deployment_identity where
  "demo_deployment = \<lparr>dep_provider = ''vllm'', dep_servedModelId = ''qwen'', dep_runtime = \<lparr>rtp_engine = Vllm,
     rtp_engineVersion = None, rtp_containerDigest = None, rtp_precision = Some Bf16, rtp_quantization = None,
     rtp_maxContextLength = None, rtp_tensorParallelism = None\<rparr>, dep_accelerator = None, dep_endpoint = None\<rparr>"

definition demo_passport :: passport_input where
  "demo_passport = \<lparr>ipi_passportId = ''p1'', ipi_issuerVersion = ''1'', ipi_model = qwen, ipi_deployment = demo_deployment,
     ipi_benchmarkId = ''b'', ipi_benchmarkVersion = ''1'', ipi_benchmarkDigest = ''d'', ipi_environmentDigest = None,
     ipi_verifierDigest = None, ipi_scorerDigest = None, ipi_judgeDigest = None, ipi_trajectoriesDigest = None,
     ipi_metrics = \<lparr>pm_successRate = num_of_int 1, pm_tasksAttempted = num_of_int 40, pm_tasksSucceeded = num_of_int 40,
       pm_trials = num_of_int 1, pm_meanScore = None, pm_medianScore = None, pm_passAtK = None\<rparr>,
     ipi_statistics = \<lparr>pst_low = Zero, pst_high = num_of_int 1, pst_confidenceLevel = Dec False 95 0,
       pst_method = ''wilson'', pst_standardDeviation = None, pst_minimumReportableDifference = None\<rparr>,
     ipi_economics = None, ipi_evidence = None, ipi_selfReported = False\<rparr>"

lemma num_value_of_int [simp]: "num_value (num_of_int i) = dint i"
proof (cases "i = 0")
  case False
  then obtain j where j: "nat \<bar>i\<bar> = strip_zeros (nat \<bar>i\<bar>) * 10 ^ j"
    "length (show_nat (nat \<bar>i\<bar>)) = length (show_nat (strip_zeros (nat \<bar>i\<bar>))) + j"
    using strip_zeros_pow [of "nat \<bar>i\<bar>"] by auto
  have "(of_nat (strip_zeros (nat \<bar>i\<bar>)) * 10 ^ j :: rat) = of_nat (nat \<bar>i\<bar>)"
    by (subst (2) j(1)) simp
  with False j(2) show ?thesis by (simp add: num_of_int_def mult.assoc abs_if)
qed (simp add: num_of_int_def to_double_int [of 0, simplified])

lemma to_double_pos: "0 < x \<Longrightarrow> - 1022 \<le> expo x \<Longrightarrow> dless (DFin 0) (to_double x)"
proof -
  assume x: "0 < x" "- 1022 \<le> expo x"
  have "2 ^ 52 \<le> round_even (x / ulp x)" using scaled_lower [OF x] by (intro round_even_ge_int) simp
  then have "0 < of_int (round_even (x / ulp x)) * ulp x" by simp
  then have "0 < fl x" using x(1) by (simp add: fl_def)
  then show ?thesis by (simp add: to_double_def Let_def)
qed

lemma tiny_pos: "dless (DFin 0) (to_double (1 / 10 ^ 9))"
proof (rule to_double_pos)
  have "- 1022 \<le> expo (1 / 1000000000)" by code_simp
  then show "- 1022 \<le> expo (1 / 10 ^ 9)" by simp
qed simp

lemma demo_numbers: "rateConsistent (ipi_metrics demo_passport)" "intervalSane (ipi_statistics demo_passport)"
  using tiny_pos to_double_int [of 1] to_double_int [of 40] to_double_int [of 0]
  by (simp_all add: rateConsistent_def intervalSane_def demo_passport_def dsub_def dabs_def)

lemma payload_ok:
  assumes "json_ok (model_value (pp_model p))" "json_ok (deployment_value (pp_deployment p))"
    "json_ok (metrics_value (pp_metrics p))" "json_ok (statistics_value (pp_statistics p))"
    "pp_economics p = None" "pp_evidence p = None"
  shows "json_ok (payload_value p)"
  using assms by (auto simp: payload_value_def digests_value_def opt_json_def model_value_def deployment_value_def
      metrics_value_def statistics_value_def split: option.splits)

lemma demo_passport_issued: "\<exists>p. issuePassport (\<lambda>b. b) echo_keys 0 0 demo_passport = Inr p"
proof -
  have "json_ok (payload_value (passport_payload_of (\<lambda>b. b) 0 demo_passport))"
    by (rule payload_ok) (simp_all add: passport_payload_of_def demo_passport_def qwen_def demo_deployment_def
        model_value_def deployment_value_def runtime_value_def metrics_value_def statistics_value_def opt_json_def)
  then have "isOk (canonicalize (payload_value (passport_payload_of (\<lambda>b. b) 0 demo_passport)))"
    by (auto simp: isOk_iff canonicalize_Inr)
  then show ?thesis by (auto simp: issuePassport_def sign_value_def isOk_iff)
qed

theorem issued_passport_verifies_witness:
  "\<exists>p. issuePassport (\<lambda>b. b) echo_keys 0 0 demo_passport = Inr p
    \<and> pvn_valid (verifyPassport (\<lambda>b. b) echo_api p ''pem'') \<and> pp_caveats (se_payload p) \<noteq> []"
proof -
  obtain p where p: "issuePassport (\<lambda>b. b) echo_keys 0 0 demo_passport = Inr p" using demo_passport_issued by blast
  from demo_numbers issued_passport_verifies [OF p echo_pair] p show ?thesis
    by (auto simp: echo_keys_def demo_passport_def hasEvidence_def)
qed

text \<open>What the list of differences leaves out: two deployments that differ in their container are
  different executions with no difference to report.\<close>

lemma differences_miss_the_container:
  "let d = demo_deployment; d' = d\<lparr>dep_runtime := (dep_runtime d)\<lparr>rtp_containerDigest := Some ''sha256:1''\<rparr>\<rparr>;
       a = \<lparr>em_model = qwen, em_deployment = d\<rparr>; b = \<lparr>em_model = qwen, em_deployment = d'\<rparr>
   in diffExecutions (\<lambda>b. b) a b = [] \<and> \<not> isSameExecution (\<lambda>b. b) a b"
proof -
  let ?d = demo_deployment
  let ?d' = "?d\<lparr>dep_runtime := (dep_runtime ?d)\<lparr>rtp_containerDigest := Some ''sha256:1''\<rparr>\<rparr>"
  have l: "line_list (deployment_lines ?d)" "line_list (deployment_lines ?d')"
    by (simp_all add: line_list_def deployment_lines_def demo_deployment_def or_empty_def newline_def Let_def)
  have "deploymentDigest (\<lambda>b. b) ?d \<noteq> deploymentDigest (\<lambda>b. b) ?d'"
    unfolding deploymentDigest_def by (subst sha_text_eq [OF l])
      (simp_all add: inj_on_def deployment_lines_def demo_deployment_def or_empty_def Let_def)
  then have "executionDigest (\<lambda>b. b) \<lparr>em_model = qwen, em_deployment = ?d\<rparr>
      \<noteq> executionDigest (\<lambda>b. b) \<lparr>em_model = qwen, em_deployment = ?d'\<rparr>"
    unfolding executionDigest_def
    by (subst sha_text_eq)
      (auto simp: line_list_def inj_on_def modelDigest_def deploymentDigest_def sha_text_line [unfolded newline_def] newline_def)
  then show ?thesis by (simp add: Let_def isSameExecution_def diffExecutions_def demo_deployment_def)
qed

end
