(* ===== verification/Robust_Statistics.thy ===== *)
theory Robust_Statistics
  imports Fuzzer
begin

text \<open>
  \<open>robustness/statistics.ts\<close>: means, spreads, quantiles and Wilson's interval, on finite doubles.
  \<open>Math.sqrt\<close> and \<open>**\<close> are approximated by the implementation, so they are arguments.
\<close>

record real_functions =
  rf_sqrt :: "rat \<Rightarrow> rat"
  rf_square :: "rat \<Rightarrow> rat"

definition mean :: "rat list \<Rightarrow> rat" where
  "mean vs = (if vs = [] then 0 else fdiv (foldl fadd 0 vs) (of_nat (length vs)))"

definition stdDev :: "real_functions \<Rightarrow> rat list \<Rightarrow> rat" where
  "stdDev rf vs = (if length vs < 2 then 0
     else let m = mean vs in rf_sqrt rf (mean (map (\<lambda>v. rf_square rf (fsub v m)) vs)))"

definition quantile :: "rat list \<Rightarrow> rat \<Rightarrow> rat option" where
  "quantile vs q =
     (if vs = [] then None
      else let xs = sort vs in
        if length xs = 1 then Some (hd xs)
        else let pos = fmul (of_nat (length xs - 1)) q; lower = \<lfloor>pos\<rfloor>; upper = \<lceil>pos\<rceil> in
          if lower = upper then Some (xs ! nat lower)
          else Some (fadd (xs ! nat lower)
            (fmul (fsub pos (of_int lower)) (fsub (xs ! nat upper) (xs ! nat lower)))))"

record proportion =
  pn_count :: nat
  pn_total :: nat
  pn_rate :: rat
  pn_lower :: rat
  pn_upper :: rat

definition Z :: rat where
  "Z = fl (1959963984540054 / 10 ^ 15)"

definition proportion_of :: "real_functions \<Rightarrow> nat \<Rightarrow> nat \<Rightarrow> proportion" where
  "proportion_of rf k m =
     (if m = 0 then \<lparr>pn_count = 0, pn_total = 0, pn_rate = 0, pn_lower = 0, pn_upper = 0\<rparr>
      else let n = of_nat m; p = fdiv (of_nat k) n; z2 = fmul Z Z;
          denominator = fadd 1 (fdiv z2 n);
          centre = fdiv (fadd p (fdiv z2 (fmul 2 n))) denominator;
          spread = fmul (fdiv Z denominator)
            (rf_sqrt rf (fadd (fdiv (fmul p (fsub 1 p)) n) (fdiv z2 (fmul (fmul 4 n) n))))
        in \<lparr>pn_count = k, pn_total = m, pn_rate = p,
            pn_lower = max 0 (fsub centre spread), pn_upper = min 1 (fadd centre spread)\<rparr>)"

section \<open>Means stay between their values\<close>

lemma sum_bounds:
  assumes "\<forall>v \<in> set vs. 0 \<le> v \<and> v \<le> 1" "int k + int (length vs) \<le> 2 ^ 53" "0 \<le> a" "a \<le> of_nat k"
  shows "0 \<le> foldl fadd a vs \<and> foldl fadd a vs \<le> of_nat (k + length vs)"
  using assms
proof (induction vs arbitrary: a k)
  case (Cons v vs)
  have "fadd a v \<le> of_int (int (Suc k))"
    unfolding fadd_def by (rule fl_le_of_int) (use Cons.prems in auto)
  then have "fadd a v \<le> of_nat (Suc k)" by simp
  moreover have "0 \<le> fadd a v" using Cons.prems by (auto intro: fadd_nonneg)
  ultimately show ?case using Cons.IH [where k = "Suc k" and a = "fadd a v"] Cons.prems by simp
qed simp

lemma mean_bounds:
  assumes "\<forall>v \<in> set vs. 0 \<le> v \<and> v \<le> 1" "int (length vs) \<le> 2 ^ 53"
  shows "0 \<le> mean vs \<and> mean vs \<le> 1"
proof (cases "vs = []")
  case False
  have "0 \<le> foldl fadd 0 vs \<and> foldl fadd 0 vs \<le> of_nat (length vs)"
    using sum_bounds [of vs 0 0] assms by simp
  moreover have "(0 :: rat) < of_nat (length vs)" using False by simp
  ultimately show ?thesis using False
    by (auto simp: mean_def fdiv_def intro!: fl_nonneg fl_le_one simp: divide_le_eq_1)
qed (simp add: mean_def)

end
