(* ===== verification/Assess.thy ===== *)
theory Assess
  imports Robust_Statistics IsoDate
begin

text \<open>
  \<open>robustness/types.ts\<close> and \<open>robustness/assess.ts\<close>: canaries, perturbations and the fuzzer run against
  a grader within one budget of calls, and the report of what they establish. A channel that
  could not be tested is a finding of its own.
\<close>

section \<open>Data\<close>

record ('t, 's) perturbation =
  pe_name :: string
  pe_rationale :: string
  pe_assumption :: "string option"
  pe_apply :: "'t \<Rightarrow> 's \<Rightarrow> ('t \<times> 's) option"

record ('t, 's) canary =
  ca_id :: string
  ca_rationale :: string
  ca_build :: "'t \<Rightarrow> 's option"

datatype channel_status = Open | Suspected | Closed | NotTested

fun channel_status_name :: "channel_status \<Rightarrow> string" where
  "channel_status_name Open = ''open''"
| "channel_status_name Suspected = ''suspected''"
| "channel_status_name Closed = ''closed''"
| "channel_status_name NotTested = ''not-tested''"

record finding =
  fi_channel :: string
  fi_status :: channel_status
  fi_reward :: rat
  fi_solve :: "rat option"
  fi_gap :: "rat option"
  fi_rewardStdDev :: rat
  fi_repeats :: nat
  fi_caveat :: "string option"
  fi_detail :: "string option"

record task_assessment =
  ta_taskId :: string
  ta_canaryFindings :: "finding list"
  ta_perturbationFindings :: "finding list"
  ta_fuzzFinding :: "finding option"
  ta_worstGap :: "rat option"
  ta_openChannels :: "string list"

record channel_summary =
  cs_channel :: string
  cs_open :: nat
  cs_suspected :: nat
  cs_closed :: nat
  cs_notTested :: nat

record gap_distribution =
  gd_median :: "rat option"
  gd_p95 :: "rat option"
  gd_max :: "rat option"
  gd_measured :: nat

record robustness_report =
  rp_suiteId :: string
  rp_assessedAt :: string
  rp_taskCount :: nat
  rp_graderCalls :: nat
  rp_gameability :: proportion
  rp_surfaceSensitivity :: proportion
  rp_nondeterministic :: bool
  rp_gapDistribution :: gap_distribution
  rp_perTask :: "task_assessment list"
  rp_channelSummary :: "channel_summary list"
  rp_limitations :: "string list"

datatype gap_basis = MeasuredWithOracle | CanaryConstruction | NotEstablished

record verifier_adjustment =
  vj_exploitableGap :: rat
  vj_surfaceNoise :: rat
  vj_basis :: string

record confidence_mapping =
  cm_name :: string
  cm_formula :: string
  cm_basis :: string
  cm_caveat :: string

record verifier_assessment =
  va_report :: robustness_report
  va_exploitableGap :: rat
  va_exploitableGapBasis :: gap_basis
  va_surfaceNoise :: rat
  va_verifierConfidence :: rat
  va_confidenceMapping :: confidence_mapping
  va_adjustment :: verifier_adjustment

record 's fuzz_settings =
  fu_mutators :: "'s mutator list"
  fu_maxGraderCallsPerTask :: "nat option"
  fu_maxStepsPerSeed :: "nat option"

record ('t, 's) assess_options =
  ao_suiteId :: string
  ao_tasks :: "'t list"
  ao_taskId :: "'t \<Rightarrow> string"
  ao_grader :: "('t, 's) grader"
  ao_canaries :: "('t, 's) canary list"
  ao_perturbations :: "('t, 's) perturbation list"
  ao_referenceSubmission :: "('t \<Rightarrow> 's option) option"
  ao_oracle :: "('t, 's) solution_oracle option"
  ao_repeats :: "nat option"
  ao_determinismSamples :: "nat option"
  ao_rewardThreshold :: "double option"
  ao_maxGraderCalls :: "enat option"
  ao_fuzz :: "'s fuzz_settings option"

section \<open>Grading within the budget\<close>

record assess_state =
  as_graderCalls :: nat
  as_budgetExhausted :: bool
  as_surfaceDeltas :: "rat list"
  as_oracleGap :: bool
  as_canaryGap :: bool

definition call_limit :: "('t, 's) assess_options \<Rightarrow> enat" where
  "call_limit q = or_default (ao_maxGraderCalls q) \<infinity>"

definition threshold :: "('t, 's) assess_options \<Rightarrow> double" where
  "threshold q = or_default (ao_rewardThreshold q) (DFin 0)"

definition gradeOnce :: "('t, 's) assess_options \<Rightarrow> 't \<Rightarrow> 's \<Rightarrow> assess_state \<Rightarrow> rat option \<times> assess_state" where
  "gradeOnce q task s st =
     (if call_limit q \<le> enat (as_graderCalls st) then (None, st\<lparr>as_budgetExhausted := True\<rparr>)
      else (Some (clamp01 (go_reward (ao_grader q (as_graderCalls st) task s))),
            st\<lparr>as_graderCalls := Suc (as_graderCalls st)\<rparr>))"

text \<open>Both loops that grade one pair several times stop when the budget does.\<close>

fun grade_times :: "('t, 's) assess_options \<Rightarrow> 't \<Rightarrow> 's \<Rightarrow> nat \<Rightarrow> assess_state \<Rightarrow> rat list \<times> assess_state" where
  "grade_times q task s 0 st = ([], st)"
| "grade_times q task s (Suc n) st =
     (case gradeOnce q task s st of
        (None, st') \<Rightarrow> ([], st')
      | (Some r, st') \<Rightarrow> let (rs, st'') = grade_times q task s n st' in (r # rs, st''))"

record graded =
  gr_mean :: rat
  gr_stdDev :: rat
  gr_repeats :: nat

definition gradeRepeated ::
    "real_functions \<Rightarrow> ('t, 's) assess_options \<Rightarrow> 't \<Rightarrow> 's \<Rightarrow> assess_state \<Rightarrow> graded option \<times> assess_state" where
  "gradeRepeated rf q task s st =
     (let (rs, st') = grade_times q task s (max 1 (or_default (ao_repeats q) 1)) st in
      (if rs = [] then None else Some \<lparr>gr_mean = mean rs, gr_stdDev = stdDev rf rs, gr_repeats = length rs\<rparr>, st'))"

definition reference_for :: "('t, 's) assess_options \<Rightarrow> 't \<Rightarrow> 's option" where
  "reference_for q task = (case ao_referenceSubmission q of None \<Rightarrow> None | Some f \<Rightarrow> f task)"

definition nondeterminism :: "real_functions \<Rightarrow> ('t, 's) assess_options \<Rightarrow> assess_state \<Rightarrow> bool \<times> assess_state" where
  "nondeterminism rf q st =
     (case ao_tasks q of
        [] \<Rightarrow> (False, st)
      | task # _ \<Rightarrow>
          let samples = or_default (ao_determinismSamples q) 3;
              probe = (case reference_for q task of
                  Some s \<Rightarrow> Some s
                | None \<Rightarrow> (case ao_canaries q of [] \<Rightarrow> None | c # _ \<Rightarrow> ca_build c task)) in
          if samples \<le> 1 then (False, st)
          else case probe of
            None \<Rightarrow> (False, st)
          | Some s \<Rightarrow> let (rs, st') = grade_times q task s samples st in (1 < length rs \<and> 0 < stdDev rf rs, st'))"

section \<open>Canaries\<close>

definition untested :: "string \<Rightarrow> rat \<Rightarrow> string \<Rightarrow> finding" where
  "untested channel reward caveat = \<lparr>fi_channel = channel, fi_status = NotTested, fi_reward = reward, fi_solve = None,
     fi_gap = None, fi_rewardStdDev = 0, fi_repeats = 0, fi_caveat = Some caveat, fi_detail = None\<rparr>"

definition canary_finding ::
    "real_functions \<Rightarrow> ('t, 's) assess_options \<Rightarrow> 't \<Rightarrow> ('t, 's) canary \<Rightarrow> assess_state \<Rightarrow> finding \<times> assess_state" where
  "canary_finding rf q task c st =
     (case ca_build c task of
        None \<Rightarrow> (untested (ca_id c) 0 (''This canary does not apply to this task, so the channel was not ''
                  @ ''exercised. Not evidence that it is shut.''), st)
      | Some s \<Rightarrow>
          (case gradeRepeated rf q task s st of
             (None, st') \<Rightarrow> (untested (ca_id c) 0 ''Grader-call budget was exhausted before this canary ran.'', st')
           | (Some g, st') \<Rightarrow>
               let paid = dless (threshold q) (DFin (gr_mean g)) in
               (\<lparr>fi_channel = ca_id c, fi_status = (if paid then Open else Closed), fi_reward = gr_mean g,
                 fi_solve = Some 0, fi_gap = Some (gr_mean g), fi_rewardStdDev = gr_stdDev g, fi_repeats = gr_repeats g,
                 fi_caveat = (if paid then Some (''Reward '' @ to_fixed 3 (gr_mean g)
                   @ '' was paid for a submission that does not solve the task. '' @ ca_rationale c) else None),
                 fi_detail = None\<rparr>,
                st'\<lparr>as_canaryGap := as_canaryGap st' \<or> paid\<rparr>)))"

fun canary_findings ::
    "real_functions \<Rightarrow> ('t, 's) assess_options \<Rightarrow> 't \<Rightarrow> ('t, 's) canary list \<Rightarrow> assess_state \<Rightarrow> finding list \<times> assess_state" where
  "canary_findings rf q task [] st = ([], st)"
| "canary_findings rf q task (c # cs) st =
     (let (f, st') = canary_finding rf q task c st; (fs, st'') = canary_findings rf q task cs st' in (f # fs, st''))"

section \<open>Perturbations\<close>

definition perturbation_finding ::
    "real_functions \<Rightarrow> ('t, 's) assess_options \<Rightarrow> 't \<Rightarrow> 's \<Rightarrow> graded option \<Rightarrow> ('t, 's) perturbation \<Rightarrow> assess_state
      \<Rightarrow> finding \<times> assess_state" where
  "perturbation_finding rf q task ref baseline p st =
     (case baseline of
        None \<Rightarrow> (untested (pe_name p) 0 ''Grader-call budget was exhausted before the baseline was graded.'', st)
      | Some b \<Rightarrow>
          (case pe_apply p task ref of
             None \<Rightarrow> (untested (pe_name p) (gr_mean b) ''This rewrite does not apply to this task and submission.'', st)
           | Some (task', s) \<Rightarrow>
               (case gradeRepeated rf q task' s st of
                  (None, st') \<Rightarrow>
                    (untested (pe_name p) (gr_mean b) ''Grader-call budget was exhausted before the rewrite was graded.'', st')
                | (Some a, st') \<Rightarrow>
                    let delta = \<bar>fsub (gr_mean a) (gr_mean b)\<bar>; moved = (0 < delta) in
                    (\<lparr>fi_channel = pe_name p, fi_status = (if moved then Open else Closed), fi_reward = gr_mean a,
                      fi_solve = None, fi_gap = None, fi_rewardStdDev = gr_stdDev a, fi_repeats = gr_repeats a,
                      fi_caveat = (if moved then Some (''Reward moved by '' @ to_fixed 3 delta
                        @ '' under a rewrite that cannot change whether the task was solved. '' @ pe_rationale p
                        @ (case given (pe_assumption p) of None \<Rightarrow> [] | Some x \<Rightarrow> '' Assumes: '' @ x)) else None),
                      fi_detail = Some (''baseline '' @ to_fixed 3 (gr_mean b) @ '' -> '' @ to_fixed 3 (gr_mean a))\<rparr>,
                     st'\<lparr>as_surfaceDeltas := as_surfaceDeltas st' @ [delta]\<rparr>))))"

fun perturbation_loop ::
    "real_functions \<Rightarrow> ('t, 's) assess_options \<Rightarrow> 't \<Rightarrow> 's \<Rightarrow> graded option \<Rightarrow> ('t, 's) perturbation list \<Rightarrow> assess_state
      \<Rightarrow> finding list \<times> assess_state" where
  "perturbation_loop rf q task ref b [] st = ([], st)"
| "perturbation_loop rf q task ref b (p # ps) st =
     (let (f, st') = perturbation_finding rf q task ref b p st; (fs, st'') = perturbation_loop rf q task ref b ps st'
      in (f # fs, st''))"

definition perturbation_findings ::
    "real_functions \<Rightarrow> ('t, 's) assess_options \<Rightarrow> 't \<Rightarrow> assess_state \<Rightarrow> finding list \<times> assess_state" where
  "perturbation_findings rf q task st =
     (case reference_for q task of
        None \<Rightarrow> (map (\<lambda>p. untested (pe_name p) 0
            (''No reference submission for this task, so there was nothing to hold ''
              @ ''invariant. Surface sensitivity is unknown, not absent.'')) (ao_perturbations q), st)
      | Some ref \<Rightarrow> let (b, st') = gradeRepeated rf q task ref st
                   in perturbation_loop rf q task ref b (ao_perturbations q) st')"

section \<open>Fuzzing\<close>

definition canary_seeds :: "('t, 's) assess_options \<Rightarrow> 't \<Rightarrow> 's fuzz_seed list" where
  "canary_seeds q task = concat (map (\<lambda>c. case ca_build c task of None \<Rightarrow> []
     | Some s \<Rightarrow> [\<lparr>fs_origin = ca_id c, fs_submission = s, fs_provablyUnsolving = True\<rparr>]) (ao_canaries q))"

definition fuzz_options_at :: "('t, 's) assess_options \<Rightarrow> 's fuzz_settings \<Rightarrow> 't \<Rightarrow> nat \<Rightarrow> ('t, 's) fuzz_options" where
  "fuzz_options_at q z task n = \<lparr>fo_grader = (\<lambda>i. ao_grader q (n + i)), fo_seeds = canary_seeds q task,
     fo_mutators = fu_mutators z,
     fo_maxGraderCalls = min (enat (or_default (fu_maxGraderCallsPerTask z) 40)) (call_limit q - enat n),
     fo_maxStepsPerSeed = fu_maxStepsPerSeed z,
     fo_oracle = map_option (\<lambda>f i. f (n + i)) (ao_oracle q), fo_rewardFloor = None\<rparr>"

definition fuzz_finding_of :: "'s fuzz_point \<Rightarrow> finding" where
  "fuzz_finding_of b =
     (let confirmed = (\<not> fp_gapIsAssumed b \<and> fp_solve b \<noteq> None) in
      \<lparr>fi_channel = ''fuzz'', fi_status = (if confirmed then Open else Suspected), fi_reward = fp_reward b,
       fi_solve = fp_solve b, fi_gap = Some (fp_gap b), fi_rewardStdDev = 0, fi_repeats = 1,
       fi_caveat = Some (if confirmed then ''Reward '' @ to_fixed 3 (fp_reward b)
           @ '' against an independently measured solve of '' @ to_fixed 3 (or_default (fp_solve b) 0) @ ''.''
         else ''Reward was paid to a mutation of a non-solving seed, but no oracle ''
           @ ''confirmed the mutation did not accidentally solve the task. ''
           @ ''Reported as suspected rather than open.''),
       fi_detail = Some (''via '' @ join '' -> '' (fp_lineage b))\<rparr>)"

definition fuzz_finding :: "('t, 's) assess_options \<Rightarrow> 't \<Rightarrow> assess_state \<Rightarrow> finding option \<times> assess_state" where
  "fuzz_finding q task st =
     (case ao_fuzz q of
        None \<Rightarrow> (None, st)
      | Some z \<Rightarrow>
          if call_limit q \<le> enat (as_graderCalls st) \<or> canary_seeds q task = [] then (None, st)
          else let r = fuzzGrader task (fuzz_options_at q z task (as_graderCalls st));
                 st' = st\<lparr>as_graderCalls := as_graderCalls st + fr_graderCalls r\<rparr> in
            case fr_best r of
              None \<Rightarrow> (None, st')
            | Some b \<Rightarrow>
                if dless (threshold q) (DFin (fp_gap b))
                then (Some (fuzz_finding_of b),
                      st'\<lparr>as_oracleGap := as_oracleGap st' \<or> fi_status (fuzz_finding_of b) = Open\<rparr>)
                else (None, st'))"

section \<open>One task\<close>

definition all_findings :: "task_assessment \<Rightarrow> finding list" where
  "all_findings t = ta_canaryFindings t @ ta_perturbationFindings t
     @ (case ta_fuzzFinding t of None \<Rightarrow> [] | Some f \<Rightarrow> [f])"

definition max_of :: "rat list \<Rightarrow> rat option" where
  "max_of xs = (case xs of [] \<Rightarrow> None | x # rest \<Rightarrow> Some (foldl max x rest))"

definition positive_gaps :: "finding list \<Rightarrow> rat list" where
  "positive_gaps fs = filter (\<lambda>g. 0 < g) (concat (map (\<lambda>f. case fi_gap f of None \<Rightarrow> [] | Some g \<Rightarrow> [g]) fs))"

definition task_assessment_of :: "string \<Rightarrow> finding list \<Rightarrow> finding list \<Rightarrow> finding option \<Rightarrow> task_assessment" where
  "task_assessment_of ident cfs pfs ff =
     (let fuzzed = (case ff of None \<Rightarrow> [] | Some f \<Rightarrow> [f]) in
      \<lparr>ta_taskId = ident, ta_canaryFindings = cfs, ta_perturbationFindings = pfs, ta_fuzzFinding = ff,
       ta_worstGap = max_of (positive_gaps (cfs @ fuzzed)),
       ta_openChannels = map fi_channel (filter (\<lambda>f. fi_status f = Open) cfs)
         @ map (\<lambda>_. ''fuzz'') (filter (\<lambda>f. fi_status f = Open) fuzzed)\<rparr>)"

definition assess_task ::
    "real_functions \<Rightarrow> ('t, 's) assess_options \<Rightarrow> 't \<Rightarrow> assess_state \<Rightarrow> task_assessment \<times> assess_state" where
  "assess_task rf q task st =
     (let (cfs, st1) = canary_findings rf q task (ao_canaries q) st;
          (pfs, st2) = perturbation_findings rf q task st1;
          (ff, st3) = fuzz_finding q task st2
      in (task_assessment_of (ao_taskId q task) cfs pfs ff, st3))"

fun assess_tasks ::
    "real_functions \<Rightarrow> ('t, 's) assess_options \<Rightarrow> 't list \<Rightarrow> assess_state \<Rightarrow> task_assessment list \<times> assess_state" where
  "assess_tasks rf q [] st = ([], st)"
| "assess_tasks rf q (t # ts) st =
     (let (a, st') = assess_task rf q t st; (as', st'') = assess_tasks rf q ts st' in (a # as', st''))"

section \<open>The report\<close>

definition ins_new :: "string \<Rightarrow> string list \<Rightarrow> string list" where
  "ins_new x xs = (if x \<in> set xs then xs else xs @ [x])"

definition channel_names :: "task_assessment list \<Rightarrow> string list" where
  "channel_names ts = fold (\<lambda>t names.
     (let ns = fold (\<lambda>f. ins_new (fi_channel f)) (ta_canaryFindings t @ ta_perturbationFindings t) names
      in if ta_fuzzFinding t = None then ns else ins_new ''fuzz'' ns)) ts []"

definition summary_of :: "task_assessment list \<Rightarrow> string \<Rightarrow> channel_summary" where
  "summary_of ts channel =
     (let fs = filter (\<lambda>f. fi_channel f = channel) (concat (map all_findings ts));
          n = (\<lambda>s. length (filter (\<lambda>f. fi_status f = s) fs)) in
      \<lparr>cs_channel = channel, cs_open = n Open, cs_suspected = n Suspected, cs_closed = n Closed, cs_notTested = n NotTested\<rparr>)"

definition channel_summaries :: "task_assessment list \<Rightarrow> channel_summary list" where
  "channel_summaries ts = sort_desc (\<lambda>c. int (cs_open c)) (map (summary_of ts) (channel_names ts))"

definition untested_text :: "string list \<Rightarrow> string" where
  "untested_text cs = ''These channels went untested on at least one task: '' @ join '', '' cs @ ''. ''
     @ ''Usually because the task did not declare the field the probe needs, ''
     @ ''which is itself worth checking -- a benchmark that does leak its ''
     @ ''reference answer but did not populate it here will show a clean result ''
     @ ''that means nothing.''"

definition buildLimitations :: "nat \<Rightarrow> bool \<Rightarrow> bool \<Rightarrow> nat \<Rightarrow> bool \<Rightarrow> bool \<Rightarrow> bool \<Rightarrow> channel_summary list \<Rightarrow> string list" where
  "buildLimitations taskCount hasOracle hasReference perturbationTested fuzzRan exhausted nondeterministic summary =
     (let unseen = map cs_channel (filter (\<lambda>c. 0 < cs_notTested c) summary);
          ls =
            (if \<not> hasOracle then
               [''No solution oracle was supplied. Canary gaps are established by ''
                @ ''construction and are sound, but fuzzing results are reported as ''
                @ ''suspected rather than open because a mutation could in principle have ''
                @ ''solved the task.''] else [])
            @ (if \<not> hasReference \<or> perturbationTested = 0 then
               [''Perturbation testing did not run on any task, so surface sensitivity is ''
                @ ''unmeasured. A grader can refuse every canary and still be scoring the ''
                @ ''shape of an answer rather than its content.''] else [])
            @ (if \<not> fuzzRan then
               [''Fuzzing was disabled. Only the named channels were tested; an unnamed ''
                @ ''one would not have been found.''] else [])
            @ (if exhausted then
               [''The grader-call budget was exhausted before every probe ran. Untested ''
                @ ''probes are marked not-tested and must not be read as passes.''] else [])
            @ (if nondeterministic then
               [''The grader returned different rewards for identical input. Every figure ''
                @ ''here is a sample from a distribution, and single-repeat findings ''
                @ ''carry that uncertainty without quantifying it.''] else [])
            @ (if taskCount < 20 then
               [''Only '' @ show_nat taskCount @ '' tasks were assessed. The gameability rate carries ''
                @ ''a wide interval at this sample size; read the bounds, not the point.''] else [])
            @ (if unseen \<noteq> [] then [untested_text unseen] else [])
      in if ls = [] then
           [''Every configured probe ran against every task. This bounds the channels ''
            @ ''that were tested; it does not establish that no other channel exists.'']
         else ls)"

fun overclaim :: "(string \<times> finding) list \<Rightarrow> string option" where
  "overclaim [] = None"
| "overclaim ((t, f) # fs) =
     (if fi_status f \<noteq> Closed \<and> given (fi_caveat f) = None
      then Some (t @ ''/'' @ fi_channel f @ '' is '' @ quoted (channel_status_name (fi_status f)) @ '' with no caveat'')
      else overclaim fs)"

definition assertNoOverclaim :: "robustness_report \<Rightarrow> string + unit" where
  "assertNoOverclaim r =
     (case overclaim (concat (map (\<lambda>t. map (Pair (ta_taskId t)) (all_findings t)) (rp_perTask r))) of
        None \<Rightarrow> Inr () | Some e \<Rightarrow> Inl e)"

definition report_of ::
    "real_functions \<Rightarrow> instant \<Rightarrow> ('t, 's) assess_options \<Rightarrow> bool \<Rightarrow> task_assessment list \<Rightarrow> assess_state \<Rightarrow> robustness_report" where
  "report_of rf now q nondeterministic ts st =
     (let tested = length (filter (\<lambda>t. \<exists>f \<in> set (ta_perturbationFindings t). fi_status f \<noteq> NotTested) ts);
          moved = length (filter (\<lambda>t. \<exists>f \<in> set (ta_perturbationFindings t). fi_status f = Open) ts);
          gameable = length (filter (\<lambda>t. ta_openChannels t \<noteq> []) ts);
          gaps = concat (map (\<lambda>t. case ta_worstGap t of None \<Rightarrow> [] | Some g \<Rightarrow> [g]) ts);
          summary = channel_summaries ts; n = length (ao_tasks q) in
      \<lparr>rp_suiteId = ao_suiteId q, rp_assessedAt = toISOString now, rp_taskCount = n,
       rp_graderCalls = as_graderCalls st, rp_gameability = proportion_of rf gameable n,
       rp_surfaceSensitivity = proportion_of rf moved tested, rp_nondeterministic = nondeterministic,
       rp_gapDistribution = \<lparr>gd_median = quantile gaps (1 / 2), gd_p95 = quantile gaps (fl (95 / 100)),
         gd_max = max_of gaps, gd_measured = length gaps\<rparr>,
       rp_perTask = ts, rp_channelSummary = summary,
       rp_limitations = buildLimitations n (ao_oracle q \<noteq> None) (ao_referenceSubmission q \<noteq> None) tested
         (ao_fuzz q \<noteq> None) (as_budgetExhausted st) nondeterministic summary\<rparr>)"

definition basis_text :: "gap_basis \<Rightarrow> string" where
  "basis_text b = (case b of
     MeasuredWithOracle \<Rightarrow> ''Largest gap between paid reward and independently measured solve.''
   | CanaryConstruction \<Rightarrow> ''Largest reward paid to a submission that is non-solving by construction.''
   | NotEstablished \<Rightarrow> ''No gap was established; no non-solving submission was paid.'')"

definition gap_complement_v1 :: confidence_mapping where
  "gap_complement_v1 = \<lparr>cm_name = ''gap-complement-v1'', cm_formula = ''verifierConfidence = 1 - exploitableGap'',
     cm_basis = ''assumed'',
     cm_caveat = ''This mapping is a defensible shape, not a calibrated one. No dataset ''
       @ ''relates a measured exploitable gap to a verifier trustworthiness score, ''
       @ ''so the linear complement is a stated convention rather than a finding. ''
       @ ''It is versioned so a later calibration can replace it without changing ''
       @ ''the meaning of assessments already stored. Prefer the interval treatment ''
       @ ''in `adjustment`, which needs no mapping because its quantities are ''
       @ ''already in reward units.''\<rparr>"

definition assess_start :: assess_state where
  "assess_start = \<lparr>as_graderCalls = 0, as_budgetExhausted = False, as_surfaceDeltas = [], as_oracleGap = False,
     as_canaryGap = False\<rparr>"

definition assessVerifier ::
    "real_functions \<Rightarrow> instant \<Rightarrow> ('t, 's) assess_options \<Rightarrow> string + verifier_assessment" where
  "assessVerifier rf now q =
     (let (nd, st0) = nondeterminism rf q assess_start;
          (ts, st) = assess_tasks rf q (ao_tasks q) st0;
          report = report_of rf now q nd ts st;
          gap = or_default (gd_max (rp_gapDistribution report)) 0;
          noise = mean (as_surfaceDeltas st);
          basis = (if as_oracleGap st then MeasuredWithOracle
                   else if as_canaryGap st then CanaryConstruction else NotEstablished) in
      bindE (assertNoOverclaim report) (\<lambda>_.
        Inr \<lparr>va_report = report, va_exploitableGap = gap, va_exploitableGapBasis = basis, va_surfaceNoise = noise,
          va_verifierConfidence = clamp01 (DFin (fsub 1 gap)), va_confidenceMapping = gap_complement_v1,
          va_adjustment = \<lparr>vj_exploitableGap = gap, vj_surfaceNoise = noise, vj_basis = basis_text basis\<rparr>\<rparr>))"

section \<open>The budget is kept\<close>

definition in_budget :: "('t, 's) assess_options \<Rightarrow> assess_state \<Rightarrow> assess_state \<Rightarrow> bool" where
  "in_budget q a b = (as_graderCalls a \<le> as_graderCalls b
     \<and> (enat (as_graderCalls a) \<le> call_limit q \<longrightarrow> enat (as_graderCalls b) \<le> call_limit q))"

lemma within_refl [simp]: "in_budget q st st"
  and within_trans: "in_budget q a b \<Longrightarrow> in_budget q b c \<Longrightarrow> in_budget q a c"
  and within_flags [simp]: "in_budget q st (st'\<lparr>as_canaryGap := x\<rparr>) = in_budget q st st'"
    "in_budget q st (st'\<lparr>as_surfaceDeltas := ds\<rparr>) = in_budget q st st'" "in_budget q st (st'\<lparr>as_oracleGap := y\<rparr>) = in_budget q st st'"
  by (auto simp: in_budget_def)

lemma within_gradeOnce: "in_budget q st (snd (gradeOnce q t s st))"
  by (auto simp: in_budget_def gradeOnce_def not_le Suc_ile_eq)

lemma within_grade_times: "in_budget q st (snd (grade_times q t s n st))"
proof (induction n arbitrary: st)
  case (Suc n)
  show ?case using within_gradeOnce [of q st t s] Suc.IH [of "snd (gradeOnce q t s st)"]
    by (auto split: prod.splits option.splits intro: within_trans)
qed simp

lemma within_gradeRepeated: "in_budget q st (snd (gradeRepeated rf q t s st))"
  using within_grade_times [of q st t s] by (simp add: gradeRepeated_def Let_def split_def)

lemma within_nondeterminism: "in_budget q st (snd (nondeterminism rf q st))"
  by (simp add: nondeterminism_def Let_def split_def within_grade_times split: list.split option.split)

lemma within_canary: "in_budget q st (snd (canary_finding rf q t c st))"
proof (cases "ca_build c t")
  case (Some s)
  then show ?thesis using within_gradeRepeated [of q st rf t s]
    by (auto simp: canary_finding_def Let_def split: prod.splits option.splits)
qed (simp add: canary_finding_def)

lemma within_canaries: "in_budget q st (snd (canary_findings rf q t cs st))"
proof (induction cs arbitrary: st)
  case (Cons c cs)
  show ?case using within_canary [of q st rf t c] Cons.IH [of "snd (canary_finding rf q t c st)"]
    by (auto simp: Let_def split_def intro: within_trans)
qed simp

lemma within_perturbation: "in_budget q st (snd (perturbation_finding rf q t ref b p st))"
  by (simp add: perturbation_finding_def Let_def split_def within_gradeRepeated split: option.split)

lemma within_perturbation_loop: "in_budget q st (snd (perturbation_loop rf q t ref b ps st))"
proof (induction ps arbitrary: st)
  case (Cons p ps)
  show ?case using within_perturbation [of q st rf t ref b p] Cons.IH [of "snd (perturbation_finding rf q t ref b p st)"]
    by (auto simp: Let_def split_def intro: within_trans)
qed simp

lemma within_perturbations: "in_budget q st (snd (perturbation_findings rf q t st))"
proof (cases "reference_for q t")
  case (Some ref)
  then show ?thesis
    using within_gradeRepeated [of q st rf t ref] within_perturbation_loop [of q "snd (gradeRepeated rf q t ref st)" rf t ref]
    by (auto simp: perturbation_findings_def Let_def split_def intro: within_trans)
qed (simp add: perturbation_findings_def)

lemma within_fuzz: "in_budget q st (snd (fuzz_finding q t st))"
proof -
  have "in_budget q st (st\<lparr>as_graderCalls := as_graderCalls st + fr_graderCalls (fuzzGrader t (fuzz_options_at q z t (as_graderCalls st)))\<rparr>)"
    if "\<not> call_limit q \<le> enat (as_graderCalls st)" for z
  proof -
    let ?n = "fr_graderCalls (fuzzGrader t (fuzz_options_at q z t (as_graderCalls st)))"
    have "enat ?n \<le> call_limit q - enat (as_graderCalls st)"
      using fuzz_calls_le [of t "fuzz_options_at q z t (as_graderCalls st)"] by (simp add: fuzz_options_at_def)
    then have "enat (as_graderCalls st + ?n) \<le> call_limit q" using that by (cases "call_limit q") auto
    then show ?thesis by (simp add: in_budget_def)
  qed
  then show ?thesis by (auto simp: fuzz_finding_def Let_def split: option.splits)
qed

lemma within_task: "in_budget q st (snd (assess_task rf q t st))"
proof -
  obtain cfs st1 where 1: "canary_findings rf q t (ao_canaries q) st = (cfs, st1)" by fastforce
  obtain pfs st2 where 2: "perturbation_findings rf q t st1 = (pfs, st2)" by fastforce
  obtain ff st3 where 3: "fuzz_finding q t st2 = (ff, st3)" by fastforce
  have "in_budget q st st1" "in_budget q st1 st2" "in_budget q st2 st3"
    using within_canaries [of q st rf t "ao_canaries q"] within_perturbations [of q st1 rf t] within_fuzz [of q st2 t] 1 2 3
    by simp_all
  then show ?thesis using 1 2 3 by (auto simp: assess_task_def intro: within_trans)
qed

lemma within_tasks: "in_budget q st (snd (assess_tasks rf q ts st))"
proof (induction ts arbitrary: st)
  case (Cons t ts)
  show ?case using within_task [of q st rf t] Cons.IH [of "snd (assess_task rf q t st)"]
    by (auto simp: Let_def split_def intro: within_trans)
qed simp

section \<open>What a finding says\<close>

text \<open>A channel is closed only if it was graded, and anything else says why.\<close>

definition honest_finding :: "finding \<Rightarrow> bool" where
  "honest_finding f = (if fi_status f = Closed then 0 < fi_repeats f else \<exists>c. fi_caveat f = Some c \<and> c \<noteq> [])"

definition canary_claim :: "('t, 's) assess_options \<Rightarrow> finding \<Rightarrow> bool" where
  "canary_claim q f = ((fi_status f = NotTested \<and> fi_gap f = None)
     \<or> (fi_status f \<in> {Open, Closed} \<and> fi_gap f = Some (fi_reward f) \<and> fi_solve f = Some 0
        \<and> (fi_status f = Open \<longleftrightarrow> dless (threshold q) (DFin (fi_reward f)))))"

definition repeats_ok :: "('t, 's) assess_options \<Rightarrow> bool" where
  "repeats_ok q = (int (max 1 (or_default (ao_repeats q) 1)) \<le> 2 ^ 53)"

definition unit_reward :: "rat \<Rightarrow> bool" where
  "unit_reward r = (0 \<le> r \<and> r \<le> 1)"

lemma untested_simps [simp]: "honest_finding (untested ch r c) \<longleftrightarrow> c \<noteq> []" "canary_claim q (untested ch r c)"
  "fi_gap (untested ch r c) = None" "fi_channel (untested ch r c) = ch" "fi_status (untested ch r c) = NotTested"
  "fi_caveat (untested ch r c) = Some c"
  by (auto simp: untested_def honest_finding_def canary_claim_def)

lemma grade_times_results:
  "\<forall>r \<in> set (fst (grade_times q t s n st)). unit_reward r" "length (fst (grade_times q t s n st)) \<le> n"
  by (induction n arbitrary: st) (auto simp: gradeOnce_def unit_reward_def Let_def split_def split: prod.splits)

lemma gradeRepeated_result:
  assumes "gradeRepeated rf q t s st = (Some g, st')"
  shows "0 < gr_repeats g" "repeats_ok q \<Longrightarrow> unit_reward (gr_mean g)"
  using assms grade_times_results [of q t s "max 1 (or_default (ao_repeats q) 1)" st]
    mean_bounds [of "fst (grade_times q t s (max 1 (or_default (ao_repeats q) 1)) st)"]
  by (auto simp: gradeRepeated_def Let_def split_def repeats_ok_def unit_reward_def split: if_splits)

lemma canary_finding_says:
  "honest_finding (fst (canary_finding rf q t c st)) \<and> canary_claim q (fst (canary_finding rf q t c st))
    \<and> fi_channel (fst (canary_finding rf q t c st)) = ca_id c
    \<and> (repeats_ok q \<longrightarrow> (\<forall>g. fi_gap (fst (canary_finding rf q t c st)) = Some g \<longrightarrow> unit_reward g))"
proof (cases "ca_build c t")
  case (Some s)
  show ?thesis
  proof (cases "gradeRepeated rf q t s st")
    case (Pair o' st')
    then show ?thesis using Some gradeRepeated_result [of rf q t s st]
      by (cases o') (auto simp: canary_finding_def Let_def honest_finding_def canary_claim_def)
  qed
qed (simp add: canary_finding_def)

lemma canary_findings_say:
  "(\<forall>f \<in> set (fst (canary_findings rf q t cs st)). honest_finding f \<and> canary_claim q f
      \<and> (repeats_ok q \<longrightarrow> (\<forall>g. fi_gap f = Some g \<longrightarrow> unit_reward g)))
    \<and> map fi_channel (fst (canary_findings rf q t cs st)) = map ca_id cs"
proof (induction cs arbitrary: st)
  case (Cons c cs)
  show ?case using canary_finding_says [of rf q t c st] Cons.IH [of "snd (canary_finding rf q t c st)"]
    by (simp add: Let_def split_def)
qed simp

lemma perturbation_finding_says:
  "honest_finding (fst (perturbation_finding rf q t ref b p st)) \<and> fi_gap (fst (perturbation_finding rf q t ref b p st)) = None
    \<and> fi_channel (fst (perturbation_finding rf q t ref b p st)) = pe_name p"
proof (cases "\<exists>b' t' s. b = Some b' \<and> pe_apply p t ref = Some (t', s)")
  case True
  then obtain b' t' s where b: "b = Some b'" "pe_apply p t ref = Some (t', s)" by blast
  show ?thesis
  proof (cases "gradeRepeated rf q t' s st")
    case (Pair o' st')
    then show ?thesis using b gradeRepeated_result(1) [of rf q t' s st]
      by (cases o') (auto simp: perturbation_finding_def Let_def honest_finding_def)
  qed
qed (auto simp: perturbation_finding_def split: option.split)

lemma perturbation_loop_says:
  "(\<forall>f \<in> set (fst (perturbation_loop rf q t ref b ps st)). honest_finding f \<and> fi_gap f = None)
    \<and> map fi_channel (fst (perturbation_loop rf q t ref b ps st)) = map pe_name ps"
proof (induction ps arbitrary: st)
  case (Cons p ps)
  show ?case using perturbation_finding_says [of rf q t ref b p st] Cons.IH [of "snd (perturbation_finding rf q t ref b p st)"]
    by (simp add: Let_def split_def)
qed simp

lemma perturbation_findings_say:
  "(\<forall>f \<in> set (fst (perturbation_findings rf q t st)). honest_finding f \<and> fi_gap f = None)
    \<and> map fi_channel (fst (perturbation_findings rf q t st)) = map pe_name (ao_perturbations q)"
  using perturbation_loop_says [of rf q t] by (auto simp: perturbation_findings_def split_def Let_def split: option.splits)

lemma point_gap_le: "fp_gap (point_at q t n s u l) \<le> 1"
proof -
  have "fsub r v \<le> 1" if "0 \<le> v" "r \<le> 1" for r v :: rat
    unfolding fsub_def by (rule fl_le_one) (use that in simp)
  then show ?thesis by (auto simp: point_at_def Let_def split: option.split)
qed

lemma fuzz_finding_says:
  assumes "fst (fuzz_finding q t st) = Some f"
  shows "honest_finding f" "fi_channel f = ''fuzz''" "fi_status f \<in> {Open, Suspected}"
    "\<exists>g. fi_gap f = Some g \<and> g \<le> 1 \<and> dless (threshold q) (DFin g)" "fi_status f = Open \<longleftrightarrow> ao_oracle q \<noteq> None"
proof -
  obtain z b where b: "f = fuzz_finding_of b" "dless (threshold q) (DFin (fp_gap b))"
    "fr_best (fuzzGrader t (fuzz_options_at q z t (as_graderCalls st))) = Some b"
    using assms by (auto simp: fuzz_finding_def Let_def split: option.splits if_splits)
  let ?o = "fuzz_options_at q z t (as_graderCalls st)"
  have ok: "fuzz_ok ?o t (from_seeds ?o t (fo_seeds ?o) fuzz_start)" by (rule fuzz_ok_result)
  from b(3) ok obtain i u where p: "b = point_at ?o t i (fp_submission b) u (fp_lineage b)" "reached_point ?o b u"
    by (auto simp: fuzzGrader_def Let_def fuzz_ok_def observed_def)
  have u: "reached ?o l x v \<Longrightarrow> v" for l x v
    by (induction rule: reached.induct) (auto simp: fuzz_options_at_def canary_seeds_def split: option.splits)
  have "fp_gapIsAssumed b \<longleftrightarrow> ao_oracle q = None" "fp_solve b \<noteq> None \<longleftrightarrow> ao_oracle q \<noteq> None"
    using u [OF p(2)] by (subst p(1), simp add: fuzz_options_at_def point_at_def Let_def)+
  moreover have "fp_gap b \<le> 1" by (subst p(1)) (rule point_gap_le)
  ultimately show "honest_finding f" "fi_channel f = ''fuzz''" "fi_status f \<in> {Open, Suspected}"
    "\<exists>g. fi_gap f = Some g \<and> g \<le> 1 \<and> dless (threshold q) (DFin g)" "fi_status f = Open \<longleftrightarrow> ao_oracle q \<noteq> None"
    using b(1,2) by (auto simp: fuzz_finding_of_def Let_def honest_finding_def)
qed

section \<open>What a task says\<close>

definition task_ok :: "('t, 's) assess_options \<Rightarrow> task_assessment \<Rightarrow> bool" where
  "task_ok q a =
     ((\<forall>f \<in> set (all_findings a). honest_finding f)
      \<and> (\<forall>f \<in> set (ta_canaryFindings a). canary_claim q f)
      \<and> map fi_channel (ta_canaryFindings a) = map ca_id (ao_canaries q)
      \<and> map fi_channel (ta_perturbationFindings a) = map pe_name (ao_perturbations q)
      \<and> (\<forall>f. ta_fuzzFinding a = Some f \<longrightarrow> fi_channel f = ''fuzz'' \<and> fi_status f \<in> {Open, Suspected})
      \<and> a = task_assessment_of (ta_taskId a) (ta_canaryFindings a) (ta_perturbationFindings a) (ta_fuzzFinding a)
      \<and> (repeats_ok q \<longrightarrow> (\<forall>f \<in> set (all_findings a). \<forall>g. fi_gap f = Some g \<longrightarrow> g \<le> 1)))"

lemma task_assessment_of_simps [simp]:
  "ta_taskId (task_assessment_of i c p f) = i" "ta_canaryFindings (task_assessment_of i c p f) = c"
  "ta_perturbationFindings (task_assessment_of i c p f) = p" "ta_fuzzFinding (task_assessment_of i c p f) = f"
  by (simp_all add: task_assessment_of_def Let_def)

lemma assess_task_ok: "task_ok q (fst (assess_task rf q t st)) \<and> ta_taskId (fst (assess_task rf q t st)) = ao_taskId q t"
proof -
  obtain cfs st1 where 1: "canary_findings rf q t (ao_canaries q) st = (cfs, st1)" by fastforce
  obtain pfs st2 where 2: "perturbation_findings rf q t st1 = (pfs, st2)" by fastforce
  obtain ff st3 where 3: "fuzz_finding q t st2 = (ff, st3)" by fastforce
  have f: "honest_finding f \<and> fi_channel f = ''fuzz'' \<and> fi_status f \<in> {Open, Suspected} \<and> (\<exists>g. fi_gap f = Some g \<and> g \<le> 1)"
    if "ff = Some f" for f
    using fuzz_finding_says [of q t st2 f] 3 that by auto
  then show ?thesis
    using canary_findings_say [of rf q t "ao_canaries q" st] perturbation_findings_say [of rf q t st1] 1 2 3
    by (auto simp: assess_task_def task_ok_def all_findings_def unit_reward_def split: option.splits)
qed

lemma assess_tasks_ok:
  "(\<forall>a \<in> set (fst (assess_tasks rf q ts st)). task_ok q a)
    \<and> map ta_taskId (fst (assess_tasks rf q ts st)) = map (ao_taskId q) ts"
proof (induction ts arbitrary: st)
  case (Cons t ts)
  show ?case using assess_task_ok [of q rf t st] Cons.IH [of "snd (assess_task rf q t st)"]
    by (simp add: Let_def split_def)
qed simp

section \<open>The rollup\<close>

lemma foldl_max: "foldl max (x :: rat) ys \<in> set (x # ys) \<and> (\<forall>y \<in> set (x # ys). y \<le> foldl max x ys)"
proof (induction ys arbitrary: x)
  case (Cons y ys)
  show ?case using Cons.IH [of "max x y"] by (auto simp: max_def split: if_splits)
qed simp

lemma max_of_None [simp]: "max_of xs = None \<longleftrightarrow> xs = []"
  by (simp add: max_of_def split: list.split)

lemma max_of_Some: "max_of xs = Some m \<Longrightarrow> m \<in> set xs \<and> (\<forall>x \<in> set xs. x \<le> m)"
  using foldl_max by (auto simp: max_of_def split: list.splits)

lemma overclaim_None: "overclaim fs = None \<longleftrightarrow> (\<forall>(t, f) \<in> set fs. fi_status f = Closed \<or> given (fi_caveat f) \<noteq> None)"
  by (induction fs rule: overclaim.induct) auto

lemma honest_no_overclaim: "\<forall>a \<in> set (rp_perTask r). task_ok q a \<Longrightarrow> assertNoOverclaim r = Inr ()"
proof -
  assume ok: "\<forall>a \<in> set (rp_perTask r). task_ok q a"
  have "overclaim (concat (map (\<lambda>t. map (Pair (ta_taskId t)) (all_findings t)) (rp_perTask r))) = None"
    unfolding overclaim_None using ok by (force simp: task_ok_def honest_finding_def given_def split: if_splits)
  then show ?thesis by (simp add: assertNoOverclaim_def)
qed

lemma set_ins_new [simp]: "set (ins_new x xs) = insert x (set xs)"
  by (auto simp: ins_new_def)

lemma set_fold_ins_new [simp]: "set (fold (\<lambda>f. ins_new (h f)) fs names) = h ` set fs \<union> set names"
  by (induction fs arbitrary: names) auto

lemma set_channel_names:
  assumes "\<forall>t \<in> set ts. \<forall>f. ta_fuzzFinding t = Some f \<longrightarrow> fi_channel f = ''fuzz''"
  shows "set (channel_names ts) = (\<Union>t \<in> set ts. fi_channel ` set (all_findings t))"
proof -
  let ?step = "\<lambda>t names. (let ns = fold (\<lambda>f. ins_new (fi_channel f)) (ta_canaryFindings t @ ta_perturbationFindings t) names
      in if ta_fuzzFinding t = None then ns else ins_new ''fuzz'' ns)"
  have "set (fold ?step ts names) = (\<Union>t \<in> set ts. fi_channel ` set (all_findings t)) \<union> set names" for names
    using assms
  proof (induction ts arbitrary: names)
    case (Cons t ts)
    have "set (?step t names) = fi_channel ` set (all_findings t) \<union> set names"
      using Cons.prems by (cases "ta_fuzzFinding t") (auto simp: all_findings_def Let_def)
    then show ?case using Cons by (simp add: Un_ac)
  qed simp
  then show ?thesis by (simp add: channel_names_def)
qed

lemma summary_counts: "0 < cs_notTested (summary_of ts c) \<longleftrightarrow>
    (\<exists>t \<in> set ts. \<exists>f \<in> set (all_findings t). fi_channel f = c \<and> fi_status f = NotTested)"
  by (auto simp: summary_of_def Let_def filter_empty_conv)

lemma limitations_not_Nil: "buildLimitations n o1 o2 k fz ex nd su \<noteq> []"
  by (simp add: buildLimitations_def Let_def)

lemma limitations_untested:
  "cs_notTested c \<noteq> 0 \<Longrightarrow> c \<in> set su \<Longrightarrow> \<exists>cs. cs_channel c \<in> set cs \<and> untested_text cs \<in> set (buildLimitations n o1 o2 k fz ex nd su)"
  by (intro exI [of _ "map cs_channel (filter (\<lambda>c. 0 < cs_notTested c) su)"])
    (auto simp: buildLimitations_def Let_def filter_empty_conv)

text \<open>The parts of an assessment, and that it is always made.\<close>

lemma assessVerifier_parts:
  obtains nd st0 ts st where "nondeterminism rf q assess_start = (nd, st0)" "assess_tasks rf q (ao_tasks q) st0 = (ts, st)"
    "\<And>now. \<exists>a. assessVerifier rf now q = Inr a \<and> va_report a = report_of rf now q nd ts st
      \<and> va_exploitableGap a = or_default (gd_max (rp_gapDistribution (va_report a))) 0
      \<and> va_verifierConfidence a = clamp01 (DFin (fsub 1 (va_exploitableGap a)))
      \<and> va_exploitableGapBasis a = (if as_oracleGap st then MeasuredWithOracle
                   else if as_canaryGap st then CanaryConstruction else NotEstablished)"
    "\<forall>a \<in> set ts. task_ok q a"
proof -
  obtain nd st0 where 0: "nondeterminism rf q assess_start = (nd, st0)" by fastforce
  obtain ts st where 1: "assess_tasks rf q (ao_tasks q) st0 = (ts, st)" by fastforce
  have ok: "\<forall>a \<in> set ts. task_ok q a" using assess_tasks_ok [of rf q "ao_tasks q" st0] 1 by simp
  have "assertNoOverclaim (report_of rf now q nd ts st) = Inr ()" for now
    by (rule honest_no_overclaim) (use ok in \<open>simp add: report_of_def Let_def\<close>)
  then show ?thesis using 0 1 ok by (intro that [of nd st0 ts st]) (auto simp: assessVerifier_def Let_def)
qed

lemma task_assessment_of_gap [simp]:
  "ta_worstGap (task_assessment_of i c p f) = max_of (positive_gaps (c @ (case f of None \<Rightarrow> [] | Some f \<Rightarrow> [f])))"
  by (simp add: task_assessment_of_def Let_def)

lemma worst_gap:
  "task_ok q a \<Longrightarrow> ta_worstGap a
     = max_of (positive_gaps (ta_canaryFindings a @ (case ta_fuzzFinding a of None \<Rightarrow> [] | Some f \<Rightarrow> [f])))"
  by (metis task_assessment_of_gap task_ok_def)

text \<open>The gap of a report: an upper bound of the gaps of its canaries and fuzzing, reached by one of
  them unless none is positive.\<close>

definition gap_findings :: "task_assessment \<Rightarrow> finding list" where
  "gap_findings t = ta_canaryFindings t @ (case ta_fuzzFinding t of None \<Rightarrow> [] | Some f \<Rightarrow> [f])"

lemma report_gap:
  assumes "\<forall>a \<in> set ts. task_ok q a" "m = or_default (gd_max (rp_gapDistribution (report_of rf now q nd ts st))) 0"
  shows "0 \<le> m \<and> (\<forall>a \<in> set ts. \<forall>f \<in> set (gap_findings a). \<forall>g. fi_gap f = Some g \<longrightarrow> g \<le> m)
    \<and> (m = 0 \<or> (\<exists>a \<in> set ts. \<exists>f \<in> set (gap_findings a). fi_gap f = Some m))"
proof -
  define gaps where "gaps = concat (map (\<lambda>t. case ta_worstGap t of None \<Rightarrow> [] | Some g \<Rightarrow> [g]) ts)"
  have m: "m = or_default (max_of gaps) 0" by (simp add: assms(2) gaps_def report_of_def Let_def)
  have w: "ta_worstGap a = max_of (positive_gaps (gap_findings a))" if "a \<in> set ts" for a
    using worst_gap [of q a] assms(1) that by (simp add: gap_findings_def)
  have pos: "x \<in> set (positive_gaps fs) \<longleftrightarrow> 0 < x \<and> (\<exists>f \<in> set fs. fi_gap f = Some x)" for x fs
    by (auto simp: positive_gaps_def split: option.splits) (metis)
  have in_gaps: "x \<in> set gaps \<longleftrightarrow> (\<exists>a \<in> set ts. max_of (positive_gaps (gap_findings a)) = Some x)" for x
    by (auto simp: gaps_def w split: option.splits) metis
  have reached: "0 < x \<and> (\<exists>a \<in> set ts. \<exists>f \<in> set (gap_findings a). fi_gap f = Some x)" if "x \<in> set gaps" for x
    using that max_of_Some unfolding in_gaps pos [symmetric] by (metis pos)
  have below: "\<exists>x \<in> set gaps. g \<le> x" if "a \<in> set ts" "f \<in> set (gap_findings a)" "fi_gap f = Some g" "0 < g" for a f g
  proof -
    have g: "g \<in> set (positive_gaps (gap_findings a))" using that pos by blast
    then obtain x where "max_of (positive_gaps (gap_findings a)) = Some x" by (cases "max_of (positive_gaps (gap_findings a))") auto
    with g that(1) max_of_Some show ?thesis using in_gaps by blast
  qed
  show ?thesis
  proof (cases "max_of gaps")
    case None
    then have e: "gaps = []" by simp
    have "g \<le> 0" if "a \<in> set ts" "f \<in> set (gap_findings a)" "fi_gap f = Some g" for a f g
      using below [OF that] e by (cases "0 < g") auto
    moreover have "m = 0" using e m by (simp add: or_default_def max_of_def)
    ultimately show ?thesis by blast
  next
    case (Some x)
    then have "m = x" using m by (simp add: or_default_def)
    moreover have "x \<in> set gaps" "\<forall>y \<in> set gaps. y \<le> x" using max_of_Some [OF Some] by blast+
    ultimately show ?thesis using reached [of x] below by (meson less_imp_le not_le order_trans)
  qed
qed

end
