(* ===== verification/Perturbations.thy ===== *)
theory Perturbations
  imports Canaries Provenance
begin

text \<open>
  \<open>robustness/perturbations.ts\<close>: rewrites of a task and a submission that must not change the
  reward. \<open>JSON.parse\<close> is an argument; identifiers are maximal runs of word characters, which is
  what the expressions with a boundary on both sides match.
\<close>

section \<open>Reading a submission\<close>

definition as_json_object :: "(string \<Rightarrow> jsval option) \<Rightarrow> string \<Rightarrow> (string \<times> jsval) list option" where
  "as_json_object parse text =
     (let t = trim text in
      if \<not> starts_with ''{'' t then None
      else case parse t of Some (JObj kvs) \<Rightarrow> Some kvs | _ \<Rightarrow> None)"

definition as_number :: "string \<Rightarrow> double option" where
  "as_number text = (let t = trim text in if t = [] then None
     else let n = number_of_text t in if is_finite n then Some n else None)"

text \<open>The order of an object's properties: array indices first, ascending, then the rest as inserted.\<close>

definition is_index :: "string \<Rightarrow> bool" where
  "is_index k = (k \<noteq> [] \<and> list_all is_digit k \<and> show_nat (read_nat 0 k) = k \<and> read_nat 0 k < 2 ^ 32 - 1)"

definition property_order :: "(string \<times> jsval) list \<Rightarrow> (string \<times> jsval) list" where
  "property_order kvs = sort_asc (\<lambda>(k, v). int (read_nat 0 k)) (filter (\<lambda>(k, v). is_index k) kvs)
     @ filter (\<lambda>(k, v). \<not> is_index k) kvs"

text \<open>\<open>JSON.stringify\<close> of a value that was parsed.\<close>

function json_text :: "jsval \<Rightarrow> string" where
  "json_text v = (case v of
     JBool b \<Rightarrow> (if b then ''true'' else ''false'')
   | JNum x \<Rightarrow> js_text x
   | JStr s \<Rightarrow> json_string s
   | JArr xs \<Rightarrow> ''['' @ join '','' (map json_text xs) @ '']''
   | JObj kvs \<Rightarrow> ''{'' @ join '','' (map (\<lambda>(k, v). json_string k @ '':'' @ json_text v) kvs) @ ''}''
   | _ \<Rightarrow> ''null'')"
  by pat_completeness auto
termination
  by (relation "measure size") (auto dest: size_val_prop size_val_item)

declare json_text.simps [simp del]

function collapse_spaces :: "string \<Rightarrow> string" where
  "collapse_spaces [] = []"
| "collapse_spaces (c # cs) =
     (if is_space c then CHR 0x20 # collapse_spaces (dropWhile is_space cs) else c # collapse_spaces cs)"
  by pat_completeness auto
termination
  by (relation "measure length") (auto simp: length_dropWhile_le le_imp_less_Suc)

section \<open>Identifiers\<close>

definition word_char :: "char \<Rightarrow> bool" where
  "word_char c = (is_digit c \<or> c = CHR ''_'' \<or> (let n = (of_char c :: nat) in 65 \<le> n \<and> n \<le> 90 \<or> 97 \<le> n \<and> n \<le> 122))"

function runs :: "string \<Rightarrow> string list" where
  "runs [] = []"
| "runs (c # cs) = (let same = (\<lambda>x. word_char x = word_char c) in (c # takeWhile same cs) # runs (dropWhile same cs))"
  by pat_completeness auto
termination
  by (relation "measure length") (auto simp: length_dropWhile_le le_imp_less_Suc)

definition ident_word :: "string \<Rightarrow> bool" where
  "ident_word w = (4 \<le> length w \<and> list_all word_char w \<and> \<not> is_digit (hd w))"

definition identifiers :: "string \<Rightarrow> string list" where
  "identifiers text = fold ins_new (filter ident_word (runs text)) []"

definition shared_identifier :: "string \<Rightarrow> string \<Rightarrow> string option" where
  "shared_identifier prompt submission =
     (case sort_desc (\<lambda>w. int (length w)) (filter (\<lambda>w. w \<in> set (identifiers submission)) (identifiers prompt)) of
        [] \<Rightarrow> None | w # _ \<Rightarrow> Some w)"

definition rename_word :: "string \<Rightarrow> string \<Rightarrow> string" where
  "rename_word target text = concat (map (\<lambda>w. if w = target then target @ ''_r'' else w) (runs text))"

section \<open>The rewrites\<close>

type_synonym text_perturbation = "(text_task, string) perturbation"

definition STANDARD_PERTURBATIONS :: "(string \<Rightarrow> jsval option) \<Rightarrow> text_perturbation list" where
  "STANDARD_PERTURBATIONS parse =
    [\<lparr>pe_name = ''task-id-rename'',
      pe_rationale = (''Only the task identifier changes; the task and the submission are byte ''
        @ ''identical. A grader whose reward moves is consulting an answer key keyed ''
        @ ''by id rather than evaluating the submission. This is the cheapest ''
        @ ''possible detector for a hardcoded key and it costs one grader call.''),
      pe_assumption = None,
      pe_apply = (\<lambda>task s. Some (task\<lparr>tt_id := tt_id task @ ''-isomorph-9f2c''\<rparr>, s))\<rparr>,
     \<lparr>pe_name = ''submission-trailing-whitespace'',
      pe_rationale = (''A trailing newline and spaces. Every grader should normalise these. One ''
        @ ''that does not is doing raw string equality, which means its scores ''
        @ ''depend on whether a model happened to emit a final newline.''),
      pe_assumption = None,
      pe_apply = (\<lambda>task s. Some (task, s @ ''  '' @ [newline]))\<rparr>,
     \<lparr>pe_name = ''submission-leading-whitespace'',
      pe_rationale = (''Leading whitespace, which changes nothing about an answer and breaks ''
        @ ''exact-match graders in the other direction. Tested separately from ''
        @ ''trailing because graders commonly strip one end and not both.''),
      pe_assumption = None,
      pe_apply = (\<lambda>task s. Some (task, CHR 0x20 # newline # s))\<rparr>,
     \<lparr>pe_name = ''answer-case-fold'',
      pe_rationale = (''Uppercases the submission. For a natural-language or symbolic answer ''
        @ ''this is the same answer; a reward change means case is being scored.''),
      pe_assumption = Some (''The expected answer is case-insensitive. Does not hold for tasks whose ''
        @ ''answer is a case-sensitive identifier, a hash, or source code.''),
      pe_apply = (\<lambda>task s. let upper = map to_upper s in if upper = s then None else Some (task, upper))\<rparr>,
     \<lparr>pe_name = ''numeric-reformat'',
      pe_rationale = (''Rewrites a numeric answer in an equal but differently spelled form -- ''
        @ ''7 becomes 7.0. Numerically identical, textually different. This is the ''
        @ ''GAIA normalization-collision class, where answers equal as values are ''
        @ ''unequal as strings and the grader scores the string.''),
      pe_assumption = None,
      pe_apply = (\<lambda>task s. case as_number s of None \<Rightarrow> None
        | Some n \<Rightarrow> let rewritten = (if is_integer n then double_text n @ ''.0'' else double_text n @ ''0'')
            in if rewritten = trim s then None else Some (task, rewritten))\<rparr>,
     \<lparr>pe_name = ''json-key-reorder'',
      pe_rationale = (''Permutes the keys of a JSON submission. JSON objects are unordered by ''
        @ ''definition, so this is the same value. A grader that notices is ''
        @ ''comparing serialized text instead of parsed structure -- the same class ''
        @ ''of bug that makes canonical JSON necessary in the evidence layer.''),
      pe_assumption = None,
      pe_apply = (\<lambda>task s. case as_json_object parse s of None \<Rightarrow> None
        | Some kvs \<Rightarrow> if length kvs < 2 then None else Some (task, json_text (JObj (property_order (rev kvs)))))\<rparr>,
     \<lparr>pe_name = ''prompt-neutral-prefix'',
      pe_rationale = (''Prepends a label to the task prompt without altering what is asked. ''
        @ ''Aimed at LLM judges, which see the prompt and can be swayed by its ''
        @ ''framing. A reward change here means the judge is scoring the question ''
        @ ''as much as the answer.''),
      pe_assumption = None,
      pe_apply = (\<lambda>task s. Some (task\<lparr>tt_prompt := ''Task: '' @ tt_prompt task\<rparr>, s))\<rparr>,
     \<lparr>pe_name = ''prompt-whitespace-normalise'',
      pe_rationale = (''Collapses runs of whitespace in the prompt. Semantically identical for ''
        @ ''any prose task, and it detects a grader that hashes or exact-matches the ''
        @ ''prompt to look up an expected answer.''),
      pe_assumption = None,
      pe_apply = (\<lambda>task s. let normalised = trim (collapse_spaces (tt_prompt task))
        in if normalised = tt_prompt task then None else Some (task\<lparr>tt_prompt := normalised\<rparr>, s))\<rparr>,
     \<lparr>pe_name = ''identifier-alpha-rename'',
      pe_rationale = (''Consistently renames an identifier that appears in both the prompt and ''
        @ ''the submission. Alpha-renaming is the textbook semantics-preserving ''
        @ ''transformation; a grader that changes its answer is pattern-matching ''
        @ ''source text rather than executing or parsing it.''),
      pe_assumption = Some (''The renamed identifier is internal, not a required public name. A task ''
        @ ''that specifies '' @ quoted ''define a function called solve'' @ '' is legitimately ''
        @ ''sensitive to this rename and should exclude this perturbation.''),
      pe_apply = (\<lambda>task s. case shared_identifier (tt_prompt task) s of None \<Rightarrow> None
        | Some target \<Rightarrow> Some (task\<lparr>tt_prompt := rename_word target (tt_prompt task)\<rparr>, rename_word target s))\<rparr>,
     \<lparr>pe_name = ''comment-insertion'',
      pe_rationale = (''Appends a comment line to a code submission. Comments cannot change ''
        @ ''behaviour, so an executing grader is unaffected. A grader that is ''
        @ ''diffing against a reference solution is not.''),
      pe_assumption = Some (''The submission is code in a language where # begins a comment, or the ''
        @ ''grader ignores unparseable trailing lines.''),
      pe_apply = (\<lambda>task s. if trim s = [] then None else Some (task, s @ newline # ''# no behavioural change''))\<rparr>]"

definition inapplicablePerturbations :: "text_task \<Rightarrow> string \<Rightarrow> text_perturbation list \<Rightarrow> string list" where
  "inapplicablePerturbations task s ps = map pe_name (filter (\<lambda>p. pe_apply p task s = None) ps)"

section \<open>A rewrite rewrites\<close>

lemma concat_runs [simp]: "concat (runs s) = s"
  by (induction s rule: runs.induct) (simp_all add: Let_def)

lemma set_identifiers: "set (identifiers text) = {w \<in> set (runs text). ident_word w}"
  using set_fold_ins_new [of "\<lambda>w. w" "filter ident_word (runs text)" "[]"] by (simp add: identifiers_def)

lemma shared_identifier_Some:
  "shared_identifier prompt s = Some w \<Longrightarrow> w \<in> set (runs prompt) \<and> w \<in> set (runs s) \<and> ident_word w"
proof -
  assume "shared_identifier prompt s = Some w"
  then obtain ws where "sort_desc (\<lambda>w. int (length w)) (filter (\<lambda>w. w \<in> set (identifiers s)) (identifiers prompt)) = w # ws"
    by (auto simp: shared_identifier_def split: list.splits)
  then have "w \<in> set (sort_desc (\<lambda>w. int (length w)) (filter (\<lambda>w. w \<in> set (identifiers s)) (identifiers prompt)))"
    by (metis list.set_intros(1))
  then show ?thesis by (simp add: sort_desc_def set_identifiers)
qed

lemma rename_longer: "w \<in> set (runs s) \<Longrightarrow> length s < length (rename_word w s)"
proof -
  have "length (concat (map (\<lambda>x. if x = w then w @ ''_r'' else x) ws)) = length (concat ws) + 2 * length (filter (\<lambda>x. x = w) ws)" for ws
    by (induction ws) auto
  moreover assume "w \<in> set (runs s)"
  then have "filter (\<lambda>x. x = w) (runs s) \<noteq> []" by (auto simp: filter_empty_conv)
  ultimately show ?thesis by (simp add: rename_word_def)
qed

text \<open>Numbers have no white space in their text.\<close>

lemma digit_char_not_space: "is_digit c \<Longrightarrow> \<not> is_space c"
  by (auto simp: is_digit_def is_space_def)

lemma show_nat_not_space: "c \<in> set (show_nat n) \<Longrightarrow> \<not> is_space c"
  using show_nat_digits digit_char_not_space by blast

lemma trim_id: "\<forall>c \<in> set s. \<not> is_space c \<Longrightarrow> trim s = s"
proof -
  have d: "\<forall>c \<in> set u. \<not> is_space c \<Longrightarrow> dropWhile is_space u = u" for u by (cases u) auto
  assume "\<forall>c \<in> set s. \<not> is_space c"
  then show ?thesis using d [of s] d [of "rev s"] by (simp add: trim_def trim_left_def)
qed

lemma plain_chars [simp]: "\<not> is_space CHR ''0''" "\<not> is_space CHR ''.''" "\<not> is_space CHR ''e''" "\<not> is_space CHR ''+''"
  "\<not> is_space CHR ''-''"
  by (simp_all add: is_space_def)

lemma dec_string_not_space: "\<forall>c \<in> set (dec_string s n). \<not> is_space c"
proof -
  have "\<not> is_space (hd (show_nat s))" "\<forall>c \<in> set (tl (show_nat s)). \<not> is_space c"
    using show_nat_not_space [of _ s] by (cases "show_nat s"; auto)+
  then show ?thesis using show_nat_not_space by (auto simp: dec_string_def Let_def dest: in_set_takeD in_set_dropD)
qed

lemma finite_text_not_space: "is_finite n \<Longrightarrow> \<forall>c \<in> set (double_text n). \<not> is_space c"
  using dec_string_not_space by (cases n) (auto simp: num_text_def Let_def split: if_splits prod.splits)

text \<open>A rewrite that applies gives another pair, or its finding would say nothing.\<close>

lemma list_all_cons: "list_all P (x # xs) = (P x \<and> list_all P xs)"
  and list_all_nil: "list_all P [] = True"
  by simp_all

lemma rewrites_change:
  "list_all (\<lambda>p. pe_name p = ''json-key-reorder'' \<or> pe_apply p t s \<noteq> Some (t, s)) (STANDARD_PERTURBATIONS parse)"
proof -
  have n: "double_text n @ x \<noteq> trim s \<Longrightarrow> double_text n @ x \<noteq> s" if "x \<in> {''.0'', ''0''}" "is_finite n" for n x
    using that finite_text_not_space [of n] trim_id [of "double_text n @ x"] by auto
  have numeric: "(case as_number s of None \<Rightarrow> None
        | Some n \<Rightarrow> let rewritten = (if is_integer n then double_text n @ ''.0'' else double_text n @ ''0'')
            in if rewritten = trim s then None else Some (t, rewritten)) \<noteq> Some (t, s)"
    using n by (auto simp: as_number_def Let_def split: option.splits if_splits)
  have rename: "(case shared_identifier (tt_prompt t) s of None \<Rightarrow> None
        | Some target \<Rightarrow> Some (t\<lparr>tt_prompt := rename_word target (tt_prompt t)\<rparr>, rename_word target s)) \<noteq> Some (t, s)"
  proof (cases "shared_identifier (tt_prompt t) s")
    case (Some w)
    then show ?thesis using rename_longer [of w s] shared_identifier_Some [OF Some] by auto
  qed simp
  have e: "t\<lparr>tt_id := i\<rparr> = t \<Longrightarrow> i = tt_id t" "t\<lparr>tt_prompt := q\<rparr> = t \<Longrightarrow> q = tt_prompt t" for i q
    by (cases t; simp)+
  have ident: "Some (t\<lparr>tt_id := tt_id t @ ''-isomorph-9f2c''\<rparr>, s) \<noteq> Some (t, s)" by (auto dest: e)
  have trailing: "Some (t, s @ ''  '' @ [newline]) \<noteq> Some (t, s)" and leading: "Some (t, CHR 0x20 # newline # s) \<noteq> Some (t, s)"
    by (auto dest: arg_cong [where f = length])
  have fold: "(let upper = map to_upper s in if upper = s then None else Some (t, upper)) \<noteq> Some (t, s)"
    by (simp add: Let_def)
  have prefix: "Some (t\<lparr>tt_prompt := ''Task: '' @ tt_prompt t\<rparr>, s) \<noteq> Some (t, s)" by (auto dest: e)
  have space: "(let normalised = trim (collapse_spaces (tt_prompt t))
        in if normalised = tt_prompt t then None else Some (t\<lparr>tt_prompt := normalised\<rparr>, s)) \<noteq> Some (t, s)"
    by (auto simp: Let_def dest: e)
  have comment: "(if trim s = [] then None else Some (t, s @ newline # ''# no behavioural change'')) \<noteq> Some (t, s)"
    by simp
  show ?thesis
    unfolding STANDARD_PERTURBATIONS_def list_all_cons list_all_nil perturbation.select_convs
    by (intro conjI TrueI; (rule disjI1, rule refl | rule disjI2, rule ident trailing leading fold numeric prefix space rename comment))
qed

section \<open>Where a rewrite is not what it says\<close>

text \<open>A number whose text has an exponent is not reformatted: the digit goes to the exponent.\<close>

lemma numeric_reformat_breaks:
  "double_text (DFin (fl (1 / 10 ^ 7))) @ ''0'' = ''1e-70''" "fl (1 / 10 ^ 70) < fl (1 / 10 ^ 7)"
proof -
  have "double_text (DFin (fl (1 / 10 ^ 7))) = ''1e-7''" by code_simp
  then show "double_text (DFin (fl (1 / 10 ^ 7))) @ ''0'' = ''1e-70''" by simp
qed code_simp

text \<open>An object whose keys are indices has only one order.\<close>

lemma key_reorder_is_vacuous:
  "property_order (rev [(''1'', v), (''2'', w)]) = [(''1'', v), (''2'', w)]"
proof -
  have "show_nat (Suc 0) = ''1''" "show_nat 2 = ''2''" by code_simp+
  then show ?thesis by (simp add: property_order_def is_index_def sort_asc_def is_digit_def digit_val_def digit_char_def)
qed

text \<open>A renamed identifier can be one that is already there.\<close>

lemma rename_captures: "rename_word ''solve'' ''solve solve_r'' = ''solve_r solve_r''"
  by code_simp

end
