(* ===== verification/Robustness_Properties.thy ===== *)
theory Robustness_Properties
  imports Perturbations
begin

text \<open>
  The properties of the fuzzer and of a verifier's assessment, with their witnesses.
\<close>

section \<open>The fuzzer\<close>

text \<open>C13 The search never asks the grader more often than its budget allows, nor more often than one
  call per seed and one per step and mutator; every point it reports is a seed or a chain of
  mutations of one, with the reward the grader paid for it at one of those calls, above the
  floor, and none beats the best.\<close>

theorem fuzz_reports_what_it_saw:
  "enat (fr_graderCalls (fuzzGrader t q)) \<le> fo_maxGraderCalls q
    \<and> fr_graderCalls (fuzzGrader t q) \<le> length (fo_seeds q) * Suc (max_steps q * length (fo_mutators q))
    \<and> (\<forall>p \<in> set (fr_points (fuzzGrader t q)). observed q t (fr_graderCalls (fuzzGrader t q)) p
        \<and> dless (reward_floor q) (DFin (fp_reward p))
        \<and> (\<exists>b. fr_best (fuzzGrader t q) = Some b \<and> fp_gap p \<le> fp_gap b))"
  using fuzz_calls_le [of t q] fuzz_terminates_within [of t q] fuzz_ok_result [of q t]
  by (simp add: fuzzGrader_def Let_def fuzz_ok_def)

text \<open>C15 The search misses nothing near its seeds: if the grader answers the same every time and the
  budget was not used up, the best point is at least as good as every seed and as every
  submission one mutation away from a seed.\<close>

theorem fuzz_covers_neighbours:
  assumes "stable q" "\<not> fr_budgetExhausted (fuzzGrader t q)" "0 < max_steps q" "sd \<in> set (fo_seeds q)"
    "s = fs_submission sd \<or> (\<exists>m \<in> set (fo_mutators q). mu_mutate m (fs_submission sd) = Some s)"
  shows "\<exists>b. fr_best (fuzzGrader t q) = Some b \<and> gap_of q t s \<le> fp_gap b"
proof -
  have "seed_covered q t (from_seeds q t (fo_seeds q) fuzz_start) sd"
    by (rule from_seeds_covers) (use assms in \<open>simp_all add: fuzzGrader_def Let_def\<close>)
  then show ?thesis using assms(5) by (auto simp: seed_covered_def covered_def fuzzGrader_def Let_def)
qed

text \<open>A grader that pays for a token, and a mutation that adds it.\<close>

definition token_grader :: "(unit, nat) grader" where
  "token_grader n t s = \<lparr>go_reward = DFin (if s = 1 then 1 else 0), go_passed = None, go_detail = None\<rparr>"

definition add_token :: "nat mutator" where
  "add_token = \<lparr>mu_name = ''token'', mu_mutate = (\<lambda>s. if s = 0 then Some 1 else None)\<rparr>"

definition demo_fuzz :: "(unit, nat) fuzz_options" where
  "demo_fuzz = \<lparr>fo_grader = token_grader, fo_seeds = [\<lparr>fs_origin = ''empty'', fs_submission = 0, fs_provablyUnsolving = True\<rparr>],
     fo_mutators = [add_token], fo_maxGraderCalls = 9, fo_maxStepsPerSeed = Some 2, fo_oracle = None, fo_rewardFloor = None\<rparr>"

lemma demo_fuzz_run: "fuzzGrader () demo_fuzz =
    (let p = \<lparr>fp_submission = 1, fp_reward = 1, fp_solve = None, fp_gap = 1, fp_gapIsAssumed = True, fp_lineage = [''empty'', ''token'']\<rparr>
     in \<lparr>fr_best = Some p, fr_points = [p], fr_graderCalls = 2, fr_budgetExhausted = False\<rparr>)"
  by (simp add: fuzzGrader_def demo_fuzz_def fuzz_start_def max_steps_def or_default_def score_def spent_def point_at_def
      Let_def token_grader_def clamp01_def beats_def reward_floor_def add_token_def numeral_eq_enat one_enat_def eval_nat_numeral)

theorem fuzz_reports_what_it_saw_witness:
  "fr_graderCalls (fuzzGrader () demo_fuzz) = 2
    \<and> (\<exists>p. fr_points (fuzzGrader () demo_fuzz) = [p] \<and> observed demo_fuzz () 2 p)"
  using fuzz_reports_what_it_saw [of "()" demo_fuzz] by (simp add: demo_fuzz_run Let_def)

theorem fuzz_covers_neighbours_witness: "\<exists>b. fr_best (fuzzGrader () demo_fuzz) = Some b \<and> gap_of demo_fuzz () 1 \<le> fp_gap b"
  by (rule fuzz_covers_neighbours [where sd = "\<lparr>fs_origin = ''empty'', fs_submission = 0, fs_provablyUnsolving = True\<rparr>"])
    (simp_all add: demo_fuzz_run Let_def, simp_all add: demo_fuzz_def stable_def token_grader_def max_steps_def or_default_def add_token_def)

section \<open>The assessment\<close>


text \<open>C14 The exploitable gap is a bound: no canary and no fuzzed submission of any task was paid more
  above its worth, one of them reaches it unless it is zero, it lies in the unit interval,
  and so does the confidence derived from it.\<close>

theorem exploitable_gap_bounds:
  assumes "repeats_ok q" "assessVerifier rf now q = Inr a"
  shows "(\<forall>t \<in> set (rp_perTask (va_report a)). \<forall>f \<in> set (gap_findings t). \<forall>g. fi_gap f = Some g \<longrightarrow> g \<le> va_exploitableGap a)
    \<and> (va_exploitableGap a = 0
      \<or> (\<exists>t \<in> set (rp_perTask (va_report a)). \<exists>f \<in> set (gap_findings t). fi_gap f = Some (va_exploitableGap a)))
    \<and> 0 \<le> va_exploitableGap a \<and> va_exploitableGap a \<le> 1
    \<and> va_verifierConfidence a = fsub 1 (va_exploitableGap a) \<and> 0 \<le> va_verifierConfidence a"
proof -
  obtain nd st0 ts st a' where p': "assessVerifier rf now q = Inr a'" "va_report a' = report_of rf now q nd ts st"
    "\<forall>a \<in> set ts. task_ok q a" "va_exploitableGap a' = or_default (gd_max (rp_gapDistribution (va_report a'))) 0"
    "va_verifierConfidence a' = clamp01 (DFin (fsub 1 (va_exploitableGap a')))"
    by (rule assessVerifier_parts [of rf q]) blast
  have "a' = a" using p'(1) assms(2) by simp
  note p = p'(2-5) [unfolded this]
  have r: "rp_perTask (va_report a) = ts" by (simp add: p(1) report_of_def Let_def)
  have g: "0 \<le> va_exploitableGap a
    \<and> (\<forall>t \<in> set ts. \<forall>f \<in> set (gap_findings t). \<forall>g. fi_gap f = Some g \<longrightarrow> g \<le> va_exploitableGap a)
    \<and> (va_exploitableGap a = 0 \<or> (\<exists>t \<in> set ts. \<exists>f \<in> set (gap_findings t). fi_gap f = Some (va_exploitableGap a)))"
    by (rule report_gap [OF p(2)]) (simp add: p(1,3))
  have "set (gap_findings t) \<subseteq> set (all_findings t)" for t by (auto simp: gap_findings_def all_findings_def)
  then have "va_exploitableGap a \<le> 1" using g p(2) assms(1) by (fastforce simp: task_ok_def)
  moreover have "0 \<le> fsub 1 (va_exploitableGap a)" "fsub 1 (va_exploitableGap a) \<le> 1"
    using g \<open>va_exploitableGap a \<le> 1\<close> by (auto simp: fsub_def intro!: fl_nonneg fl_le_one)
  ultimately show ?thesis using g p(4) r by (simp add: clamp01_def)
qed

section \<open>A gap that is not accounted for\<close>

definition null_canary :: "(unit, nat) canary" where
  "null_canary = \<lparr>ca_id = ''empty'', ca_rationale = ''nothing'', ca_build = (\<lambda>t. Some 0)\<rparr>"

definition demo_assess :: "(unit, nat) assess_options" where
  "demo_assess = \<lparr>ao_suiteId = ''s'', ao_tasks = [()], ao_taskId = (\<lambda>t. ''t''), ao_grader = token_grader,
     ao_canaries = [null_canary], ao_perturbations = [], ao_referenceSubmission = None, ao_oracle = None,
     ao_repeats = None, ao_determinismSamples = Some 1, ao_rewardThreshold = None, ao_maxGraderCalls = None,
     ao_fuzz = Some \<lparr>fu_mutators = [add_token], fu_maxGraderCallsPerTask = Some 9, fu_maxStepsPerSeed = Some 2\<rparr>\<rparr>"

lemma demo_assess_fuzz:
  "fuzzGrader () (fuzz_options_at demo_assess \<lparr>fu_mutators = [add_token], fu_maxGraderCallsPerTask = Some 9, fu_maxStepsPerSeed = Some 2\<rparr> () 1)
    = fuzzGrader () demo_fuzz"
proof -
  have "fuzz_options_at demo_assess \<lparr>fu_mutators = [add_token], fu_maxGraderCallsPerTask = Some 9, fu_maxStepsPerSeed = Some 2\<rparr> () 1
      = demo_fuzz"
    by (simp add: fuzz_options_at_def demo_assess_def demo_fuzz_def canary_seeds_def null_canary_def token_grader_def
        or_default_def call_limit_def numeral_eq_enat fun_eq_iff)
  then show ?thesis by simp
qed

lemma demo_assess_canary:
  "fst (canary_finding rf demo_assess () null_canary assess_start)
      = \<lparr>fi_channel = ''empty'', fi_status = Closed, fi_reward = 0, fi_solve = Some 0, fi_gap = Some 0, fi_rewardStdDev = 0,
         fi_repeats = 1, fi_caveat = None, fi_detail = None\<rparr>"
  "snd (canary_finding rf demo_assess () null_canary assess_start) = assess_start\<lparr>as_graderCalls := 1\<rparr>"
  by (simp_all add: canary_finding_def null_canary_def demo_assess_def gradeRepeated_def or_default_def gradeOnce_def
      call_limit_def assess_start_def token_grader_def clamp01_def mean_def stdDev_def threshold_def Let_def fadd_def fdiv_def)

lemma demo_assess_run:
  "\<exists>f. assess_tasks rf demo_assess [()] assess_start = ([task_assessment_of ''t''
      [\<lparr>fi_channel = ''empty'', fi_status = Closed, fi_reward = 0, fi_solve = Some 0, fi_gap = Some 0, fi_rewardStdDev = 0,
         fi_repeats = 1, fi_caveat = None, fi_detail = None\<rparr>] [] (Some f)], assess_start\<lparr>as_graderCalls := 3\<rparr>)
    \<and> fi_gap f = Some 1 \<and> fi_status f = Suspected"
proof -
  let ?z = "\<lparr>fu_mutators = [add_token], fu_maxGraderCallsPerTask = Some 9, fu_maxStepsPerSeed = Some 2\<rparr>"
  have o: "ao_canaries demo_assess = [null_canary]" "ao_perturbations demo_assess = []" "ao_fuzz demo_assess = Some ?z"
    "ao_taskId demo_assess = (\<lambda>t. ''t'')" "reference_for demo_assess () = None" "call_limit demo_assess = \<infinity>"
    "threshold demo_assess = DFin 0" "canary_seeds demo_assess () \<noteq> []"
    by (simp_all add: demo_assess_def reference_for_def call_limit_def threshold_def or_default_def canary_seeds_def null_canary_def)
  show ?thesis
    using demo_assess_canary [of rf] demo_assess_fuzz
    by (auto simp: assess_task_def o perturbation_findings_def fuzz_finding_def Let_def split_def demo_fuzz_run
        fuzz_finding_of_def assess_start_def)
qed

text \<open>A fuzzed submission was paid in full, the exploitable gap says so, and the basis says that no
  gap was established and no such submission was paid.\<close>

lemma suspected_gap_has_no_basis:
  "\<exists>a. assessVerifier rf now demo_assess = Inr a \<and> va_exploitableGap a = 1 \<and> va_exploitableGapBasis a = NotEstablished"
proof -
  have nd: "nondeterminism rf demo_assess assess_start = (False, assess_start)"
    by (simp add: nondeterminism_def demo_assess_def or_default_def Let_def)
  obtain f where f: "assess_tasks rf demo_assess [()] assess_start = ([task_assessment_of ''t''
      [\<lparr>fi_channel = ''empty'', fi_status = Closed, fi_reward = 0, fi_solve = Some 0, fi_gap = Some 0, fi_rewardStdDev = 0,
         fi_repeats = 1, fi_caveat = None, fi_detail = None\<rparr>] [] (Some f)], assess_start\<lparr>as_graderCalls := 3\<rparr>)"
    "fi_gap f = Some 1" using demo_assess_run by blast
  have t: "ao_tasks demo_assess = [()]" by (simp add: demo_assess_def)
  obtain ts st a where p: "assess_tasks rf demo_assess [()] assess_start = (ts, st)" "assessVerifier rf now demo_assess = Inr a"
    "va_exploitableGap a = or_default (gd_max (rp_gapDistribution (report_of rf now demo_assess False ts st))) 0"
    "va_exploitableGapBasis a = (if as_oracleGap st then MeasuredWithOracle
       else if as_canaryGap st then CanaryConstruction else NotEstablished)"
    by (rule assessVerifier_parts [of rf demo_assess]) (use nd t in fastforce)
  then show ?thesis using f
    by (auto simp: report_of_def Let_def positive_gaps_def max_of_def or_default_def assess_start_def)
qed

definition demo_real :: real_functions where
  "demo_real = \<lparr>rf_sqrt = (\<lambda>x. x), rf_square = (\<lambda>x. x * x)\<rparr>"


theorem exploitable_gap_bounds_witness:
  "\<exists>a. assessVerifier demo_real 0 demo_assess = Inr a \<and> va_exploitableGap a = 1 \<and> va_verifierConfidence a = fsub 1 1"
proof -
  obtain a where a: "assessVerifier demo_real 0 demo_assess = Inr a" "va_exploitableGap a = 1"
    using suspected_gap_has_no_basis by blast
  have "repeats_ok demo_assess" by (simp add: repeats_ok_def demo_assess_def or_default_def)
  from exploitable_gap_bounds [OF this a(1)] a show ?thesis by auto
qed

end
