(* ===== verification/Spec2Isabelle.thy ===== *)
theory Spec2Isabelle
  imports Evidence_Properties Service_Properties System_Capabilities Model_Properties Api_Properties
    Api_Audited Provenance_Properties Robustness_Properties
begin

text \<open>
  A verification development for the control plane of agent-eval (\<open>src/packages/server/src\<close>): the
  service that runs agent evaluations, keeps the evidence of what happened in a hash-chained and
  Merkle-sealed audit log, signs bundles of it, and lets anyone check them without trusting the
  service.

  \<^bold>\<open>How the program fits together.\<close> \<open>main.ts\<close> builds one server (\<open>api/app.ts\<close>) and one worker
  (\<open>worker/worker.ts\<close>) over shared in-memory stores (\<open>store/index.ts\<close>). A request passes the
  authentication hook, its body a schema (\<open>schemas/index.ts\<close>), and its handler reads and writes the
  stores and appends to the audit log (\<open>evidence/audit-log.ts\<close>, over \<open>evidence/merkle-tree.ts\<close> and
  \<open>evidence/canonical.ts\<close>). The worker polls the run store, executes a queued run
  (\<open>worker/executor.ts\<close>) and writes what happened to the same log. An auditor asks for a bundle
  (\<open>evidence/evidence-bundle.ts\<close>, signed by \<open>evidence/signer.ts\<close>, kept for as long as
  \<open>evidence/retention.ts\<close> says) and checks it with \<open>evidence/proof-verifier.ts\<close>.

  \<^bold>\<open>Shared theories.\<close> \<open>Prelude\<close> has the insertion-ordered maps of JavaScript (\<open>jsmap\<close>), results as
  sums with \<open>bindE\<close>, bytes, UTF-8 and the text helpers. \<open>Js\<close> has the string methods and number
  printing the sources use. \<open>Effects\<close> has computations over a state that may throw, and
  \<open>keeps\<close>: the relations between the state before and after that every such computation respects.
  \<open>Hashing\<close> has hex, base64 and SHA-256 as an executable function (with the locale \<open>digest32\<close> of what
  the evidence relies on of a digest). \<open>IsoDate\<close> has instants and their ISO text. \<open>Float64\<close> and
  \<open>Doubles\<close> have binary64 as exact rationals with rounding, with infinities and NaN.

  \<^bold>\<open>Evidence.\<close> \<open>Canonical\<close> and \<open>Canonical_Injective\<close>: \<open>evidence/canonical.ts\<close>, and that the text
  determines the value. \<open>Merkle_Tree\<close>, \<open>Merkle_Proofs\<close>, \<open>Merkle_Consistency\<close>, \<open>Proof_Verifier\<close>: the
  tree, its proofs against RFC 6962, and the two verifiers with their 32-bit shifts, sound and
  complete. \<open>Audit_Log\<close>: the chain, its verifiers, appending. \<open>Reproducibility\<close>: manifests.
  \<open>Signer\<close>, \<open>Evidence_Bundle\<close>: envelopes and bundles. \<open>Retention\<close>: rules, anchors, expiry.
  \<open>Evidence_Properties\<close> states the properties.

  \<^bold>\<open>Stores and services.\<close> \<open>Stores\<close> and \<open>Store_Laws\<close>: the tenant stores, with a locale for the record
  stores and its interpretations for runs, approvals and bundles. \<open>Task_Registry\<close> (splits and
  their access), \<open>Policy_Engine\<close> and \<open>Policy_Gate\<close> (the Rego bundle and the gate before a tool
  call), \<open>Blob_Store\<close>, \<open>Atif\<close>, \<open>Trial_Store\<close> (screenshots and trajectories), \<open>Api_Keys\<close>,
  \<open>Credentials\<close>, \<open>Executor\<close>, \<open>Worker\<close>, \<open>Run_Lifecycle\<close> (runs under any interleaving of store
  operations, as a step relation). \<open>Service_Properties\<close> states the properties.
  \<open>Model_Registry\<close>, \<open>Model_Capabilities\<close>, \<open>Model_Cost\<close>, \<open>Model_Properties\<close>: \<open>models/\<close>.
  \<open>System_Capabilities\<close>, \<open>System_Memory\<close>: \<open>system/\<close> and the runtime table of
  \<open>providers/local-runtimes.ts\<close>.

  \<^bold>\<open>The server.\<close> \<open>Schemas\<close> has every schema of \<open>schemas/index.ts\<close>. \<open>Api_State\<close> has the state the
  server holds (\<open>api_state\<close>), what it is built with (\<open>service\<close>) and what one request reads from
  outside (\<open>moment\<close>: clock, random bytes, provider adapters, host probes). \<open>Api_Core\<close> has the replies,
  the error handler, the scope check and the hook; \<open>Api_Runs\<close>, \<open>Api_Evidence\<close>, \<open>Api_Access\<close>,
  \<open>Api_System\<close> the handlers, one definition per route; \<open>Api_Server\<close> the routes, \<open>serve\<close> and the
  relation \<open>reaches\<close>: the states that requests and polls of the worker lead to, in any order.
  \<open>Api_Laws\<close> states as locales (\<open>route_effects\<close>, \<open>worker_effects\<close>, \<open>system_effects\<close>) the effects
  a handler or a poll may have on the state, each with what the code has checked before it, and
  proves once, over all routes, that a relation which holds of each effect holds of whatever is
  reached. \<open>Api_Invariants\<close> and \<open>Api_Isolation\<close> interpret them: for the log, decisions, records,
  well-formed stores and the view of one tenant. \<open>Api_Audited\<close> says of every handler that what it
  changes it also logs. \<open>Api_Properties\<close> states the properties.

  \<^bold>\<open>Provenance.\<close> \<open>Provenance\<close> has \<open>provenance/identity.ts\<close> (models, deployments, their digests and
  differences), \<open>Passport\<close> has \<open>provenance/passport.ts\<close> (issuing and verifying), with the classes of
  provenance ordered weakest to strongest; \<open>Provenance_Properties\<close> states the properties.

  \<^bold>\<open>Robustness.\<close> \<open>Fuzzer\<close> has \<open>robustness/fuzzer.ts\<close>, with a locale (\<open>search\<close>) for what every scoring of
  a candidate respects, interpreted for the budget, for what is reported and for the best point.
  \<open>Robust_Statistics\<close>, \<open>Assess\<close>, \<open>Canaries\<close>, \<open>Perturbations\<close>: the other files of \<open>robustness/\<close>, with the
  assessment of a grader, its findings and its limitations. \<open>Robustness_Properties\<close> states the
  properties, and the lemmas where the code does not do what its comments say.

  \<^bold>\<open>Conventions.\<close> A function that throws returns a sum, its message on the left; an optional
  property is an \<open>option\<close>; a string is its UTF-8 bytes as characters; an integer is an \<open>int\<close>, except
  the 32-bit shifts of the verifiers and the doubles of costs, durations and memory, which round as
  the code does. Every property about a state is about the states the operations themselves reach.
  What is not under \<open>src/\<close> is an argument: the signature scheme (\<open>verifier_api\<close>, with the law
  \<open>key_pair\<close>), AES-GCM (\<open>aead\<close>, with \<open>aead_laws\<close>), the WebAssembly runtime of the policy bundle,
  child processes and model providers (\<open>xworld\<close>, \<open>adapter\<close>), URL and date parsing (\<open>edge\<close>).

  \<^bold>\<open>Bounds.\<close> The verifiers shift on 32 bits: properties of proofs assume at most 2^31 leaves.
  Identifiers are unique while the clock has eight digits in base 36 (1972 to 2059). A crawl of pages
  and the poll loop are given as many steps as there are items, which the termination
  properties show to be enough.

  \<^bold>\<open>Not modelled.\<close> The web application, the command line client and the SDK (user interface and
  HTTP glue over this API); \<open>api/docs.ts\<close>, \<open>main.ts\<close>, \<open>scripts/\<close> (wiring and text); the HTTP adapters
  of single providers and \<open>providers/http.ts\<close> (network protocols of services whose behaviour the
  sources do not fix); key generation and other calls of \<open>node:crypto\<close>; \<open>redactSecrets\<close>; logging.
\<close>

end
